(* ===== verification/Prelude.thy ===== *)
theory Prelude
  imports Main "HOL-Library.Word" "HOL-Library.Sublist"
begin

text \<open>
  The shared vocabulary of the development: the machine types of the Go source
  (\<open>uint8\<close>, \<open>uint16\<close>, \<open>uint32\<close>, \<open>uint64\<close> as words, \<open>[]byte\<close> as a list of
  8-bit words, Go strings as byte strings, that is lists of \<^typ>\<open>char\<close>), the conversions
  between the two, the little-endian codec of \<open>encoding/binary\<close>, and the generic
  list, option and word lemmas the component theories share.
\<close>

unbundle bit_operations_syntax

section \<open>Types\<close>

type_synonym byte = "8 word"
type_synonym bytes = "8 word list"
type_synonym u16 = "16 word"
type_synonym u32 = "32 word"
type_synonym u64 = "64 word"

named_theorems codec \<open>round trips and lengths of the byte codecs\<close>
named_theorems op_defs \<open>definitions of the operations of a component\<close>
named_theorems inv_intro \<open>an operation keeps its component's invariant\<close>

section \<open>Bytes and strings\<close>

text \<open>A Go string is a byte string; \<open>[]byte(s)\<close> and \<open>string(b)\<close> copy the bytes.\<close>

definition byte_of_char :: "char \<Rightarrow> byte" where
  "byte_of_char c = word_of_nat (of_char c)"

definition char_of_byte :: "byte \<Rightarrow> char" where
  "char_of_byte b = char_of (unat b)"

definition bytes_of_string :: "string \<Rightarrow> bytes" where
  "bytes_of_string s = map byte_of_char s"

definition string_of_bytes :: "bytes \<Rightarrow> string" where
  "string_of_bytes b = map char_of_byte b"

section \<open>Little-endian integers (encoding/binary)\<close>

definition PutUint32 :: "u32 \<Rightarrow> bytes" where
  "PutUint32 w = [ucast w, ucast (drop_bit 8 w), ucast (drop_bit 16 w), ucast (drop_bit 24 w)]"

text \<open>\<open>binary.LittleEndian.Uint32\<close>; the source only calls it on slices of exactly four bytes.\<close>

fun Uint32 :: "bytes \<Rightarrow> u32" where
  "Uint32 (a # b # c # d # _) =
     ucast a OR push_bit 8 (ucast b) OR push_bit 16 (ucast c) OR push_bit 24 (ucast d)"
| "Uint32 _ = 0"

fun Uint16 :: "bytes \<Rightarrow> u16" where
  "Uint16 (a # b # _) = ucast a OR push_bit 8 (ucast b)"
| "Uint16 _ = 0"

text \<open>\<open>slice xs i j\<close> is the Go slice expression \<open>xs[i:j]\<close> for \<open>i \<le> j \<le> len(xs)\<close>.\<close>

definition slice :: "'a list \<Rightarrow> nat \<Rightarrow> nat \<Rightarrow> 'a list" where
  "slice xs i j = take (j - i) (drop i xs)"

section \<open>Shared lemmas\<close>

lemma char_of_byte_of_char [simp]: "char_of_byte (byte_of_char c) = c"
  by (simp add: char_of_byte_def byte_of_char_def unat_of_nat)

lemma byte_of_char_of_byte [simp]: "byte_of_char (char_of_byte b) = b"
proof -
  have "unat b < 256" using unsigned_less [where w = b and ?'a = nat] by simp
  then show ?thesis by (simp add: char_of_byte_def byte_of_char_def)
qed

lemma byte_of_char_inject [simp]: "byte_of_char c = byte_of_char d \<longleftrightarrow> c = d"
  by (metis char_of_byte_of_char)

lemma string_of_bytes_of_string [codec, simp]: "string_of_bytes (bytes_of_string s) = s"
  by (simp add: string_of_bytes_def bytes_of_string_def map_idI)

lemma bytes_of_string_of_bytes [codec, simp]: "bytes_of_string (string_of_bytes b) = b"
  by (simp add: string_of_bytes_def bytes_of_string_def map_idI)

lemma bytes_of_string_append [simp]:
  "bytes_of_string (s @ t) = bytes_of_string s @ bytes_of_string t"
  by (simp add: bytes_of_string_def)

lemma string_of_bytes_append [simp]:
  "string_of_bytes (s @ t) = string_of_bytes s @ string_of_bytes t"
  by (simp add: string_of_bytes_def)

lemma length_bytes_of_string [simp]: "length (bytes_of_string s) = length s"
  by (simp add: bytes_of_string_def)

lemma length_string_of_bytes [simp]: "length (string_of_bytes b) = length b"
  by (simp add: string_of_bytes_def)

lemma bytes_of_string_inject [simp]: "bytes_of_string s = bytes_of_string t \<longleftrightarrow> s = t"
  by (metis string_of_bytes_of_string)

lemma bytes_of_string_eq_Nil [simp]: "bytes_of_string s = [] \<longleftrightarrow> s = []"
  by (simp add: bytes_of_string_def)

lemma length_PutUint32 [codec, simp]: "length (PutUint32 w) = 4"
  by (simp add: PutUint32_def)

lemma Uint32_PutUint32 [codec, simp]: "Uint32 (PutUint32 w @ r) = w"
proof -
  have "ucast (ucast w :: byte) OR push_bit 8 (ucast (ucast (drop_bit 8 w) :: byte))
      OR push_bit 16 (ucast (ucast (drop_bit 16 w) :: byte))
      OR push_bit 24 (ucast (ucast (drop_bit 24 w) :: byte)) = w"
  proof (rule bit_word_eqI)
    fix n assume "n < LENGTH(32)"
    then consider "n < 8" | "8 \<le> n" "n < 16" | "16 \<le> n" "n < 24" | "24 \<le> n" "n < 32"
      by fastforce
    then show "bit (ucast (ucast w :: byte) OR push_bit 8 (ucast (ucast (drop_bit 8 w) :: byte))
      OR push_bit 16 (ucast (ucast (drop_bit 16 w) :: byte))
      OR push_bit 24 (ucast (ucast (drop_bit 24 w) :: byte)) :: u32) n = bit w n"
      by cases (auto simp: bit_simps)
  qed
  then show ?thesis by (simp add: PutUint32_def)
qed

lemma Uint32_PutUint32_Nil [codec, simp]: "Uint32 (PutUint32 w) = w"
  using Uint32_PutUint32 [of w "[]"] by simp

lemma PutUint32_Uint32 [codec]:
  assumes "length b = 4" shows "PutUint32 (Uint32 b) = b"
proof -
  from assms obtain p q r s where b: "b = [p, q, r, s]"
    by (auto simp: length_Suc_conv numeral_eq_Suc)
  let ?w = "ucast p OR push_bit 8 (ucast q) OR push_bit 16 (ucast r) OR push_bit 24 (ucast s) :: u32"
  have "ucast ?w = p" "ucast (drop_bit 8 ?w) = q" "ucast (drop_bit 16 ?w) = r"
    "ucast (drop_bit 24 ?w) = s"
    by (rule bit_word_eqI, auto simp: bit_simps dest: bit_imp_le_length)+
  with b show ?thesis by (simp add: PutUint32_def)
qed

lemma slice_0 [simp]: "slice xs 0 j = take j xs"
  by (simp add: slice_def)

lemma slice_append_skip: "length a = i \<Longrightarrow> slice (a @ b) i j = take (j - i) b"
  by (simp add: slice_def)

lemma slice_join: "i \<le> j \<Longrightarrow> j \<le> k \<Longrightarrow> slice xs i j @ slice xs j k = slice xs i k"
  using take_add [of "j - i" "k - j" "drop i xs"] by (simp add: slice_def)

lemma length_slice [simp]: "length (slice xs i j) = min (j - i) (length xs - i)"
  by (simp add: slice_def)

lemma append_eq_Some_split: "(case x of None \<Rightarrow> None | Some y \<Rightarrow> f y) = Some z \<longleftrightarrow>
    (\<exists>y. x = Some y \<and> f y = Some z)"
  by (cases x) auto

lemma map_upt_nth [simp]: "map (\<lambda>i. f (xs ! i)) [0..<length xs] = map f xs"
  by (rule nth_equalityI) auto

section \<open>Machines\<close>

text \<open>
  A component driven by events: \<open>step e s\<close> is what event \<open>e\<close> shows and the state it leads to, or
  \<open>None\<close> when \<open>e\<close> is not possible in \<open>s\<close>. A schedule is a list of events, so every
  interleaving of the goroutines of a component is a run.
\<close>

fun run :: "('e \<Rightarrow> 's \<Rightarrow> ('o \<times> 's) option) \<Rightarrow> 'e list \<Rightarrow> 's \<Rightarrow> ('o list \<times> 's) option" where
  "run step [] s = Some ([], s)"
| "run step (e # es) s =
     (case step e s of
        None \<Rightarrow> None
      | Some (x, s') \<Rightarrow> (case run step es s' of None \<Rightarrow> None | Some (xs, s'') \<Rightarrow> Some (x # xs, s'')))"

lemma run_Cons_Some:
  "run step (e # es) s = Some (ys, s'') \<longleftrightarrow>
     (\<exists>x xs s'. step e s = Some (x, s') \<and> run step es s' = Some (xs, s'') \<and> ys = x # xs)"
  by (auto split: option.splits)

lemma run_append:
  "run step (es @ fs) s =
     (case run step es s of
        None \<Rightarrow> None
      | Some (xs, s') \<Rightarrow> (case run step fs s' of None \<Rightarrow> None | Some (ys, s'') \<Rightarrow> Some (xs @ ys, s'')))"
  by (induction es arbitrary: s) (auto split: option.splits)

locale machine =
  fixes step :: "'e \<Rightarrow> 's \<Rightarrow> ('o \<times> 's) option"
    and invar :: "'s \<Rightarrow> bool"
  assumes step_invar: "invar s \<Longrightarrow> step e s = Some (x, s') \<Longrightarrow> invar s'"
begin

lemma run_invar: "invar s \<Longrightarrow> run step es s = Some (xs, s') \<Longrightarrow> invar s'"
  by (induction es arbitrary: s xs) (auto simp: run_Cons_Some simp del: run.simps(2) intro: step_invar)

text \<open>A property of pairs of states that composes holds of every run when it holds of every step.\<close>

lemma run_rel:
  assumes "run step es s = Some (xs, s')" "invar s"
    and refl: "\<And>s. R s [] s"
    and trans: "\<And>s e x s' xs s''. invar s \<Longrightarrow> step e s = Some (x, s') \<Longrightarrow> R s' xs s'' \<Longrightarrow> R s (x # xs) s''"
  shows "R s xs s'"
  using assms(1,2)
proof (induction es arbitrary: s xs)
  case Nil
  with refl show ?case by simp
next
  case (Cons e es)
  then obtain x ys t where "step e s = Some (x, t)" "run step es t = Some (ys, s')" "xs = x # ys"
    by (auto simp: run_Cons_Some simp del: run.simps)
  with Cons step_invar trans show ?case by blast
qed

end

end
