(* ===== verification/GoIO.thy ===== *)
theory GoIO
  imports Prelude
begin

text \<open>
  The part of Go's \<open>io\<close> package the program uses, as explicit state passing.

  A transport is read through \<open>io.Reader\<close>: a source holds the bytes that will arrive and
  the error it reports when they run out. \<open>read_full\<close>, \<open>read_all\<close> and \<open>copy_n\<close>
  are the results of \<open>io.ReadFull\<close>, \<open>io.ReadAll\<close> and \<open>io.CopyN\<close> on such a
  source. That these results do not depend on how the transport cuts the bytes into
  \<open>Read\<close> calls is proved, not assumed: \<open>read_full_loop\<close> and \<open>read_all_loop\<close> are the loops of
  the library over any \<open>Read\<close> operation, and the locale \<open>byte_source\<close> states
  the contract of \<open>io.Reader\<close> under which they compute the same results.

  A transport is written through \<open>io.Writer\<close>: a sink that may accept fewer bytes than
  offered, or fail, as its script says.
\<close>

section \<open>Errors\<close>

datatype io_error =
    EOF
  | ErrUnexpectedEOF
  | ErrShortWrite
  | ErrClosedPipe
  | ErrDeviceClosed \<comment> \<open>\<open>protocol.ErrDeviceClosed\<close>\<close>
  | OsError nat \<comment> \<open>any other error of the operating system\<close>

text \<open>What \<open>ctx.Err()\<close> returns when a context is done.\<close>

datatype ctx_err = Canceled | DeadlineExceeded

section \<open>Readers\<close>

record reader =
  rd_data :: bytes
  rd_end :: io_error

definition short_read_error :: "bytes \<Rightarrow> io_error \<Rightarrow> io_error" where
  "short_read_error got e = (if got \<noteq> [] \<and> e = EOF then ErrUnexpectedEOF else e)"

definition read_full :: "nat \<Rightarrow> reader \<Rightarrow> (io_error + bytes) \<times> reader" where
  "read_full n r =
     (if n \<le> length (rd_data r)
      then (Inr (take n (rd_data r)), r\<lparr>rd_data := drop n (rd_data r)\<rparr>)
      else (Inl (short_read_error (rd_data r) (rd_end r)), r\<lparr>rd_data := []\<rparr>))"

definition read_all :: "reader \<Rightarrow> (io_error option \<times> bytes) \<times> reader" where
  "read_all r =
     ((if rd_end r = EOF then None else Some (rd_end r), rd_data r), r\<lparr>rd_data := []\<rparr>)"

text \<open>\<open>io.CopyN\<close> hands over what it read even when it fails, and reports \<open>io.EOF\<close> when
  the source ended early.\<close>

definition copy_n :: "nat \<Rightarrow> reader \<Rightarrow> (io_error option \<times> bytes) \<times> reader" where
  "copy_n n r =
     (if n \<le> length (rd_data r)
      then ((None, take n (rd_data r)), r\<lparr>rd_data := drop n (rd_data r)\<rparr>)
      else ((Some (rd_end r), rd_data r), r\<lparr>rd_data := []\<rparr>))"

text \<open>The loops of the library over a \<open>Read\<close> operation: \<open>rd n s\<close> is \<open>Read(p)\<close> with
  \<open>len(p) = n\<close> in state \<open>s\<close>, and returns the bytes stored in \<open>p\<close>, the error and the new state.
  One unit of fuel is one call of \<open>Read\<close>.\<close>

type_synonym 's read_op = "nat \<Rightarrow> 's \<Rightarrow> (bytes \<times> io_error option) \<times> 's"

fun read_full_loop :: "'s read_op \<Rightarrow> nat \<Rightarrow> nat \<Rightarrow> bytes \<Rightarrow> 's \<Rightarrow> ((io_error + bytes) \<times> 's) option" where
  "read_full_loop rd 0 n acc s = None"
| "read_full_loop rd (Suc fuel) n acc s =
     (if n = 0 then Some (Inr acc, s)
      else case rd n s of
        ((b, None), s') \<Rightarrow> read_full_loop rd fuel (n - length b) (acc @ b) s'
      | ((b, Some e), s') \<Rightarrow>
          if n \<le> length b then Some (Inr (acc @ b), s')
          else Some (Inl (short_read_error (acc @ b) e), s'))"

fun read_all_loop :: "'s read_op \<Rightarrow> nat \<Rightarrow> nat \<Rightarrow> bytes \<Rightarrow> 's \<Rightarrow> ((io_error option \<times> bytes) \<times> 's) option" where
  "read_all_loop rd 0 n acc s = None"
| "read_all_loop rd (Suc fuel) n acc s =
     (case rd n s of
        ((b, None), s') \<Rightarrow> read_all_loop rd fuel n (acc @ b) s'
      | ((b, Some e), s') \<Rightarrow> Some ((if e = EOF then None else Some e, acc @ b), s'))"

section \<open>Writers\<close>

text \<open>One entry of the script answers one \<open>Write\<close>: \<open>WAccept k\<close> takes up to \<open>k\<close> bytes,
  \<open>WFail k e\<close> takes up to \<open>k\<close> bytes and reports \<open>e\<close>. Past the script the sink takes everything.\<close>

datatype wstep = WAccept nat | WFail nat io_error

record writer =
  wr_out :: bytes
  wr_script :: "wstep list"

definition write_op :: "bytes \<Rightarrow> writer \<Rightarrow> (nat \<times> io_error option) \<times> writer" where
  "write_op p w =
     (case wr_script w of
        [] \<Rightarrow> ((length p, None), w\<lparr>wr_out := wr_out w @ p\<rparr>)
      | WAccept k # sc \<Rightarrow>
          ((min k (length p), None), w\<lparr>wr_out := wr_out w @ take k p, wr_script := sc\<rparr>)
      | WFail k e # sc \<Rightarrow>
          ((min k (length p), Some e), w\<lparr>wr_out := wr_out w @ take k p, wr_script := sc\<rparr>))"

function writeFull :: "bytes \<Rightarrow> writer \<Rightarrow> io_error option \<times> writer" where
  "writeFull p w =
     (if p = [] then (None, w)
      else case write_op p w of
        ((n, Some e), w') \<Rightarrow> (Some e, w')
      | ((n, None), w') \<Rightarrow>
          if n = 0 then (Some ErrShortWrite, w') else writeFull (drop n p) w')"
  by pat_completeness auto
termination
  by (relation "measure (\<lambda>(p, w). length p)") auto

declare writeFull.simps [simp del]

section \<open>Results of the reader operations\<close>

lemma read_full_enough [simp]:
  "rd_data r = a @ b \<Longrightarrow> length a = n \<Longrightarrow> read_full n r = (Inr a, r\<lparr>rd_data := b\<rparr>)"
  by (auto simp: read_full_def)

lemma read_full_InrD:
  "read_full n r = (Inr b, r') \<Longrightarrow>
     rd_data r = b @ rd_data r' \<and> length b = n \<and> rd_end r' = rd_end r"
  by (auto simp: read_full_def split: if_splits)

lemma read_full_length:
  "read_full n r = (x, r') \<Longrightarrow> length (rd_data r') \<le> length (rd_data r)"
  by (auto simp: read_full_def split: if_splits)

lemma read_full_0 [simp]: "read_full 0 r = (Inr [], r)"
  by (simp add: read_full_def)

section \<open>The contract of io.Reader\<close>

text \<open>
  \<open>pending s\<close> is what is still to be read in state \<open>s\<close>, \<open>ending s\<close> the error reported after it.
  A \<open>Read\<close> with a non-empty buffer returns at least one byte and no error while bytes are
  pending, and the ending error after that.
\<close>

locale byte_source =
  fixes read :: "nat \<Rightarrow> 's \<Rightarrow> (bytes \<times> io_error option) \<times> 's"
    and pending :: "'s \<Rightarrow> bytes"
    and ending :: "'s \<Rightarrow> io_error"
    and invar :: "'s \<Rightarrow> bool"
  assumes read_some: "invar s \<Longrightarrow> 0 < n \<Longrightarrow> pending s \<noteq> [] \<Longrightarrow>
      \<exists>b s'. read n s = ((b, None), s') \<and> b \<noteq> [] \<and> length b \<le> n \<and>
        pending s = b @ pending s' \<and> ending s' = ending s \<and> invar s'"
    and read_none: "invar s \<Longrightarrow> 0 < n \<Longrightarrow> pending s = [] \<Longrightarrow>
      \<exists>s'. read n s = (([], Some (ending s)), s') \<and>
        pending s' = [] \<and> ending s' = ending s \<and> invar s'"
begin

lemma read_full_loop_ok:
  assumes "invar s" "n \<le> length (pending s)" "n < fuel"
  shows "\<exists>s'. read_full_loop read fuel n acc s = Some (Inr (acc @ take n (pending s)), s') \<and>
    pending s' = drop n (pending s) \<and> ending s' = ending s \<and> invar s'"
  using assms
proof (induction fuel arbitrary: n acc s)
  case 0
  then show ?case by simp
next
  case (Suc fuel)
  show ?case
  proof (cases "n = 0")
    case True
    with Suc.prems show ?thesis by simp
  next
    case False
    with Suc.prems obtain b s' where s': "read n s = ((b, None), s')" "b \<noteq> []" "length b \<le> n"
      "pending s = b @ pending s'" "ending s' = ending s" "invar s'"
      using read_some [of s n] by fastforce
    moreover have "n - length b \<le> length (pending s')" "n - length b < fuel"
      using Suc.prems s' False by (auto simp: neq_Nil_conv)
    ultimately show ?thesis
      using Suc.IH [of s' "n - length b" "acc @ b"] False by auto
  qed
qed

lemma read_full_loop_short:
  assumes "invar s" "length (pending s) < n" "length (pending s) + 1 < fuel"
  shows "\<exists>s'. read_full_loop read fuel n acc s =
      Some (Inl (short_read_error (acc @ pending s) (ending s)), s') \<and>
    pending s' = [] \<and> ending s' = ending s \<and> invar s'"
  using assms
proof (induction fuel arbitrary: n acc s)
  case 0
  then show ?case by simp
next
  case (Suc fuel)
  then have n: "0 < n" by simp
  show ?case
  proof (cases "pending s = []")
    case True
    with read_none [of s n] Suc.prems n show ?thesis by auto
  next
    case False
    with Suc.prems n obtain b s' where s': "read n s = ((b, None), s')" "b \<noteq> []" "length b \<le> n"
      "pending s = b @ pending s'" "ending s' = ending s" "invar s'"
      using read_some [of s n] by fastforce
    moreover have "length (pending s') < n - length b" "length (pending s') + 1 < fuel"
      using Suc.prems s' by (auto simp: neq_Nil_conv)
    ultimately show ?thesis
      using Suc.IH [of s' "n - length b" "acc @ b"] n by auto
  qed
qed

text \<open>\<open>io.ReadFull\<close> over any source that keeps the contract is \<open>read_full\<close> on what is pending.\<close>

lemma read_full_loop_eq:
  assumes "invar s" "length (pending s) + n + 1 < fuel"
  shows "\<exists>s'. read_full_loop read fuel n [] s =
      Some (fst (read_full n \<lparr>rd_data = pending s, rd_end = ending s\<rparr>), s') \<and>
    \<lparr>rd_data = pending s', rd_end = ending s'\<rparr> =
      snd (read_full n \<lparr>rd_data = pending s, rd_end = ending s\<rparr>) \<and> invar s'"
proof (cases "n \<le> length (pending s)")
  case True
  with assms show ?thesis
    using read_full_loop_ok [of s n fuel "[]"] by (auto simp: read_full_def)
next
  case False
  with assms show ?thesis
    using read_full_loop_short [of s n fuel "[]"] by (auto simp: read_full_def)
qed

lemma read_all_loop_eq:
  assumes "invar s" "0 < n" "length (pending s) + 1 < fuel"
  shows "\<exists>s'. read_all_loop read fuel n acc s =
      Some ((if ending s = EOF then None else Some (ending s), acc @ pending s), s') \<and>
    pending s' = [] \<and> ending s' = ending s \<and> invar s'"
  using assms
proof (induction fuel arbitrary: acc s)
  case 0
  then show ?case by simp
next
  case (Suc fuel)
  show ?case
  proof (cases "pending s = []")
    case True
    with read_none [of s n] Suc.prems show ?thesis by auto
  next
    case False
    with Suc.prems obtain b s' where s': "read n s = ((b, None), s')" "b \<noteq> []"
      "pending s = b @ pending s'" "ending s' = ending s" "invar s'"
      using read_some [of s n] by fastforce
    moreover have "length (pending s') + 1 < fuel"
      using Suc.prems s' by (auto simp: neq_Nil_conv)
    ultimately show ?thesis
      using Suc.IH [of s' "acc @ b"] Suc.prems by auto
  qed
qed

end

section \<open>A transport that delivers in chunks\<close>

text \<open>A network connection hands over at most what the next segment holds: the list of
  segment sizes is arbitrary.\<close>

definition chunked_read :: "(nat list \<times> reader) read_op" where
  "chunked_read n s =
     (case s of (sizes, r) \<Rightarrow>
        if rd_data r = [] then (([], Some (rd_end r)), (sizes, r))
        else let k = (case sizes of [] \<Rightarrow> n | c # _ \<Rightarrow> min n (Suc c)) in
          ((take k (rd_data r), None), (drop 1 sizes, r\<lparr>rd_data := drop k (rd_data r)\<rparr>)))"

interpretation net_source: byte_source chunked_read "\<lambda>s. rd_data (snd s)" "\<lambda>s. rd_end (snd s)" "\<lambda>_. True"
proof
  fix s :: "nat list \<times> reader" and n :: nat
  assume n: "0 < n" and p: "rd_data (snd s) \<noteq> []"
  obtain sizes r where s: "s = (sizes, r)" by (cases s)
  define k where "k = (case sizes of [] \<Rightarrow> n | c # _ \<Rightarrow> min n (Suc c))"
  have "0 < k" "k \<le> n" using n by (auto simp: k_def split: list.splits)
  then show "\<exists>b s'. chunked_read n s = ((b, None), s') \<and> b \<noteq> [] \<and> length b \<le> n \<and>
        rd_data (snd s) = b @ rd_data (snd s') \<and> rd_end (snd s') = rd_end (snd s) \<and> True"
    using p by (simp add: chunked_read_def s k_def [symmetric])
next
  fix s :: "nat list \<times> reader" and n :: nat
  assume "rd_data (snd s) = []"
  then show "\<exists>s'. chunked_read n s = (([], Some (rd_end (snd s))), s') \<and>
        rd_data (snd s') = [] \<and> rd_end (snd s') = rd_end (snd s) \<and> True"
    by (cases s) (simp add: chunked_read_def)
qed

section \<open>What a writer has accepted\<close>

lemma append_prefix_take: "prefix q (drop n p) \<Longrightarrow> prefix (take n p @ q) p"
  by (metis append_take_drop_id same_prefix_prefix)

lemma write_op_out:
  "write_op p w = ((n, e), w') \<Longrightarrow> wr_out w' = wr_out w @ take n p \<and> n \<le> length p"
  by (auto simp: write_op_def min_def split: list.splits wstep.splits)

lemma write_op_healthy [simp]:
  "wr_script w = [] \<Longrightarrow> write_op p w = ((length p, None), w\<lparr>wr_out := wr_out w @ p\<rparr>)"
  by (simp add: write_op_def)

lemma writeFull_Nil [simp]: "writeFull [] w = (None, w)"
  by (simp add: writeFull.simps)

lemma writeFull_healthy [simp]:
  "wr_script w = [] \<Longrightarrow> writeFull p w = (None, w\<lparr>wr_out := wr_out w @ p\<rparr>)"
  by (cases "p = []") (simp_all add: writeFull.simps [of p])

lemma writeFull_prefix:
  "writeFull p w = (e, w') \<Longrightarrow> \<exists>q. prefix q p \<and> wr_out w' = wr_out w @ q \<and> (e = None \<longrightarrow> q = p)"
proof (induction p w rule: writeFull.induct)
  case (1 p w)
  show ?case
  proof (cases "p = []")
    case True
    with "1.prems" show ?thesis by auto
  next
    case False
    obtain n x w1 where op: "write_op p w = ((n, x), w1)" by (metis surj_pair)
    with write_op_out have out: "wr_out w1 = wr_out w @ take n p" by blast
    show ?thesis
    proof (cases "x = None \<and> n \<noteq> 0")
      case True
      with False op "1.prems" have "writeFull (drop n p) w1 = (e, w')"
        by (simp add: writeFull.simps [of p])
      with "1.IH" [OF False op [symmetric] refl] True obtain q where
        "prefix q (drop n p)" "wr_out w' = wr_out w1 @ q" "e = None \<longrightarrow> q = drop n p"
        by auto
      with out show ?thesis
        by (intro exI [of _ "take n p @ q"]) (auto simp: append_prefix_take)
    next
      case stop: False
      with False op "1.prems" have "w' = w1" "e \<noteq> None"
        by (auto simp: writeFull.simps [of p] split: option.splits if_splits)
      with out show ?thesis by (intro exI [of _ "take n p"]) (auto simp: take_is_prefix)
    qed
  qed
qed

end
