(* ===== verification/Message.thy ===== *)
theory Message
  imports GoIO
begin

text \<open>
  The ADB packet codec, \<open>protocol/message.go\<close> and \<open>protocol/errors.go\<close>: commands, checksum,
  magic, \<open>ReadMessage\<close> and \<open>WriteMessage\<close> over the readers and writers of \<open>GoIO\<close>. The
  lemmas show that the two are inverse on every reader and writer, that the decoder accepts
  exactly the encodings, and which corruptions it rejects.
\<close>

section \<open>Commands and messages\<close>

definition messageHeaderLen :: nat where
  "messageHeaderLen = 24"

definition AuthToken :: u32 where "AuthToken = 1"
definition AuthSignature :: u32 where "AuthSignature = 2"
definition AuthRSAPublicKey :: u32 where "AuthRSAPublicKey = 3"

text \<open>\<open>'S' | 'Y'<<8 | 'N'<<16 | 'C'<<24\<close>\<close>

definition command_code :: "char \<Rightarrow> char \<Rightarrow> char \<Rightarrow> char \<Rightarrow> u32" where
  "command_code a b c d = of_char a OR push_bit 8 (of_char b) OR push_bit 16 (of_char c)
     OR push_bit 24 (of_char d)"

definition CommandSYNC :: u32 where
  "CommandSYNC = command_code CHR ''S'' CHR ''Y'' CHR ''N'' CHR ''C''"
definition CommandCNXN :: u32 where
  "CommandCNXN = command_code CHR ''C'' CHR ''N'' CHR ''X'' CHR ''N''"
definition CommandAUTH :: u32 where
  "CommandAUTH = command_code CHR ''A'' CHR ''U'' CHR ''T'' CHR ''H''"
definition CommandOPEN :: u32 where
  "CommandOPEN = command_code CHR ''O'' CHR ''P'' CHR ''E'' CHR ''N''"
definition CommandOKAY :: u32 where
  "CommandOKAY = command_code CHR ''O'' CHR ''K'' CHR ''A'' CHR ''Y''"
definition CommandCLSE :: u32 where
  "CommandCLSE = command_code CHR ''C'' CHR ''L'' CHR ''S'' CHR ''E''"
definition CommandWRTE :: u32 where
  "CommandWRTE = command_code CHR ''W'' CHR ''R'' CHR ''T'' CHR ''E''"

record message =
  Command :: u32
  Arg0 :: u32
  Arg1 :: u32
  Payload :: bytes

datatype msg_error =
    ReadErr io_error
  | InvalidMagic u32 u32
  | InvalidChecksum u32 u32

section \<open>Checksum and magic\<close>

definition Checksum :: "bytes \<Rightarrow> u32" where
  "Checksum payload = foldl (\<lambda>sum b. sum + ucast b) 0 payload"

definition Magic :: "u32 \<Rightarrow> u32" where
  "Magic c = c XOR 0xffffffff"

section \<open>Reading and writing\<close>

definition ReadMessage :: "reader \<Rightarrow> (msg_error + message) \<times> reader" where
  "ReadMessage r =
     (case read_full messageHeaderLen r of
        (Inl e, r1) \<Rightarrow> (Inl (ReadErr e), r1)
      | (Inr header, r1) \<Rightarrow>
          let command = Uint32 (slice header 0 4);
              arg0 = Uint32 (slice header 4 8);
              arg1 = Uint32 (slice header 8 12);
              payloadLen = Uint32 (slice header 12 16);
              checksum = Uint32 (slice header 16 20);
              magic = Uint32 (slice header 20 24)
          in if magic \<noteq> Magic command then (Inl (InvalidMagic command magic), r1)
             else case read_full (unat payloadLen) r1 of
                 (Inl e, r2) \<Rightarrow> (Inl (ReadErr e), r2)
               | (Inr payload, r2) \<Rightarrow>
                   if Checksum payload \<noteq> checksum
                   then (Inl (InvalidChecksum (Checksum payload) checksum), r2)
                   else (Inr \<lparr>Command = command, Arg0 = arg0, Arg1 = arg1, Payload = payload\<rparr>, r2))"

definition message_header :: "message \<Rightarrow> bytes" where
  "message_header msg =
     PutUint32 (Command msg) @ PutUint32 (Arg0 msg) @ PutUint32 (Arg1 msg)
     @ PutUint32 (word_of_nat (length (Payload msg)))
     @ PutUint32 (Checksum (Payload msg)) @ PutUint32 (Magic (Command msg))"

definition WriteMessage :: "writer \<Rightarrow> message \<Rightarrow> io_error option \<times> writer" where
  "WriteMessage w msg =
     (case writeFull (message_header msg) w of
        (Some e, w1) \<Rightarrow> (Some e, w1)
      | (None, w1) \<Rightarrow> writeFull (Payload msg) w1)"

text \<open>The packet format itself, and the messages whose length fits its length field.\<close>

definition encode_message :: "message \<Rightarrow> bytes" where
  "encode_message msg = message_header msg @ Payload msg"

definition msg_ok :: "message \<Rightarrow> bool" where
  "msg_ok msg \<longleftrightarrow> length (Payload msg) < 2 ^ 32"

section \<open>The commands are distinct\<close>

lemma command_values [simp]:
  "CommandSYNC = 0x434e5953" "CommandCNXN = 0x4e584e43" "CommandAUTH = 0x48545541"
  "CommandOPEN = 0x4e45504f" "CommandOKAY = 0x59414b4f" "CommandCLSE = 0x45534c43"
  "CommandWRTE = 0x45545257"
  by (simp_all add: CommandSYNC_def CommandCNXN_def CommandAUTH_def CommandOPEN_def
      CommandOKAY_def CommandCLSE_def CommandWRTE_def command_code_def)

lemmas auth_values [simp] = AuthToken_def AuthSignature_def AuthRSAPublicKey_def

section \<open>Writing\<close>

lemma length_message_header [codec, simp]: "length (message_header m) = 24"
  by (simp add: message_header_def)

lemma length_encode_message [codec, simp]: "length (encode_message m) = 24 + length (Payload m)"
  by (simp add: encode_message_def)

lemma WriteMessage_out:
  "WriteMessage w m = (None, w') \<Longrightarrow> wr_out w' = wr_out w @ encode_message m"
  by (auto simp: WriteMessage_def encode_message_def split: prod.splits option.splits
      dest!: writeFull_prefix)

lemma WriteMessage_healthy [simp]:
  "wr_script w = [] \<Longrightarrow> WriteMessage w m = (None, w\<lparr>wr_out := wr_out w @ encode_message m\<rparr>)"
  by (simp add: WriteMessage_def encode_message_def)

lemma WriteMessage_prefix:
  assumes "WriteMessage w m = (e, w')"
  shows "\<exists>q. prefix q (encode_message m) \<and> wr_out w' = wr_out w @ q \<and> (e = None \<longrightarrow> q = encode_message m)"
proof (cases "writeFull (message_header m) w")
  case (Pair x w1)
  from writeFull_prefix [OF Pair] obtain q where q: "prefix q (message_header m)"
    "wr_out w1 = wr_out w @ q" "x = None \<longrightarrow> q = message_header m" by blast
  show ?thesis
  proof (cases x)
    case None
    with assms Pair have "writeFull (Payload m) w1 = (e, w')" by (simp add: WriteMessage_def)
    from writeFull_prefix [OF this] q None show ?thesis
      by (auto simp: encode_message_def)
  next
    case (Some y)
    with assms Pair q show ?thesis
      by (auto simp: WriteMessage_def encode_message_def)
  qed
qed

section \<open>Reading\<close>

lemma ReadMessage_encode [codec]:
  assumes "msg_ok m" "rd_data r = encode_message m @ rest"
  shows "ReadMessage r = (Inr m, r\<lparr>rd_data := rest\<rparr>)"
proof -
  have h: "read_full messageHeaderLen r = (Inr (message_header m), r\<lparr>rd_data := Payload m @ rest\<rparr>)"
    using assms by (simp add: messageHeaderLen_def encode_message_def)
  have len: "unat (word_of_nat (length (Payload m)) :: u32) = length (Payload m)"
    using assms by (simp add: msg_ok_def unat_of_nat)
  show ?thesis
    by (simp add: ReadMessage_def h) (simp add: message_header_def slice_def len)
qed

lemma ReadMessage_InrD:
  assumes "ReadMessage r = (Inr m, r')"
  shows "rd_data r = encode_message m @ rd_data r' \<and> rd_end r' = rd_end r \<and> msg_ok m"
proof -
  from assms obtain h r1 where h: "read_full messageHeaderLen r = (Inr h, r1)"
    by (auto simp: ReadMessage_def split: prod.splits sum.splits)
  from read_full_InrD [OF h] have d: "rd_data r = h @ rd_data r1" "length h = 24" "rd_end r1 = rd_end r"
    by (auto simp: messageHeaderLen_def)
  from assms h obtain p where p: "read_full (unat (Uint32 (slice h 12 16))) r1 = (Inr p, r')"
    and magic: "Uint32 (slice h 20 24) = Magic (Command m)"
    and cs: "Uint32 (slice h 16 20) = Checksum p"
    and m: "m = \<lparr>Command = Uint32 (slice h 0 4), Arg0 = Uint32 (slice h 4 8),
          Arg1 = Uint32 (slice h 8 12), Payload = p\<rparr>"
    by (auto simp: ReadMessage_def Let_def split: prod.splits sum.splits if_splits)
  from read_full_InrD [OF p] have e: "rd_data r1 = p @ rd_data r'"
    "length p = unat (Uint32 (slice h 12 16))" "rd_end r' = rd_end r1" by auto
  have len: "word_of_nat (length p) = Uint32 (slice h 12 16)" by (simp add: e(2))
  have "message_header m = slice h 0 4 @ slice h 4 8 @ slice h 8 12 @ slice h 12 16
      @ slice h 16 20 @ slice h 20 24"
    using d(2) by (simp add: message_header_def m len cs [symmetric] PutUint32_Uint32)
      (simp add: magic [unfolded m, simplified, symmetric] PutUint32_Uint32)
  also have "\<dots> = h"
    using d(2) by (simp only: slice_join) simp
  finally show ?thesis
    using d e unsigned_less [where w = "Uint32 (slice h 12 16)" and ?'a = nat]
    by (simp add: encode_message_def m msg_ok_def)
qed

lemma ReadMessage_length:
  "ReadMessage r = (Inr m, r') \<Longrightarrow> length (rd_data r') < length (rd_data r)"
  by (drule ReadMessage_InrD) simp

section \<open>The checksum\<close>

lemma Checksum_eq_sum: "Checksum p = (\<Sum>b\<leftarrow>p. ucast b)"
proof -
  have "foldl (\<lambda>sum b. sum + ucast b) a p = a + (\<Sum>b\<leftarrow>p. ucast b :: u32)" for a
    by (induction p arbitrary: a) (simp_all add: add.assoc)
  then show ?thesis by (simp add: Checksum_def)
qed

lemma Checksum_append [simp]: "Checksum (a @ b) = Checksum a + Checksum b"
  by (simp add: Checksum_eq_sum)

lemma len8: "LENGTH(8) = 8"
  by simp

lemma ucast_byte_u32_inject: "(ucast (a :: byte) :: u32) = ucast b \<longleftrightarrow> a = b"
  by (auto simp: bit_eq_iff bit_simps) (metis bit_imp_le_length len8)+

lemma Checksum_update:
  "i < length p \<Longrightarrow> Checksum (p[i := b]) = Checksum p - ucast (p ! i) + ucast b"
  by (subst (2) id_take_nth_drop [of i p]) (simp_all add: upd_conv_take_nth_drop Checksum_eq_sum)

lemma Checksum_update_neq:
  "i < length p \<Longrightarrow> b \<noteq> p ! i \<Longrightarrow> Checksum (p[i := b]) \<noteq> Checksum p"
  by (simp add: Checksum_update ucast_byte_u32_inject)

section \<open>Properties\<close>

text \<open>C1: What \<open>WriteMessage\<close> puts on the wire, through any sequence of short writes, is
  decoded by \<open>ReadMessage\<close> to the same message, with the bytes that follow left unread.\<close>

theorem message_roundtrip:
  assumes "WriteMessage w m = (None, w')" and "wr_out w' = wr_out w @ d" and "msg_ok m"
  shows "ReadMessage \<lparr>rd_data = d @ rest, rd_end = e\<rparr> = (Inr m, \<lparr>rd_data = rest, rd_end = e\<rparr>)"
proof -
  from WriteMessage_out [OF assms(1)] assms(2) have "d = encode_message m" by simp
  with assms(3) show ?thesis by (simp add: ReadMessage_encode)
qed

definition sample_message :: message where
  "sample_message = \<lparr>Command = CommandWRTE, Arg0 = 1, Arg1 = 7, Payload = [104, 105]\<rparr>"

theorem message_roundtrip_witness:
  "ReadMessage \<lparr>rd_data = encode_message sample_message @ [9], rd_end = EOF\<rparr>
     = (Inr sample_message, \<lparr>rd_data = [9], rd_end = EOF\<rparr>)"
  by (rule message_roundtrip [where w = "\<lparr>wr_out = [], wr_script = []\<rparr>"
        and w' = "\<lparr>wr_out = encode_message sample_message, wr_script = []\<rparr>"])
    (simp_all add: msg_ok_def sample_message_def)

text \<open>C10: \<open>ReadMessage\<close> accepts exactly the encodings: it returns a message if and only if the
  reader starts with that message's packet, and then it has consumed the packet and nothing else.\<close>

theorem ReadMessage_accepts_iff:
  "ReadMessage r = (Inr m, r') \<longleftrightarrow>
     msg_ok m \<and> rd_data r = encode_message m @ rd_data r' \<and> rd_end r' = rd_end r"
proof
  assume "msg_ok m \<and> rd_data r = encode_message m @ rd_data r' \<and> rd_end r' = rd_end r"
  then show "ReadMessage r = (Inr m, r')"
    by (cases r') (auto simp: ReadMessage_encode [of m r "rd_data r'"])
qed (use ReadMessage_InrD in blast)

text \<open>A packet whose payload differs from the one that was sent in a single byte is
  rejected with a checksum error.\<close>

theorem ReadMessage_rejects_corrupt_byte:
  assumes "msg_ok m" and "i < length (Payload m)" and "b \<noteq> Payload m ! i"
  shows "fst (ReadMessage \<lparr>rd_data = message_header m @ (Payload m)[i := b] @ rest, rd_end = e\<rparr>)
    = Inl (InvalidChecksum (Checksum ((Payload m)[i := b])) (Checksum (Payload m)))"
proof -
  have len: "unat (word_of_nat (length (Payload m)) :: u32) = length (Payload m)"
    using assms by (simp add: msg_ok_def unat_of_nat)
  have h: "read_full messageHeaderLen \<lparr>rd_data = message_header m @ (Payload m)[i := b] @ rest, rd_end = e\<rparr>
     = (Inr (message_header m), \<lparr>rd_data = (Payload m)[i := b] @ rest, rd_end = e\<rparr>)"
    by (simp add: messageHeaderLen_def)
  show ?thesis
    using Checksum_update_neq [OF assms(2,3)]
    by (simp add: ReadMessage_def h) (simp add: message_header_def slice_def len)
qed

theorem ReadMessage_rejects_corrupt_byte_witness:
  "fst (ReadMessage \<lparr>rd_data = message_header sample_message @ [104, 106] @ [], rd_end = EOF\<rparr>)
    = Inl (InvalidChecksum 210 209)"
  using ReadMessage_rejects_corrupt_byte [of sample_message 1 106 "[]" EOF]
  by (simp add: sample_message_def msg_ok_def Checksum_def)

text \<open>When \<open>WriteMessage\<close> fails, what reached the wire is a prefix of the packet: no
  other bytes are ever sent, and success means the whole packet was sent.\<close>

theorem WriteMessage_sends_prefix:
  "\<exists>q. prefix q (encode_message m) \<and> wr_out (snd (WriteMessage w m)) = wr_out w @ q
     \<and> (case fst (WriteMessage w m) of None \<Rightarrow> q = encode_message m | Some _ \<Rightarrow> True)"
  using WriteMessage_prefix [of w m] by (cases "WriteMessage w m") (auto split: option.splits)

end
