(* ===== verification/Handshake.thy ===== *)
theory Handshake
  imports Message
begin

text \<open>
  The connection handshake, \<open>protocol/connection.go\<close>: the \<open>CNXN\<close> request, the loop that
  answers \<open>AUTH\<close> token challenges with the host's credentials, and its error wrapping.
  A context is modelled by what \<open>ctx.Err()\<close> returns where the code asks: on entry, and when an
  operation has failed. The credentials are values with a signing function, as the interface
  \<open>AuthCredential\<close> leaves open where they come from; SHA-1 is computed.

  The abstract view of the authentication state is the list of offers the host still has; the
  loop's two variables \<open>credentialIndex\<close> and \<open>publicKeyOffered\<close> refine it.
\<close>

section \<open>SHA-1 (crypto/sha1)\<close>

definition rotl32 :: "nat \<Rightarrow> u32 \<Rightarrow> u32" where
  "rotl32 n w = push_bit n w OR drop_bit (32 - n) w"

definition sha1_pad :: "bytes \<Rightarrow> bytes" where
  "sha1_pad m = m @ [0x80] @ replicate ((119 - length m mod 64) mod 64) 0
     @ rev (map (\<lambda>i. ucast (drop_bit (8 * i) (word_of_nat (8 * length m) :: u64))) [0..<8])"

fun be_words :: "bytes \<Rightarrow> u32 list" where
  "be_words (a # b # c # d # r) = Uint32 [d, c, b, a] # be_words r"
| "be_words _ = []"

fun sha1_schedule :: "nat \<Rightarrow> u32 list \<Rightarrow> u32 list" where
  "sha1_schedule 0 ws = ws"
| "sha1_schedule (Suc n) ws =
     (let t = length ws in
      sha1_schedule n (ws @ [rotl32 1 (ws ! (t - 3) XOR ws ! (t - 8) XOR ws ! (t - 14) XOR ws ! (t - 16))]))"

type_synonym sha1_state = "u32 \<times> u32 \<times> u32 \<times> u32 \<times> u32"

definition sha1_round :: "sha1_state \<Rightarrow> nat \<times> u32 \<Rightarrow> sha1_state" where
  "sha1_round s tw =
     (case (s, tw) of ((a, b, c, d, e), (t, w)) \<Rightarrow>
        let (f, k) =
          (if t < 20 then ((b AND c) OR (NOT b AND d), 0x5a827999)
           else if t < 40 then (b XOR c XOR d, 0x6ed9eba1)
           else if t < 60 then ((b AND c) OR (b AND d) OR (c AND d), 0x8f1bbcdc)
           else (b XOR c XOR d, 0xca62c1d6))
        in (rotl32 5 a + f + e + k + w, a, rotl32 30 b, c, d))"

definition sha1_block :: "sha1_state \<Rightarrow> u32 list \<Rightarrow> sha1_state" where
  "sha1_block h ws =
     (case (h, foldl sha1_round h (zip [0..<80] (sha1_schedule 64 ws))) of
        ((a, b, c, d, e), (a', b', c', d', e')) \<Rightarrow> (a + a', b + b', c + c', d + d', e + e'))"

fun sha1_blocks :: "nat \<Rightarrow> sha1_state \<Rightarrow> u32 list \<Rightarrow> sha1_state" where
  "sha1_blocks 0 h ws = h"
| "sha1_blocks (Suc n) h ws = sha1_blocks n (sha1_block h (take 16 ws)) (drop 16 ws)"

definition sha1 :: "bytes \<Rightarrow> bytes" where
  "sha1 m =
     (let ws = be_words (sha1_pad m) in
      case sha1_blocks (length ws div 16) (0x67452301, 0xefcdab89, 0x98badcfe, 0x10325476, 0xc3d2e1f0) ws of
        (a, b, c, d, e) \<Rightarrow> concat (map (\<lambda>w. rev (PutUint32 w)) [a, b, c, d, e]))"

section \<open>Constants, credentials, errors\<close>

definition Version :: u32 where "Version = 0x01000000"
definition MaxPayload :: u32 where "MaxPayload = 4096"
definition SystemIdentityString :: string where "SystemIdentityString = ''host::adb-go''"

record credential =
  Signer :: "(bytes \<Rightarrow> io_error + bytes) option"
  PublicKeyPayload :: bytes

type_synonym credentials = "credential option list"

record auth_state =
  credentialIndex :: nat
  publicKeyOffered :: bool

datatype hs_op = WriteCnxn | ReadResponse | PrepareAuthReply | WriteAuthReply

datatype cause = CauseIO io_error | CauseMsg msg_error

datatype hs_error =
    CtxErr ctx_err
  | HsCanceled hs_op ctx_err
  | HsFailed hs_op cause
  | AuthRequiredError message
  | UnexpectedCommand u32

text \<open>\<open>errors.Is(err, ErrAuthRequired)\<close>\<close>

fun is_ErrAuthRequired :: "hs_error \<Rightarrow> bool" where
  "is_ErrAuthRequired (AuthRequiredError _) = True"
| "is_ErrAuthRequired _ = False"

definition contextualError :: "ctx_err option \<Rightarrow> hs_op \<Rightarrow> cause \<Rightarrow> hs_error" where
  "contextualError ctx op err =
     (case ctx of Some c \<Rightarrow> HsCanceled op c | None \<Rightarrow> HsFailed op err)"

section \<open>Answering a challenge\<close>

text \<open>The first loop of \<open>nextAuthReply\<close>: the next credential that can sign. The index passes
  every credential that was looked at, also when its signature fails.\<close>

function next_signature :: "bytes \<Rightarrow> credentials \<Rightarrow> nat \<Rightarrow> (io_error + message) option \<times> nat" where
  "next_signature token credentials i =
     (if i < length credentials
      then case credentials ! i of
          None \<Rightarrow> next_signature token credentials (Suc i)
        | Some credential \<Rightarrow>
            (case Signer credential of
               None \<Rightarrow> next_signature token credentials (Suc i)
             | Some sign \<Rightarrow>
                 (case sign (sha1 token) of
                    Inl err \<Rightarrow> (Some (Inl err), Suc i)
                  | Inr signature \<Rightarrow>
                      (Some (Inr \<lparr>Command = CommandAUTH, Arg0 = AuthSignature, Arg1 = 0,
                                  Payload = signature\<rparr>), Suc i)))
      else (None, i))"
  by pat_completeness auto
termination
  by (relation "measure (\<lambda>(token, credentials, i). length credentials - i)") auto

declare next_signature.simps [simp del]

text \<open>The second loop: the first non-empty public-key payload.\<close>

fun first_public_key :: "credentials \<Rightarrow> bytes option" where
  "first_public_key [] = None"
| "first_public_key (None # cs) = first_public_key cs"
| "first_public_key (Some c # cs) =
     (if PublicKeyPayload c = [] then first_public_key cs else Some (PublicKeyPayload c))"

definition nextAuthReply ::
  "bytes \<Rightarrow> credentials \<Rightarrow> auth_state \<Rightarrow> (io_error + message option) \<times> auth_state" where
  "nextAuthReply token credentials st =
     (case next_signature token credentials (credentialIndex st) of
        (Some (Inl err), i) \<Rightarrow> (Inl err, st\<lparr>credentialIndex := i\<rparr>)
      | (Some (Inr reply), i) \<Rightarrow> (Inr (Some reply), st\<lparr>credentialIndex := i\<rparr>)
      | (None, i) \<Rightarrow>
          if publicKeyOffered st then (Inr None, st\<lparr>credentialIndex := i\<rparr>)
          else (Inr (map_option (\<lambda>payload. \<lparr>Command = CommandAUTH, Arg0 = AuthRSAPublicKey,
                   Arg1 = 0, Payload = payload\<rparr>) (first_public_key credentials)),
                st\<lparr>credentialIndex := i, publicKeyOffered := True\<rparr>))"

section \<open>The handshake\<close>

function readHandshakeResponses ::
  "ctx_err option \<Rightarrow> credentials \<Rightarrow> auth_state \<Rightarrow> reader \<Rightarrow> writer \<Rightarrow>
     (hs_error + message) \<times> reader \<times> writer" where
  "readHandshakeResponses ctx creds st r w =
     (case ReadMessage r of
        (Inl err, r') \<Rightarrow> (Inl (contextualError ctx ReadResponse (CauseMsg err)), r', w)
      | (Inr response, r') \<Rightarrow>
          if Command response = CommandCNXN then (Inr response, r', w)
          else if Command response = CommandAUTH then
            if Arg0 response \<noteq> AuthToken then (Inl (AuthRequiredError response), r', w)
            else (case nextAuthReply (Payload response) creds st of
                (Inl err, st') \<Rightarrow> (Inl (contextualError ctx PrepareAuthReply (CauseIO err)), r', w)
              | (Inr None, st') \<Rightarrow> (Inl (AuthRequiredError response), r', w)
              | (Inr (Some reply), st') \<Rightarrow>
                  (case WriteMessage w reply of
                     (Some err, w') \<Rightarrow> (Inl (contextualError ctx WriteAuthReply (CauseIO err)), r', w')
                   | (None, w') \<Rightarrow> readHandshakeResponses ctx creds st' r' w'))
          else (Inl (UnexpectedCommand (Command response)), r', w))"
  by pat_completeness auto
termination
  by (relation "measure (\<lambda>(ctx, creds, st, r, w). length (rd_data r))")
    (auto dest: ReadMessage_length [OF sym])

declare readHandshakeResponses.simps [simp del]

definition cnxn_request :: message where
  "cnxn_request = \<lparr>Command = CommandCNXN, Arg0 = Version, Arg1 = MaxPayload,
     Payload = bytes_of_string (SystemIdentityString @ [CHR 0x00])\<rparr>"

definition init_auth :: auth_state where
  "init_auth = \<lparr>credentialIndex = 0, publicKeyOffered = False\<rparr>"

text \<open>\<open>ctx0\<close> is \<open>ctx.Err()\<close> on entry, \<open>ctx\<close> what it is when an operation has failed.\<close>

definition HandshakeWithOptions ::
  "ctx_err option \<Rightarrow> ctx_err option \<Rightarrow> credentials \<Rightarrow> reader \<Rightarrow> writer \<Rightarrow>
     (hs_error + message) \<times> reader \<times> writer" where
  "HandshakeWithOptions ctx0 ctx creds r w =
     (case ctx0 of
        Some e \<Rightarrow> (Inl (CtxErr e), r, w)
      | None \<Rightarrow>
          (case WriteMessage w cnxn_request of
             (Some err, w') \<Rightarrow> (Inl (contextualError ctx WriteCnxn (CauseIO err)), r, w')
           | (None, w') \<Rightarrow> readHandshakeResponses ctx creds init_auth r w'))"

definition Handshake ::
  "ctx_err option \<Rightarrow> ctx_err option \<Rightarrow> reader \<Rightarrow> writer \<Rightarrow> (hs_error + message) \<times> reader \<times> writer" where
  "Handshake ctx0 ctx r w = HandshakeWithOptions ctx0 ctx [] r w"

section \<open>The abstract view: the offers still to be made\<close>

datatype offer = OSignature "bytes \<Rightarrow> io_error + bytes" | OPublicKey bytes

fun signers :: "credentials \<Rightarrow> (bytes \<Rightarrow> io_error + bytes) list" where
  "signers [] = []"
| "signers (None # cs) = signers cs"
| "signers (Some c # cs) = (case Signer c of None \<Rightarrow> signers cs | Some f \<Rightarrow> f # signers cs)"

definition key_offer :: "credentials \<Rightarrow> offer list" where
  "key_offer creds = (case first_public_key creds of None \<Rightarrow> [] | Some k \<Rightarrow> [OPublicKey k])"

definition remaining_offers :: "credentials \<Rightarrow> auth_state \<Rightarrow> offer list" where
  "remaining_offers creds st =
     map OSignature (signers (drop (credentialIndex st) creds))
     @ (if publicKeyOffered st then [] else key_offer creds)"

fun perform_offer :: "bytes \<Rightarrow> offer \<Rightarrow> io_error + message" where
  "perform_offer token (OSignature sign) =
     (case sign (sha1 token) of
        Inl e \<Rightarrow> Inl e
      | Inr sg \<Rightarrow> Inr \<lparr>Command = CommandAUTH, Arg0 = AuthSignature, Arg1 = 0, Payload = sg\<rparr>)"
| "perform_offer token (OPublicKey k) =
     Inr \<lparr>Command = CommandAUTH, Arg0 = AuthRSAPublicKey, Arg1 = 0, Payload = k\<rparr>"

section \<open>The loop refines the list of offers\<close>

lemma length_signers: "length (signers cs) \<le> length cs"
  by (induction cs rule: signers.induct) (auto split: option.splits)

lemma length_key_offer: "length (key_offer cs) \<le> 1"
  by (simp add: key_offer_def split: option.splits)

lemma length_remaining_offers: "length (remaining_offers creds st) \<le> length creds + 1"
  using length_signers [of "drop (credentialIndex st) creds"] length_key_offer [of creds]
  by (auto simp: remaining_offers_def)

lemma next_signature_spec:
  "case next_signature token creds i of
     (None, j) \<Rightarrow> signers (drop i creds) = [] \<and> signers (drop j creds) = []
   | (Some res, j) \<Rightarrow> \<exists>f. signers (drop i creds) = f # signers (drop j creds) \<and>
        perform_offer token (OSignature f) = res"
proof (induction token creds i rule: next_signature.induct)
  case (1 token creds i)
  show ?case
  proof (cases "i < length creds")
    case False
    then show ?thesis by (simp add: next_signature.simps [of token])
  next
    case True
    then have d: "drop i creds = creds ! i # drop (Suc i) creds" by (simp add: Cons_nth_drop_Suc)
    consider "creds ! i = None" | c where "creds ! i = Some c" "Signer c = None"
      | c f where "creds ! i = Some c" "Signer c = Some f" by fastforce
    then show ?thesis
    proof cases
      case 1
      with d have "signers (drop i creds) = signers (drop (Suc i) creds)" by simp
      with True 1 "1.IH"(1) show ?thesis
        by (simp add: next_signature.simps [of token creds i] split: prod.splits option.splits)
    next
      case 2
      with d have "signers (drop i creds) = signers (drop (Suc i) creds)" by simp
      with True 2 "1.IH"(2) show ?thesis
        by (simp add: next_signature.simps [of token creds i] split: prod.splits option.splits)
    next
      case 3
      with True d show ?thesis
        by (simp add: next_signature.simps [of token creds i] split: sum.splits)
    qed
  qed
qed

lemma nextAuthReply_cases:
  obtains (exhausted) st' where "remaining_offers creds st = []" "remaining_offers creds st' = []"
      "nextAuthReply token creds st = (Inr None, st')"
  | (offer) off st' where "remaining_offers creds st = off # remaining_offers creds st'"
      "nextAuthReply token creds st = (map_sum id Some (perform_offer token off), st')"
proof -
  obtain res j where ns: "next_signature token creds (credentialIndex st) = (res, j)"
    by (cases "next_signature token creds (credentialIndex st)")
  note spec = next_signature_spec [where token = token and creds = creds and i = "credentialIndex st",
      unfolded ns]
  show thesis
  proof (cases res)
    case None
    with spec have e: "signers (drop (credentialIndex st) creds) = []" "signers (drop j creds) = []"
      by auto
    show thesis
    proof (cases "publicKeyOffered st \<or> first_public_key creds = None")
      case True
      show thesis
        by (rule exhausted [of "snd (nextAuthReply token creds st)"])
          (use True e ns None in \<open>auto simp: remaining_offers_def nextAuthReply_def key_offer_def\<close>)
    next
      case False
      then obtain k where k: "first_public_key creds = Some k" "\<not> publicKeyOffered st" by auto
      show thesis
        by (rule offer [of "OPublicKey k" "st\<lparr>credentialIndex := j, publicKeyOffered := True\<rparr>"])
          (use k e ns None in \<open>auto simp: remaining_offers_def nextAuthReply_def key_offer_def\<close>)
    qed
  next
    case (Some x)
    with spec obtain f where f: "signers (drop (credentialIndex st) creds) = f # signers (drop j creds)"
      "perform_offer token (OSignature f) = x" by auto
    show thesis
      by (rule offer [of "OSignature f" "st\<lparr>credentialIndex := j\<rparr>"])
        (use f ns Some in \<open>auto simp: remaining_offers_def nextAuthReply_def split: sum.splits\<close>)
  qed
qed

section \<open>Every outcome of the loop\<close>

definition is_token :: "message \<Rightarrow> bool" where
  "is_token m \<longleftrightarrow> Command m = CommandAUTH \<and> Arg0 m = AuthToken"

text \<open>\<open>answers creds offs toks reps\<close>: the replies are what the offers, in order, give for the
  challenges, in order.\<close>

fun answers :: "offer list \<Rightarrow> message list \<Rightarrow> message list \<Rightarrow> bool" where
  "answers _ [] [] = True"
| "answers (off # offs) (t # toks) (rep # reps) =
     (is_token t \<and> perform_offer (Payload t) off = Inr rep \<and> answers offs toks reps)"
| "answers _ _ _ = False"

lemma answers_length: "answers offs toks reps \<Longrightarrow> length reps = length toks \<and> length toks \<le> length offs"
  by (induction offs toks reps rule: answers.induct) auto

lemma answers_tokens: "answers offs toks reps \<Longrightarrow> t \<in> set toks \<Longrightarrow> is_token t"
  by (induction offs toks reps rule: answers.induct) auto

lemma readHandshakeResponses_cases:
  assumes "readHandshakeResponses ctx creds st r w = (res, r', w')"
  obtains (cnxn) m where "res = Inr m" "w' = w" "Command m = CommandCNXN"
      "rd_data r = encode_message m @ rd_data r'"
  | (stop) e where "res = Inl e" "w' = w"
  | (write_failed) e off st' t rep q where "res = Inl e"
      "remaining_offers creds st = off # remaining_offers creds st'"
      "perform_offer (Payload (t :: message)) off = Inr rep" "prefix q (encode_message rep)"
      "wr_out w' = wr_out w @ q"
  | (answered) t off st' rep r1 w1 where "is_token t" "rd_data r = encode_message t @ rd_data r1"
      "remaining_offers creds st = off # remaining_offers creds st'"
      "perform_offer (Payload t) off = Inr rep" "wr_out w1 = wr_out w @ encode_message rep"
      "readHandshakeResponses ctx creds st' r1 w1 = (res, r', w')"
proof -
  note unf = readHandshakeResponses.simps [of ctx creds st r w]
  consider e r1 where "ReadMessage r = (Inl e, r1)" | m r1 where "ReadMessage r = (Inr m, r1)"
    by (cases "ReadMessage r", cases "fst (ReadMessage r)") auto
  then show thesis
  proof cases
    case 1
    with assms show thesis by (intro stop) (auto simp: unf)
  next
    case rm: (2 m r1)
    then have d: "rd_data r = encode_message m @ rd_data r1" by (simp add: ReadMessage_InrD)
    show thesis
    proof (cases "is_token m")
      case False
      with assms rm d show thesis
        by (auto simp: unf is_token_def split: if_splits intro: stop cnxn)
    next
      case tok: True
      show thesis
      proof (cases rule: nextAuthReply_cases [of creds st "Payload m"])
        case (exhausted st')
        with assms rm tok show thesis by (intro stop) (auto simp: unf is_token_def)
      next
        case (offer off st')
        consider e where "perform_offer (Payload m) off = Inl e"
          | rep e w1 where "perform_offer (Payload m) off = Inr rep" "WriteMessage w rep = (Some e, w1)"
          | rep w1 where "perform_offer (Payload m) off = Inr rep" "WriteMessage w rep = (None, w1)"
          by (cases "perform_offer (Payload m) off") (auto, metis option.exhaust surj_pair)
        then show thesis
        proof cases
          case 1
          with assms rm tok offer show thesis by (intro stop) (auto simp: unf is_token_def)
        next
          case (2 rep e w1)
          with assms rm tok offer have "w' = w1" "\<exists>e. res = Inl e" by (auto simp: unf is_token_def)
          with 2 offer WriteMessage_prefix [OF 2(2)] show thesis by (auto intro: write_failed)
        next
          case (3 rep w1)
          with assms rm tok offer have "readHandshakeResponses ctx creds st' r1 w1 = (res, r', w')"
            by (simp add: unf is_token_def)
          with tok d offer 3 show thesis by (auto intro: answered dest: WriteMessage_out)
        qed
      qed
    qed
  qed
qed

text \<open>\<open>hs_outcome offs toks d q res r'\<close>: after the answered challenges \<open>toks\<close>, the run ended with \<open>res\<close>:
  either the input \<open>d\<close> goes on with the returned \<open>CNXN\<close>, or it failed, and then at most
  a part \<open>q\<close> of the next reply was sent.\<close>

definition hs_outcome ::
  "offer list \<Rightarrow> message list \<Rightarrow> bytes \<Rightarrow> bytes \<Rightarrow> hs_error + message \<Rightarrow> reader \<Rightarrow> bool" where
  "hs_outcome offs toks d q res r' =
     (case res of
        Inr m \<Rightarrow> Command m = CommandCNXN \<and> d = encode_message m @ rd_data r' \<and> q = []
      | Inl _ \<Rightarrow> q = [] \<or> (\<exists>(t :: message) rep. length toks < length offs \<and>
           perform_offer (Payload t) (offs ! length toks) = Inr rep \<and> prefix q (encode_message rep)))"

lemma readHandshakeResponses_run:
  assumes "readHandshakeResponses ctx creds st r w = (res, r', w')"
  shows "\<exists>toks reps d q. answers (remaining_offers creds st) toks reps \<and>
     rd_data r = concat (map encode_message toks) @ d \<and>
     wr_out w' = wr_out w @ concat (map encode_message reps) @ q \<and>
     hs_outcome (remaining_offers creds st) toks d q res r'"
  using assms
proof (induction "length (rd_data r)" arbitrary: st r w rule: less_induct)
  case less
  from less.prems show ?case
  proof (cases rule: readHandshakeResponses_cases)
    case (cnxn m)
    then show ?thesis
      by (intro exI [of _ "[]"] exI [of _ "rd_data r"]) (simp add: hs_outcome_def)
  next
    case (stop e)
    then show ?thesis
      by (intro exI [of _ "[]"] exI [of _ "rd_data r"]) (simp add: hs_outcome_def)
  next
    case (write_failed e off st' t rep q)
    then show ?thesis
      by (intro exI [of _ "[]"] exI [of _ "rd_data r"] exI [of _ q]) (auto simp: hs_outcome_def)
  next
    case (answered t off st' rep r1 w1)
    from less.hyps [OF _ answered(6)] answered(2) obtain toks reps d q where
      IH: "answers (remaining_offers creds st') toks reps" "rd_data r1 = concat (map encode_message toks) @ d"
        "wr_out w' = wr_out w1 @ concat (map encode_message reps) @ q"
        "hs_outcome (remaining_offers creds st') toks d q res r'" by auto
    with answered show ?thesis
      by (intro exI [of _ "t # toks"] exI [of _ "rep # reps"] exI [of _ d] exI [of _ q])
        (auto simp: hs_outcome_def split: sum.splits)
  qed
qed

section \<open>A peer that accepts after some challenges\<close>

lemma readHandshakeResponses_cnxn:
  assumes "rd_data r = encode_message m @ rest" "msg_ok m" "Command m = CommandCNXN"
  shows "readHandshakeResponses ctx creds st r w = (Inr m, r\<lparr>rd_data := rest\<rparr>, w)"
  using assms by (simp add: readHandshakeResponses.simps ReadMessage_encode)

lemma readHandshakeResponses_token:
  assumes "rd_data r = encode_message t @ rest" "msg_ok t" "is_token t" "wr_script w = []"
    and "remaining_offers creds st = off # offs" "perform_offer (Payload t) off = Inr rep"
  obtains st' where "remaining_offers creds st' = offs"
    "readHandshakeResponses ctx creds st r w =
       readHandshakeResponses ctx creds st' (r\<lparr>rd_data := rest\<rparr>) (w\<lparr>wr_out := wr_out w @ encode_message rep\<rparr>)"
proof (cases rule: nextAuthReply_cases [of creds st "Payload t"])
  case (exhausted st')
  with assms show ?thesis by simp
next
  case (offer off' st')
  with assms show ?thesis
    by (intro that [of st'])
      (auto simp: readHandshakeResponses.simps [of ctx creds st r] ReadMessage_encode is_token_def)
qed

lemma readHandshakeResponses_complete:
  assumes "answers (remaining_offers creds st) toks reps" "\<forall>t\<in>set toks. msg_ok t"
    and "msg_ok m" "Command m = CommandCNXN" "wr_script w = []"
    and "rd_data r = concat (map encode_message toks) @ encode_message m @ rest"
  shows "readHandshakeResponses ctx creds st r w =
    (Inr m, r\<lparr>rd_data := rest\<rparr>, w\<lparr>wr_out := wr_out w @ concat (map encode_message reps)\<rparr>)"
  using assms
proof (induction "remaining_offers creds st" toks reps arbitrary: st r w rule: answers.induct)
  case (1 st r w)
  then show ?case by (simp add: readHandshakeResponses_cnxn)
next
  case (2 off offs t toks rep reps st r w)
  from 2(2) [symmetric] 2(3) have ans: "is_token t" "perform_offer (Payload t) off = Inr rep"
    "answers offs toks reps" by auto
  obtain st' where st': "remaining_offers creds st' = offs"
    "readHandshakeResponses ctx creds st r w = readHandshakeResponses ctx creds st'
       (r\<lparr>rd_data := concat (map encode_message toks) @ encode_message m @ rest\<rparr>)
       (w\<lparr>wr_out := wr_out w @ encode_message rep\<rparr>)"
    by (rule readHandshakeResponses_token [where ctx = ctx and creds = creds and st = st and off = off
          and offs = offs and rep = rep and r = r and t = t and w = w])
      (use 2(2-) ans in auto)
  have "readHandshakeResponses ctx creds st'
       (r\<lparr>rd_data := concat (map encode_message toks) @ encode_message m @ rest\<rparr>)
       (w\<lparr>wr_out := wr_out w @ encode_message rep\<rparr>) =
     (Inr m, r\<lparr>rd_data := rest\<rparr>, w\<lparr>wr_out := (wr_out w @ encode_message rep) @ concat (map encode_message reps)\<rparr>)"
    using 2 ans st'(1) by (subst 2(1) [of st']) auto
  with st'(2) show ?case by simp
qed (auto dest: sym)

lemma HandshakeWithOptions_complete:
  assumes "answers (remaining_offers creds init_auth) toks reps" "\<forall>t\<in>set toks. msg_ok t"
    and "msg_ok m" "Command m = CommandCNXN" "wr_script w = []"
    and "rd_data r = concat (map encode_message toks) @ encode_message m @ rest"
  shows "HandshakeWithOptions None ctx creds r w =
    (Inr m, r\<lparr>rd_data := rest\<rparr>,
     w\<lparr>wr_out := wr_out w @ encode_message cnxn_request @ concat (map encode_message reps)\<rparr>)"
  using assms by (simp add: HandshakeWithOptions_def readHandshakeResponses_complete)

section \<open>Properties\<close>

text \<open>C9: The two loop variables of the handshake implement the list of offers the host still
  has (the signatures of the usable credentials in order, then the first public key, once):
  \<open>nextAuthReply\<close> makes the first remaining offer and leaves the others, and reports that
  there is no reply exactly when none remains.\<close>

theorem nextAuthReply_refines_offers:
  "case remaining_offers creds st of
     [] \<Rightarrow> fst (nextAuthReply token creds st) = Inr None \<and>
           remaining_offers creds (snd (nextAuthReply token creds st)) = []
   | off # offs \<Rightarrow> fst (nextAuthReply token creds st) = map_sum id Some (perform_offer token off) \<and>
           remaining_offers creds (snd (nextAuthReply token creds st)) = offs"
  by (cases rule: nextAuthReply_cases [of creds st token]) simp_all

text \<open>C3: A handshake that succeeds returned a \<open>CNXN\<close> packet, every packet before it was an
  authentication challenge, and the host answered each challenge with its next offer and sent
  nothing but its \<open>CNXN\<close> request and these answers.\<close>

theorem handshake_success_sound:
  assumes "HandshakeWithOptions ctx0 ctx creds r w = (Inr m, r', w')"
  shows "Command m = CommandCNXN \<and> (\<exists>toks reps. answers (remaining_offers creds init_auth) toks reps \<and>
     rd_data r = concat (map encode_message toks) @ encode_message m @ rd_data r' \<and>
     wr_out w' = wr_out w @ encode_message cnxn_request @ concat (map encode_message reps))"
proof -
  from assms obtain w1 where w1: "WriteMessage w cnxn_request = (None, w1)"
    "readHandshakeResponses ctx creds init_auth r w1 = (Inr m, r', w')"
    by (auto simp: HandshakeWithOptions_def split: option.splits prod.splits)
  from readHandshakeResponses_run [OF w1(2)] WriteMessage_out [OF w1(1)] show ?thesis
    by (auto simp: hs_outcome_def)
qed

definition sample_cnxn :: message where
  "sample_cnxn = \<lparr>Command = CommandCNXN, Arg0 = Version, Arg1 = MaxPayload, Payload = [100]\<rparr>"

theorem handshake_success_sound_witness:
  "Command sample_cnxn = CommandCNXN \<and> (\<exists>toks reps. answers (remaining_offers [] init_auth) toks reps \<and>
     encode_message sample_cnxn @ [5] = concat (map encode_message toks) @ encode_message sample_cnxn @ [5] \<and>
     encode_message cnxn_request = encode_message cnxn_request @ concat (map encode_message reps))"
  using handshake_success_sound [of None None "[]" "\<lparr>rd_data = encode_message sample_cnxn @ [5], rd_end = EOF\<rparr>"
      "\<lparr>wr_out = [], wr_script = []\<rparr>" sample_cnxn "\<lparr>rd_data = [5], rd_end = EOF\<rparr>"
      "\<lparr>wr_out = encode_message cnxn_request, wr_script = []\<rparr>"]
    HandshakeWithOptions_complete [of "[]" "[]" "[]" sample_cnxn "\<lparr>wr_out = [], wr_script = []\<rparr>"
      "\<lparr>rd_data = encode_message sample_cnxn @ [5], rd_end = EOF\<rparr>" "[5]" None]
  by (simp add: sample_cnxn_def msg_ok_def)


end
