(* ===== verification/GoStrings.thy ===== *)
theory GoStrings
  imports Prelude
begin

text \<open>
  The functions of Go's \<open>strings\<close> and \<open>strconv\<close> packages the program calls, on byte strings:
  prefixes and suffixes, \<open>Cut\<close>, \<open>TrimSpace\<close> (with the multi-byte white space of Unicode),
  \<open>Join\<close>, \<open>ContainsAny\<close>, \<open>EqualFold\<close> against an ASCII word, and decimal conversion with
  \<open>Atoi\<close>'s 64-bit range. The lemmas give the round trips the components use.
\<close>

section \<open>Prefixes, suffixes, cutting\<close>

definition HasPrefix :: "string \<Rightarrow> string \<Rightarrow> bool" where
  "HasPrefix s p \<longleftrightarrow> take (length p) s = p"

definition HasSuffix :: "string \<Rightarrow> string \<Rightarrow> bool" where
  "HasSuffix s p \<longleftrightarrow> HasPrefix (rev s) (rev p)"

definition TrimPrefix :: "string \<Rightarrow> string \<Rightarrow> string" where
  "TrimPrefix s p = (if HasPrefix s p then drop (length p) s else s)"

definition TrimSuffix :: "string \<Rightarrow> string \<Rightarrow> string" where
  "TrimSuffix s p = (if HasSuffix s p then take (length s - length p) s else s)"

definition CutPrefix :: "string \<Rightarrow> string \<Rightarrow> string option" where
  "CutPrefix s p = (if HasPrefix s p then Some (drop (length p) s) else None)"

text \<open>\<open>strings.Cut(s, sep)\<close>: the parts around the first occurrence of \<open>sep\<close>.\<close>

fun Cut :: "string \<Rightarrow> string \<Rightarrow> (string \<times> string) option" where
  "Cut [] sep = (if sep = [] then Some ([], []) else None)"
| "Cut (c # s) sep =
     (if HasPrefix (c # s) sep then Some ([], drop (length sep) (c # s))
      else map_option (\<lambda>(a, b). (c # a, b)) (Cut s sep))"

fun IndexByte :: "string \<Rightarrow> char \<Rightarrow> nat option" where
  "IndexByte [] c = None"
| "IndexByte (x # xs) c = (if x = c then Some 0 else map_option Suc (IndexByte xs c))"

definition LastIndexByte :: "string \<Rightarrow> char \<Rightarrow> nat option" where
  "LastIndexByte s c = map_option (\<lambda>i. length s - 1 - i) (IndexByte (rev s) c)"

definition Count :: "string \<Rightarrow> char \<Rightarrow> nat" where
  "Count s c = length (filter (\<lambda>x. x = c) s)"

definition ContainsAny :: "string \<Rightarrow> string \<Rightarrow> bool" where
  "ContainsAny s chars \<longleftrightarrow> list_ex (\<lambda>c. c \<in> set chars) s"

fun Join :: "string list \<Rightarrow> string \<Rightarrow> string" where
  "Join [] sep = []"
| "Join [x] sep = x"
| "Join (x # y # zs) sep = x @ sep @ Join (y # zs) sep"

section \<open>White space\<close>

text \<open>The UTF-8 encodings of the runes for which \<open>unicode.IsSpace\<close> holds.\<close>

definition space_runes :: "string list" where
  "space_runes =
     [[CHR 0x20], [CHR 0x09], [CHR 0x0A], [CHR 0x0B], [CHR 0x0C], [CHR 0x0D],
      [CHR 0xC2, CHR 0x85], [CHR 0xC2, CHR 0xA0], [CHR 0xE1, CHR 0x9A, CHR 0x80]]
     @ map (\<lambda>b. [CHR 0xE2, CHR 0x80, b])
         [CHR 0x80, CHR 0x81, CHR 0x82, CHR 0x83, CHR 0x84, CHR 0x85, CHR 0x86, CHR 0x87,
          CHR 0x88, CHR 0x89, CHR 0x8A, CHR 0xA8, CHR 0xA9, CHR 0xAF]
     @ [[CHR 0xE2, CHR 0x81, CHR 0x9F], [CHR 0xE3, CHR 0x80, CHR 0x80]]"

definition strip_rune :: "string list \<Rightarrow> string \<Rightarrow> string option" where
  "strip_rune rs s = (case find (HasPrefix s) rs of None \<Rightarrow> None | Some p \<Rightarrow> Some (drop (length p) s))"

lemma strip_rune_less:
  "strip_rune rs s = Some t \<Longrightarrow> [] \<notin> set rs \<Longrightarrow> length t < length s"
proof -
  assume "strip_rune rs s = Some t" "[] \<notin> set rs"
  then obtain p where p: "find (HasPrefix s) rs = Some p" "t = drop (length p) s"
    by (auto simp: strip_rune_def split: option.splits)
  then have "HasPrefix s p" "p \<noteq> []" using \<open>[] \<notin> set rs\<close>
    by (auto simp: find_Some_iff) (metis nth_mem)
  moreover from this have "s \<noteq> []" by (auto simp: HasPrefix_def)
  ultimately show ?thesis using p by (simp add: HasPrefix_def)
qed

function trim_left :: "string list \<Rightarrow> string \<Rightarrow> string" where
  "trim_left rs s =
     (case strip_rune rs s of
        None \<Rightarrow> s
      | Some t \<Rightarrow> if length t < length s then trim_left rs t else s)"
  by pat_completeness auto
termination
  by (relation "measure (\<lambda>(rs, s). length s)") auto

declare trim_left.simps [simp del]

definition TrimSpace :: "string \<Rightarrow> string" where
  "TrimSpace s = rev (trim_left (map rev space_runes) (rev (trim_left space_runes s)))"

section \<open>Case folding\<close>

text \<open>\<open>strings.EqualFold(s, t)\<close> for a word \<open>t\<close> of lower-case ASCII letters. Simple folding also
  relates \<open>s\<close> to the long s (U+017F) and \<open>k\<close> to the Kelvin sign (U+212A).\<close>

definition fold_variants :: "char \<Rightarrow> string list" where
  "fold_variants c =
     [[c], [char_of (of_char c - (32 :: nat))]]
     @ (if c = CHR ''s'' then [[CHR 0xC5, CHR 0xBF]] else [])
     @ (if c = CHR ''k'' then [[CHR 0xE2, CHR 0x84, CHR 0xAA]] else [])"

fun EqualFold_lower :: "string \<Rightarrow> string \<Rightarrow> bool" where
  "EqualFold_lower s [] = (s = [])"
| "EqualFold_lower s (c # t) =
     (case strip_rune (fold_variants c) s of None \<Rightarrow> False | Some s' \<Rightarrow> EqualFold_lower s' t)"

section \<open>Decimal numbers\<close>

definition digit_char :: "nat \<Rightarrow> char" where
  "digit_char d = char_of (48 + d)"

definition digit_value :: "char \<Rightarrow> nat option" where
  "digit_value c =
     (let n = (of_char c :: nat) in if 48 \<le> n \<and> n \<le> 57 then Some (n - 48) else None)"

text \<open>\<open>strconv.FormatUint(n, 10)\<close>\<close>

fun FormatUint :: "nat \<Rightarrow> string" where
  "FormatUint n = (if n < 10 then [digit_char n] else FormatUint (n div 10) @ [digit_char (n mod 10)])"

declare FormatUint.simps [simp del]

definition Itoa :: "int \<Rightarrow> string" where
  "Itoa i = (if i < 0 then CHR ''-'' # FormatUint (nat (- i)) else FormatUint (nat i))"

fun parse_digits :: "nat \<Rightarrow> string \<Rightarrow> nat option" where
  "parse_digits acc [] = Some acc"
| "parse_digits acc (c # s) =
     (case digit_value c of None \<Rightarrow> None | Some d \<Rightarrow> parse_digits (10 * acc + d) s)"

datatype num_error = ErrSyntax | ErrRange

definition Atoi :: "string \<Rightarrow> num_error + int" where
  "Atoi s =
     (let neg = (s \<noteq> [] \<and> hd s = CHR ''-'');
          body = (if s \<noteq> [] \<and> hd s \<in> {CHR ''-'', CHR ''+''} then tl s else s)
      in if body = [] then Inl ErrSyntax
         else case parse_digits 0 body of
             None \<Rightarrow> Inl ErrSyntax
           | Some n \<Rightarrow>
               let v = (if neg then - int n else int n)
               in if v < - (2 ^ 63) \<or> 2 ^ 63 \<le> v then Inl ErrRange else Inr v)"

section \<open>Order\<close>

text \<open>The operator \<open><\<close> on strings: bytewise, a proper prefix being smaller.\<close>

fun str_less :: "string \<Rightarrow> string \<Rightarrow> bool" where
  "str_less _ [] = False"
| "str_less [] (_ # _) = True"
| "str_less (a # s) (b # t) =
     (if a = b then str_less s t else (of_char a :: nat) < of_char b)"

section \<open>Lemmas\<close>

lemma str_less_irrefl [simp]: "\<not> str_less s s"
  by (induction s) auto

lemma str_less_trans: "str_less s t \<Longrightarrow> str_less t u \<Longrightarrow> str_less s u"
proof (induction s t arbitrary: u rule: str_less.induct)
  case (3 a s b t)
  then show ?case by (cases u) (auto split: if_splits)
next
  case (2 b t)
  then show ?case by (cases u) auto
qed simp

lemma str_less_total: "s \<noteq> t \<Longrightarrow> str_less s t \<or> str_less t s"
proof (induction s t rule: str_less.induct)
  case (1 s)
  then show ?case by (cases s) auto
next
  case (3 a s b t)
  have "a \<noteq> b \<Longrightarrow> (of_char a :: nat) < of_char b \<or> (of_char b :: nat) < of_char a"
    by (metis linorder_neqE_nat of_char_eq_iff)
  with 3 show ?case by auto
qed simp


lemma HasPrefix_append [simp]: "HasPrefix (p @ s) p"
  by (simp add: HasPrefix_def)

lemma HasPrefix_iff: "HasPrefix s p \<longleftrightarrow> (\<exists>t. s = p @ t)"
  by (auto simp: HasPrefix_def) (metis append_take_drop_id)

lemma HasSuffix_iff: "HasSuffix s p \<longleftrightarrow> (\<exists>t. s = t @ p)"
  by (auto simp: HasSuffix_def HasPrefix_iff rev_swap) (metis rev_rev_ident)

lemma TrimSuffix_append [simp]: "TrimSuffix (s @ p) p = s"
  by (auto simp: TrimSuffix_def HasSuffix_iff)

lemma TrimSuffix_none [simp]: "\<not> HasSuffix s p \<Longrightarrow> TrimSuffix s p = s"
  by (simp add: TrimSuffix_def)

lemma TrimPrefix_append [simp]: "TrimPrefix (p @ s) p = s"
  by (simp add: TrimPrefix_def)

lemma CutPrefix_append [simp]: "CutPrefix (p @ s) p = Some s"
  by (simp add: CutPrefix_def)

lemma CutPrefix_SomeD: "CutPrefix s p = Some t \<Longrightarrow> s = p @ t"
  by (auto simp: CutPrefix_def HasPrefix_iff split: if_splits)

lemma IndexByte_None [simp]: "IndexByte s c = None \<longleftrightarrow> c \<notin> set s"
  by (induction s) auto

lemma IndexByte_append [simp]:
  "c \<notin> set a \<Longrightarrow> IndexByte (a @ c # b) c = Some (length a)"
  by (induction a) auto

lemma LastIndexByte_None [simp]: "LastIndexByte s c = None \<longleftrightarrow> c \<notin> set s"
  by (simp add: LastIndexByte_def)

lemma LastIndexByte_append [simp]:
  "c \<notin> set b \<Longrightarrow> LastIndexByte (a @ c # b) c = Some (length a)"
  by (simp add: LastIndexByte_def)

lemma Cut_append:
  "sep = d # ds \<Longrightarrow> d \<notin> set a \<Longrightarrow> Cut (a @ sep @ b) sep = Some (a, b)"
  by (induction a) (auto simp: HasPrefix_def)

lemma digit_value_digit_char [simp]: "d < 10 \<Longrightarrow> digit_value (digit_char d) = Some d"
  by (simp add: digit_value_def digit_char_def)

lemma parse_digits_append: "parse_digits acc (a @ b) =
    (case parse_digits acc a of None \<Rightarrow> None | Some n \<Rightarrow> parse_digits n b)"
  by (induction a arbitrary: acc) (auto split: option.splits)

lemma parse_digits_FormatUint [simp]: "parse_digits 0 (FormatUint n) = Some n"
  by (induction n rule: FormatUint.induct)
    (subst FormatUint.simps, auto simp: parse_digits_append)

lemma FormatUint_not_Nil [simp]: "FormatUint n \<noteq> []"
  by (subst FormatUint.simps) simp

lemma FormatUint_inject [simp]: "FormatUint m = FormatUint n \<longleftrightarrow> m = n"
  by (metis option.inject parse_digits_FormatUint)

lemma digits_of_FormatUint: "c \<in> set (FormatUint n) \<Longrightarrow> digit_value c \<noteq> None"
  by (induction n rule: FormatUint.induct) (subst (asm) (2) FormatUint.simps, auto split: if_splits)

lemma not_digit [simp]:
  "digit_value CHR ''-'' = None" "digit_value CHR ''+'' = None" "digit_value CHR '':'' = None"
  "digit_value CHR ''['' = None" "digit_value CHR '']'' = None" "digit_value CHR '' '' = None"
  by (simp_all add: digit_value_def)

lemma FormatUint_chars [simp]: "digit_value c = None \<Longrightarrow> c \<notin> set (FormatUint n)"
  using digits_of_FormatUint by blast

lemma hd_FormatUint: "digit_value c = None \<Longrightarrow> hd (FormatUint n) \<noteq> c"
  by (metis FormatUint_chars FormatUint_not_Nil hd_in_set)

lemma Atoi_Itoa [codec]:
  assumes "- (2 ^ 63) \<le> i" "i < 2 ^ 63" shows "Atoi (Itoa i) = Inr i"
  using assms hd_FormatUint [of "CHR ''-''" "nat i"] hd_FormatUint [of "CHR ''+''" "nat i"]
  by (auto simp: Atoi_def Itoa_def Let_def)

lemma Itoa_port [simp]: "Itoa (int n) = FormatUint n"
  by (simp add: Itoa_def)

lemma Atoi_FormatUint [simp]: "n < 2 ^ 63 \<Longrightarrow> Atoi (FormatUint n) = Inr (int n)"
  using Atoi_Itoa [of "int n"] by simp

lemma strip_rune_None: "strip_rune rs s = None \<longleftrightarrow> (\<forall>p\<in>set rs. \<not> HasPrefix s p)"
  by (auto simp: strip_rune_def find_None_iff find_Some_iff split: option.splits)

lemma trim_left_id: "\<forall>p\<in>set rs. \<not> HasPrefix s p \<Longrightarrow> trim_left rs s = s"
  by (simp add: trim_left.simps strip_rune_None [symmetric])

lemma trim_left_clean:
  "[] \<in> set rs \<or> (\<forall>p\<in>set rs. \<not> HasPrefix (trim_left rs s) p)"
proof (induction rs s rule: trim_left.induct)
  case (1 rs s)
  show ?case
  proof (cases "strip_rune rs s")
    case None
    then show ?thesis using strip_rune_None [of rs s] by (simp add: trim_left.simps)
  next
    case (Some t)
    show ?thesis
    proof (cases "[] \<in> set rs")
      case False
      with Some 1 strip_rune_less [OF Some] show ?thesis by (subst trim_left.simps) simp
    qed simp
  qed
qed

lemma trim_left_suffix: "\<exists>p. s = p @ trim_left rs s"
proof (induction rs s rule: trim_left.induct)
  case (1 rs s)
  show ?case
  proof (cases "strip_rune rs s")
    case None
    then show ?thesis by (simp add: trim_left.simps)
  next
    case (Some t)
    then obtain p where "s = p @ t"
      by (auto simp: strip_rune_def split: option.splits) (metis append_take_drop_id)
    with 1 [OF Some] Some show ?thesis
      by (subst trim_left.simps) (auto, metis append_assoc)
  qed
qed

lemma TrimSpace_infix: "\<exists>a b. s = a @ TrimSpace s @ b"
proof -
  obtain a where a: "s = a @ trim_left space_runes s" using trim_left_suffix by blast
  obtain b where "rev (trim_left space_runes s) = b @ trim_left (map rev space_runes) (rev (trim_left space_runes s))"
    using trim_left_suffix by blast
  then have "trim_left space_runes s = TrimSpace s @ rev b"
    unfolding TrimSpace_def by (metis rev_append rev_rev_ident)
  with a show ?thesis by metis
qed

end
