(* ===== verification/FakeDevice.thy ===== *)
theory FakeDevice
  imports Handshake GoStrings
begin

text \<open>
  The in-process device \<open>internal/fakeadb/server.go\<close>: its authentication requirement, the
  device side of the handshake, the table of service handlers and the loop that serves one
  connection. Handlers are supplied by the caller, so they are values of the model's state.
  The listener and its goroutines are not modelled: a connection is its two byte streams.
\<close>

section \<open>State\<close>

definition deviceIdentityString :: string where
  "deviceIdentityString = ''device::fake''"

record authRequirement =
  enabled :: bool
  token :: bytes
  acceptedSignature :: bytes
  acceptedPublicKey :: bytes

text \<open>A handler exchanges raw messages over the connection and returns what it left of it.\<close>

type_synonym service_handler = "message \<Rightarrow> reader \<Rightarrow> writer \<Rightarrow> reader \<times> writer"

record fake_server =
  fs_handlers :: "string \<Rightarrow> service_handler option"
  fs_conns :: "nat set"
  fs_auth :: authRequirement

datatype fake_error = FakeRead msg_error | FakeWrite io_error | FakeExpectedCNXN u32

section \<open>Operations\<close>

definition accepts :: "authRequirement \<Rightarrow> message \<Rightarrow> bool" where
  "accepts a msg =
     (if Arg0 msg = AuthSignature
      then 0 < length (acceptedSignature a) \<and> Payload msg = acceptedSignature a
      else if Arg0 msg = AuthRSAPublicKey
      then 0 < length (acceptedPublicKey a) \<and> Payload msg = acceptedPublicKey a
      else False)"

definition fake_Listen :: fake_server where
  "fake_Listen = \<lparr>fs_handlers = Map.empty, fs_conns = {},
     fs_auth = \<lparr>enabled = False, token = [], acceptedSignature = [], acceptedPublicKey = []\<rparr>\<rparr>"

definition fake_Handle :: "string \<Rightarrow> service_handler \<Rightarrow> fake_server \<Rightarrow> fake_server" where
  "fake_Handle service h s = s\<lparr>fs_handlers := (fs_handlers s)(service \<mapsto> h)\<rparr>"

definition RequireAuth :: "bytes \<Rightarrow> bytes \<Rightarrow> bytes \<Rightarrow> fake_server \<Rightarrow> fake_server" where
  "RequireAuth tok sig key s =
     s\<lparr>fs_auth := \<lparr>enabled = True, token = tok, acceptedSignature = sig, acceptedPublicKey = key\<rparr>\<rparr>"

definition track :: "nat \<Rightarrow> fake_server \<Rightarrow> fake_server" where
  "track conn s = s\<lparr>fs_conns := insert conn (fs_conns s)\<rparr>"

definition untrack :: "nat \<Rightarrow> fake_server \<Rightarrow> fake_server" where
  "untrack conn s = s\<lparr>fs_conns := fs_conns s - {conn}\<rparr>"

definition auth_challenge :: "authRequirement \<Rightarrow> message" where
  "auth_challenge a = \<lparr>Command = CommandAUTH, Arg0 = AuthToken, Arg1 = 0, Payload = token a\<rparr>"

definition device_cnxn :: message where
  "device_cnxn = \<lparr>Command = CommandCNXN, Arg0 = Version, Arg1 = MaxPayload,
     Payload = bytes_of_string (deviceIdentityString @ [CHR 0x00])\<rparr>"

definition write_result :: "io_error option \<times> writer \<Rightarrow> reader \<Rightarrow> fake_error option \<times> reader \<times> writer" where
  "write_result res r = (map_option FakeWrite (fst res), r, snd res)"

definition fake_handshake ::
  "authRequirement \<Rightarrow> reader \<Rightarrow> writer \<Rightarrow> fake_error option \<times> reader \<times> writer" where
  "fake_handshake auth r w =
     (case ReadMessage r of
        (Inl err, r1) \<Rightarrow> (Some (FakeRead err), r1, w)
      | (Inr request, r1) \<Rightarrow>
          if Command request \<noteq> CommandCNXN then (Some (FakeExpectedCNXN (Command request)), r1, w)
          else if enabled auth then
            (case WriteMessage w (auth_challenge auth) of
               (Some err, w1) \<Rightarrow> (Some (FakeWrite err), r1, w1)
             | (None, w1) \<Rightarrow>
                 (case ReadMessage r1 of
                    (Inl err, r2) \<Rightarrow> (Some (FakeRead err), r2, w1)
                  | (Inr response, r2) \<Rightarrow>
                      if \<not> accepts auth response
                      then write_result (WriteMessage w1 (auth_challenge auth)) r2
                      else write_result (WriteMessage w1 device_cnxn) r2))
          else write_result (WriteMessage w device_cnxn) r1)"

text \<open>The loop of \<open>handleConn\<close> after the handshake. One unit of fuel is one message; \<open>None\<close> is a
  loop that has not ended.\<close>

fun serve_conn :: "nat \<Rightarrow> fake_server \<Rightarrow> reader \<Rightarrow> writer \<Rightarrow> (reader \<times> writer) option" where
  "serve_conn 0 s r w = None"
| "serve_conn (Suc fuel) s r w =
     (case ReadMessage r of
        (Inl _, r1) \<Rightarrow> Some (r1, w)
      | (Inr msg, r1) \<Rightarrow>
          if Command msg \<noteq> CommandOPEN then serve_conn fuel s r1 w
          else (case fs_handlers s (TrimSuffix (string_of_bytes (Payload msg)) [CHR 0x00]) of
              None \<Rightarrow>
                serve_conn fuel s r1
                  (snd (WriteMessage w \<lparr>Command = CommandCLSE, Arg0 = 0, Arg1 = Arg0 msg, Payload = []\<rparr>))
            | Some handler \<Rightarrow> (case handler msg r1 w of (r2, w2) \<Rightarrow> serve_conn fuel s r2 w2)))"

definition handleConn :: "nat \<Rightarrow> fake_server \<Rightarrow> reader \<Rightarrow> writer \<Rightarrow> (reader \<times> writer) option" where
  "handleConn fuel s r w =
     (case fake_handshake (fs_auth s) r w of
        (Some _, r1, w1) \<Rightarrow> Some (r1, w1)
      | (None, r1, w1) \<Rightarrow> serve_conn fuel s r1 w1)"

section \<open>Serving a connection ends\<close>

definition handlers_consume :: "fake_server \<Rightarrow> bool" where
  "handlers_consume s \<longleftrightarrow>
     (\<forall>service h msg r w. fs_handlers s service = Some h \<longrightarrow>
        length (rd_data (fst (h msg r w))) \<le> length (rd_data r))"

lemma serve_conn_enough:
  assumes "handlers_consume s" "length (rd_data r) < fuel"
  shows "\<exists>res. serve_conn fuel s r w = Some res"
  using assms(2)
proof (induction fuel arbitrary: r w)
  case 0
  then show ?case by simp
next
  case (Suc fuel)
  show ?case
  proof (cases "ReadMessage r")
    case (Pair x r1)
    show ?thesis
    proof (cases x)
      case (Inl e)
      with Pair show ?thesis by simp
    next
      case (Inr msg)
      with Pair have less: "length (rd_data r1) < fuel"
        using ReadMessage_length [of r msg r1] Suc.prems by simp
      show ?thesis
      proof (cases "fs_handlers s (TrimSuffix (string_of_bytes (Payload msg)) [CHR 0x00])")
        case None
        with Pair Inr less Suc.IH show ?thesis by simp
      next
        case (Some h)
        obtain r2 w2 where h: "h msg r1 w = (r2, w2)" by (metis surj_pair)
        with assms(1) Some have "length (rd_data r2) \<le> length (rd_data r1)"
          unfolding handlers_consume_def by (metis fst_conv)
        with less have "length (rd_data r2) < fuel" by simp
        with Pair Inr Some h less Suc.IH show ?thesis by simp
      qed
    qed
  qed
qed

section \<open>Properties\<close>

lemma msg_ok_fixed [simp]: "msg_ok cnxn_request" "msg_ok device_cnxn"
  by (simp_all add: msg_ok_def cnxn_request_def device_cnxn_def SystemIdentityString_def
      deviceIdentityString_def)

lemma cnxn_commands [simp]:
  "Command cnxn_request = CommandCNXN" "Command device_cnxn = CommandCNXN"
  by (simp_all add: cnxn_request_def device_cnxn_def)

lemma signature_answers:
  assumes "signers creds = sign # others" "sign (sha1 (token auth)) = Inr sig"
  shows "answers (remaining_offers creds init_auth) [auth_challenge auth]
    [\<lparr>Command = CommandAUTH, Arg0 = AuthSignature, Arg1 = 0, Payload = sig\<rparr>]"
  using assms by (simp add: remaining_offers_def init_auth_def auth_challenge_def is_token_def)

text \<open>C6: The host and the device complete the authenticated handshake together: when the first
  usable credential signs the device's token with the signature the device accepts, the host run on
  what the device sends returns the device's \<open>CNXN\<close>, and the device run on what the host sends
  sends exactly that, both without error and with nothing left unread.\<close>

theorem handshake_with_device:
  assumes "enabled auth" and "signers creds = sign # others"
    and "sign (sha1 (token auth)) = Inr (acceptedSignature auth)"
    and "acceptedSignature auth \<noteq> []" "length (acceptedSignature auth) < 2 ^ 32"
    and "length (token auth) < 2 ^ 32"
  shows "\<exists>host_sends device_sends.
    HandshakeWithOptions None ctx creds \<lparr>rd_data = device_sends, rd_end = EOF\<rparr> \<lparr>wr_out = [], wr_script = []\<rparr>
      = (Inr device_cnxn, \<lparr>rd_data = [], rd_end = EOF\<rparr>, \<lparr>wr_out = host_sends, wr_script = []\<rparr>) \<and>
    fake_handshake auth \<lparr>rd_data = host_sends, rd_end = EOF\<rparr> \<lparr>wr_out = [], wr_script = []\<rparr>
      = (None, \<lparr>rd_data = [], rd_end = EOF\<rparr>, \<lparr>wr_out = device_sends, wr_script = []\<rparr>)"
proof -
  let ?reply = "\<lparr>Command = CommandAUTH, Arg0 = AuthSignature, Arg1 = 0, Payload = acceptedSignature auth\<rparr>"
  let ?device = "encode_message (auth_challenge auth) @ encode_message device_cnxn"
  let ?host = "encode_message cnxn_request @ encode_message ?reply"
  have ok: "msg_ok (auth_challenge auth)" "msg_ok ?reply"
    using assms by (simp_all add: msg_ok_def auth_challenge_def)
  have "HandshakeWithOptions None ctx creds \<lparr>rd_data = ?device, rd_end = EOF\<rparr> \<lparr>wr_out = [], wr_script = []\<rparr>
      = (Inr device_cnxn, \<lparr>rd_data = [], rd_end = EOF\<rparr>, \<lparr>wr_out = ?host, wr_script = []\<rparr>)"
    using HandshakeWithOptions_complete [OF signature_answers [OF assms(2,3)], of device_cnxn
        "\<lparr>wr_out = [], wr_script = []\<rparr>" "\<lparr>rd_data = ?device, rd_end = EOF\<rparr>" "[]" ctx] ok
    by simp
  moreover have "fake_handshake auth \<lparr>rd_data = ?host, rd_end = EOF\<rparr> \<lparr>wr_out = [], wr_script = []\<rparr>
      = (None, \<lparr>rd_data = [], rd_end = EOF\<rparr>, \<lparr>wr_out = ?device, wr_script = []\<rparr>)"
    using assms ok
    by (simp add: fake_handshake_def write_result_def accepts_def
        ReadMessage_encode [of cnxn_request _ "encode_message ?reply"] ReadMessage_encode [of ?reply _ "[]"])
  ultimately show ?thesis by blast
qed

definition sample_auth :: authRequirement where
  "sample_auth = \<lparr>enabled = True, token = [1, 2], acceptedSignature = [7], acceptedPublicKey = []\<rparr>"

definition sample_creds :: credentials where
  "sample_creds = [None, Some \<lparr>Signer = Some (\<lambda>_. Inr [7]), PublicKeyPayload = [3]\<rparr>]"

theorem handshake_with_device_witness:
  "\<exists>host_sends device_sends.
    HandshakeWithOptions None None sample_creds \<lparr>rd_data = device_sends, rd_end = EOF\<rparr>
        \<lparr>wr_out = [], wr_script = []\<rparr>
      = (Inr device_cnxn, \<lparr>rd_data = [], rd_end = EOF\<rparr>, \<lparr>wr_out = host_sends, wr_script = []\<rparr>) \<and>
    fake_handshake sample_auth \<lparr>rd_data = host_sends, rd_end = EOF\<rparr> \<lparr>wr_out = [], wr_script = []\<rparr>
      = (None, \<lparr>rd_data = [], rd_end = EOF\<rparr>, \<lparr>wr_out = device_sends, wr_script = []\<rparr>)"
  by (rule handshake_with_device [where sign = "\<lambda>_. Inr [7]" and others = "[]"])
    (simp_all add: sample_auth_def sample_creds_def)

text \<open>A device that rejected the host's answer goes on to serve the connection: the handshake
  returns no error, so \<open>handleConn\<close> enters the service loop.\<close>

lemma rejected_handshake_still_serves:
  assumes "enabled auth" "\<not> accepts auth response" "msg_ok response"
    and "rd_data r = encode_message cnxn_request @ encode_message response @ rest" "wr_script w = []"
  shows "fst (fake_handshake auth r w) = None \<and> rd_data (fst (snd (fake_handshake auth r w))) = rest"
  using assms
  by (simp add: fake_handshake_def write_result_def
      ReadMessage_encode [of cnxn_request _ "encode_message response @ rest"]
      ReadMessage_encode [of response _ rest])

end
