(* ===== verification/FakeServer.thy ===== *)
theory FakeServer
  imports FakeDevice
begin

text \<open>
  The life of the in-process device \<open>internal/fakeadb/server.go\<close>: \<open>serve\<close>, the goroutine of each connection, and \<open>Close\<close>, as a machine
  that interleaves them. A connection is its number, the goroutine of a connection ends when its connection is closed or its
  client stops; what it exchanges meanwhile is the subject of \<open>FakeDevice\<close>.
\<close>

section \<open>The machine\<close>

datatype serve_stage = InAccept | ToTrack nat | ToSpawn nat | ServeEnded

datatype handler_stage = Serving | ToUntrack | ToFinish | HandlerEnded

datatype close_stage = NotClosing | ToCloseListener | ToCloseConns | InWait | Closed

record fake_life =
  fk_server :: fake_server
  fk_cancelled :: bool
  fk_listening :: bool
  fk_serve :: serve_stage
  fk_handlers :: "(nat \<times> handler_stage) list" \<comment> \<open>one goroutine each, with its connection\<close>
  fk_open :: "bool list" \<comment> \<open>the connections that were accepted\<close>
  fk_wg :: nat
  fk_close :: close_stage

definition fake_started :: fake_life where
  "fake_started = \<lparr>fk_server = fake_Listen, fk_cancelled = False, fk_listening = True, fk_serve = InAccept, fk_handlers = [], fk_open = [],
     fk_wg = 1, fk_close = NotClosing\<rparr>"

text \<open>\<open>AcceptFails\<close> is an error of \<open>Accept\<close> other than \<open>net.ErrClosed\<close>. \<open>ClientStops h\<close> is the end of what the goroutine \<open>h\<close> reads.\<close>

datatype fake_event =
    ClientDials
  | AcceptFails
  | ServeStep
  | ClientStops nat
  | HandlerStep nat
  | CloseStep

definition close_conn :: "nat \<Rightarrow> fake_life \<Rightarrow> fake_life" where
  "close_conn c s = s\<lparr>fk_open := (fk_open s)[c := False]\<rparr>"

definition close_tracked :: "fake_life \<Rightarrow> fake_life" where
  "close_tracked s = s\<lparr>fk_open := map (\<lambda>c. fk_open s ! c \<and> c \<notin> fs_conns (fk_server s)) [0..<length (fk_open s)]\<rparr>"

definition set_handler :: "nat \<Rightarrow> handler_stage \<Rightarrow> fake_life \<Rightarrow> fake_life" where
  "set_handler h st s = s\<lparr>fk_handlers := (fk_handlers s)[h := (fst (fk_handlers s ! h), st)]\<rparr>"

text \<open>\<open>serve\<close> after \<open>Accept\<close>: an error when the listener is closed, else the connection is tracked and given its goroutine.\<close>

definition fake_serve :: "fake_life \<Rightarrow> fake_life option" where
  "fake_serve s =
     (case fk_serve s of
        InAccept \<Rightarrow> if fk_listening s then None else Some (s\<lparr>fk_serve := ServeEnded, fk_wg := fk_wg s - 1\<rparr>)
      | ToTrack c \<Rightarrow> Some (s\<lparr>fk_server := track c (fk_server s), fk_serve := ToSpawn c\<rparr>)
      | ToSpawn c \<Rightarrow> Some (s\<lparr>fk_wg := Suc (fk_wg s), fk_handlers := fk_handlers s @ [(c, Serving)], fk_serve := InAccept\<rparr>)
      | ServeEnded \<Rightarrow> None)"

text \<open>The deferred calls of \<open>handleConn\<close>, in their order.\<close>

definition handler_return :: "nat \<Rightarrow> fake_life \<Rightarrow> fake_life option" where
  "handler_return h s =
     (case fk_handlers s ! h of (c, st) \<Rightarrow>
        (case st of
           Serving \<Rightarrow> None
         | ToUntrack \<Rightarrow> Some (set_handler h ToFinish (s\<lparr>fk_server := untrack c (fk_server s)\<rparr>))
         | ToFinish \<Rightarrow> Some (set_handler h HandlerEnded (s\<lparr>fk_wg := fk_wg s - 1\<rparr>))
         | HandlerEnded \<Rightarrow> None))"

definition handler_stops :: "nat \<Rightarrow> fake_life \<Rightarrow> fake_life" where
  "handler_stops h s = set_handler h ToUntrack (close_conn (fst (fk_handlers s ! h)) s)"

definition fake_Close :: "fake_life \<Rightarrow> fake_life option" where
  "fake_Close s =
     (case fk_close s of
        NotClosing \<Rightarrow> Some (s\<lparr>fk_cancelled := True, fk_close := ToCloseListener\<rparr>)
      | ToCloseListener \<Rightarrow> Some (s\<lparr>fk_listening := False, fk_close := ToCloseConns\<rparr>)
      | ToCloseConns \<Rightarrow> Some ((close_tracked s)\<lparr>fk_close := InWait\<rparr>)
      | InWait \<Rightarrow> if fk_wg s = 0 then Some (s\<lparr>fk_close := Closed\<rparr>) else None
      | Closed \<Rightarrow> None)"

fun fake_step :: "fake_event \<Rightarrow> fake_life \<Rightarrow> (unit \<times> fake_life) option" where
  "fake_step ClientDials s =
     (if fk_listening s \<and> fk_serve s = InAccept
      then Some ((), s\<lparr>fk_open := fk_open s @ [True], fk_serve := ToTrack (length (fk_open s))\<rparr>) else None)"
| "fake_step AcceptFails s =
     (if fk_serve s \<noteq> InAccept then None
      else Some ((), if fk_cancelled s then s\<lparr>fk_serve := ServeEnded, fk_wg := fk_wg s - 1\<rparr> else s))"
| "fake_step ServeStep s = map_option (Pair ()) (fake_serve s)"
| "fake_step (ClientStops h) s =
     (if h < length (fk_handlers s) \<and> snd (fk_handlers s ! h) = Serving \<and> fk_open s ! fst (fk_handlers s ! h)
      then Some ((), handler_stops h s) else None)"
| "fake_step (HandlerStep h) s =
     (if \<not> h < length (fk_handlers s) then None
      else if snd (fk_handlers s ! h) = Serving
        then (if fk_open s ! fst (fk_handlers s ! h) then None else Some ((), handler_stops h s))
      else map_option (Pair ()) (handler_return h s))"
| "fake_step CloseStep s = map_option (Pair ()) (fake_Close s)"

section \<open>What Close leaves\<close>

definition running :: "(nat \<times> handler_stage) list \<Rightarrow> nat" where
  "running hs = length (filter (\<lambda>h. snd h \<noteq> HandlerEnded) hs)"

text \<open>Every open connection is served, or on its way to be; every tracked one has a goroutine that will untrack it.\<close>

definition owned_conn :: "fake_life \<Rightarrow> nat \<Rightarrow> bool" where
  "owned_conn s c \<longleftrightarrow> fk_serve s = ToTrack c \<or> fk_serve s = ToSpawn c \<or> (c, Serving) \<in> set (fk_handlers s)"

definition tracked_conn :: "fake_life \<Rightarrow> nat \<Rightarrow> bool" where
  "tracked_conn s c \<longleftrightarrow> fk_serve s = ToSpawn c \<or> (\<exists>st \<in> {Serving, ToUntrack}. (c, st) \<in> set (fk_handlers s))"

definition fake_ok :: "fake_life \<Rightarrow> bool" where
  "fake_ok s \<longleftrightarrow> fk_wg s = (if fk_serve s = ServeEnded then 0 else 1) + running (fk_handlers s) \<and>
     (\<forall>c < length (fk_open s). fk_open s ! c \<longrightarrow> owned_conn s c) \<and> (\<forall>c \<in> fs_conns (fk_server s). tracked_conn s c) \<and>
     (fk_close s = Closed \<longrightarrow> fk_wg s = 0) \<and> (fk_close s \<in> {ToCloseConns, InWait, Closed} \<longrightarrow> \<not> fk_listening s) \<and>
     (\<forall>c. fk_serve s = ToTrack c \<or> fk_serve s = ToSpawn c \<longrightarrow> c \<notin> fst ` set (fk_handlers s) \<and> c < length (fk_open s)) \<and>
     distinct (map fst (fk_handlers s)) \<and> (\<forall>c \<in> fst ` set (fk_handlers s). c < length (fk_open s))"

lemma fake_ok_start: "fake_ok fake_started"
  by (simp add: fake_ok_def fake_started_def running_def fake_Listen_def)

lemma handler_mem:
  assumes "distinct (map fst hs)" "h < length hs"
  shows "(c, st) \<in> set (hs[h := (fst (hs ! h), st')]) \<longleftrightarrow> (if c = fst (hs ! h) then st = st' else (c, st) \<in> set hs)"
proof -
  have "i = h" if "i < length hs" "fst (hs ! i) = fst (hs ! h)" for i
    using assms that by (metis nth_eq_iff_index_eq length_map nth_map)
  with assms(2) show ?thesis by (auto simp: in_set_conv_nth nth_list_update) (metis fst_conv)+
qed

lemma handler_fst: "fst ` set (hs[h := (fst (hs ! h), st)]) = fst ` set hs" "map fst (hs[h := (fst (hs ! h), st)]) = map fst hs"
proof -
  show m: "map fst (hs[h := (fst (hs ! h), st)]) = map fst hs" 
    by (cases "h < length hs") (simp_all add: map_update list_update_same_conv list_update_beyond)
  show "fst ` set (hs[h := (fst (hs ! h), st)]) = fst ` set hs" by (metis m set_map)
qed

lemma handler_here: "h < length hs \<Longrightarrow> hs ! h = (c, st) \<Longrightarrow> (c, st) \<in> set hs"
  by (metis nth_mem)

lemma handler_unique: "distinct (map fst hs) \<Longrightarrow> (c, st) \<in> set hs \<Longrightarrow> (c, st') \<in> set hs \<Longrightarrow> st = st'"
  by (metis eq_key_imp_eq_value)

lemma running_append [simp]: "running (hs @ [(c, Serving)]) = Suc (running hs)"
  by (simp add: running_def)

lemma running_update:
  assumes "h < length hs" "snd (hs ! h) \<noteq> HandlerEnded"
  shows "running (hs[h := (c, st)]) = (if st = HandlerEnded then running hs - 1 else running hs)" "0 < running hs"
proof -
  have split: "hs = take h hs @ hs ! h # drop (Suc h) hs" using assms(1) by (rule id_take_nth_drop)
  have "running hs = running (take h hs) + 1 + running (drop (Suc h) hs)"
    unfolding running_def by (subst split) (use assms(2) in simp)
  moreover have "running (hs[h := (c, st)]) = running (take h hs) + (if st = HandlerEnded then 0 else 1) + running (drop (Suc h) hs)"
    using assms(1) by (simp add: upd_conv_take_nth_drop running_def)
  ultimately show "running (hs[h := (c, st)]) = (if st = HandlerEnded then running hs - 1 else running hs)" "0 < running hs" by simp_all
qed

lemma handler_stops_ok:
  assumes ok: "fake_ok s" and h: "h < length (fk_handlers s)" and st: "snd (fk_handlers s ! h) = Serving"
  shows "fake_ok (handler_stops h s)"
proof -
  obtain c where c: "fk_handlers s ! h = (c, Serving)" using st by (cases "fk_handlers s ! h") auto
  note mem = handler_mem [OF _ h, of _ _ ToUntrack, unfolded c, simplified]
  have d: "distinct (map fst (fk_handlers s))" using ok by (simp add: fake_ok_def)
  have "c < length (fk_open s)" "(c, Serving) \<in> set (fk_handlers s)" using ok handler_here [OF h c] by (force simp: fake_ok_def)+
  moreover have "running ((fk_handlers s)[h := (c, ToUntrack)]) = running (fk_handlers s)" using running_update(1) [OF h, of c ToUntrack] st by simp
  moreover note fs = handler_fst [of "fk_handlers s" h ToUntrack, unfolded c, simplified]
  ultimately show ?thesis
    using ok d unfolding fake_ok_def handler_stops_def set_handler_def close_conn_def owned_conn_def tracked_conn_def
    by (simp add: c fs mem nth_list_update) auto
qed

lemma untrack_ok:
  assumes ok: "fake_ok s" and h: "h < length (fk_handlers s)" and c: "fk_handlers s ! h = (c, ToUntrack)"
  shows "fake_ok (set_handler h ToFinish (s\<lparr>fk_server := untrack c (fk_server s)\<rparr>))"
proof -
  note mem = handler_mem [OF _ h, of _ _ ToFinish, unfolded c, simplified]
  have d: "distinct (map fst (fk_handlers s))" using ok by (simp add: fake_ok_def)
  have "running ((fk_handlers s)[h := (c, ToFinish)]) = running (fk_handlers s)" using running_update(1) [OF h, of c ToFinish] c by simp
  moreover note fs = handler_fst [of "fk_handlers s" h ToFinish, unfolded c, simplified]
  moreover have "(c, Serving) \<notin> set (fk_handlers s)" using handler_unique [OF d handler_here [OF h c]] by blast
  ultimately show ?thesis
    using ok d unfolding fake_ok_def set_handler_def owned_conn_def tracked_conn_def untrack_def
    by (simp add: c fs mem) auto
qed

lemma finish_ok:
  assumes ok: "fake_ok s" and h: "h < length (fk_handlers s)" and c: "fk_handlers s ! h = (c, ToFinish)"
  shows "fake_ok (set_handler h HandlerEnded (s\<lparr>fk_wg := fk_wg s - 1\<rparr>))"
proof -
  note mem = handler_mem [OF _ h, of _ _ HandlerEnded, unfolded c, simplified]
  have d: "distinct (map fst (fk_handlers s))" using ok by (simp add: fake_ok_def)
  have "running ((fk_handlers s)[h := (c, HandlerEnded)]) = running (fk_handlers s) - 1" "0 < running (fk_handlers s)"
    using running_update(1) [OF h, of c HandlerEnded] running_update(2) [OF h] c by simp_all
  moreover note fs = handler_fst [of "fk_handlers s" h HandlerEnded, unfolded c, simplified]
  moreover have "(c, Serving) \<notin> set (fk_handlers s)" "(c, ToUntrack) \<notin> set (fk_handlers s)"
    using handler_unique [OF d handler_here [OF h c]] by blast+
  ultimately show ?thesis
    using ok d unfolding fake_ok_def set_handler_def owned_conn_def tracked_conn_def
    by (simp add: c fs mem) auto
qed

lemma handler_bound: "fake_ok s \<Longrightarrow> (c, st) \<in> set (fk_handlers s) \<Longrightarrow> c < length (fk_open s)"
  unfolding fake_ok_def by force

lemma serve_ended_ok: "fake_ok s \<Longrightarrow> fk_serve s = InAccept \<Longrightarrow> fake_ok (s\<lparr>fk_serve := ServeEnded, fk_wg := fk_wg s - 1\<rparr>)"
  unfolding fake_ok_def owned_conn_def tracked_conn_def by simp linarith

lemma serve_ok:
  assumes ok: "fake_ok s" and step: "fake_serve s = Some s'"
  shows "fake_ok s'"
proof (cases "fk_serve s")
  case InAccept
  with assms serve_ended_ok [OF ok] show ?thesis by (auto simp: fake_serve_def split: if_splits)
next
  case (ToTrack c)
  with step have s': "s' = s\<lparr>fk_server := track c (fk_server s), fk_serve := ToSpawn c\<rparr>" by (simp add: fake_serve_def)
  have "fk_close s \<noteq> Closed" using ok ToTrack by (intro notI) (simp add: fake_ok_def, linarith)
  then show ?thesis using ok ToTrack unfolding s' fake_ok_def owned_conn_def tracked_conn_def by (simp add: track_def)
next
  case (ToSpawn c)
  with step have s': "s' = s\<lparr>fk_wg := Suc (fk_wg s), fk_handlers := fk_handlers s @ [(c, Serving)], fk_serve := InAccept\<rparr>"
    by (simp add: fake_serve_def)
  have "fk_close s \<noteq> Closed" using ok ToSpawn by (intro notI) (simp add: fake_ok_def, linarith)
  then show ?thesis using ok ToSpawn unfolding s' fake_ok_def owned_conn_def tracked_conn_def by (simp add: eq_commute [of _ c])
qed (use step in \<open>simp add: fake_serve_def\<close>)

lemma close_tracked_ok: "fake_ok s \<Longrightarrow> \<not> fk_listening s \<Longrightarrow> fake_ok ((close_tracked s)\<lparr>fk_close := InWait\<rparr>)"
  unfolding fake_ok_def close_tracked_def owned_conn_def tracked_conn_def by simp

lemma close_ok:
  assumes ok: "fake_ok s" and step: "fake_Close s = Some s'"
  shows "fake_ok s'"
proof (cases "fk_close s")
  case ToCloseConns
  then have "\<not> fk_listening s" using ok by (simp add: fake_ok_def)
  with close_tracked_ok [OF ok] ToCloseConns step show ?thesis by (simp add: fake_Close_def)
next
  case InWait
  with step have s': "s' = s\<lparr>fk_close := Closed\<rparr>" "fk_wg s = 0" by (auto simp: fake_Close_def split: if_splits)
  show ?thesis using ok InWait s'(2) unfolding s'(1) fake_ok_def owned_conn_def tracked_conn_def by simp
next
  case NotClosing
  with step have s': "s' = s\<lparr>fk_cancelled := True, fk_close := ToCloseListener\<rparr>" by (simp add: fake_Close_def)
  show ?thesis using ok NotClosing unfolding s' fake_ok_def owned_conn_def tracked_conn_def by simp
next
  case ToCloseListener
  with step have s': "s' = s\<lparr>fk_listening := False, fk_close := ToCloseConns\<rparr>" by (simp add: fake_Close_def)
  show ?thesis using ok ToCloseListener unfolding s' fake_ok_def owned_conn_def tracked_conn_def by simp
qed (use step in \<open>simp add: fake_Close_def\<close>)

lemma fake_step_ok:
  assumes ok: "fake_ok s" and step: "fake_step e s = Some (x, s')"
  shows "fake_ok s'"
proof (cases e)
  case ClientDials
  with step have s': "fk_listening s" "fk_serve s = InAccept"
    "s' = s\<lparr>fk_open := fk_open s @ [True], fk_serve := ToTrack (length (fk_open s))\<rparr>" by (auto split: if_splits)
  have "length (fk_open s) \<notin> fst ` set (fk_handlers s)" "\<forall>c \<in> fst ` set (fk_handlers s). c < Suc (length (fk_open s))"
    using handler_bound [OF ok] by force+
  with ok s'(1,2) show ?thesis unfolding s'(3) fake_ok_def owned_conn_def tracked_conn_def
    by (simp add: nth_append less_Suc_eq)
next
  case AcceptFails
  with assms serve_ended_ok [OF ok] show ?thesis by (auto split: if_splits)
next
  case (HandlerStep h)
  show ?thesis
  proof (cases "fk_handlers s ! h")
    case (Pair c st)
    with HandlerStep step show ?thesis
      using handler_stops_ok [OF ok, of h] untrack_ok [OF ok, of h c] finish_ok [OF ok, of h c]
      by (cases st) (auto simp: handler_return_def split: if_splits)
  qed
next
  case ServeStep
  with step serve_ok [OF ok] show ?thesis by auto
next
  case (ClientStops h)
  with step handler_stops_ok [OF ok] show ?thesis by (auto split: if_splits)
next
  case CloseStep
  with step close_ok [OF ok] show ?thesis by auto
qed

interpretation fake: machine fake_step fake_ok
  by unfold_locales (rule fake_step_ok)

text \<open>Over every interleaving of the accept loop, the connections and \<open>Close\<close>: when \<open>Close\<close> has returned, the accept loop and the
  goroutines of all connections have ended, every accepted connection is closed, none is tracked, and the listener is closed.\<close>

theorem fake_Close_leaves_nothing:
  assumes "run fake_step es fake_started = Some (xs, s)" "fk_close s = Closed"
  shows "fk_serve s = ServeEnded \<and> (\<forall>h \<in> set (fk_handlers s). snd h = HandlerEnded) \<and> True \<notin> set (fk_open s) \<and>
    fs_conns (fk_server s) = {} \<and> \<not> fk_listening s"
proof -
  have ok: "fake_ok s" using fake.run_invar [OF fake_ok_start assms(1)] .
  then have wg: "fk_serve s = ServeEnded" "running (fk_handlers s) = 0" using assms(2) by (auto simp: fake_ok_def split: if_splits)
  then have "\<forall>h \<in> set (fk_handlers s). snd h = HandlerEnded" by (auto simp: running_def filter_empty_conv)
  moreover from this have "\<not> owned_conn s c" "\<not> tracked_conn s c" for c using wg(1) by (auto simp: owned_conn_def tracked_conn_def)
  ultimately show ?thesis using ok wg(1) assms(2) by (auto simp: fake_ok_def in_set_conv_nth)
qed

theorem fake_Close_leaves_nothing_witness:
  "\<exists>xs s. run fake_step [ClientDials, ServeStep, ServeStep, CloseStep, CloseStep, ServeStep, CloseStep, HandlerStep 0, HandlerStep 0, HandlerStep 0,
      CloseStep] fake_started = Some (xs, s) \<and> fk_handlers s = [(0, HandlerEnded)] \<and> fk_open s = [False] \<and> fs_conns (fk_server s) = {}"
proof -
  let ?es = "[ClientDials, ServeStep, ServeStep, CloseStep, CloseStep, ServeStep, CloseStep, HandlerStep 0, HandlerStep 0, HandlerStep 0, CloseStep]"
  have "\<exists>xs s. run fake_step ?es fake_started = Some (xs, s) \<and> fk_close s = Closed \<and> fk_handlers s = [(0, HandlerEnded)] \<and> fk_open s = [False]"
    by (simp add: fake_started_def fake_serve_def fake_Close_def fake_Listen_def track_def untrack_def close_tracked_def handler_stops_def
        handler_return_def set_handler_def close_conn_def)
  then obtain xs s where s: "run fake_step ?es fake_started = Some (xs, s)" "fk_close s = Closed" "fk_handlers s = [(0, HandlerEnded)]"
    "fk_open s = [False]" by blast
  from fake_Close_leaves_nothing [OF s(1,2)] s show ?thesis by blast
qed

section \<open>A Close that waits for a client\<close>

text \<open>A connection that was accepted before \<open>Close\<close> looked at the tracked ones, and tracked after.\<close>

definition missed :: "fake_life \<Rightarrow> bool" where
  "missed s \<longleftrightarrow> fk_close s = InWait \<and> \<not> fk_listening s \<and> fk_serve s \<noteq> ToTrack 0 \<and> (\<forall>c. fk_serve s \<noteq> ToSpawn c) \<and> (\<forall>c. fk_serve s \<noteq> ToTrack c) \<and>
     fk_handlers s = [(0, Serving)] \<and> fk_open s = [True]"

lemma missed_step:
  assumes "fake_ok s" "missed s" "fake_step e s = Some (x, s')" "\<forall>h. e \<noteq> ClientStops h"
  shows "missed s'"
proof -
  have "0 < fk_wg s" using assms(1,2) by (auto simp: fake_ok_def missed_def running_def split: if_splits)
  with assms(2-4) show ?thesis
    by (cases e) (auto simp: missed_def fake_serve_def fake_Close_def handler_return_def split: if_splits serve_stage.splits)
qed

lemma missed_run:
  "run fake_step es s = Some (xs, s') \<Longrightarrow> fake_ok s \<Longrightarrow> missed s \<Longrightarrow> (\<forall>h. ClientStops h \<notin> set es) \<Longrightarrow> missed s'"
proof (induction es arbitrary: s xs)
  case (Cons e es)
  then obtain x ys t where t: "fake_step e s = Some (x, t)" "run fake_step es t = Some (ys, s')"
    by (auto simp: run_Cons_Some simp del: run.simps)
  with Cons fake_step_ok missed_step [OF Cons.prems(2,3) t(1)] show ?case by (metis list.set_intros(1,2))
qed simp

text \<open>A connection that \<open>Accept\<close> returned just before \<open>Close\<close> and that is tracked just after is not closed by it: \<open>Close\<close> then waits for the
  goroutine of that connection, and, whatever the server does, does not return until the client stops by itself.\<close>

theorem fake_Close_can_wait_for_client:
  "\<exists>es xs s. run fake_step es fake_started = Some (xs, s) \<and> fk_close s = InWait \<and> (\<forall>h. ClientStops h \<notin> set es) \<and>
     (\<forall>fs ys s'. run fake_step fs s = Some (ys, s') \<and> (\<forall>h. ClientStops h \<notin> set fs) \<longrightarrow> fk_close s' = InWait \<and> fk_open s' = [True])"
proof -
  let ?es = "[ClientDials, CloseStep, CloseStep, CloseStep, ServeStep, ServeStep]"
  have "\<exists>xs s. run fake_step ?es fake_started = Some (xs, s) \<and> missed s"
    by (simp add: fake_started_def fake_serve_def fake_Close_def fake_Listen_def track_def close_tracked_def missed_def)
  then obtain xs s where s: "run fake_step ?es fake_started = Some (xs, s)" "missed s" by blast
  have "fk_close s' = InWait \<and> fk_open s' = [True]" if "run fake_step fs s = Some (ys, s')" "\<forall>h. ClientStops h \<notin> set fs" for fs ys s'
    using missed_run [OF that(1) fake.run_invar [OF fake_ok_start s(1)] s(2) that(2)] by (simp add: missed_def)
  with s show ?thesis by (intro exI [of _ ?es] exI [of _ xs] exI [of _ s]) (auto simp: missed_def)
qed

end
