(* ===== verification/Mux.thy ===== *)
theory Mux
  imports Message GoStrings "HOL-Library.AList"
begin

text \<open>
  The stream multiplexer, \<open>protocol/stream.go\<close> and the connection state of
  \<open>protocol/connection.go\<close>. A \<open>Stream\<close> is an object that its user keeps after the connection
  has dropped it, so the streams live in a store and the connection's table maps local
  identifiers to references into it. Each method is one function on the connection state; the
  connection reader's send on a stream's data channel, which can block or panic, is a step of its own.
  The lemmas give each operation's effect; the machine that interleaves them is in \<open>MuxSteps\<close>.
\<close>

section \<open>State\<close>

record stream =
  localID :: u32
  remoteID :: u32
  openDone :: bool \<comment> \<open>\<open>openOnce\<close> has run\<close>
  openCh :: "io_error option list" \<comment> \<open>capacity 1\<close>
  buf :: bytes
  closed :: bool
  err :: "io_error option"
  dataCh :: "bytes list" \<comment> \<open>capacity 16\<close>
  dataChClosed :: bool

definition dataChCap :: nat where "dataChCap = 16"

text \<open>Where the connection reader is: waiting for a packet, sending a payload on the data channel of
  a stream, ended after a read error, or dead of a panic.\<close>

datatype reader_pc = RWait | RDeliver nat bytes | RStopped | RPanic

record conn =
  objs :: "stream list"
  streams :: "(u32 \<times> nat) list"
  openHandlers :: "(string \<times> nat) list"
  nextLocalID :: u32
  readerStarted :: bool
  readerErr :: "msg_error option"
  inp :: reader
  out :: writer
  rpc :: reader_pc
  accepted :: "(nat \<times> string \<times> nat) list" \<comment> \<open>handler goroutines started\<close>

definition NewConnection :: "reader \<Rightarrow> writer \<Rightarrow> conn" where
  "NewConnection r w = \<lparr>objs = [], streams = [], openHandlers = [], nextLocalID = 0,
     readerStarted = False, readerErr = None, inp = r, out = w, rpc = RWait, accepted = []\<rparr>"

definition stream_at :: "conn \<Rightarrow> nat \<Rightarrow> stream" where
  "stream_at c i = objs c ! i"

definition upd_stream :: "nat \<Rightarrow> (stream \<Rightarrow> stream) \<Rightarrow> conn \<Rightarrow> conn" where
  "upd_stream i f c = c\<lparr>objs := (objs c)[i := f (objs c ! i)]\<rparr>"

section \<open>Streams\<close>

text \<open>\<open>openOnce.Do(func() { s.openCh <- v })\<close>: the only send on \<open>openCh\<close>, so it never blocks.\<close>

definition open_once :: "io_error option \<Rightarrow> stream \<Rightarrow> stream" where
  "open_once v s = (if openDone s then s else s\<lparr>openDone := True, openCh := openCh s @ [v]\<rparr>)"

definition establish :: "u32 \<Rightarrow> stream \<Rightarrow> stream" where
  "establish rid s = open_once None (if remoteID s = 0 then s\<lparr>remoteID := rid\<rparr> else s)"

definition closeWithError :: "io_error option \<Rightarrow> stream \<Rightarrow> stream" where
  "closeWithError e s =
     (if closed s then s else open_once e (s\<lparr>closed := True, err := e, dataChClosed := True\<rparr>))"

datatype read_result = RData bytes | RErr io_error | RBlock

function stream_Read :: "nat \<Rightarrow> stream \<Rightarrow> read_result \<times> stream" where
  "stream_Read n s =
     (if 0 < length (buf s) then (RData (take n (buf s)), s\<lparr>buf := drop n (buf s)\<rparr>)
      else if closed s then
        (case dataCh s of
           chunk # rest \<Rightarrow> stream_Read n (s\<lparr>buf := buf s @ chunk, dataCh := rest\<rparr>)
         | [] \<Rightarrow> (RErr (case err s of Some e \<Rightarrow> e | None \<Rightarrow> EOF), s))
      else
        (case dataCh s of
           chunk # rest \<Rightarrow> stream_Read n (s\<lparr>buf := buf s @ chunk, dataCh := rest\<rparr>)
         | [] \<Rightarrow> (RBlock, s)))"
  by pat_completeness auto
termination
  by (relation "measure (\<lambda>(n, s). length (dataCh s))") auto

declare stream_Read.simps [simp del]

section \<open>The connection's table\<close>

definition streamByLocalID :: "u32 \<Rightarrow> conn \<Rightarrow> nat option" where
  "streamByLocalID lid c = map_of (streams c) lid"

definition removeStream :: "u32 \<Rightarrow> conn \<Rightarrow> conn" where
  "removeStream lid c = c\<lparr>streams := AList.delete lid (streams c)\<rparr>"

definition closeStream :: "u32 \<Rightarrow> io_error option \<Rightarrow> conn \<Rightarrow> conn" where
  "closeStream lid e c =
     (case streamByLocalID lid c of
        None \<Rightarrow> removeStream lid c
      | Some i \<Rightarrow> upd_stream i (closeWithError e) (removeStream lid c))"

definition closeAllStreams :: "io_error option \<Rightarrow> conn \<Rightarrow> conn" where
  "closeAllStreams e c =
     fold (\<lambda>(lid, i). upd_stream i (closeWithError e)) (streams c) (c\<lparr>streams := []\<rparr>)"

definition writeMessage :: "message \<Rightarrow> conn \<Rightarrow> io_error option \<times> conn" where
  "writeMessage m c = (case WriteMessage (out c) m of (e, w) \<Rightarrow> (e, c\<lparr>out := w\<rparr>))"

definition newStreamLocked :: "u32 \<Rightarrow> conn \<Rightarrow> nat \<times> conn" where
  "newStreamLocked rid c =
     (let lid = nextLocalID c + 1; i = length (objs c);
          s = \<lparr>localID = lid, remoteID = rid, openDone = False, openCh = [], buf = [], closed = False,
               err = None, dataCh = [], dataChClosed = False\<rparr>
      in (i, c\<lparr>nextLocalID := lid, objs := objs c @ [s], streams := AList.update lid i (streams c)\<rparr>))"

definition newStream :: "conn \<Rightarrow> nat \<times> conn" where
  "newStream c = newStreamLocked 0 c"

definition newAcceptedStream :: "u32 \<Rightarrow> conn \<Rightarrow> nat \<times> conn" where
  "newAcceptedStream rid c =
     (case newStreamLocked rid c of (i, c') \<Rightarrow> (i, upd_stream i (open_once None) c'))"

section \<open>Handlers, the reader, opening\<close>

definition startReader :: "conn \<Rightarrow> msg_error option \<times> conn" where
  "startReader c =
     (if readerStarted c then (readerErr c, c) else (None, c\<lparr>readerStarted := True\<rparr>))"

definition nul :: string where "nul = [CHR 0x00]"

text \<open>\<open>HandleOpen\<close>; a handler is known by a number, \<open>None\<close> is \<open>nil\<close>.\<close>

definition HandleOpen :: "string \<Rightarrow> nat option \<Rightarrow> conn \<Rightarrow> msg_error option \<times> conn" where
  "HandleOpen service h c =
     (let service = TrimSuffix service nul in
      case h of
        None \<Rightarrow> (None, c\<lparr>openHandlers := AList.delete service (openHandlers c)\<rparr>)
      | Some f \<Rightarrow> startReader (c\<lparr>openHandlers := AList.update service f (openHandlers c)\<rparr>))"

definition RemoveOpenHandler :: "string \<Rightarrow> conn \<Rightarrow> conn" where
  "RemoveOpenHandler service c =
     c\<lparr>openHandlers := AList.delete (TrimSuffix service nul) (openHandlers c)\<rparr>"

definition openHandler :: "string \<Rightarrow> conn \<Rightarrow> nat option" where
  "openHandler service c = map_of (openHandlers c) service"

datatype open_error = OpenCtx ctx_err | OpenReader msg_error | OpenWrite io_error

text \<open>\<open>OpenContext\<close> up to the wait for the peer's answer, and the two ways the wait ends.\<close>

definition OpenContext :: "ctx_err option \<Rightarrow> string \<Rightarrow> conn \<Rightarrow> (open_error + nat) \<times> conn" where
  "OpenContext ctx0 service c =
     (case ctx0 of
        Some e \<Rightarrow> (Inl (OpenCtx e), c)
      | None \<Rightarrow>
          (case startReader c of
             (Some e, c1) \<Rightarrow> (Inl (OpenReader e), c1)
           | (None, c1) \<Rightarrow>
               (case newStream c1 of (i, c2) \<Rightarrow>
                  let lid = localID (stream_at c2 i);
                      payload = bytes_of_string (TrimSuffix service nul @ nul)
                  in case writeMessage \<lparr>Command = CommandOPEN, Arg0 = lid, Arg1 = 0, Payload = payload\<rparr> c2 of
                      (Some e, c3) \<Rightarrow> (Inl (OpenWrite e), removeStream lid c3)
                    | (None, c3) \<Rightarrow> (Inr i, c3))))"

definition await_open :: "nat \<Rightarrow> conn \<Rightarrow> (io_error option \<times> conn) option" where
  "await_open i c =
     (case openCh (stream_at c i) of
        [] \<Rightarrow> None
      | x # xs \<Rightarrow> Some (x, upd_stream i (\<lambda>s. s\<lparr>openCh := xs\<rparr>) c))"

section \<open>Stream operations on the connection\<close>

definition Stream_Write :: "bytes \<Rightarrow> nat \<Rightarrow> conn \<Rightarrow> (io_error + nat) \<times> conn" where
  "Stream_Write p i c =
     (let s = stream_at c i in
      if closed s then (Inl ErrClosedPipe, c)
      else if remoteID s = 0 then (Inl ErrClosedPipe, c)
      else case writeMessage \<lparr>Command = CommandWRTE, Arg0 = localID s, Arg1 = remoteID s, Payload = p\<rparr> c of
          (Some e, c') \<Rightarrow> (Inl e, c')
        | (None, c') \<Rightarrow> (Inr (length p), c'))"

definition Stream_Close :: "nat \<Rightarrow> conn \<Rightarrow> conn" where
  "Stream_Close i c =
     (let s = stream_at c i;
          c1 = (if \<not> closed s \<and> remoteID s \<noteq> 0
                then snd (writeMessage \<lparr>Command = CommandCLSE, Arg0 = localID s, Arg1 = remoteID s,
                                        Payload = []\<rparr> c)
                else c)
      in closeStream (localID s) (Some ErrClosedPipe) c1)"

definition Connection_Close :: "conn \<Rightarrow> conn" where
  "Connection_Close c = closeAllStreams (Some ErrDeviceClosed) c"

section \<open>The connection reader\<close>

definition handlePeerOpen :: "message \<Rightarrow> conn \<Rightarrow> conn" where
  "handlePeerOpen msg c =
     (let service = TrimSuffix (string_of_bytes (Payload msg)) nul in
      case openHandler service c of
        None \<Rightarrow> snd (writeMessage \<lparr>Command = CommandCLSE, Arg0 = 0, Arg1 = Arg0 msg, Payload = []\<rparr> c)
      | Some h \<Rightarrow>
          (case newAcceptedStream (Arg0 msg) c of (i, c1) \<Rightarrow>
             let lid = localID (stream_at c1 i) in
             case writeMessage \<lparr>Command = CommandOKAY, Arg0 = lid, Arg1 = Arg0 msg, Payload = []\<rparr> c1 of
               (Some e, c2) \<Rightarrow> closeStream lid (Some e) c2
             | (None, c2) \<Rightarrow> c2\<lparr>accepted := accepted c2 @ [(h, service, i)]\<rparr>))"

definition handleStreamMessage :: "message \<Rightarrow> conn \<Rightarrow> conn" where
  "handleStreamMessage msg c =
     (if Command msg = CommandOPEN then handlePeerOpen msg c
      else case streamByLocalID (Arg1 msg) c of
          None \<Rightarrow> c
        | Some i \<Rightarrow>
            if Command msg = CommandOKAY then upd_stream i (establish (Arg0 msg)) c
            else if Command msg = CommandWRTE then
              (snd (writeMessage \<lparr>Command = CommandOKAY, Arg0 = localID (stream_at c i), Arg1 = Arg0 msg,
                                  Payload = []\<rparr> (upd_stream i (establish (Arg0 msg)) c)))
                \<lparr>rpc := RDeliver i (Payload msg)\<rparr>
            else if Command msg = CommandCLSE then
              closeStream (localID (stream_at c i))
                (if remoteID (stream_at c i) \<noteq> 0 then None else Some ErrDeviceClosed) c
            else c)"

text \<open>\<open>s.dataCh <- chunk\<close>: a panic on a closed channel, a wait on a full one.\<close>

definition receive :: "nat \<Rightarrow> bytes \<Rightarrow> conn \<Rightarrow> conn option" where
  "receive i payload c =
     (let s = stream_at c i in
      if dataChClosed s then Some (c\<lparr>rpc := RPanic\<rparr>)
      else if length (dataCh s) < dataChCap
      then Some (upd_stream i (\<lambda>s. s\<lparr>dataCh := dataCh s @ [payload]\<rparr>) (c\<lparr>rpc := RWait\<rparr>))
      else None)"

text \<open>One turn of \<open>readLoop\<close>, up to the delivery.\<close>

definition readLoop_turn :: "conn \<Rightarrow> conn" where
  "readLoop_turn c =
     (case ReadMessage (inp c) of
        (Inl e, r) \<Rightarrow>
          closeAllStreams (Some ErrDeviceClosed) (c\<lparr>inp := r, readerErr := Some e, rpc := RStopped\<rparr>)
      | (Inr msg, r) \<Rightarrow> handleStreamMessage msg (c\<lparr>inp := r\<rparr>))"

section \<open>What a stream still has to deliver to its reader\<close>

definition stream_pending :: "stream \<Rightarrow> bytes" where
  "stream_pending s = buf s @ concat (dataCh s)"

definition stream_ending :: "stream \<Rightarrow> io_error" where
  "stream_ending s = (case err s of Some e \<Rightarrow> e | None \<Rightarrow> EOF)"

lemma stream_Read_pending:
  "case stream_Read n s of
     (RData d, s') \<Rightarrow> stream_pending s \<noteq> [] \<and> stream_pending s = d @ stream_pending s' \<and>
        length d \<le> n \<and> (0 < n \<longrightarrow> d \<noteq> []) \<and> s' = s\<lparr>buf := buf s', dataCh := dataCh s'\<rparr>
   | (RErr e, s') \<Rightarrow> stream_pending s = [] \<and> closed s \<and> e = stream_ending s \<and>
        stream_pending s' = [] \<and> s' = s\<lparr>buf := buf s', dataCh := dataCh s'\<rparr>
   | (RBlock, s') \<Rightarrow> stream_pending s = [] \<and> \<not> closed s \<and>
        stream_pending s' = [] \<and> s' = s\<lparr>buf := buf s', dataCh := dataCh s'\<rparr>"
proof (induction n s rule: stream_Read.induct)
  case (1 n s)
  show ?case
  proof (cases "buf s = []")
    case False
    then show ?thesis by (simp add: stream_Read.simps [of n s] stream_pending_def)
  next
    case True
    show ?thesis
    proof (cases "dataCh s")
      case Nil
      with True show ?thesis
        by (simp add: stream_Read.simps [of n s] stream_pending_def stream_ending_def)
    next
      case (Cons chunk rest)
      let ?s = "s\<lparr>buf := buf s @ chunk, dataCh := rest\<rparr>"
      have rec: "stream_Read n s = stream_Read n ?s" using True Cons by (simp add: stream_Read.simps [of n s])
      have same: "stream_pending ?s = stream_pending s" "closed ?s = closed s" "stream_ending ?s = stream_ending s"
        using True Cons by (auto simp: stream_pending_def stream_ending_def)
      have "case stream_Read n ?s of
          (RData d, s') \<Rightarrow> stream_pending ?s \<noteq> [] \<and> stream_pending ?s = d @ stream_pending s' \<and>
             length d \<le> n \<and> (0 < n \<longrightarrow> d \<noteq> []) \<and> s' = ?s\<lparr>buf := buf s', dataCh := dataCh s'\<rparr>
        | (RErr e, s') \<Rightarrow> stream_pending ?s = [] \<and> closed ?s \<and> e = stream_ending ?s \<and>
             stream_pending s' = [] \<and> s' = ?s\<lparr>buf := buf s', dataCh := dataCh s'\<rparr>
        | (RBlock, s') \<Rightarrow> stream_pending ?s = [] \<and> \<not> closed ?s \<and>
             stream_pending s' = [] \<and> s' = ?s\<lparr>buf := buf s', dataCh := dataCh s'\<rparr>"
        using 1 True Cons by (cases "closed s") auto
      then show ?thesis unfolding rec same by (auto split: prod.splits read_result.splits)
    qed
  qed
qed

lemma stream_Read_dataCh: "length (dataCh (snd (stream_Read n s))) \<le> length (dataCh s)"
proof (induction n s rule: stream_Read.induct)
  case (1 n s)
  then show ?case
    by (subst stream_Read.simps) (auto split: list.splits simp: le_SucI)
qed

lemma buf_frame:
  "s' = s\<lparr>buf := b, dataCh := d\<rparr> \<Longrightarrow> closed s' = closed s \<and> stream_ending s' = stream_ending s \<and>
     localID s' = localID s \<and> remoteID s' = remoteID s \<and> openDone s' = openDone s \<and>
     openCh s' = openCh s \<and> dataChClosed s' = dataChClosed s"
  by (simp add: stream_ending_def)

text \<open>A stream the peer has closed is an \<open>io.Reader\<close> in the sense of \<open>GoIO\<close>: it hands over what is
  pending, in any pieces, and then reports how it was closed.\<close>

definition closed_read :: "stream read_op" where
  "closed_read n s =
     (case stream_Read n s of
        (RData d, s') \<Rightarrow> ((d, None), s')
      | (RErr e, s') \<Rightarrow> (([], Some e), s')
      | (RBlock, s') \<Rightarrow> (([], None), s'))"

interpretation closed_stream: byte_source closed_read stream_pending stream_ending closed
proof
  fix s :: stream and n :: nat
  assume "closed s" "0 < n" "stream_pending s \<noteq> []"
  then show "\<exists>b s'. closed_read n s = ((b, None), s') \<and> b \<noteq> [] \<and> length b \<le> n \<and>
      stream_pending s = b @ stream_pending s' \<and> stream_ending s' = stream_ending s \<and> closed s'"
    using stream_Read_pending [where n = n and s = s]
    by (auto simp: closed_read_def split: prod.splits read_result.splits dest!: buf_frame)
next
  fix s :: stream and n :: nat
  assume "closed s" "0 < n" "stream_pending s = []"
  then show "\<exists>s'. closed_read n s = (([], Some (stream_ending s)), s') \<and>
      stream_pending s' = [] \<and> stream_ending s' = stream_ending s \<and> closed s'"
    using stream_Read_pending [where n = n and s = s]
    by (auto simp: closed_read_def split: prod.splits read_result.splits dest!: buf_frame)
qed

end
