(* ===== verification/MuxSteps.thy ===== *)
theory MuxSteps
  imports Mux
begin

text \<open>
  The multiplexer as a machine: the goroutines that use a connection (openers, readers, writers,
  closers, the registration of handlers) and the connection's own reader goroutine, interleaved
  in any order. A step is one method call, or one of the two halves of the reader's turn:
  handling a packet, and sending its payload on the data channel. The invariant of the connection
  is kept by every step.
\<close>

section \<open>Invariant\<close>

definition stream_ok :: "stream \<Rightarrow> bool" where
  "stream_ok s \<longleftrightarrow> dataChClosed s = closed s \<and> length (dataCh s) \<le> dataChCap \<and>
     length (openCh s) \<le> 1 \<and> (openDone s \<or> openCh s = []) \<and> (closed s \<longrightarrow> openDone s)"

definition table_ok :: "conn \<Rightarrow> bool" where
  "table_ok c \<longleftrightarrow> distinct (map fst (streams c)) \<and>
     (\<forall>lid i. streamByLocalID lid c = Some i \<longrightarrow>
        i < length (objs c) \<and> localID (objs c ! i) = lid \<and> \<not> closed (objs c ! i))"

definition rpc_ok :: "conn \<Rightarrow> bool" where
  "rpc_ok c \<longleftrightarrow> (\<forall>i p. rpc c = RDeliver i p \<longrightarrow> i < length (objs c))"

definition conn_ok :: "conn \<Rightarrow> bool" where
  "conn_ok c \<longleftrightarrow> table_ok c \<and> (\<forall>i < length (objs c). stream_ok (objs c ! i)) \<and> rpc_ok c"

section \<open>Events\<close>

datatype mux_event =
    EOpen "ctx_err option" string | EAwaitOpen nat | ECancelOpen nat
  | ERead nat nat | EWrite nat bytes | EClose nat
  | EHandleOpen string "nat option" | ERemoveHandler string
  | EReaderTurn | EDeliver | EConnClose

datatype mux_obs =
    OOpen "open_error + nat" | OOpened nat "io_error option" | ORead nat read_result
  | OWrite nat "io_error + nat" | OHandle "msg_error option" | ODelivered nat bytes | OPanic | ODone

definition mux_step :: "mux_event \<Rightarrow> conn \<Rightarrow> (mux_obs \<times> conn) option" where
  "mux_step ev c =
     (case ev of
        EOpen ctx service \<Rightarrow> (case OpenContext ctx service c of (res, c') \<Rightarrow> Some (OOpen res, c'))
      | EAwaitOpen i \<Rightarrow>
          if i < length (objs c) then map_option (\<lambda>(x, c'). (OOpened i x, c')) (await_open i c) else None
      | ECancelOpen i \<Rightarrow> if i < length (objs c) then Some (ODone, Stream_Close i c) else None
      | ERead i n \<Rightarrow>
          if i < length (objs c)
          then (case stream_Read n (stream_at c i) of
                  (RBlock, s) \<Rightarrow> None
                | (res, s) \<Rightarrow> Some (ORead i res, upd_stream i (\<lambda>_. s) c))
          else None
      | EWrite i p \<Rightarrow>
          if i < length (objs c) then (case Stream_Write p i c of (res, c') \<Rightarrow> Some (OWrite i res, c')) else None
      | EClose i \<Rightarrow> if i < length (objs c) then Some (ODone, Stream_Close i c) else None
      | EHandleOpen service h \<Rightarrow> (case HandleOpen service h c of (e, c') \<Rightarrow> Some (OHandle e, c'))
      | ERemoveHandler service \<Rightarrow> Some (ODone, RemoveOpenHandler service c)
      | EReaderTurn \<Rightarrow> if readerStarted c \<and> rpc c = RWait then Some (ODone, readLoop_turn c) else None
      | EDeliver \<Rightarrow>
          (case rpc c of
             RDeliver i p \<Rightarrow>
               (case receive i p c of
                  None \<Rightarrow> None
                | Some c' \<Rightarrow> Some (if rpc c' = RPanic then OPanic else ODelivered i p, c'))
           | _ \<Rightarrow> None)
      | EConnClose \<Rightarrow> Some (ODone, Connection_Close c))"

section \<open>Updates of one stream\<close>

lemma upd_stream_frame [simp]:
  "streams (upd_stream i f c) = streams c" "length (objs (upd_stream i f c)) = length (objs c)"
  "rpc (upd_stream i f c) = rpc c" "out (upd_stream i f c) = out c" "inp (upd_stream i f c) = inp c"
  "nextLocalID (upd_stream i f c) = nextLocalID c"
  "streamByLocalID lid (upd_stream i f c) = streamByLocalID lid c"
  by (simp_all add: upd_stream_def streamByLocalID_def)

lemma upd_stream_nth:
  "j < length (objs c) \<Longrightarrow> objs (upd_stream i f c) ! j = (if j = i then f (objs c ! j) else objs c ! j)"
  by (simp add: upd_stream_def nth_list_update)

text \<open>What an update of a stream must keep for the connection to keep its invariant.\<close>

locale stream_update =
  fixes f :: "stream \<Rightarrow> stream"
  assumes keeps_ok: "stream_ok s \<Longrightarrow> stream_ok (f s)"
    and keeps_id: "localID (f s) = localID s"
    and keeps_open: "closed (f s) = closed s"
begin

lemma upd_stream_ok: "conn_ok c \<Longrightarrow> conn_ok (upd_stream i f c)"
  by (auto simp: conn_ok_def table_ok_def rpc_ok_def upd_stream_nth keeps_id keeps_open intro: keeps_ok)

end

lemma open_once_frame [simp]:
  "localID (open_once v s) = localID s" "closed (open_once v s) = closed s"
  "remoteID (open_once v s) = remoteID s" "buf (open_once v s) = buf s" "dataCh (open_once v s) = dataCh s"
  "dataChClosed (open_once v s) = dataChClosed s" "openDone (open_once v s)" "err (open_once v s) = err s"
  by (simp_all add: open_once_def)

interpretation upd_open_once: stream_update "open_once v" for v
  by unfold_locales (auto simp: stream_ok_def open_once_def)

interpretation upd_establish: stream_update "establish rid" for rid
  by unfold_locales (auto simp: stream_ok_def establish_def open_once_def)

interpretation upd_await: stream_update "\<lambda>s. s\<lparr>openCh := drop 1 (openCh s)\<rparr>"
  by unfold_locales (auto simp: stream_ok_def)

section \<open>Closing\<close>

lemma closeWithError_frame [simp]:
  "localID (closeWithError e s) = localID s" "closed (closeWithError e s)"
  "buf (closeWithError e s) = buf s" "dataCh (closeWithError e s) = dataCh s"
  by (simp_all add: closeWithError_def)

lemma closeWithError_ok: "stream_ok s \<Longrightarrow> stream_ok (closeWithError e s)"
  by (auto simp: stream_ok_def closeWithError_def open_once_def)

lemma closeWithError_idem [simp]: "closeWithError e (closeWithError e' s) = closeWithError e' s"
  by (simp add: closeWithError_def [of e])

lemma removeStream_frame [simp]:
  "objs (removeStream lid c) = objs c" "rpc (removeStream lid c) = rpc c"
  "out (removeStream lid c) = out c" "inp (removeStream lid c) = inp c"
  "nextLocalID (removeStream lid c) = nextLocalID c"
  "streamByLocalID lid' (removeStream lid c) = (if lid' = lid then None else streamByLocalID lid' c)"
  "distinct (map fst (streams c)) \<Longrightarrow> distinct (map fst (streams (removeStream lid c)))"
  by (simp_all add: removeStream_def streamByLocalID_def delete_conv' distinct_delete)

lemma removeStream_ok [inv_intro]: "conn_ok c \<Longrightarrow> conn_ok (removeStream lid c)"
  by (simp add: conn_ok_def table_ok_def rpc_ok_def)

lemma table_okD:
  assumes "table_ok c" "streamByLocalID lid c = Some i"
  shows "i < length (objs c)" "localID (objs c ! i) = lid" "\<not> closed (objs c ! i)"
  using assms by (auto simp: table_ok_def)

lemma closeStream_ok [inv_intro]:
  assumes "conn_ok c" shows "conn_ok (closeStream lid e c)"
proof (cases "streamByLocalID lid c")
  case None
  with assms show ?thesis by (simp add: closeStream_def removeStream_ok)
next
  case (Some i)
  from assms have "table_ok c" by (simp add: conn_ok_def)
  note t = table_okD [OF this]
  have "i' \<noteq> i" if "streamByLocalID lid' c = Some i'" "lid' \<noteq> lid" for lid' i'
    using t(2) [OF that(1)] t(2) [OF Some] that(2) by auto
  then have "table_ok (upd_stream i (closeWithError e) (removeStream lid c))"
    using assms t unfolding table_ok_def conn_ok_def by (simp add: upd_stream_nth)
  with assms Some show ?thesis
    unfolding conn_ok_def closeStream_def rpc_ok_def
    by (simp add: upd_stream_nth closeWithError_ok)
qed

lemma close_fold:
  "fold (\<lambda>(lid, i). upd_stream i (closeWithError e)) es c =
     c\<lparr>objs := map (\<lambda>i. if i \<in> snd ` set es then closeWithError e (objs c ! i) else objs c ! i)
        [0..<length (objs c)]\<rparr>"
proof (induction es arbitrary: c)
  case Nil
  then show ?case by (simp add: map_nth)
next
  case (Cons x es)
  obtain lid j where x: "x = (lid, j)" by (cases x)
  have upd: "upd_stream j (closeWithError e) c\<lparr>objs := os\<rparr> = c\<lparr>objs := os\<rparr>" for os
    by (simp add: upd_stream_def)
  show ?case
    unfolding x fold.simps comp_def prod.case Cons.IH upd
    by (auto simp: upd_stream_nth intro!: conn.fold_congs)
qed

lemma closeAllStreams_eq:
  "closeAllStreams e c = c\<lparr>streams := [],
     objs := map (\<lambda>i. if i \<in> snd ` set (streams c) then closeWithError e (objs c ! i) else objs c ! i)
       [0..<length (objs c)]\<rparr>"
  by (simp add: closeAllStreams_def close_fold)

lemma closeAllStreams_ok [inv_intro]: "conn_ok c \<Longrightarrow> conn_ok (closeAllStreams e c)"
  by (auto simp: closeAllStreams_eq conn_ok_def table_ok_def rpc_ok_def streamByLocalID_def closeWithError_ok)

section \<open>Every step keeps the invariant\<close>

lemma conn_ok_frame:
  "conn_ok c \<Longrightarrow> objs c' = objs c \<Longrightarrow> streams c' = streams c \<Longrightarrow> rpc c' = rpc c \<Longrightarrow> conn_ok c'"
  by (simp add: conn_ok_def table_ok_def rpc_ok_def streamByLocalID_def)

lemma writeMessage_frame [simp]:
  "objs (snd (writeMessage m c)) = objs c" "streams (snd (writeMessage m c)) = streams c"
  "rpc (snd (writeMessage m c)) = rpc c" "inp (snd (writeMessage m c)) = inp c"
  "nextLocalID (snd (writeMessage m c)) = nextLocalID c"
  "openHandlers (snd (writeMessage m c)) = openHandlers c" "accepted (snd (writeMessage m c)) = accepted c"
  by (simp_all add: writeMessage_def split: prod.splits)

lemma writeMessage_ok [inv_intro]: "conn_ok c \<Longrightarrow> conn_ok (snd (writeMessage m c))"
  by (erule conn_ok_frame) simp_all

lemma newStreamLocked_ok [inv_intro]:
  assumes "conn_ok c" shows "conn_ok (snd (newStreamLocked rid c))"
  using assms
  by (auto simp: newStreamLocked_def Let_def conn_ok_def table_ok_def rpc_ok_def nth_append
      streamByLocalID_def update_conv' distinct_update stream_ok_def less_Suc_eq split: if_splits)

lemma startReader_ok [inv_intro]: "conn_ok c \<Longrightarrow> conn_ok (snd (startReader c))"
  by (auto simp: startReader_def elim: conn_ok_frame)

lemma Stream_Close_ok [inv_intro]: "conn_ok c \<Longrightarrow> conn_ok (Stream_Close i c)"
  by (simp add: Stream_Close_def Let_def inv_intro)

lemma OpenContext_ok [inv_intro]: "conn_ok c \<Longrightarrow> conn_ok (snd (OpenContext ctx service c))"
  using startReader_ok [of c] newStreamLocked_ok [of "snd (startReader c)" 0]
  by (auto simp: OpenContext_def newStream_def Let_def inv_intro split: option.splits prod.splits)
    (metis inv_intro snd_conv)+

lemma newAcceptedStream_ok [inv_intro]: "conn_ok c \<Longrightarrow> conn_ok (snd (newAcceptedStream rid c))"
  using newStreamLocked_ok [of c rid]
  by (auto simp: newAcceptedStream_def upd_open_once.upd_stream_ok split: prod.splits)

lemma handlePeerOpen_ok [inv_intro]:
  assumes "conn_ok c" shows "conn_ok (handlePeerOpen msg c)"
proof (cases "openHandler (TrimSuffix (string_of_bytes (Payload msg)) nul) c")
  case None
  with assms show ?thesis by (simp add: handlePeerOpen_def inv_intro)
next
  case (Some h)
  obtain i c1 where c1: "newAcceptedStream (Arg0 msg) c = (i, c1)" by (metis surj_pair)
  with newAcceptedStream_ok [OF assms, of "Arg0 msg"] have "conn_ok c1" by simp
  define m where "m = \<lparr>Command = CommandOKAY, Arg0 = localID (stream_at c1 i), Arg1 = Arg0 msg, Payload = []\<rparr>"
  obtain e c2 where c2: "writeMessage m c1 = (e, c2)" by (metis surj_pair)
  with writeMessage_ok [OF \<open>conn_ok c1\<close>, of m] have ok: "conn_ok c2" by simp
  then have "conn_ok (c2\<lparr>accepted := a\<rparr>)" for a by (rule conn_ok_frame) simp_all
  with ok Some c1 c2 show ?thesis
    unfolding m_def by (cases e) (simp_all add: handlePeerOpen_def Let_def closeStream_ok)
qed

lemma handleStreamMessage_ok [inv_intro]:
  assumes "conn_ok c" "rpc c = RWait" shows "conn_ok (handleStreamMessage msg c)"
proof (cases "streamByLocalID (Arg1 msg) c")
  case None
  with assms show ?thesis by (simp add: handleStreamMessage_def inv_intro)
next
  case (Some i)
  from assms have "table_ok c" by (simp add: conn_ok_def)
  note i = table_okD [OF this Some]
  have e: "conn_ok (upd_stream i (establish (Arg0 msg)) c)" using assms by (simp add: upd_establish.upd_stream_ok)
  have "conn_ok (snd (writeMessage m (upd_stream i (establish (Arg0 msg)) c))\<lparr>rpc := RDeliver i p\<rparr>)" for m p
    using writeMessage_ok [OF e, of m] i(1)
    by (simp add: conn_ok_def table_ok_def rpc_ok_def streamByLocalID_def)
  with assms e Some show ?thesis by (simp add: handleStreamMessage_def inv_intro)
qed

lemma readLoop_turn_ok [inv_intro]:
  assumes "conn_ok c" "rpc c = RWait" shows "conn_ok (readLoop_turn c)"
proof -
  have "conn_ok (c\<lparr>inp := r\<rparr>)" "conn_ok (c\<lparr>inp := r, readerErr := Some e, rpc := RStopped\<rparr>)" for r e
    using assms by (simp_all add: conn_ok_def table_ok_def rpc_ok_def streamByLocalID_def)
  with assms show ?thesis
    by (auto simp: readLoop_turn_def inv_intro split: prod.splits sum.splits)
qed

lemma receive_ok [inv_intro]:
  assumes "conn_ok c" "receive i p c = Some c'" shows "conn_ok c'"
proof -
  have c: "conn_ok (c\<lparr>rpc := RPanic\<rparr>)" "conn_ok (c\<lparr>rpc := RWait\<rparr>)"
    using assms(1) by (simp_all add: conn_ok_def table_ok_def rpc_ok_def streamByLocalID_def)
  show ?thesis
  proof (cases "dataChClosed (stream_at c i)")
    case True
    with assms(2) c show ?thesis by (simp add: receive_def Let_def)
  next
    case False
    with assms(2) have "c' = upd_stream i (\<lambda>s. s\<lparr>dataCh := dataCh s @ [p]\<rparr>) (c\<lparr>rpc := RWait\<rparr>)"
      "length (dataCh (objs c ! i)) < dataChCap"
      by (auto simp: receive_def Let_def stream_at_def split: if_splits)
    with c(2) show ?thesis
      by (auto simp: conn_ok_def table_ok_def rpc_ok_def upd_stream_nth stream_ok_def)
  qed
qed

lemma Read_ok:
  assumes "conn_ok c" "stream_Read n (stream_at c i) = (res, s)"
  shows "conn_ok (upd_stream i (\<lambda>_. s) c)"
proof -
  have f: "closed s = closed (objs c ! i)" "localID s = localID (objs c ! i)"
    "stream_ok (objs c ! i) \<Longrightarrow> stream_ok s"
    using stream_Read_pending [where n = n and s = "stream_at c i"]
      stream_Read_dataCh [of n "stream_at c i"] assms(2)
    by (auto simp: stream_ok_def stream_at_def split: read_result.splits dest!: buf_frame)
  with assms(1) show ?thesis
    by (auto simp: conn_ok_def table_ok_def rpc_ok_def upd_stream_nth)
qed

lemma await_open_ok: "conn_ok c \<Longrightarrow> await_open i c = Some (x, c') \<Longrightarrow> conn_ok c'"
  using upd_await.upd_stream_ok [of c i]
  by (auto simp: await_open_def stream_at_def upd_stream_def split: list.splits)

lemma HandleOpen_ok [inv_intro]: "conn_ok c \<Longrightarrow> conn_ok (snd (HandleOpen service h c))"
  by (auto simp: HandleOpen_def Let_def split: option.splits intro!: startReader_ok elim: conn_ok_frame)

lemma Stream_Write_ok [inv_intro]: "conn_ok c \<Longrightarrow> conn_ok (snd (Stream_Write p i c))"
  using writeMessage_ok [of c]
  by (auto simp: Stream_Write_def Let_def split: prod.splits option.splits) (metis snd_conv)+

lemma mux_step_ok:
  assumes "conn_ok c" "mux_step ev c = Some (x, c')" shows "conn_ok c'"
proof (cases ev)
  case (EOpen ctx service)
  with assms OpenContext_ok [of c ctx service] show ?thesis by (auto simp: mux_step_def split: prod.splits)
next
  case (ERead i n)
  with assms show ?thesis
    by (auto simp: mux_step_def split: if_splits prod.splits read_result.splits intro: Read_ok)
next
  case (EWrite i p)
  with assms Stream_Write_ok [of c p i] show ?thesis
    by (auto simp: mux_step_def split: if_splits prod.splits)
next
  case (EHandleOpen service h)
  with assms HandleOpen_ok [of c service h] show ?thesis by (auto simp: mux_step_def split: prod.splits)
next
  case (ERemoveHandler service)
  with assms show ?thesis by (auto simp: mux_step_def RemoveOpenHandler_def elim: conn_ok_frame)
qed (use assms in \<open>auto simp: mux_step_def Connection_Close_def inv_intro
        split: if_splits reader_pc.splits option.splits intro: await_open_ok receive_ok\<close>)

interpretation mux: machine mux_step conn_ok
  by unfold_locales (rule mux_step_ok)

lemma NewConnection_ok [simp]: "conn_ok (NewConnection r w)"
  by (simp add: conn_ok_def table_ok_def rpc_ok_def NewConnection_def streamByLocalID_def)

end
