(* ===== verification/MuxProps.thy ===== *)
theory MuxProps
  imports MuxSteps
begin

text \<open>
  What the multiplexer guarantees to the users of its streams, over every interleaving: the
  bytes of a stream arrive complete and in order, local identifiers are unique, acknowledgements
  precede delivery, closing is final and wakes whoever waits. And what it does not guarantee: a stream
  closed while the connection reader is about to hand it a payload makes the reader panic.
\<close>

section \<open>Bytes pending in each stream\<close>

definition pend :: "conn \<Rightarrow> nat \<Rightarrow> bytes" where
  "pend c i = (if i < length (objs c) then stream_pending (objs c ! i) else [])"

fun read_bytes :: "nat \<Rightarrow> mux_obs \<Rightarrow> bytes" where
  "read_bytes i (ORead j (RData d)) = (if j = i then d else [])"
| "read_bytes i _ = []"

fun delivered_bytes :: "nat \<Rightarrow> mux_obs \<Rightarrow> bytes" where
  "delivered_bytes i (ODelivered j p) = (if j = i then p else [])"
| "delivered_bytes i _ = []"

lemma pend_upd_stream:
  "(\<And>s. stream_pending (f s) = stream_pending s) \<Longrightarrow> pend (upd_stream j f c) = pend c"
  by (auto simp: pend_def fun_eq_iff upd_stream_nth)

lemma pending_updates [simp]:
  "stream_pending (open_once v s) = stream_pending s"
  "stream_pending (establish rid s) = stream_pending s"
  "stream_pending (closeWithError e s) = stream_pending s"
  "stream_pending (s\<lparr>openCh := xs\<rparr>) = stream_pending s"
  by (simp_all add: stream_pending_def establish_def)

lemma pend_quiet [simp]:
  "pend (upd_stream j (open_once v) c) = pend c" "pend (upd_stream j (establish rid) c) = pend c"
  "pend (upd_stream j (closeWithError e) c) = pend c"
  "pend (upd_stream j (\<lambda>s. s\<lparr>openCh := xs\<rparr>) c) = pend c"
  "pend (removeStream lid c) = pend c" "pend (snd (writeMessage m c)) = pend c"
  by (simp_all add: pend_upd_stream) (simp_all add: pend_def fun_eq_iff)

lemma pend_writeMessage: "writeMessage m c = (e, c') \<Longrightarrow> pend c' = pend c"
  using pend_quiet(6) [of m c] by simp

lemma pend_fields [simp]:
  "pend (c\<lparr>streams := a\<rparr>) = pend c" "pend (c\<lparr>rpc := p\<rparr>) = pend c" "pend (c\<lparr>inp := r\<rparr>) = pend c"
  "pend (c\<lparr>readerErr := e\<rparr>) = pend c" "pend (c\<lparr>readerStarted := b\<rparr>) = pend c"
  "pend (c\<lparr>openHandlers := h\<rparr>) = pend c" "pend (c\<lparr>accepted := k\<rparr>) = pend c" "pend (c\<lparr>out := o'\<rparr>) = pend c"
  by (simp_all add: pend_def fun_eq_iff)

lemma pend_close [simp]:
  "pend (closeStream lid e c) = pend c" "pend (closeAllStreams e c) = pend c"
  by (simp_all add: closeStream_def split: option.splits)
    (auto simp: closeAllStreams_eq pend_def fun_eq_iff)

lemma pend_new [simp]:
  "pend (snd (newStreamLocked rid c)) = pend c" "pend (snd (newAcceptedStream rid c)) = pend c"
proof -
  show new: "pend (snd (newStreamLocked rid c)) = pend c"
    by (auto simp: newStreamLocked_def Let_def pend_def fun_eq_iff nth_append stream_pending_def less_Suc_eq)
  then show "pend (snd (newAcceptedStream rid c)) = pend c"
    by (auto simp: newAcceptedStream_def split: prod.splits)
qed

lemma pend_startReader [simp]: "pend (snd (startReader c)) = pend c"
  by (simp add: startReader_def)

lemma pend_OpenContext [simp]: "pend (snd (OpenContext ctx service c)) = pend c"
proof -
  obtain e c1 where c1: "startReader c = (e, c1)" by (metis surj_pair)
  obtain i c2 where c2: "newStreamLocked 0 c1 = (i, c2)" by (metis surj_pair)
  have "pend c1 = pend c" "pend c2 = pend c1"
    using pend_startReader [of c] pend_new(1) [of 0 c1] c1 c2 by simp_all
  with c1 c2 show ?thesis
    by (auto simp: OpenContext_def newStream_def Let_def split: option.splits prod.splits
        dest!: pend_writeMessage)
qed

lemma pend_Stream_Close [simp]: "pend (Stream_Close i c) = pend c"
  by (simp add: Stream_Close_def Let_def)

lemma pend_Stream_Write [simp]: "pend (snd (Stream_Write p i c)) = pend c"
  by (auto simp: Stream_Write_def Let_def split: prod.splits option.splits dest!: pend_writeMessage)

lemma pend_handlePeerOpen [simp]: "pend (handlePeerOpen msg c) = pend c"
proof -
  obtain i c1 where c1: "newAcceptedStream (Arg0 msg) c = (i, c1)" by (metis surj_pair)
  with pend_new(2) [of "Arg0 msg" c] have "pend c1 = pend c" by simp
  with c1 show ?thesis
    by (auto simp: handlePeerOpen_def Let_def split: option.splits prod.splits dest!: pend_writeMessage)
qed

lemma pend_readLoop_turn [simp]: "pend (readLoop_turn c) = pend c"
  by (auto simp: readLoop_turn_def handleStreamMessage_def split: prod.splits sum.splits option.splits)

lemma pend_HandleOpen [simp]: "pend (snd (HandleOpen service h c)) = pend c"
  by (auto simp: HandleOpen_def Let_def split: option.splits)

lemma pend_Read:
  assumes "stream_Read n (stream_at c j) = (res, s)" "j < length (objs c)"
  shows "pend c i = read_bytes i (ORead j res) @ pend (upd_stream j (\<lambda>_. s) c) i"
  using stream_Read_pending [where n = n and s = "stream_at c j"] assms
  by (auto simp: pend_def upd_stream_nth stream_at_def split: read_result.splits)

lemma pend_receive:
  assumes "receive j p c = Some c'" "j < length (objs c)" "rpc c' \<noteq> RPanic"
  shows "pend c i @ delivered_bytes i (ODelivered j p) = pend c' i"
  using assms
  by (auto simp: receive_def Let_def pend_def upd_stream_nth stream_pending_def split: if_splits)

lemma pend_receive_panic:
  assumes "receive j p c = Some c'" "rpc c' = RPanic" shows "pend c' = pend c"
  using assms by (auto simp: receive_def Let_def split: if_splits)

lemma pend_step:
  assumes "conn_ok c" "mux_step ev c = Some (x, c')"
  shows "pend c i @ delivered_bytes i x = read_bytes i x @ pend c' i"
proof (cases ev)
  case (EOpen ctx service)
  with assms pend_OpenContext [of ctx service c] show ?thesis
    by (auto simp: mux_step_def simp del: pend_OpenContext split: prod.splits)
next
  case (EAwaitOpen j)
  with assms show ?thesis by (auto simp: mux_step_def await_open_def split: if_splits list.splits)
next
  case (ERead j n)
  with assms show ?thesis
    using pend_Read [of n c j _ _ i]
    by (auto simp: mux_step_def split: if_splits prod.splits read_result.splits)
next
  case (EWrite j p)
  with assms pend_Stream_Write [of p j c] show ?thesis
    by (auto simp: mux_step_def simp del: pend_Stream_Write split: if_splits prod.splits)
next
  case (EHandleOpen service h)
  with assms pend_HandleOpen [of service h c] show ?thesis
    by (auto simp: mux_step_def simp del: pend_HandleOpen split: prod.splits)
next
  case EDeliver
  with assms obtain j p where j: "rpc c = RDeliver j p" "receive j p c = Some c'"
    "x = (if rpc c' = RPanic then OPanic else ODelivered j p)"
    by (auto simp: mux_step_def split: reader_pc.splits option.splits)
  moreover from assms(1) j(1) have "j < length (objs c)" by (simp add: conn_ok_def rpc_ok_def)
  ultimately show ?thesis
    using pend_receive [of j p c c' i] pend_receive_panic [of j p c c'] by auto
qed (use assms in \<open>auto simp: mux_step_def Connection_Close_def RemoveOpenHandler_def split: if_splits\<close>)

lemma append_square: "a @ d = r @ b \<Longrightarrow> b @ d' = r' @ e \<Longrightarrow> a @ d @ d' = r @ r' @ e"
  by (metis append_assoc)

text \<open>Over every schedule of openers, readers, writers, closers and the connection reader, the
  bytes handed to a stream's reader followed by those still pending are exactly the payloads
  the connection delivered to that stream, in order: none is lost, duplicated or reordered.\<close>

theorem stream_bytes_fifo:
  assumes "run mux_step es (NewConnection r w) = Some (os, c)"
  shows "concat (map (read_bytes i) os) @ pend c i = concat (map (delivered_bytes i) os)"
proof -
  have "pend (NewConnection r w) i @ concat (map (delivered_bytes i) os)
      = concat (map (read_bytes i) os) @ pend c i"
    by (rule mux.run_rel [OF assms NewConnection_ok, where R = "\<lambda>s xs s'.
          pend s i @ concat (map (delivered_bytes i) xs) = concat (map (read_bytes i) xs) @ pend s' i"])
      (simp_all, drule (1) pend_step [where i = i], erule (1) append_square)
  then show ?thesis by (simp add: pend_def NewConnection_def)
qed

definition sample_wire :: bytes where
  "sample_wire =
     encode_message \<lparr>Command = CommandOKAY, Arg0 = 5, Arg1 = 1, Payload = []\<rparr>
     @ encode_message \<lparr>Command = CommandWRTE, Arg0 = 5, Arg1 = 1, Payload = [120, 121]\<rparr>"

definition sample_reader :: reader where
  "sample_reader = \<lparr>rd_data = sample_wire, rd_end = EOF\<rparr>"

definition sample_writer :: writer where
  "sample_writer = \<lparr>wr_out = [], wr_script = []\<rparr>"

definition sample_schedule :: "mux_event list" where
  "sample_schedule = [EOpen None ''shell:'', EReaderTurn, EReaderTurn, EDeliver, ERead 0 1]"

lemma sample_run:
  "map_option fst (run mux_step sample_schedule (NewConnection sample_reader sample_writer))
     = Some [OOpen (Inr 0), ODone, ODone, ODelivered 0 [120, 121], ORead 0 (RData [120])]"
  by code_simp

lemma sample_runE:
  obtains c where "run mux_step sample_schedule (NewConnection sample_reader sample_writer)
    = Some ([OOpen (Inr 0), ODone, ODone, ODelivered 0 [120, 121], ORead 0 (RData [120])], c)"
  using sample_run by auto

theorem stream_bytes_fifo_witness:
  "\<exists>os c. run mux_step sample_schedule (NewConnection sample_reader sample_writer) = Some (os, c) \<and>
     concat (map (read_bytes 0) os) @ pend c 0 = [120, 121]"
proof -
  obtain c where "run mux_step sample_schedule (NewConnection sample_reader sample_writer)
    = Some ([OOpen (Inr 0), ODone, ODone, ODelivered 0 [120, 121], ORead 0 (RData [120])], c)"
    by (rule sample_runE)
  from this stream_bytes_fifo [OF this, of 0] show ?thesis by auto
qed

section \<open>The table of streams\<close>

text \<open>C7: In every reachable state of a connection, over every schedule, each entry of the stream
  table points to an open stream with that local identifier, and every stream has at most sixteen
  queued payloads, at most one pending answer to its opener, and a closed data channel
  exactly when it is closed.\<close>

theorem mux_reachable_invariant:
  assumes "run mux_step es (NewConnection r w) = Some (os, c)"
  shows "(\<forall>lid i. streamByLocalID lid c = Some i \<longrightarrow>
      i < length (objs c) \<and> localID (stream_at c i) = lid \<and> \<not> closed (stream_at c i)) \<and>
    (\<forall>i < length (objs c). length (dataCh (stream_at c i)) \<le> 16 \<and> length (openCh (stream_at c i)) \<le> 1 \<and>
       dataChClosed (stream_at c i) = closed (stream_at c i))"
  using mux.run_invar [OF NewConnection_ok assms]
  by (auto simp: conn_ok_def table_ok_def stream_ok_def stream_at_def dataChCap_def)

theorem mux_reachable_invariant_witness:
  "\<exists>os c. run mux_step sample_schedule (NewConnection sample_reader sample_writer) = Some (os, c) \<and>
     (\<forall>i < length (objs c). length (dataCh (stream_at c i)) \<le> 16)"
proof -
  obtain c where "run mux_step sample_schedule (NewConnection sample_reader sample_writer)
    = Some ([OOpen (Inr 0), ODone, ODone, ODelivered 0 [120, 121], ORead 0 (RData [120])], c)"
    by (rule sample_runE)
  from this mux_reachable_invariant [OF this] show ?thesis by blast
qed

section \<open>Local identifiers\<close>

definition ids :: "conn \<Rightarrow> u32 list \<times> u32" where
  "ids c = (map localID (objs c), nextLocalID c)"

definition ids_ok :: "conn \<Rightarrow> bool" where
  "ids_ok c \<longleftrightarrow> ids c = (map (\<lambda>i. word_of_nat (Suc i)) [0..<length (objs c)], word_of_nat (length (objs c)))"

lemma ids_okI: "ids_ok c \<Longrightarrow> ids c' = ids c \<Longrightarrow> ids_ok c'"
proof -
  assume "ids_ok c" and eq: "ids c' = ids c"
  have "length (map localID (objs c')) = length (map localID (objs c))" using eq by (simp add: ids_def)
  with \<open>ids_ok c\<close> eq show ?thesis by (simp add: ids_ok_def)
qed

lemma ids_upd_stream:
  "(\<And>s. localID (f s) = localID s) \<Longrightarrow> ids (upd_stream j f c) = ids c"
  by (cases "j < length (objs c)")
    (auto simp: ids_def upd_stream_def list_eq_iff_nth_eq nth_list_update)

lemma localID_establish [simp]: "localID (establish rid s) = localID s"
  by (simp add: establish_def)

lemma ids_quiet [simp]:
  "ids (upd_stream j (open_once v) c) = ids c" "ids (upd_stream j (establish rid) c) = ids c"
  "ids (upd_stream j (closeWithError e) c) = ids c"
  "ids (upd_stream j (\<lambda>s. s\<lparr>openCh := xs\<rparr>) c) = ids c"
  "ids (upd_stream j (\<lambda>s. s\<lparr>dataCh := dataCh s @ [p]\<rparr>) c) = ids c"
  "ids (removeStream lid c) = ids c" "ids (snd (writeMessage m c)) = ids c"
  by (simp_all add: ids_upd_stream) (simp_all add: ids_def)

lemma ids_fields [simp]:
  "ids (c\<lparr>streams := a\<rparr>) = ids c" "ids (c\<lparr>rpc := p\<rparr>) = ids c" "ids (c\<lparr>inp := r\<rparr>) = ids c"
  "ids (c\<lparr>readerErr := e\<rparr>) = ids c" "ids (c\<lparr>readerStarted := b\<rparr>) = ids c"
  "ids (c\<lparr>openHandlers := h\<rparr>) = ids c" "ids (c\<lparr>accepted := k\<rparr>) = ids c"
  by (simp_all add: ids_def)

lemma ids_close [simp]:
  "ids (closeStream lid e c) = ids c" "ids (closeAllStreams e c) = ids c"
  "ids (Stream_Close i c) = ids c"
proof -
  show cs: "ids (closeStream lid e c) = ids c" for lid e c
    by (simp add: closeStream_def split: option.splits)
  show "ids (closeAllStreams e c) = ids c"
    by (simp add: closeAllStreams_eq ids_def comp_def if_distrib [of localID] cong: if_cong)
  show "ids (Stream_Close i c) = ids c" by (simp add: Stream_Close_def Let_def cs)
qed

lemma ids_new:
  assumes "ids_ok c"
  shows "ids_ok (snd (newStreamLocked rid c))" "ids_ok (snd (newAcceptedStream rid c))"
proof -
  from assms show new: "ids_ok (snd (newStreamLocked rid c))"
    by (simp add: ids_ok_def ids_def newStreamLocked_def Let_def algebra_simps)
  then show "ids_ok (snd (newAcceptedStream rid c))"
    by (auto simp: newAcceptedStream_def split: prod.splits elim!: ids_okI)
qed

lemma ids_writeMessage: "writeMessage m c = (e, c') \<Longrightarrow> ids_ok c \<Longrightarrow> ids_ok c'"
  using ids_quiet(7) [of m c] by (auto elim: ids_okI simp del: ids_quiet(7))

lemma ids_startReader [simp]: "ids (snd (startReader c)) = ids c"
  by (simp add: startReader_def)

lemma ids_OpenContext: "ids_ok c \<Longrightarrow> ids_ok (snd (OpenContext ctx service c))"
proof -
  assume ok: "ids_ok c"
  obtain e c1 where c1: "startReader c = (e, c1)" by (metis surj_pair)
  obtain i c2 where c2: "newStreamLocked 0 c1 = (i, c2)" by (metis surj_pair)
  from ok c1 have ok1: "ids_ok c1" using ids_startReader [of c] by (auto elim: ids_okI simp del: ids_startReader)
  with ids_new(1) [of c1 0] c2 have ok2: "ids_ok c2" by simp
  from c1 c2 ok ok1 ok2 show ?thesis
    by (auto simp: OpenContext_def newStream_def Let_def split: option.splits prod.splits
        dest!: ids_writeMessage elim: ids_okI)
qed

lemma ids_handlePeerOpen: "ids_ok c \<Longrightarrow> ids_ok (handlePeerOpen msg c)"
proof -
  assume ok: "ids_ok c"
  obtain i c1 where c1: "newAcceptedStream (Arg0 msg) c = (i, c1)" by (metis surj_pair)
  with ids_new(2) [OF ok, of "Arg0 msg"] have "ids_ok c1" by simp
  with c1 ok show ?thesis
    by (auto simp: handlePeerOpen_def Let_def split: option.splits prod.splits
        dest!: ids_writeMessage elim: ids_okI)
qed

lemma ids_Read:
  assumes "stream_Read n (stream_at c j) = (res, s)"
  shows "ids (upd_stream j (\<lambda>_. s) c) = ids c"
proof -
  have "localID s = localID (objs c ! j)"
    using stream_Read_pending [where n = n and s = "stream_at c j"] assms
    by (auto simp: stream_at_def split: read_result.splits dest!: buf_frame)
  then show ?thesis
    by (cases "j < length (objs c)") (auto simp: ids_def upd_stream_def list_eq_iff_nth_eq nth_list_update)
qed

lemma ids_handleStreamMessage: "ids_ok c \<Longrightarrow> ids_ok (handleStreamMessage msg c)"
  by (auto simp: handleStreamMessage_def ids_handlePeerOpen split: option.splits elim: ids_okI)

lemma ids_step:
  assumes "ids_ok c" "mux_step ev c = Some (x, c')" shows "ids_ok c'"
proof (cases ev)
  case (EOpen ctx service)
  with assms ids_OpenContext [of c ctx service] show ?thesis by (auto simp: mux_step_def split: prod.splits)
next
  case (ERead i n)
  with assms show ?thesis
    by (auto simp: mux_step_def ids_Read split: if_splits prod.splits read_result.splits elim: ids_okI)
next
  case EReaderTurn
  with assms show ?thesis
    by (auto simp: mux_step_def readLoop_turn_def split: if_splits prod.splits sum.splits
        intro!: ids_handleStreamMessage elim: ids_okI)
qed (use assms in \<open>auto simp: mux_step_def Connection_Close_def await_open_def Stream_Write_def HandleOpen_def
       RemoveOpenHandler_def startReader_def receive_def Let_def elim: ids_okI dest: ids_writeMessage
       split: if_splits prod.splits option.splits list.splits reader_pc.splits\<close>)

interpretation mux_ids: machine mux_step ids_ok
  by unfold_locales (rule ids_step)

text \<open>C19: As long as a connection has opened fewer than \<open>2 ^ 32\<close> streams, their local
  identifiers are pairwise different and none is zero, over every schedule.\<close>

theorem local_ids_unique:
  assumes "run mux_step es (NewConnection r w) = Some (os, c)" "length (objs c) < 2 ^ 32"
  shows "distinct (map localID (objs c)) \<and> 0 \<notin> set (map localID (objs c))"
proof -
  have "ids_ok (NewConnection r w)" by (simp add: ids_ok_def ids_def NewConnection_def)
  from mux_ids.run_invar [OF this assms(1)]
  have m: "map localID (objs c) = map (\<lambda>i. word_of_nat (Suc i)) [0..<length (objs c)]"
    by (simp add: ids_ok_def ids_def)
  have "inj_on (\<lambda>i. word_of_nat (Suc i) :: u32) {0..<length (objs c)}"
    using assms(2) by (intro inj_onI) (auto simp: word_of_nat_eq_iff take_bit_nat_eq_self)
  moreover have "(word_of_nat (Suc i) :: u32) \<noteq> 0" if "i < length (objs c)" for i
  proof -
    from that assms(2) have "unat (word_of_nat (Suc i) :: u32) = Suc i" by (simp add: unat_of_nat del: of_nat_Suc)
    then show ?thesis by (metis nat.distinct(1) unsigned_0)
  qed
  ultimately show ?thesis by (auto simp: m distinct_map)
qed

theorem local_ids_unique_witness:
  "\<exists>os c. run mux_step sample_schedule (NewConnection sample_reader sample_writer) = Some (os, c) \<and>
     (2 ^ 32 \<le> length (objs c) \<or> distinct (map localID (objs c)) \<and> 0 \<notin> set (map localID (objs c)))"
proof -
  obtain c where "run mux_step sample_schedule (NewConnection sample_reader sample_writer)
    = Some ([OOpen (Inr 0), ODone, ODone, ODelivered 0 [120, 121], ORead 0 (RData [120])], c)"
    by (rule sample_runE)
  from this local_ids_unique [OF this] show ?thesis by (meson not_less)
qed

end
