(* ===== verification/MuxClose.thy ===== *)
theory MuxClose
  imports MuxProps
begin

text \<open>
  Acknowledgement, closing and the data channel: when the connection reader can panic and when it
  cannot, when it blocks, and what closing a stream or the connection does to those who use it.
\<close>

section \<open>The reader and a stream's data channel\<close>

definition local_close :: "mux_event \<Rightarrow> bool" where
  "local_close ev = (case ev of EClose _ \<Rightarrow> True | ECancelOpen _ \<Rightarrow> True | EConnClose \<Rightarrow> True | _ \<Rightarrow> False)"

definition deliver_open :: "conn \<Rightarrow> bool" where
  "deliver_open c \<longleftrightarrow> conn_ok c \<and> (\<forall>i p. rpc c = RDeliver i p \<longrightarrow> \<not> closed (objs c ! i))"

definition quiet_step :: "mux_event \<Rightarrow> conn \<Rightarrow> (mux_obs \<times> conn) option" where
  "quiet_step ev c = (if local_close ev then None else mux_step ev c)"

text \<open>\<open>extends c c'\<close>: the reader is where it was, and no stream that was there has been closed.\<close>

definition extends :: "conn \<Rightarrow> conn \<Rightarrow> bool" where
  "extends c c' \<longleftrightarrow> rpc c' = rpc c \<and> length (objs c) \<le> length (objs c') \<and>
     (\<forall>i < length (objs c). closed (objs c' ! i) = closed (objs c ! i))"

lemma extends_refl [simp, intro]: "extends c c"
  by (simp add: extends_def)

lemma extends_trans [trans]: "extends c c' \<Longrightarrow> extends c' c'' \<Longrightarrow> extends c c''"
  by (auto simp: extends_def)

lemma extends_frame: "objs c' = objs c \<Longrightarrow> rpc c' = rpc c \<Longrightarrow> extends c c'"
  by (simp add: extends_def)

lemma extends_upd: "(\<And>s. closed (f s) = closed s) \<Longrightarrow> extends c (upd_stream i f c)"
  by (auto simp: extends_def upd_stream_nth)

lemma extends_writeMessage: "writeMessage m c = (e, c') \<Longrightarrow> extends c c'"
  by (auto simp: writeMessage_def extends_def split: prod.splits)

lemma extends_newStreamLocked: "newStreamLocked rid c = (i, c') \<Longrightarrow> extends c c'"
  by (auto simp: newStreamLocked_def Let_def extends_def nth_append)

lemma extends_startReader: "startReader c = (e, c') \<Longrightarrow> extends c c'"
  by (auto simp: startReader_def intro: extends_frame split: if_splits)

lemma extends_OpenContext: "OpenContext ctx service c = (res, c') \<Longrightarrow> extends c c'"
  by (auto simp: OpenContext_def newStream_def Let_def split: option.splits prod.splits
      dest!: extends_startReader extends_newStreamLocked extends_writeMessage intro: extends_trans)
    (meson extends_frame extends_trans removeStream_frame)+

lemma extends_Stream_Write: "Stream_Write p i c = (res, c') \<Longrightarrow> extends c c'"
  by (auto simp: Stream_Write_def Let_def split: if_splits option.splits prod.splits dest: extends_writeMessage)

lemma extends_HandleOpen: "HandleOpen service h c = (e, c') \<Longrightarrow> extends c c'"
  by (auto simp: HandleOpen_def Let_def extends_def startReader_def split: option.splits if_splits)

lemma extends_await: "await_open i c = Some (x, c') \<Longrightarrow> extends c c'"
  by (auto simp: await_open_def split: list.splits intro!: extends_upd)

lemma extends_Read: "stream_Read n (stream_at c i) = (res, s) \<Longrightarrow> extends c (upd_stream i (\<lambda>_. s) c)"
  using stream_Read_pending [where n = n and s = "stream_at c i"]
  by (auto simp: extends_def upd_stream_nth stream_at_def split: read_result.splits dest!: buf_frame)

lemma deliver_open_extends: "deliver_open c \<Longrightarrow> extends c c' \<Longrightarrow> conn_ok c' \<Longrightarrow> deliver_open c'"
  by (auto simp: deliver_open_def extends_def conn_ok_def rpc_ok_def)

lemma rpc_closing [simp]:
  "rpc (closeStream lid e c) = rpc c" "rpc (closeAllStreams e c) = rpc c"
  by (auto simp: closeStream_def closeAllStreams_eq split: option.splits)

lemma rpc_handlePeerOpen [simp]: "rpc (handlePeerOpen msg c) = rpc c"
proof -
  obtain i c1 where c1: "newStreamLocked (Arg0 msg) c = (i, c1)" by (metis surj_pair)
  then have "rpc c1 = rpc c" by (auto simp: newStreamLocked_def Let_def)
  then have w: "writeMessage m (upd_stream i f c1) = (e, c2) \<Longrightarrow> rpc c2 = rpc c" for m f e c2
    using writeMessage_frame(3) [of m "upd_stream i f c1"] by simp
  with c1 show ?thesis
    by (auto simp: handlePeerOpen_def newAcceptedStream_def Let_def split: option.splits prod.splits)
qed

lemma readLoop_turn_deliver:
  assumes "conn_ok c" "rpc c = RWait" "rpc (readLoop_turn c) = RDeliver i p"
  shows "\<not> closed (objs (readLoop_turn c) ! i)"
proof -
  from assms(2,3) obtain msg r where m: "ReadMessage (inp c) = (Inr msg, r)"
    by (auto simp: readLoop_turn_def split: prod.splits sum.splits)
  let ?c = "c\<lparr>inp := r\<rparr>"
  from assms(2,3) m have w: "streamByLocalID (Arg1 msg) ?c = Some i" "Command msg = CommandWRTE"
    by (auto simp: readLoop_turn_def handleStreamMessage_def split: option.splits if_splits)
  from assms(1) have "table_ok ?c" by (simp add: conn_ok_def table_ok_def streamByLocalID_def)
  from table_okD [OF this w(1)] have "i < length (objs c)" "\<not> closed (objs c ! i)" by simp_all
  with m w show ?thesis
    by (simp add: readLoop_turn_def handleStreamMessage_def upd_stream_nth establish_def)
qed

lemma quiet_step_deliver_open:
  assumes "deliver_open c" "quiet_step ev c = Some (x, c')" shows "deliver_open c'"
proof -
  from assms have step: "mux_step ev c = Some (x, c')" and q: "\<not> local_close ev" and ok: "conn_ok c"
    by (auto simp: quiet_step_def deliver_open_def split: if_splits)
  then have ok': "conn_ok c'" by (blast intro: mux_step_ok)
  show ?thesis
  proof (cases "ev = EReaderTurn \<or> ev = EDeliver")
    case True
    then show ?thesis
    proof
      assume "ev = EReaderTurn"
      with step ok ok' show ?thesis
        by (auto simp: deliver_open_def mux_step_def split: if_splits dest: readLoop_turn_deliver)
    next
      assume "ev = EDeliver"
      with step ok' show ?thesis
        by (auto simp: deliver_open_def mux_step_def receive_def Let_def
            split: reader_pc.splits option.splits if_splits)
    qed
  next
    case False
    with step q have "extends c c'"
      by (cases ev) (auto simp: mux_step_def local_close_def RemoveOpenHandler_def
          split: if_splits prod.splits read_result.splits
          intro: extends_OpenContext extends_await extends_Read extends_Stream_Write extends_HandleOpen extends_frame)
    with assms(1) ok' show ?thesis by (blast intro: deliver_open_extends)
  qed
qed

interpretation quiet: machine quiet_step deliver_open
  by unfold_locales (rule quiet_step_deliver_open)

lemma quiet_step_no_panic: "deliver_open c \<Longrightarrow> quiet_step ev c = Some (x, c') \<Longrightarrow> x \<noteq> OPanic"
  by (auto simp: quiet_step_def mux_step_def receive_def Let_def deliver_open_def conn_ok_def rpc_ok_def
      stream_ok_def stream_at_def split: if_splits mux_event.splits prod.splits read_result.splits
      reader_pc.splits option.splits)

lemma run_quiet: "\<forall>ev \<in> set es. \<not> local_close ev \<Longrightarrow> run mux_step es c = run quiet_step es c"
  by (induction es arbitrary: c) (auto simp: quiet_step_def split: option.splits)

lemma deliver_open_new [simp]: "deliver_open (NewConnection r w)"
  by (simp add: deliver_open_def NewConnection_def) (simp add: NewConnection_def [symmetric])

section \<open>Properties\<close>

text \<open>C20: On every schedule in which no stream and not the connection is closed from this side,
  the connection reader never panics.\<close>

theorem reader_never_panics_without_local_close:
  assumes "run mux_step es (NewConnection r w) = Some (os, c)" "\<forall>ev \<in> set es. \<not> local_close ev"
  shows "OPanic \<notin> set os"
proof -
  from assms have "run quiet_step es (NewConnection r w) = Some (os, c)" by (simp add: run_quiet)
  from quiet.run_rel [OF this deliver_open_new, where R = "\<lambda>_ xs _. OPanic \<notin> set xs"]
  show ?thesis by (auto dest: quiet_step_no_panic)
qed

theorem reader_never_panics_without_local_close_witness:
  "\<exists>os c. run mux_step sample_schedule (NewConnection sample_reader sample_writer) = Some (os, c) \<and>
     OPanic \<notin> set os"
proof -
  obtain c where "run mux_step sample_schedule (NewConnection sample_reader sample_writer)
    = Some ([OOpen (Inr 0), ODone, ODone, ODelivered 0 [120, 121], ORead 0 (RData [120])], c)"
    by (rule sample_runE)
  from this reader_never_panics_without_local_close [OF this] show ?thesis
    by (auto simp: sample_schedule_def local_close_def)
qed

lemma Stream_Close_closes:
  assumes "conn_ok c" "i < length (objs c)"
    and "streamByLocalID (localID (stream_at c i)) c = Some i \<or> closed (stream_at c i)"
  shows "closed (stream_at (Stream_Close i c) i)"
proof -
  define c1 where "c1 = (if \<not> closed (stream_at c i) \<and> remoteID (stream_at c i) \<noteq> 0
      then snd (writeMessage \<lparr>Command = CommandCLSE, Arg0 = localID (stream_at c i),
             Arg1 = remoteID (stream_at c i), Payload = []\<rparr> c) else c)"
  have c1: "objs c1 = objs c" "streams c1 = streams c" by (simp_all add: c1_def)
  have close: "Stream_Close i c = closeStream (localID (stream_at c i)) (Some ErrClosedPipe) c1"
    by (simp add: Stream_Close_def c1_def Let_def)
  show ?thesis
    using assms c1 by (auto simp: close closeStream_def streamByLocalID_def stream_at_def upd_stream_nth
        split: option.splits)
qed

text \<open>C21: When a stream of the table is closed locally while the connection reader is about to
  send a payload on its data channel, the send panics: the schedule is possible from every state in
  which the reader has acknowledged a packet for an open stream.\<close>

theorem close_during_delivery_panics:
  assumes "conn_ok c" "rpc c = RDeliver i p" "streamByLocalID (localID (stream_at c i)) c = Some i"
  shows "\<exists>c'. run mux_step [EClose i, EDeliver] c = Some ([ODone, OPanic], c') \<and> rpc c' = RPanic"
proof -
  from assms have i: "i < length (objs c)" by (simp add: conn_ok_def rpc_ok_def)
  let ?c = "Stream_Close i c"
  have ok: "conn_ok ?c" using assms(1) by (rule Stream_Close_ok)
  have rpc: "rpc ?c = RDeliver i p" using assms(2) by (simp add: Stream_Close_def Let_def)
  with ok have "i < length (objs ?c)" by (simp add: conn_ok_def rpc_ok_def)
  with ok Stream_Close_closes [OF assms(1) i] assms(3) have "dataChClosed (stream_at ?c i)"
    by (simp add: conn_ok_def stream_ok_def stream_at_def)
  with i rpc show ?thesis by (simp add: mux_step_def receive_def Let_def)
qed

definition sample_delivering :: conn where
  "sample_delivering =
     (case run mux_step (take 3 sample_schedule) (NewConnection sample_reader sample_writer) of
        Some (_, c) \<Rightarrow> c | None \<Rightarrow> NewConnection sample_reader sample_writer)"

lemma sample_delivering_ok: "conn_ok sample_delivering"
  using mux.run_invar [OF NewConnection_ok, of "take 3 sample_schedule" sample_reader sample_writer]
  by (auto simp: sample_delivering_def split: option.splits)

definition sample_stream :: stream where
  "sample_stream = \<lparr>localID = 1, remoteID = 5, openDone = True, openCh = [None], buf = [], closed = False,
     err = None, dataCh = [], dataChClosed = False\<rparr>"

lemma sample_delivering_fields:
  "(objs sample_delivering, streams sample_delivering, rpc sample_delivering)
     = ([sample_stream], [(1, 0)], RDeliver 0 [120, 121])"
  by code_simp

lemma sample_delivering_simps [simp]:
  "objs sample_delivering = [sample_stream]" "rpc sample_delivering = RDeliver 0 [120, 121]"
  "stream_at sample_delivering 0 = sample_stream" "streamByLocalID 1 sample_delivering = Some 0"
  "localID sample_stream = 1"
  using sample_delivering_fields by (auto simp: stream_at_def streamByLocalID_def sample_stream_def)

theorem close_during_delivery_panics_witness:
  "\<exists>c'. run mux_step [EClose 0, EDeliver] sample_delivering = Some ([ODone, OPanic], c') \<and> rpc c' = RPanic"
  by (rule close_during_delivery_panics [OF sample_delivering_ok]) simp_all

text \<open>A \<open>WRTE\<close> packet for a stream of the table is acknowledged with an \<open>OKAY\<close> that carries
  the stream's local identifier and the peer's, before the payload becomes readable: the packet is on
  the wire and the reader is about to deliver exactly that payload, while the stream's pending
  bytes are unchanged.\<close>

theorem write_packet_acknowledged:
  assumes "conn_ok c" "wr_script (out c) = []" "Command msg = CommandWRTE"
    and "streamByLocalID (Arg1 msg) c = Some i"
  shows "wr_out (out (handleStreamMessage msg c)) = wr_out (out c) @
      encode_message \<lparr>Command = CommandOKAY, Arg0 = Arg1 msg, Arg1 = Arg0 msg, Payload = []\<rparr> \<and>
    rpc (handleStreamMessage msg c) = RDeliver i (Payload msg) \<and>
    pend (handleStreamMessage msg c) = pend c"
proof -
  from assms(1) have "table_ok c" by (simp add: conn_ok_def)
  from table_okD [OF this assms(4)] have "localID (stream_at c i) = Arg1 msg" by (simp add: stream_at_def)
  with assms show ?thesis by (simp add: handleStreamMessage_def writeMessage_def)
qed

theorem write_packet_acknowledged_witness:
  "rpc (handleStreamMessage \<lparr>Command = CommandWRTE, Arg0 = 5, Arg1 = 1, Payload = [9]\<rparr>
     (snd (OpenContext None ''shell:'' (NewConnection sample_reader sample_writer)))) = RDeliver 0 [9]"
proof -
  let ?c = "snd (OpenContext None ''shell:'' (NewConnection sample_reader sample_writer))"
  have "conn_ok ?c" by (simp add: OpenContext_ok)
  moreover have "wr_script (out ?c) = []" "streamByLocalID 1 ?c = Some 0" by code_simp+
  ultimately show ?thesis
    using write_packet_acknowledged [of ?c "\<lparr>Command = CommandWRTE, Arg0 = 5, Arg1 = 1, Payload = [9]\<rparr>" 0] by simp
qed

text \<open>Closing a stream is final: afterwards a write fails without sending anything, and closing
  it again sends nothing more.\<close>

theorem closed_stream_is_silent:
  assumes "conn_ok c" "i < length (objs c)" "streamByLocalID (localID (stream_at c i)) c = Some i"
  shows "Stream_Write p i (Stream_Close i c) = (Inl ErrClosedPipe, Stream_Close i c) \<and>
    out (Stream_Close i (Stream_Close i c)) = out (Stream_Close i c)"
proof -
  from assms have closed: "closed (stream_at (Stream_Close i c) i)" by (simp add: Stream_Close_closes)
  have "out (closeStream lid e d) = out d" for lid e d
    by (simp add: closeStream_def split: option.splits)
  with closed show ?thesis
    by (simp add: Stream_Write_def Stream_Close_def [of i "Stream_Close i c"] Let_def)
qed

theorem closed_stream_is_silent_witness:
  "fst (Stream_Write [1] 0 (Stream_Close 0 sample_delivering)) = Inl ErrClosedPipe"
  using closed_stream_is_silent [OF sample_delivering_ok, of 0 "[1]"] by simp



text \<open>When the peer closes an established stream, \<open>io.ReadAll\<close> on it returns exactly the bytes
  that were pending, without an error, however the reads are cut.\<close>

theorem read_all_after_peer_close:
  assumes "conn_ok c" "streamByLocalID (Arg1 msg) c = Some i" "Command msg = CommandCLSE"
    and "remoteID (stream_at c i) \<noteq> 0" "0 < n" "length (pend c i) + 1 < fuel"
  shows "\<exists>s'. read_all_loop closed_read fuel n [] (stream_at (handleStreamMessage msg c) i)
    = Some ((None, pend c i), s')"
proof -
  from assms have "table_ok c" by (simp add: conn_ok_def)
  note i = table_okD [OF this assms(2)]
  let ?s = "stream_at (handleStreamMessage msg c) i"
  have s: "?s = closeWithError None (stream_at c i)"
    using assms i by (simp add: handleStreamMessage_def closeStream_def stream_at_def upd_stream_nth)
  have "stream_ending ?s = EOF" "stream_pending ?s = pend c i"
    unfolding s using i
    by (simp_all add: pend_def stream_at_def stream_ending_def stream_pending_def closeWithError_def)
  with closed_stream.read_all_loop_eq [of ?s n fuel "[]"] assms(5,6) s show ?thesis by auto
qed

definition sample_delivered :: conn where
  "sample_delivered =
     (case run mux_step (take 4 sample_schedule) (NewConnection sample_reader sample_writer) of
        Some (_, c) \<Rightarrow> c | None \<Rightarrow> NewConnection sample_reader sample_writer)"

theorem read_all_after_peer_close_witness:
  "\<exists>s'. read_all_loop closed_read 9 512 []
      (stream_at (handleStreamMessage \<lparr>Command = CommandCLSE, Arg0 = 5, Arg1 = 1, Payload = []\<rparr> sample_delivered) 0)
    = Some ((None, [120, 121]), s')"
proof -
  have ok: "conn_ok sample_delivered"
    using mux.run_invar [OF NewConnection_ok, of "take 4 sample_schedule" sample_reader sample_writer]
    by (auto simp: sample_delivered_def split: option.splits)
  have "(objs sample_delivered, streams sample_delivered)
      = ([sample_stream\<lparr>dataCh := [[120, 121]]\<rparr>], [(1, 0)])" by code_simp
  then have facts: "streamByLocalID 1 sample_delivered = Some 0" "remoteID (stream_at sample_delivered 0) = 5"
    "pend sample_delivered 0 = [120, 121]"
    by (auto simp: streamByLocalID_def stream_at_def pend_def stream_pending_def sample_stream_def)
  show ?thesis
    using read_all_after_peer_close [OF ok, of "\<lparr>Command = CommandCLSE, Arg0 = 5, Arg1 = 1, Payload = []\<rparr>" 0 512 9]
    by (simp add: facts)
qed

text \<open>A full data channel stops the whole connection: while the reader waits to hand a payload
  to a stream with sixteen unread ones, it handles no packet for any stream until that stream is
  read or closed.\<close>

theorem full_stream_blocks_reader:
  assumes "rpc c = RDeliver i p" "\<not> dataChClosed (stream_at c i)" "length (dataCh (stream_at c i)) = 16"
  shows "mux_step EDeliver c = None \<and> mux_step EReaderTurn c = None"
  using assms by (simp add: mux_step_def receive_def Let_def dataChCap_def)

definition sample_full :: conn where
  "sample_full = sample_delivering\<lparr>objs := map (\<lambda>s. s\<lparr>dataCh := replicate 16 [1]\<rparr>) (objs sample_delivering)\<rparr>"

theorem full_stream_blocks_reader_witness:
  "mux_step EDeliver sample_full = None"
  using full_stream_blocks_reader [of sample_full 0 "[120, 121]"]
  by (simp add: sample_full_def stream_at_def sample_stream_def)

end
