(* ===== verification/MuxWire.thy ===== *)
theory MuxWire
  imports MuxProps "HOL-Library.Sublist"
begin

text \<open>
  From the wire to the reader of a stream. The packets a connection can read are a list of messages; what is delivered to a
  stream, over every schedule, is one run of the payloads the device addressed to its identifier, without a gap.
\<close>

section \<open>What is on the wire\<close>

function wire_messages :: "reader \<Rightarrow> message list" where
  "wire_messages r = (case ReadMessage r of (Inl _, _) \<Rightarrow> [] | (Inr m, r') \<Rightarrow> m # wire_messages r')"
  by pat_completeness auto
termination
  by (relation "measure (\<lambda>r. length (rd_data r))") (auto dest: ReadMessage_length [OF sym])

declare wire_messages.simps [simp del]

lemma wire_messages_encode:
  assumes "\<forall>m \<in> set ms. msg_ok m"
  shows "wire_messages \<lparr>rd_data = concat (map encode_message ms), rd_end = e\<rparr> = ms"
  using assms
proof (induction ms)
  case Nil
  have "ReadMessage \<lparr>rd_data = [], rd_end = e\<rparr> = (Inr m, r) \<Longrightarrow> False" for m r
    using ReadMessage_length [of "\<lparr>rd_data = [], rd_end = e\<rparr>" m r] by simp
  then show ?case by (auto simp: wire_messages.simps [of "\<lparr>rd_data = [], rd_end = e\<rparr>"] split: prod.split sum.split)
next
  case (Cons m ms)
  then show ?case
    using ReadMessage_encode [of m "\<lparr>rd_data = concat (map encode_message (m # ms)), rd_end = e\<rparr>" "concat (map encode_message ms)"]
    by (simp add: wire_messages.simps [of "\<lparr>rd_data = _ @ _, rd_end = e\<rparr>"])
qed

definition payloads_to :: "u32 \<Rightarrow> message list \<Rightarrow> bytes list" where
  "payloads_to lid ms = map Payload (filter (\<lambda>m. Command m = CommandWRTE \<and> Arg1 m = lid) ms)"

text \<open>The payload the reader holds, those it has still to read, and what can become of them.\<close>

definition in_hand :: "nat \<Rightarrow> conn \<Rightarrow> bytes list" where
  "in_hand i c = (case rpc c of RDeliver j p \<Rightarrow> if j = i then [p] else [] | _ \<Rightarrow> [])"

definition coming :: "nat \<Rightarrow> conn \<Rightarrow> bytes list" where
  "coming i c = (case rpc c of RStopped \<Rightarrow> [] | RPanic \<Rightarrow> [] | _ \<Rightarrow> payloads_to (word_of_nat (Suc i)) (wire_messages (inp c)))"

definition feed :: "nat \<Rightarrow> conn \<Rightarrow> bytes list \<Rightarrow> bool" where
  "feed i c ps =
     (if \<not> i < length (objs c) then sublist ps (coming i c)
      else if streamByLocalID (word_of_nat (Suc i)) c = Some i then prefix ps (in_hand i c @ coming i c)
      else prefix ps (in_hand i c))"

fun deliveries :: "nat \<Rightarrow> mux_obs \<Rightarrow> bytes list" where
  "deliveries i (ODelivered j p) = (if j = i then [p] else [])"
| "deliveries i _ = []"

section \<open>Steps that leave the reader alone\<close>

definition quiet_to :: "conn \<Rightarrow> conn \<Rightarrow> bool" where
  "quiet_to c c' \<longleftrightarrow> rpc c' = rpc c \<and> inp c' = inp c \<and> length (objs c) \<le> length (objs c') \<and>
     (\<forall>lid i. i < length (objs c) \<longrightarrow> streamByLocalID lid c' = Some i \<longrightarrow> streamByLocalID lid c = Some i)"

lemma quiet_refl [intro, simp]: "quiet_to c c"
  by (simp add: quiet_to_def)

lemma quiet_trans [trans]: "quiet_to a b \<Longrightarrow> quiet_to b c \<Longrightarrow> quiet_to a c"
  unfolding quiet_to_def by (metis le_trans less_le_trans)

lemma quiet_upd [simp]: "quiet_to a (upd_stream i f c) = quiet_to a c"
  by (simp add: quiet_to_def)

lemma quiet_fields [simp]:
  "quiet_to a (c\<lparr>readerErr := e\<rparr>) = quiet_to a c" "quiet_to a (c\<lparr>readerStarted := b\<rparr>) = quiet_to a c"
  "quiet_to a (c\<lparr>openHandlers := h\<rparr>) = quiet_to a c" "quiet_to a (c\<lparr>accepted := k\<rparr>) = quiet_to a c"
  "quiet_to a (c\<lparr>out := w\<rparr>) = quiet_to a c"
  by (simp_all add: quiet_to_def streamByLocalID_def)

lemma quiet_remove: "quiet_to a c \<Longrightarrow> quiet_to a (removeStream lid c)"
  by (auto simp: quiet_to_def removeStream_def streamByLocalID_def delete_conv' split: if_splits)

lemma quiet_write: "quiet_to a c \<Longrightarrow> writeMessage m c = (e, c') \<Longrightarrow> quiet_to a c'"
  by (auto simp: writeMessage_def split: prod.splits)

lemma quiet_closeStream: "quiet_to a c \<Longrightarrow> quiet_to a (closeStream lid e c)"
  by (simp add: closeStream_def quiet_remove split: option.split)

lemma quiet_closeAll: "quiet_to c (closeAllStreams e c)"
  by (auto simp: closeAllStreams_eq quiet_to_def streamByLocalID_def)

lemma quiet_new: "quiet_to a c \<Longrightarrow> newStreamLocked rid c = (i, c') \<Longrightarrow> quiet_to a c'"
  by (auto simp: newStreamLocked_def Let_def quiet_to_def streamByLocalID_def update_conv' split: if_splits)

lemma quiet_accept:
  assumes "quiet_to a c" "newAcceptedStream rid c = (i, c')"
  shows "quiet_to a c'"
proof -
  obtain j c1 where new: "newStreamLocked rid c = (j, c1)" by (metis surj_pair)
  with assms(2) have "c' = upd_stream j (open_once None) c1" by (auto simp: newAcceptedStream_def)
  with quiet_new [OF assms(1) new] show ?thesis by simp
qed

lemma quiet_startReader: "startReader c = (e, c') \<Longrightarrow> quiet_to c c'"
  by (auto simp: startReader_def split: if_splits)

lemma quiet_Open: "quiet_to c (snd (OpenContext ctx service c))"
proof -
  obtain e c1 where c1: "startReader c = (e, c1)" by (metis surj_pair)
  obtain i c2 where c2: "newStreamLocked 0 c1 = (i, c2)" by (metis surj_pair)
  obtain e3 c3 where c3: "writeMessage \<lparr>Command = CommandOPEN, Arg0 = localID (stream_at c2 i), Arg1 = 0,
      Payload = bytes_of_string (TrimSuffix service nul @ nul)\<rparr> c2 = (e3, c3)" by (metis surj_pair)
  note q1 = quiet_startReader [OF c1]
  note q3 = quiet_write [OF quiet_new [OF q1 c2] c3]
  from c1 c2 c3 q1 q3 show ?thesis
    by (simp add: OpenContext_def newStream_def Let_def quiet_remove split: option.split)
qed

lemma quiet_PeerOpen: "quiet_to c (handlePeerOpen msg c)"
proof -
  let ?okay = "\<lambda>c i. \<lparr>Command = CommandOKAY, Arg0 = localID (stream_at c i), Arg1 = Arg0 msg, Payload = []\<rparr>"
  let ?clse = "\<lparr>Command = CommandCLSE, Arg0 = 0, Arg1 = Arg0 msg, Payload = []\<rparr>"
  obtain i c1 where c1: "newAcceptedStream (Arg0 msg) c = (i, c1)" by (metis surj_pair)
  obtain e2 c2 where c2: "writeMessage (?okay c1 i) c1 = (e2, c2)" by (metis surj_pair)
  obtain e3 c3 where c3: "writeMessage ?clse c = (e3, c3)" by (metis surj_pair)
  note q2 = quiet_write [OF quiet_accept [OF quiet_refl c1] c2]
  note q3 = quiet_write [OF quiet_refl c3]
  from c1 c2 c3 q2 q3 show ?thesis
    by (simp add: handlePeerOpen_def Let_def quiet_closeStream split: option.split)
qed

lemma quiet_Close: "quiet_to c (Stream_Close i c)"
  by (cases "writeMessage \<lparr>Command = CommandCLSE, Arg0 = localID (stream_at c i), Arg1 = remoteID (stream_at c i),
      Payload = []\<rparr> c") (auto simp: Stream_Close_def Let_def intro: quiet_closeStream dest: quiet_write [OF quiet_refl])

lemma quiet_Write: "quiet_to c (snd (Stream_Write p i c))"
  by (cases "writeMessage \<lparr>Command = CommandWRTE, Arg0 = localID (stream_at c i), Arg1 = remoteID (stream_at c i),
      Payload = p\<rparr> c") (auto simp: Stream_Write_def Let_def split: option.split dest: quiet_write [OF quiet_refl])

lemma quiet_HandleOpen: "quiet_to c (snd (HandleOpen service h c))"
  by (auto simp: HandleOpen_def Let_def startReader_def split: option.split)

lemma quiet_closes: "quiet_to c (Connection_Close c)" "quiet_to c (RemoveOpenHandler service c)"
  by (simp_all add: Connection_Close_def quiet_closeAll RemoveOpenHandler_def)

lemma quiet_await: "await_open i c = Some (x, c') \<Longrightarrow> quiet_to c c'"
  by (auto simp: await_open_def split: list.splits)

section \<open>One step\<close>

lemma feed_Nil [simp]: "feed i c []"
  by (simp add: feed_def)

lemma hand_of_new:
  "conn_ok c \<Longrightarrow> \<not> i < length (objs c) \<Longrightarrow> in_hand i c = []"
  by (auto simp: in_hand_def conn_ok_def rpc_ok_def split: reader_pc.split)

lemma feed_quiet:
  assumes ok: "conn_ok c" and q: "quiet_to c c'" and f: "feed i c' ps"
  shows "feed i c ps"
proof -
  from q have same: "in_hand i c' = in_hand i c" "coming i c' = coming i c"
    by (simp_all add: quiet_to_def in_hand_def coming_def split: reader_pc.split)
  from q have len: "length (objs c) \<le> length (objs c')" by (simp add: quiet_to_def)
  from q have reg: "i < length (objs c) \<Longrightarrow> streamByLocalID lid c' = Some i \<Longrightarrow> streamByLocalID lid c = Some i" for lid
    by (auto simp: quiet_to_def)
  show ?thesis
  proof (cases "i < length (objs c)")
    case True
    with f len reg [of "word_of_nat (Suc i)"] show ?thesis
      by (auto simp: feed_def same intro: prefix_prefix split: if_splits)
  next
    case False
    with f hand_of_new [OF ok False] show ?thesis
      by (auto simp: feed_def same split: if_splits)
  qed
qed

text \<open>A turn of the connection reader takes one message off the wire. Only a \<open>WRTE\<close> for a registered stream leaves
  a payload in its hand; every other message is handled with the reader left waiting.\<close>

lemma turn_quiet:
  assumes "\<not> (Command msg = CommandWRTE \<and> streamByLocalID (Arg1 msg) c \<noteq> None)"
  shows "quiet_to c (handleStreamMessage msg c)"
  using assms by (auto simp: handleStreamMessage_def quiet_PeerOpen quiet_closeStream split: option.split)

lemma turn_WRTE:
  assumes "Command msg = CommandWRTE" "streamByLocalID (Arg1 msg) c = Some j"
  shows "\<exists>c1. quiet_to c c1 \<and> streamByLocalID (Arg1 msg) c1 = Some j \<and>
    handleStreamMessage msg c = c1\<lparr>rpc := RDeliver j (Payload msg)\<rparr>"
proof -
  let ?c = "upd_stream j (establish (Arg0 msg)) c"
  let ?m = "\<lparr>Command = CommandOKAY, Arg0 = localID (stream_at c j), Arg1 = Arg0 msg, Payload = []\<rparr>"
  obtain e c1 where c1: "writeMessage ?m ?c = (e, c1)" by (metis surj_pair)
  moreover have "quiet_to c c1" using quiet_write [OF _ c1, of c] by simp
  moreover have "streamByLocalID (Arg1 msg) c1 = Some j"
    using writeMessage_frame(2) [of ?m ?c] c1 assms(2) by (simp add: streamByLocalID_def del: writeMessage_frame)
  ultimately show ?thesis using assms by (auto simp: handleStreamMessage_def)
qed

lemma table_id:
  assumes "conn_ok c" "ids_ok c" "streamByLocalID lid c = Some i"
  shows "lid = word_of_nat (Suc i)"
proof -
  from assms(1,3) have i: "i < length (objs c)" "localID (objs c ! i) = lid" by (auto simp: conn_ok_def table_ok_def)
  from assms(2) have "map localID (objs c) = map (\<lambda>i. word_of_nat (Suc i)) [0..<length (objs c)]"
    by (simp add: ids_ok_def ids_def)
  then have "map localID (objs c) ! i = map (\<lambda>i. word_of_nat (Suc i)) [0..<length (objs c)] ! i" by simp
  with i show ?thesis by simp
qed

lemma coming_read:
  assumes "rpc c = RWait" "ReadMessage (inp c) = (Inr m, r)"
  shows "coming i c = payloads_to (word_of_nat (Suc i)) [m] @ coming i (c\<lparr>inp := r\<rparr>)"
  using assms by (simp add: coming_def wire_messages.simps [of "inp c"] payloads_to_def)

lemma feed_read:
  assumes wait: "rpc c = RWait" and rm: "ReadMessage (inp c) = (Inr m, r)"
    and f: "feed i (c\<lparr>inp := r\<rparr>) ps"
    and none: "streamByLocalID (word_of_nat (Suc i)) c = Some i \<Longrightarrow> payloads_to (word_of_nat (Suc i)) [m] = []"
  shows "feed i c ps"
proof -
  have same: "in_hand i (c\<lparr>inp := r\<rparr>) = in_hand i c" "objs (c\<lparr>inp := r\<rparr>) = objs c"
    "streamByLocalID lid (c\<lparr>inp := r\<rparr>) = streamByLocalID lid c" for lid
    by (simp_all add: in_hand_def streamByLocalID_def)
  from f none show ?thesis
    by (auto simp: feed_def same coming_read [OF wait rm] intro: sublist_order.order.trans split: if_splits)
qed

lemma conn_ok_inp [simp]: "conn_ok (c\<lparr>inp := r\<rparr>) = conn_ok c"
  by (simp add: conn_ok_def table_ok_def rpc_ok_def streamByLocalID_def)

lemma feed_turn_WRTE:
  assumes ok: "conn_ok c" "ids_ok c" and wait: "rpc c = RWait" and rm: "ReadMessage (inp c) = (Inr m, r)"
    and m: "Command m = CommandWRTE" "streamByLocalID (Arg1 m) c = Some j" and f: "feed i (readLoop_turn c) ps"
  shows "feed i c ps"
proof -
  let ?c = "c\<lparr>inp := r\<rparr>"
  from m have lid: "Arg1 m = word_of_nat (Suc j)" using table_id [OF ok] by simp
  have tab: "streamByLocalID lid ?c = streamByLocalID lid c" for lid by (simp add: streamByLocalID_def)
  have turn: "readLoop_turn c = handleStreamMessage m ?c" using rm by (simp add: readLoop_turn_def)
  obtain c1 where c1: "quiet_to ?c c1" "streamByLocalID (Arg1 m) c1 = Some j"
    "readLoop_turn c = c1\<lparr>rpc := RDeliver j (Payload m)\<rparr>"
    using turn_WRTE [of m ?c j] m unfolding turn by (auto simp: tab)
  then have frame: "rpc c1 = RWait" "inp c1 = r" "length (objs c) \<le> length (objs c1)"
    using wait by (simp_all add: quiet_to_def)
  show ?thesis
  proof (cases "j = i")
    case True
    with ok(1) m(2) have "i < length (objs c)" by (auto simp: conn_ok_def table_ok_def)
    moreover have "coming i c = Payload m # coming i (readLoop_turn c)"
      unfolding coming_read [OF wait rm] using True m lid wait c1(3) frame by (simp add: coming_def payloads_to_def)
    ultimately show ?thesis
      using True f m lid c1 frame wait by (auto simp: feed_def in_hand_def streamByLocalID_def)
  next
    case False
    with f frame have "feed i c1 ps"
      by (auto simp: c1(3) feed_def in_hand_def coming_def streamByLocalID_def split: if_splits)
    with c1(1) ok(1) have "feed i ?c ps" by (auto intro: feed_quiet)
    with False m show ?thesis by (auto intro!: feed_read [OF wait rm] simp: payloads_to_def)
  qed
qed

lemma feed_turn:
  assumes ok: "conn_ok c" "ids_ok c" and wait: "rpc c = RWait" and f: "feed i (readLoop_turn c) ps"
  shows "feed i c ps"
proof (cases "ReadMessage (inp c)")
  case (Pair res r)
  show ?thesis
  proof (cases res)
    case (Inl e)
    let ?c = "c\<lparr>inp := r, readerErr := Some e, rpc := RStopped\<rparr>"
    have "conn_ok ?c" using ok(1) by (simp add: conn_ok_def table_ok_def rpc_ok_def streamByLocalID_def)
    moreover have "readLoop_turn c = closeAllStreams (Some ErrDeviceClosed) ?c"
      using Pair Inl by (simp add: readLoop_turn_def)
    ultimately have "feed i ?c ps" using f by (metis feed_quiet quiet_closeAll)
    then have "ps = []" by (simp add: feed_def in_hand_def coming_def split: if_splits)
    then show ?thesis by simp
  next
    case (Inr m)
    let ?c = "c\<lparr>inp := r\<rparr>"
    from Pair Inr have rm: "ReadMessage (inp c) = (Inr m, r)" by simp
    show ?thesis
    proof (cases "Command m = CommandWRTE \<and> streamByLocalID (Arg1 m) c \<noteq> None")
      case False
      then have "quiet_to ?c (readLoop_turn c)"
        using rm turn_quiet [of m ?c] by (simp add: readLoop_turn_def streamByLocalID_def)
      with f ok(1) have "feed i ?c ps" by (auto intro: feed_quiet)
      with False show ?thesis by (auto intro!: feed_read [OF wait rm] simp: payloads_to_def)
    next
      case True
      then show ?thesis using feed_turn_WRTE [OF ok wait rm _ _ f] by auto
    qed
  qed
qed

lemma feed_deliver:
  assumes "rpc c = RDeliver j p" "receive j p c = Some c'" "feed i c' ps" and j: "j < length (objs c)"
  shows "feed i c (deliveries i (if rpc c' = RPanic then OPanic else ODelivered j p) @ ps)"
proof (cases "rpc c' = RPanic")
  case True
  with assms(3) have "ps = []" by (simp add: feed_def in_hand_def coming_def split: if_splits)
  with True show ?thesis by simp
next
  case False
  with assms(2) have c': "c' = upd_stream j (\<lambda>s. s\<lparr>dataCh := dataCh s @ [p]\<rparr>) (c\<lparr>rpc := RWait\<rparr>)"
    by (auto simp: receive_def Let_def split: if_splits)
  have same: "streamByLocalID lid (c\<lparr>rpc := RWait\<rparr>) = streamByLocalID lid c" for lid
    by (simp add: streamByLocalID_def)
  from assms(1,3) False j show ?thesis
    by (auto simp: feed_def in_hand_def coming_def c' same split: if_splits)
qed

lemma feed_step:
  assumes ok: "conn_ok c" "ids_ok c" and st: "mux_step ev c = Some (x, c')" and f: "feed i c' ps"
  shows "feed i c (deliveries i x @ ps)"
proof (cases ev)
  case (EOpen ctx service)
  with st f quiet_Open [of c ctx service] show ?thesis
    by (auto simp: mux_step_def intro: feed_quiet [OF ok(1)] split: prod.splits)
next
  case (EWrite j p)
  with st f quiet_Write [of c p j] show ?thesis
    by (auto simp: mux_step_def intro: feed_quiet [OF ok(1)] split: if_splits prod.splits)
next
  case (EHandleOpen service h)
  with st f quiet_HandleOpen [of c service h] show ?thesis
    by (auto simp: mux_step_def intro: feed_quiet [OF ok(1)] split: prod.splits)
next
  case EReaderTurn
  with st f show ?thesis by (auto simp: mux_step_def intro: feed_turn [OF ok] split: if_splits)
next
  case EDeliver
  with st obtain j p where j: "rpc c = RDeliver j p" "receive j p c = Some c'"
    "x = (if rpc c' = RPanic then OPanic else ODelivered j p)"
    by (auto simp: mux_step_def split: reader_pc.splits option.splits)
  moreover from ok(1) j(1) have "j < length (objs c)" by (simp add: conn_ok_def rpc_ok_def)
  ultimately show ?thesis using feed_deliver [OF j(1,2) f] by (simp only: j(3))
qed (use st f in \<open>auto simp: mux_step_def intro!: feed_quiet [OF ok(1) _ f] quiet_Close quiet_closes dest: quiet_await
      split: if_splits prod.splits read_result.splits\<close>)

section \<open>Every schedule\<close>

definition mux_all_ok :: "conn \<Rightarrow> bool" where
  "mux_all_ok c \<longleftrightarrow> conn_ok c \<and> ids_ok c"

interpretation mux_all: machine mux_step mux_all_ok
  by unfold_locales (auto simp: mux_all_ok_def intro: mux_step_ok ids_step)

lemma mux_all_new: "mux_all_ok (NewConnection r w)"
  by (simp add: mux_all_ok_def) (simp add: ids_ok_def ids_def NewConnection_def)

lemma delivered_concat: "delivered_bytes i x = concat (deliveries i x)"
  by (cases "(i, x)" rule: deliveries.cases) simp_all

lemma run_feed:
  assumes "run mux_step es c = Some (os, c')" "mux_all_ok c"
  shows "feed i c (concat (map (deliveries i) os))"
proof -
  have "\<forall>ps. feed i c' ps \<longrightarrow> feed i c (concat (map (deliveries i) os) @ ps)"
    by (rule mux_all.run_rel [OF assms]) (auto simp: mux_all_ok_def dest: feed_step)
  then show ?thesis by (auto dest: spec [of _ "[]"])
qed

lemma run_pend:
  assumes "run mux_step es (NewConnection r w) = Some (os, c)"
  shows "concat (map (read_bytes i) os) @ pend c i = concat (concat (map (deliveries i) os))"
proof -
  have "pend (NewConnection r w) i @ concat (concat (map (deliveries i) os)) = concat (map (read_bytes i) os) @ pend c i"
  proof (rule mux.run_rel [OF assms NewConnection_ok])
    fix s e x s' xs s''
    assume "conn_ok s" "mux_step e s = Some (x, s')"
      and "pend s' i @ concat (concat (map (deliveries i) xs)) = concat (map (read_bytes i) xs) @ pend s'' i"
    from append_square [OF pend_step [OF this(1,2)] this(3)]
    show "pend s i @ concat (concat (map (deliveries i) (x # xs))) = concat (map (read_bytes i) (x # xs)) @ pend s'' i"
      by (simp add: delivered_concat)
  qed simp
  then show ?thesis by (simp add: pend_def NewConnection_def)
qed

lemma run_localID:
  assumes "run mux_step es (NewConnection r w) = Some (os, c)" "i < length (objs c)"
  shows "localID (stream_at c i) = word_of_nat (Suc i)"
proof -
  have "map localID (objs c) = map (\<lambda>i. word_of_nat (Suc i)) [0..<length (objs c)]"
    using mux_all.run_invar [OF mux_all_new assms(1)] by (simp add: mux_all_ok_def ids_ok_def ids_def)
  then have "map localID (objs c) ! i = map (\<lambda>i. word_of_nat (Suc i)) [0..<length (objs c)] ! i" by simp
  with assms(2) show ?thesis by (simp add: stream_at_def)
qed

text \<open>C2: When the peer's packets are the encodings of a list of messages, over every schedule the bytes a stream's
  reader has been given followed by those still pending are the payloads of one contiguous run of the \<open>WRTE\<close> messages
  the peer addressed to that stream's identifier: nothing of another stream is mixed in, and no packet inside the run is
  dropped, repeated or reordered.\<close>

theorem stream_reads_wire:
  assumes "\<forall>m \<in> set ms. msg_ok m"
    and "run mux_step es (NewConnection \<lparr>rd_data = concat (map encode_message ms), rd_end = e\<rparr> w) = Some (os, c)"
    and "i < length (objs c)"
  shows "\<exists>ps. sublist ps (payloads_to (localID (stream_at c i)) ms) \<and>
    concat (map (read_bytes i) os) @ pend c i = concat ps"
proof (intro exI conjI)
  let ?c = "NewConnection \<lparr>rd_data = concat (map encode_message ms), rd_end = e\<rparr> w"
  have "feed i ?c (concat (map (deliveries i) os))" by (rule run_feed [OF assms(2) mux_all_new])
  moreover have "coming i ?c = payloads_to (word_of_nat (Suc i)) ms"
    by (simp add: coming_def NewConnection_def wire_messages_encode [OF assms(1)])
  ultimately show "sublist (concat (map (deliveries i) os)) (payloads_to (localID (stream_at c i)) ms)"
    by (simp add: feed_def run_localID [OF assms(2,3)]) (simp add: NewConnection_def)
  show "concat (map (read_bytes i) os) @ pend c i = concat (concat (map (deliveries i) os))"
    by (rule run_pend [OF assms(2)])
qed

definition sample_messages :: "message list" where
  "sample_messages = [\<lparr>Command = CommandOKAY, Arg0 = 5, Arg1 = 1, Payload = []\<rparr>,
     \<lparr>Command = CommandWRTE, Arg0 = 5, Arg1 = 1, Payload = [120, 121]\<rparr>]"

lemma sample_messages_wire: "\<lparr>rd_data = concat (map encode_message sample_messages), rd_end = EOF\<rparr> = sample_reader"
  by (simp add: sample_messages_def sample_reader_def sample_wire_def)

lemma sample_open: "map_option (length \<circ> objs \<circ> snd) (run mux_step sample_schedule (NewConnection sample_reader sample_writer)) = Some 1"
  by code_simp

theorem stream_reads_wire_witness:
  "\<exists>os c. run mux_step sample_schedule (NewConnection sample_reader sample_writer) = Some (os, c) \<and> 0 < length (objs c) \<and>
     (\<exists>ps. sublist ps (payloads_to (localID (stream_at c 0)) sample_messages) \<and>
        concat (map (read_bytes 0) os) @ pend c 0 = concat ps)"
proof -
  obtain c where c: "run mux_step sample_schedule (NewConnection sample_reader sample_writer)
    = Some ([OOpen (Inr 0), ODone, ODone, ODelivered 0 [120, 121], ORead 0 (RData [120])], c)"
    by (rule sample_runE)
  have ok: "\<forall>m \<in> set sample_messages. msg_ok m" by (simp add: sample_messages_def msg_ok_def)
  from c sample_open have n: "0 < length (objs c)" by simp
  from c n stream_reads_wire [OF ok c [folded sample_messages_wire] n] show ?thesis by blast
qed

end
