(* ===== verification/Cancel.thy ===== *)
theory Cancel
  imports Mux
begin

text \<open>
  Cancellation: \<open>closeOnCancel\<close> of \<open>client/client.go\<close> and of \<open>protocol/connection.go\<close>. A goroutine waits in a \<open>select\<close> for the end of
  the context, and then closes the stream or the connection, or for the deferred \<open>stop\<close> of the call it guards. A \<open>select\<close> that has
  started to wait is decided by the channel that is closed first; one that starts when both are closed takes either.
\<close>

section \<open>The watcher\<close>

datatype watcher = NoWatcher | Starting | Parked | CloseDue | Exited

record 'r guarded =
  gd_res :: 'r \<comment> \<open>what is closed\<close>
  gd_done :: bool \<comment> \<open>\<open>ctx.Done()\<close> is closed\<close>
  gd_stop :: bool \<comment> \<open>the guarded call has returned and closed \<open>stop\<close>\<close>
  gd_watch :: watcher
  gd_closes :: nat

definition closeOnCancel :: "bool \<Rightarrow> bool \<Rightarrow> 'r \<Rightarrow> 'r guarded" where
  "closeOnCancel doneNil closerNil r =
     \<lparr>gd_res = r, gd_done = False, gd_stop = False, gd_watch = (if doneNil \<or> closerNil then NoWatcher else Starting), gd_closes = 0\<rparr>"

text \<open>The context ends; the guarded call goes on using what it guards, or returns; the goroutine reaches its \<open>select\<close>; it closes.\<close>

datatype 'r guard_event = CtxEnds | Uses "'r \<Rightarrow> 'r" | Returns | Selects bool | Closes

text \<open>\<open>Selects b\<close>: when both channels are closed, \<open>b\<close> says which case is taken.\<close>

fun guard_step :: "('r \<Rightarrow> 'r) \<Rightarrow> 'r guard_event \<Rightarrow> 'r guarded \<Rightarrow> (unit \<times> 'r guarded) option" where
  "guard_step close CtxEnds g =
     (if gd_done g then None
      else Some ((), g\<lparr>gd_done := True, gd_watch := (if gd_watch g = Parked then CloseDue else gd_watch g)\<rparr>))"
| "guard_step close (Uses f) g = Some ((), g\<lparr>gd_res := f (gd_res g)\<rparr>)"
| "guard_step close Returns g =
     (if gd_stop g then None
      else Some ((), g\<lparr>gd_stop := True, gd_watch := (if gd_watch g = Parked then Exited else gd_watch g)\<rparr>))"
| "guard_step close (Selects b) g =
     (if gd_watch g \<noteq> Starting then None
      else Some ((), g\<lparr>gd_watch :=
        (if gd_done g \<and> gd_stop g then (if b then CloseDue else Exited)
         else if gd_done g then CloseDue else if gd_stop g then Exited else Parked)\<rparr>))"
| "guard_step close Closes g =
     (if gd_watch g \<noteq> CloseDue then None
      else Some ((), g\<lparr>gd_res := close (gd_res g), gd_watch := Exited, gd_closes := Suc (gd_closes g)\<rparr>))"

definition guard_ok :: "'r guarded \<Rightarrow> bool" where
  "guard_ok g \<longleftrightarrow> gd_closes g \<le> 1 \<and> (gd_closes g = 1 \<longrightarrow> gd_done g \<and> gd_watch g = Exited) \<and> (gd_watch g = CloseDue \<longrightarrow> gd_done g) \<and>
     (gd_watch g = Parked \<longrightarrow> \<not> gd_done g \<and> \<not> gd_stop g) \<and> (gd_watch g = Exited \<longrightarrow> gd_closes g = 1 \<or> gd_stop g)"

lemma guard_step_ok: "guard_ok g \<Longrightarrow> guard_step close e g = Some (x, g') \<Longrightarrow> guard_ok g'"
  by (cases e) (auto simp: guard_ok_def split: if_splits)

interpretation guard: machine "guard_step close" guard_ok for close
  by unfold_locales (rule guard_step_ok)

lemma guard_start: "guard_ok (closeOnCancel doneNil closerNil r)"
  by (simp add: guard_ok_def closeOnCancel_def)

text \<open>A call that has returned with the watcher past its \<open>select\<close> and nothing to close.\<close>

definition dismissed :: "'r guarded \<Rightarrow> bool" where
  "dismissed g \<longleftrightarrow> gd_watch g \<in> {NoWatcher, Exited}"

lemma dismissed_run:
  assumes "dismissed g" "run (guard_step close) es g = Some (xs, g')"
  shows "gd_closes g' = gd_closes g"
  using assms(2,1)
proof (induction es arbitrary: g xs)
  case (Cons e es)
  then obtain x ys h where h: "guard_step close e g = Some (x, h)" "run (guard_step close) es h = Some (ys, g')"
    by (auto simp: run_Cons_Some simp del: run.simps)
  have "dismissed h \<and> gd_closes h = gd_closes g" using h(1) Cons.prems(2) by (cases e) (auto simp: dismissed_def split: if_splits)
  with Cons.IH [OF h(2)] show ?case by simp
qed simp

text \<open>C30: over every schedule of the goroutine, the guarded call and the context, the watcher closes at most once and only after the context has
  ended; when the context ends while the call still runs, a watcher that has finished has closed; and once it waits in its
  \<open>select\<close>, a call that returns before the context ends is never followed by a close.\<close>

theorem cancel_watcher_closes_iff_cancelled:
  assumes "run (guard_step close) es (closeOnCancel doneNil closerNil r) = Some (xs, g)"
  shows "gd_closes g \<le> 1 \<and> (gd_closes g = 1 \<longrightarrow> gd_done g) \<and> (gd_watch g = Exited \<and> \<not> gd_stop g \<longrightarrow> gd_closes g = 1) \<and>
    (gd_watch g = Parked \<longrightarrow> (\<forall>fs ys g'. run (guard_step close) (Returns # fs) g = Some (ys, g') \<longrightarrow> gd_closes g' = 0))"
proof -
  have ok: "guard_ok g" using guard.run_invar [OF guard_start assms] .
  have "gd_closes g' = 0" if "gd_watch g = Parked" "run (guard_step close) (Returns # fs) g = Some (ys, g')" for fs ys g'
  proof -
    from that ok obtain zs where "run (guard_step close) fs (g\<lparr>gd_stop := True, gd_watch := Exited\<rparr>) = Some (zs, g')"
      by (auto simp: guard_ok_def split: option.splits if_splits)
    from dismissed_run [OF _ this] ok that(1) show ?thesis by (auto simp: dismissed_def guard_ok_def)
  qed
  with ok show ?thesis by (auto simp: guard_ok_def)
qed

theorem cancel_watcher_closes_iff_cancelled_witness:
  "\<exists>xs g. run (guard_step (\<lambda>_. False)) [Selects True, CtxEnds, Closes] (closeOnCancel False False True) = Some (xs, g) \<and>
     gd_closes g = 1 \<and> gd_done g \<and> \<not> gd_res g"
proof -
  have "\<exists>xs g. run (guard_step (\<lambda>_. False)) [Selects True, CtxEnds, Closes] (closeOnCancel False False True) = Some (xs, g) \<and>
     gd_watch g = Exited \<and> \<not> gd_stop g \<and> \<not> gd_res g"
    by (simp add: closeOnCancel_def)
  then obtain xs g where g: "run (guard_step (\<lambda>_. False)) [Selects True, CtxEnds, Closes] (closeOnCancel False False True) = Some (xs, g)"
    "gd_watch g = Exited" "\<not> gd_stop g" "\<not> gd_res g" by blast
  from cancel_watcher_closes_iff_cancelled [OF g(1)] g(2,3) have "gd_closes g = 1 \<and> gd_done g" by blast
  with g show ?thesis by blast
qed

section \<open>A connection closed after its handshake\<close>

text \<open>\<open>Connection.closeOnCancel\<close> guards the handshake and closes the connection.\<close>

definition handshake_guard :: "bool \<Rightarrow> conn \<Rightarrow> conn guarded" where
  "handshake_guard doneNil c = closeOnCancel doneNil False c"

text \<open>A context that ends only after the handshake has returned, as when its caller cancels a timeout that is no longer needed, can still
  close the connection: the goroutine may reach its \<open>select\<close> when both channels are closed. Streams opened on the connection in
  the meantime are then closed with \<open>ErrDeviceClosed\<close>.\<close>

theorem cancel_after_handshake_may_close:
  "\<exists>es xs g. run (guard_step Connection_Close) (Returns # Uses f # CtxEnds # es) (handshake_guard False c) = Some (xs, g) \<and>
     gd_closes g = 1 \<and> gd_res g = closeAllStreams (Some ErrDeviceClosed) (f c)"
  by (intro exI [of _ "[Selects True, Closes]"]) (simp add: handshake_guard_def closeOnCancel_def Connection_Close_def)

end
