(* ===== verification/GoNet.thy ===== *)
theory GoNet
  imports GoStrings
begin

text \<open>
  The address functions of Go's \<open>net\<close> package the program calls: \<open>SplitHostPort\<close>,
  \<open>JoinHostPort\<close>, and \<open>ParseIP\<close> with \<open>IsLoopback\<close>. \<open>ParseIP\<close> is the parser of
  \<open>net/netip\<close> for dotted IPv4 and for IPv6 with \<open>::\<close> and an embedded IPv4 tail; an address
  with a zone is refused.
\<close>

section \<open>Host and port\<close>

datatype addr_error = MissingPort | TooManyColons | MissingBracket | UnexpectedOpen | UnexpectedClose

definition SplitHostPort :: "string \<Rightarrow> addr_error + string \<times> string" where
  "SplitHostPort hostport =
     (case LastIndexByte hostport CHR '':'' of
        None \<Rightarrow> Inl MissingPort
      | Some i \<Rightarrow>
          if hd hostport = CHR ''['' then
            (case IndexByte hostport CHR '']'' of
               None \<Rightarrow> Inl MissingBracket
             | Some e \<Rightarrow>
                 if e + 1 = length hostport then Inl MissingPort
                 else if e + 1 \<noteq> i then
                   Inl (if hostport ! (e + 1) = CHR '':'' then TooManyColons else MissingPort)
                 else if CHR ''['' \<in> set (drop 1 hostport) then Inl UnexpectedOpen
                 else if CHR '']'' \<in> set (drop (e + 1) hostport) then Inl UnexpectedClose
                 else Inr (slice hostport 1 e, drop (i + 1) hostport))
          else
            (if CHR '':'' \<in> set (take i hostport) then Inl TooManyColons
             else if CHR ''['' \<in> set hostport then Inl UnexpectedOpen
             else if CHR '']'' \<in> set hostport then Inl UnexpectedClose
             else Inr (take i hostport, drop (i + 1) hostport)))"

definition JoinHostPort :: "string \<Rightarrow> string \<Rightarrow> string" where
  "JoinHostPort host port =
     (if CHR '':'' \<in> set host then ''['' @ host @ '']:'' @ port else host @ '':'' @ port)"

section \<open>IP addresses\<close>

text \<open>\<open>parseIPv4Fields\<close>: four decimal fields of at most 255, none empty and none with a
  leading zero. The state is the fields so far, the current value and its number of digits.\<close>

fun ipv4_fields :: "nat list \<Rightarrow> nat \<Rightarrow> nat \<Rightarrow> string \<Rightarrow> nat list option" where
  "ipv4_fields fs v n [] = (if length fs = 3 \<and> 0 < n then Some (fs @ [v]) else None)"
| "ipv4_fields fs v n (c # s) =
     (case digit_value c of
        Some d \<Rightarrow>
          if n = 1 \<and> v = 0 then None
          else if 255 < 10 * v + d then None
          else ipv4_fields fs (10 * v + d) (n + 1) s
      | None \<Rightarrow>
          if c = CHR ''.'' \<and> 0 < n \<and> s \<noteq> [] \<and> length fs < 3 then ipv4_fields (fs @ [v]) 0 0 s else None)"

definition parseIPv4 :: "string \<Rightarrow> nat list option" where
  "parseIPv4 s = ipv4_fields [] 0 0 s"

definition hex_value :: "char \<Rightarrow> nat option" where
  "hex_value c =
     (let n = (of_char c :: nat) in
      if 48 \<le> n \<and> n \<le> 57 then Some (n - 48)
      else if 97 \<le> n \<and> n \<le> 102 then Some (n - 87)
      else if 65 \<le> n \<and> n \<le> 70 then Some (n - 55)
      else None)"

text \<open>The digits of one group: value, number of digits, rest.\<close>

fun hex_group :: "nat \<Rightarrow> nat \<Rightarrow> string \<Rightarrow> nat \<times> nat \<times> string" where
  "hex_group v n [] = (v, n, [])"
| "hex_group v n (c # s) =
     (case hex_value c of Some d \<Rightarrow> hex_group (16 * v + d) (n + 1) s | None \<Rightarrow> (v, n, c # s))"

text \<open>The loop of \<open>parseIPv6\<close>: \<open>ip\<close> holds the bytes so far (\<open>i = length ip\<close>), \<open>ell\<close> the position
  of the ellipsis. The result is the bytes, the ellipsis and what is left of the string. Each turn
  adds two or four bytes, so eight units of fuel are enough.\<close>

fun ipv6_loop :: "nat \<Rightarrow> nat list \<Rightarrow> nat option \<Rightarrow> string \<Rightarrow> (nat list \<times> nat option \<times> string) option" where
  "ipv6_loop 0 ip ell s = Some (ip, ell, s)"
| "ipv6_loop (Suc fuel) ip ell s =
     (if 16 \<le> length ip then Some (ip, ell, s)
      else case hex_group 0 0 s of (acc, off, s') \<Rightarrow>
        if 4 < off \<or> off = 0 then None
        else if s' \<noteq> [] \<and> hd s' = CHR ''.'' then
          (if ell = None \<and> length ip \<noteq> 12 \<or> 16 < length ip + 4 then None
           else case parseIPv4 s of None \<Rightarrow> None | Some fs \<Rightarrow> Some (ip @ fs, ell, []))
        else
          (let ip = ip @ [acc div 256, acc mod 256] in
           case s' of
             [] \<Rightarrow> Some (ip, ell, [])
           | c # t \<Rightarrow>
               if c \<noteq> CHR '':'' \<or> t = [] then None
               else if hd t = CHR '':'' then
                 (if ell \<noteq> None then None
                  else if tl t = [] then Some (ip, Some (length ip), [])
                  else ipv6_loop fuel ip (Some (length ip)) (tl t))
               else ipv6_loop fuel ip ell t))"

definition parseIPv6 :: "string \<Rightarrow> nat list option" where
  "parseIPv6 s =
     (if s = ''::'' then Some (replicate 16 0)
      else
        case (if HasPrefix s ''::'' then ipv6_loop 8 [] (Some 0) (drop 2 s) else ipv6_loop 8 [] None s) of
          None \<Rightarrow> None
        | Some (ip, ell, rest) \<Rightarrow>
            if rest \<noteq> [] then None
            else if length ip < 16 then
              (case ell of
                 None \<Rightarrow> None
               | Some e \<Rightarrow> Some (take e ip @ replicate (16 - length ip) 0 @ drop e ip))
            else if ell \<noteq> None then None
            else Some ip)"

text \<open>\<open>net.ParseIP\<close> as sixteen bytes; \<open>netip.ParseAddr\<close> chooses the family by the first dot or colon.\<close>

definition ParseIP :: "string \<Rightarrow> nat list option" where
  "ParseIP s =
     (case find (\<lambda>c. c \<in> {CHR ''.'', CHR '':'', CHR ''%''}) s of
        None \<Rightarrow> None
      | Some c \<Rightarrow>
          if c = CHR ''.'' then map_option (\<lambda>fs. replicate 10 0 @ [255, 255] @ fs) (parseIPv4 s)
          else if c = CHR '':'' then (if CHR ''%'' \<in> set s then None else parseIPv6 s)
          else None)"

definition IsLoopback :: "nat list \<Rightarrow> bool" where
  "IsLoopback ip =
     (if take 12 ip = replicate 10 0 @ [255, 255] then ip ! 12 = 127
      else ip = replicate 15 0 @ [1])"

section \<open>Splitting what was joined\<close>

definition plain_text :: "string \<Rightarrow> bool" where
  "plain_text s \<longleftrightarrow> CHR '':'' \<notin> set s \<and> CHR ''['' \<notin> set s \<and> CHR '']'' \<notin> set s"

lemma SplitHostPort_plain:
  assumes "plain_text host" "plain_text port"
  shows "SplitHostPort (host @ '':'' @ port) = Inr (host, port)"
proof -
  have "hd (host @ CHR '':'' # port) \<noteq> CHR ''[''"
    using assms(1) by (cases host) (auto simp: plain_text_def)
  moreover have "LastIndexByte (host @ CHR '':'' # port) CHR '':'' = Some (length host)"
    using assms(2) by (simp add: plain_text_def)
  ultimately show ?thesis using assms by (simp add: SplitHostPort_def plain_text_def)
qed

lemma SplitHostPort_bracketed:
  assumes "CHR ''['' \<notin> set host" "CHR '']'' \<notin> set host" "plain_text port"
  shows "SplitHostPort (''['' @ host @ '']:'' @ port) = Inr (host, port)"
proof -
  let ?s = "CHR ''['' # host @ CHR '']'' # CHR '':'' # port"
  have "LastIndexByte ((CHR ''['' # host @ [CHR '']'']) @ CHR '':'' # port) CHR '':'' = Some (length host + 2)"
    using assms(3) by (subst LastIndexByte_append) (simp_all add: plain_text_def)
  then have l: "LastIndexByte ?s CHR '':'' = Some (length host + 2)" by simp
  have e: "IndexByte ?s CHR '']'' = Some (length host + 1)"
    using assms(2) IndexByte_append [of "CHR '']''" "CHR ''['' # host" "CHR '':'' # port"] by simp
  show ?thesis
    using assms by (simp add: SplitHostPort_def l e slice_def plain_text_def)
qed

lemma SplitHostPort_JoinHostPort:
  assumes "CHR ''['' \<notin> set host" "CHR '']'' \<notin> set host" "plain_text port"
  shows "SplitHostPort (JoinHostPort host port) = Inr (host, port)"
  using assms SplitHostPort_plain [of host port] SplitHostPort_bracketed [of host port]
  by (auto simp: JoinHostPort_def plain_text_def)

lemma SplitHostPort_InrD:
  assumes "SplitHostPort s = Inr (host, port)"
  shows "CHR '':'' \<in> set s"
proof (rule ccontr)
  assume "CHR '':'' \<notin> set s"
  then have "LastIndexByte s CHR '':'' = None" by simp
  with assms show False by (simp add: SplitHostPort_def)
qed

lemma plain_FormatUint [simp]: "plain_text (FormatUint n)"
  by (simp add: plain_text_def)

end
