(* ===== verification/UsbDescriptor.thy ===== *)
theory UsbDescriptor
  imports GoIO GoStrings
begin

text \<open>
  USB discovery, \<open>internal/usb/types.go\<close>, \<open>descriptor.go\<close> and \<open>discovery_linux.go\<close>: the parser of
  raw descriptor streams and the walk over \<open>/dev/bus/usb\<close>. A read past the end of a Go slice
  panics; the panic is a result of the model. The reference reading of a descriptor stream
  is by interface sections (\<open>adb_sections\<close>, \<open>section_candidate\<close>), and the parser is shown to compute it.
\<close>

section \<open>Constants and records\<close>

definition ADBInterfaceClass :: byte where "ADBInterfaceClass = 0xff"
definition ADBInterfaceSubClass :: byte where "ADBInterfaceSubClass = 0x42"
definition ADBInterfaceProtocol :: byte where "ADBInterfaceProtocol = 0x01"
definition EndpointDirectionIn :: byte where "EndpointDirectionIn = 0x80"
definition EndpointTransferMask :: byte where "EndpointTransferMask = 0x03"
definition EndpointTransferBulk :: byte where "EndpointTransferBulk = 0x02"

definition descriptorTypeDevice :: byte where "descriptorTypeDevice = 0x01"
definition descriptorTypeConfiguration :: byte where "descriptorTypeConfiguration = 0x02"
definition descriptorTypeInterface :: byte where "descriptorTypeInterface = 0x04"
definition descriptorTypeEndpoint :: byte where "descriptorTypeEndpoint = 0x05"

lemmas usb_consts = ADBInterfaceClass_def ADBInterfaceSubClass_def ADBInterfaceProtocol_def
  EndpointDirectionIn_def EndpointTransferMask_def EndpointTransferBulk_def
  descriptorTypeDevice_def descriptorTypeConfiguration_def descriptorTypeInterface_def
  descriptorTypeEndpoint_def

record candidate =
  DevicePath :: string
  BusNumber :: int
  DeviceNumber :: int
  VendorID :: u16
  ProductID :: u16
  InterfaceNumber :: byte
  BulkInEndpoint :: byte
  BulkOutEndpoint :: byte

record interfaceDescriptor =
  if_number :: byte
  if_class :: byte
  if_subclass :: byte
  if_protocol :: byte

record endpointDescriptor =
  ep_address :: byte
  ep_attributes :: byte

record candidateBuilder =
  cb_iface :: interfaceDescriptor
  cb_bulkIn :: byte
  cb_bulkOut :: byte

section \<open>Single descriptors\<close>

definition parseInterfaceDescriptor :: "bytes \<Rightarrow> interfaceDescriptor option" where
  "parseInterfaceDescriptor desc =
     (if length desc < 9 then None
      else Some \<lparr>if_number = desc ! 2, if_class = desc ! 5, if_subclass = desc ! 6, if_protocol = desc ! 7\<rparr>)"

definition parseEndpointDescriptor :: "bytes \<Rightarrow> endpointDescriptor option" where
  "parseEndpointDescriptor desc =
     (if length desc < 7 then None else Some \<lparr>ep_address = desc ! 2, ep_attributes = desc ! 3\<rparr>)"

definition isADBInterface :: "interfaceDescriptor \<Rightarrow> bool" where
  "isADBInterface iface \<longleftrightarrow> if_class iface = ADBInterfaceClass \<and>
     if_subclass iface = ADBInterfaceSubClass \<and> if_protocol iface = ADBInterfaceProtocol"

definition isBulkEndpoint :: "endpointDescriptor \<Rightarrow> bool" where
  "isBulkEndpoint ep \<longleftrightarrow> ep_attributes ep AND EndpointTransferMask = EndpointTransferBulk"

section \<open>The descriptor stream\<close>

text \<open>The variables of \<open>ParseADBCandidates\<close>.\<close>

record parse_state =
  ps_vendorID :: u16
  ps_productID :: u16
  ps_active :: "candidateBuilder option"
  ps_candidates :: "candidate list"

datatype usb_error =
    DataTooShort
  | ZeroLength nat
  | ExceedsData nat nat nat
  | DeviceTooShort nat nat
  | IndexPanic nat \<comment> \<open>runtime panic: \<open>desc[1]\<close> of a descriptor of one byte\<close>

definition flush :: "string \<Rightarrow> int \<Rightarrow> int \<Rightarrow> parse_state \<Rightarrow> parse_state" where
  "flush path bus dev st =
     (case ps_active st of
        None \<Rightarrow> st
      | Some a \<Rightarrow>
          (if cb_bulkIn a \<noteq> 0 \<and> cb_bulkOut a \<noteq> 0
           then st\<lparr>ps_candidates := ps_candidates st @
                  [\<lparr>DevicePath = path, BusNumber = bus, DeviceNumber = dev,
                    VendorID = ps_vendorID st, ProductID = ps_productID st,
                    InterfaceNumber = if_number (cb_iface a),
                    BulkInEndpoint = cb_bulkIn a, BulkOutEndpoint = cb_bulkOut a\<rparr>]\<rparr>
           else st)\<lparr>ps_active := None\<rparr>)"

text \<open>The body of the switch on the descriptor type, for a device descriptor that is long enough.\<close>

definition desc_step :: "string \<Rightarrow> int \<Rightarrow> int \<Rightarrow> bytes \<Rightarrow> parse_state \<Rightarrow> parse_state" where
  "desc_step path bus dev desc st =
     (let typ = desc ! 1 in
      if typ = descriptorTypeDevice then
        st\<lparr>ps_vendorID := Uint16 (slice desc 8 10), ps_productID := Uint16 (slice desc 10 12)\<rparr>
      else if typ = descriptorTypeConfiguration then flush path bus dev st
      else if typ = descriptorTypeInterface then
        (let st = flush path bus dev st in
         case parseInterfaceDescriptor desc of
           None \<Rightarrow> st
         | Some iface \<Rightarrow>
             if isADBInterface iface
             then st\<lparr>ps_active := Some \<lparr>cb_iface = iface, cb_bulkIn = 0, cb_bulkOut = 0\<rparr>\<rparr> else st)
      else if typ = descriptorTypeEndpoint then
        (case ps_active st of
           None \<Rightarrow> st
         | Some a \<Rightarrow>
             (case parseEndpointDescriptor desc of
                None \<Rightarrow> st
              | Some ep \<Rightarrow>
                  if isBulkEndpoint ep then
                    st\<lparr>ps_active := Some
                      (if ep_address ep AND EndpointDirectionIn \<noteq> 0
                       then a\<lparr>cb_bulkIn := ep_address ep\<rparr> else a\<lparr>cb_bulkOut := ep_address ep\<rparr>)\<rparr>
                  else st))
      else st)"

function parse_loop :: "string \<Rightarrow> int \<Rightarrow> int \<Rightarrow> bytes \<Rightarrow> nat \<Rightarrow> parse_state \<Rightarrow> usb_error + parse_state" where
  "parse_loop path bus dev data offset st =
     (if offset < length data then
        (let len = unat (data ! offset) in
         if len = 0 then Inl (ZeroLength offset)
         else if length data < offset + len then Inl (ExceedsData offset len (length data))
         else let desc = slice data offset (offset + len) in
           if len < 2 then Inl (IndexPanic offset)
           else if desc ! 1 = descriptorTypeDevice \<and> len < 18 then Inl (DeviceTooShort offset len)
           else parse_loop path bus dev data (offset + len) (desc_step path bus dev desc st))
      else Inr st)"
  by pat_completeness auto
termination
  by (relation "measure (\<lambda>(path, bus, dev, data, offset, st). length data - offset)") auto

declare parse_loop.simps [simp del]

definition init_parse :: parse_state where
  "init_parse = \<lparr>ps_vendorID = 0, ps_productID = 0, ps_active = None, ps_candidates = []\<rparr>"

definition ParseADBCandidates :: "string \<Rightarrow> int \<Rightarrow> int \<Rightarrow> bytes \<Rightarrow> usb_error + candidate list" where
  "ParseADBCandidates path bus dev data =
     (if length data < 2 then Inl DataTooShort
      else case parse_loop path bus dev data 0 init_parse of
          Inl e \<Rightarrow> Inl e
        | Inr st \<Rightarrow> Inr (ps_candidates (flush path bus dev st)))"

section \<open>Discovery\<close>

text \<open>\<open>filepath.Dir\<close> and \<open>filepath.Base\<close> of the path of a walked entry relative to the root.\<close>

definition rel_dir :: "string \<Rightarrow> string" where
  "rel_dir rel = (case LastIndexByte rel CHR ''/'' of None \<Rightarrow> ''.'' | Some i \<Rightarrow> take i rel)"

definition rel_base :: "string \<Rightarrow> string" where
  "rel_base rel = (case LastIndexByte rel CHR ''/'' of None \<Rightarrow> rel | Some i \<Rightarrow> drop (i + 1) rel)"

definition parseLinuxDevicePath :: "string \<Rightarrow> (int \<times> int) option" where
  "parseLinuxDevicePath rel =
     (let busText = rel_dir rel; devText = rel_base rel in
      if busText = ''.'' \<or> busText = ''/'' \<or> devText = ''.'' then None
      else case Atoi busText of
          Inl _ \<Rightarrow> None
        | Inr bus \<Rightarrow> (case Atoi devText of Inl _ \<Rightarrow> None | Inr dev \<Rightarrow> Some (bus, dev)))"

text \<open>\<open>io.ReadAll(io.LimitReader(file, 1<<20))\<close> on what \<open>os.Open\<close> gave: past the limit the reader
  reports the end of the file, whatever the device would report.\<close>

definition LimitReader :: "reader \<Rightarrow> nat \<Rightarrow> reader" where
  "LimitReader r n =
     (if n \<le> length (rd_data r) then r\<lparr>rd_data := take n (rd_data r), rd_end := EOF\<rparr> else r)"

definition readDescriptorFile :: "io_error + reader \<Rightarrow> io_error + bytes" where
  "readDescriptorFile file =
     (case file of
        Inl e \<Rightarrow> Inl e
      | Inr r \<Rightarrow>
          (case read_all (LimitReader r (2 ^ 20)) of
             ((Some e, _), _) \<Rightarrow> Inl e
           | ((None, data), _) \<Rightarrow> Inr data))"

text \<open>What \<open>filepath.WalkDir\<close> visits, in order: the entry's path below the root, an error of the walk,
  \<open>ctx.Err()\<close> at that moment, whether it is a directory, and what opening it gives.\<close>

record walk_entry =
  we_rel :: string
  we_err :: "io_error option"
  we_ctx :: "ctx_err option"
  we_dir :: bool
  we_open :: "io_error + reader"

datatype discover_error =
    DiscoverCtx ctx_err
  | WalkError io_error
  | WalkCtx ctx_err
  | ReadDescriptors string io_error
  | ParseDescriptors string usb_error
  | UsbUnsupported \<comment> \<open>\<open>usb.ErrUnsupported\<close>, from \<open>discovery_unsupported.go\<close>\<close>

fun discover_walk :: "string \<Rightarrow> walk_entry list \<Rightarrow> candidate list \<Rightarrow> discover_error + candidate list" where
  "discover_walk root [] found = Inr found"
| "discover_walk root (e # es) found =
     (case we_err e of
        Some err \<Rightarrow> Inl (WalkError err)
      | None \<Rightarrow>
          (case we_ctx e of
             Some err \<Rightarrow> Inl (WalkCtx err)
           | None \<Rightarrow>
               if we_dir e then discover_walk root es found
               else case parseLinuxDevicePath (we_rel e) of
                   None \<Rightarrow> discover_walk root es found
                 | Some (bus, dev) \<Rightarrow>
                     (let path = root @ ''/'' @ we_rel e in
                      case readDescriptorFile (we_open e) of
                        Inl err \<Rightarrow> Inl (ReadDescriptors path err)
                      | Inr data \<Rightarrow>
                          (case ParseADBCandidates path bus dev data of
                             Inl err \<Rightarrow> Inl (ParseDescriptors path err)
                           | Inr cs \<Rightarrow> discover_walk root es (found @ cs)))))"

definition DiscoverADBInRoot ::
  "ctx_err option \<Rightarrow> string \<Rightarrow> walk_entry list \<Rightarrow> discover_error + candidate list" where
  "DiscoverADBInRoot ctx root entries =
     (case ctx of Some e \<Rightarrow> Inl (DiscoverCtx e) | None \<Rightarrow> discover_walk root entries [])"

definition defaultDeviceRoot :: string where "defaultDeviceRoot = ''/dev/bus/usb''"

definition DiscoverADB :: "ctx_err option \<Rightarrow> walk_entry list \<Rightarrow> discover_error + candidate list" where
  "DiscoverADB ctx entries = DiscoverADBInRoot ctx defaultDeviceRoot entries"

section \<open>The reference reading\<close>

definition desc_ok :: "bytes \<Rightarrow> bool" where
  "desc_ok d \<longleftrightarrow> 2 \<le> length d \<and> unat (d ! 0) = length d \<and> (d ! 1 = descriptorTypeDevice \<longrightarrow> 18 \<le> length d)"

lemma parse_loop_end [simp]: "length data \<le> off \<Longrightarrow> parse_loop path bus dev data off st = Inr st"
  by (simp add: parse_loop.simps)

lemma parse_loop_step:
  assumes "desc_ok d"
  shows "parse_loop path bus dev (pre @ d @ rest) (length pre) st =
    parse_loop path bus dev (pre @ d @ rest) (length (pre @ d)) (desc_step path bus dev d st)"
proof -
  from assms have d: "unat (d ! 0) = length d" "2 \<le> length d" by (auto simp: desc_ok_def)
  then have "unat ((pre @ d @ rest) ! length pre) = length d" by (auto simp: nth_append)
  moreover have "slice (pre @ d @ rest) (length pre) (length pre + length d) = d"
    by (simp add: slice_def)
  ultimately show ?thesis
    using assms by (subst parse_loop.simps) (auto simp: desc_ok_def Let_def)
qed

lemma parse_loop_prefix:
  assumes "\<forall>d \<in> set ds. desc_ok d"
  shows "parse_loop path bus dev (pre @ concat ds @ rest) (length pre) st =
    parse_loop path bus dev (pre @ concat ds @ rest) (length pre + length (concat ds))
      (fold (desc_step path bus dev) ds st)"
  using assms
proof (induction ds arbitrary: pre st)
  case Nil
  then show ?case by simp
next
  case (Cons d ds)
  then show ?case
    using parse_loop_step [of d path bus dev pre "concat ds @ rest" st] Cons.IH [of "pre @ d"] by (simp add: add.assoc)
qed

lemma parse_loop_concat:
  assumes "\<forall>d \<in> set ds. desc_ok d"
  shows "parse_loop path bus dev (pre @ concat ds) (length pre) st =
    Inr (fold (desc_step path bus dev) ds st)"
  using parse_loop_prefix [OF assms, of path bus dev pre "[]" st] by simp

section \<open>What a candidate has\<close>

definition builder_ok :: "candidateBuilder \<Rightarrow> bool" where
  "builder_ok a \<longleftrightarrow> (cb_bulkIn a = 0 \<or> cb_bulkIn a AND EndpointDirectionIn \<noteq> 0) \<and>
     cb_bulkOut a AND EndpointDirectionIn = 0 \<and> isADBInterface (cb_iface a)"

definition candidate_ok :: "string \<Rightarrow> int \<Rightarrow> int \<Rightarrow> candidate \<Rightarrow> bool" where
  "candidate_ok path bus dev c \<longleftrightarrow> DevicePath c = path \<and> BusNumber c = bus \<and> DeviceNumber c = dev \<and>
     BulkInEndpoint c AND EndpointDirectionIn \<noteq> 0 \<and> BulkOutEndpoint c AND EndpointDirectionIn = 0 \<and>
     BulkOutEndpoint c \<noteq> 0"

definition parse_ok :: "string \<Rightarrow> int \<Rightarrow> int \<Rightarrow> parse_state \<Rightarrow> bool" where
  "parse_ok path bus dev st \<longleftrightarrow> (\<forall>a. ps_active st = Some a \<longrightarrow> builder_ok a) \<and>
     (\<forall>c \<in> set (ps_candidates st). candidate_ok path bus dev c)"

lemma flush_ok [inv_intro]: "parse_ok path bus dev st \<Longrightarrow> parse_ok path bus dev (flush path bus dev st)"
  by (auto simp: flush_def parse_ok_def builder_ok_def candidate_ok_def split: option.splits)

lemma flush_active [simp]: "ps_active (flush path bus dev st) = None"
  by (simp add: flush_def split: option.splits)

lemma desc_step_ok [inv_intro]:
  assumes "parse_ok path bus dev st" shows "parse_ok path bus dev (desc_step path bus dev d st)"
proof -
  have f: "parse_ok path bus dev (flush path bus dev st)" using assms by (rule flush_ok)
  with assms show ?thesis
    by (auto simp: desc_step_def Let_def parse_ok_def builder_ok_def EndpointDirectionIn_def split: option.splits)
qed

lemma parse_loop_ok:
  "parse_loop path bus dev data off st = Inr st' \<Longrightarrow> parse_ok path bus dev st \<Longrightarrow> parse_ok path bus dev st'"
proof (induction path bus dev data off st rule: parse_loop.induct)
  case (1 path bus dev data off st)
  from "1.prems" show ?case
    by (subst (asm) parse_loop.simps) (auto simp: Let_def split: if_splits intro: "1.IH" desc_step_ok)
qed

lemma ParseADBCandidates_ok:
  assumes "ParseADBCandidates path bus dev data = Inr cs" "c \<in> set cs"
  shows "candidate_ok path bus dev c"
proof -
  from assms(1) obtain st where st: "parse_loop path bus dev data 0 init_parse = Inr st"
    "cs = ps_candidates (flush path bus dev st)"
    by (auto simp: ParseADBCandidates_def split: if_splits sum.splits)
  have "parse_ok path bus dev init_parse" by (simp add: parse_ok_def init_parse_def)
  from flush_ok [OF parse_loop_ok [OF st(1) this]] st(2) assms(2) show ?thesis by (auto simp: parse_ok_def)
qed

definition usable_candidate :: "candidate \<Rightarrow> bool" where
  "usable_candidate c \<longleftrightarrow> DevicePath c \<noteq> [] \<and> BulkInEndpoint c AND EndpointDirectionIn \<noteq> 0 \<and>
     BulkOutEndpoint c AND EndpointDirectionIn = 0 \<and> BulkOutEndpoint c \<noteq> 0"

lemma ParseADBCandidates_usable:
  assumes "ParseADBCandidates path bus dev data = Inr cs" "path \<noteq> []"
  shows "\<forall>c \<in> set cs. usable_candidate c"
  using ParseADBCandidates_ok [OF assms(1)] assms(2) by (auto simp: candidate_ok_def usable_candidate_def)

lemma discover_walk_Cons:
  assumes "discover_walk root (e # es) found = Inr cs"
  shows "\<exists>new. discover_walk root es (found @ new) = Inr cs \<and> (\<forall>c \<in> set new. usable_candidate c)"
proof (cases "we_dir e \<or> parseLinuxDevicePath (we_rel e) = None")
  case True
  with assms have "discover_walk root es (found @ []) = Inr cs"
    by (auto split: option.splits if_splits)
  then show ?thesis by (metis empty_iff empty_set)
next
  case False
  then obtain bus dev where p: "parseLinuxDevicePath (we_rel e) = Some (bus, dev)" "\<not> we_dir e" by auto
  with assms obtain data new where
    "ParseADBCandidates (root @ ''/'' @ we_rel e) bus dev data = Inr new"
    "discover_walk root es (found @ new) = Inr cs"
    by (auto split: option.splits sum.splits simp: Let_def)
  moreover from this(1) have "\<forall>c \<in> set new. usable_candidate c"
    by (rule ParseADBCandidates_usable) simp
  ultimately show ?thesis by blast
qed

lemma discover_walk_usable:
  assumes "discover_walk root entries found = Inr cs" "\<forall>c \<in> set found. usable_candidate c"
  shows "\<forall>c \<in> set cs. usable_candidate c"
  using assms
proof (induction entries arbitrary: found)
  case Nil
  then show ?case by simp
next
  case (Cons e es)
  from discover_walk_Cons [OF Cons.prems(1)] Cons.prems(2) Cons.IH show ?case
    by (metis Un_iff set_append)
qed

section \<open>Interface sections\<close>

text \<open>
  The documented reading of a configuration: each ADB interface descriptor opens a section that
  runs to the next interface or configuration descriptor; the section is a candidate when it has
  a bulk IN and a bulk OUT endpoint, the last of each direction counting.
\<close>

definition boundary :: "bytes \<Rightarrow> bool" where
  "boundary d \<longleftrightarrow> d ! 1 = descriptorTypeConfiguration \<or> d ! 1 = descriptorTypeInterface"

definition adb_interface :: "bytes \<Rightarrow> interfaceDescriptor option" where
  "adb_interface d =
     (if d ! 1 = descriptorTypeInterface
      then (case parseInterfaceDescriptor d of
              None \<Rightarrow> None | Some i \<Rightarrow> if isADBInterface i then Some i else None)
      else None)"

fun adb_sections :: "bytes list \<Rightarrow> (interfaceDescriptor \<times> bytes list) list" where
  "adb_sections [] = []"
| "adb_sections (d # ds) =
     (case adb_interface d of None \<Rightarrow> [] | Some i \<Rightarrow> [(i, takeWhile (\<lambda>d. \<not> boundary d) ds)]) @ adb_sections ds"

definition bulk_address :: "bytes \<Rightarrow> byte option" where
  "bulk_address d =
     (if d ! 1 = descriptorTypeEndpoint
      then (case parseEndpointDescriptor d of
              None \<Rightarrow> None | Some ep \<Rightarrow> if isBulkEndpoint ep then Some (ep_address ep) else None)
      else None)"

definition bulk_addresses :: "bool \<Rightarrow> bytes list \<Rightarrow> byte list" where
  "bulk_addresses inward ds =
     filter (\<lambda>a. (a AND EndpointDirectionIn \<noteq> 0) = inward) (List.map_filter bulk_address ds)"

definition last_or :: "'a \<Rightarrow> 'a list \<Rightarrow> 'a" where
  "last_or z xs = (if xs = [] then z else last xs)"

definition section_candidate ::
  "string \<Rightarrow> int \<Rightarrow> int \<Rightarrow> u16 \<Rightarrow> u16 \<Rightarrow> interfaceDescriptor \<times> bytes list \<Rightarrow> candidate list" where
  "section_candidate path bus dev vid pid sec =
     (let i = last_or 0 (bulk_addresses True (snd sec)); o' = last_or 0 (bulk_addresses False (snd sec)) in
      if i \<noteq> 0 \<and> o' \<noteq> 0
      then [\<lparr>DevicePath = path, BusNumber = bus, DeviceNumber = dev, VendorID = vid, ProductID = pid,
             InterfaceNumber = if_number (fst sec), BulkInEndpoint = i, BulkOutEndpoint = o'\<rparr>]
      else [])"

text \<open>What an open section with the endpoints \<open>a\<close> gives when the descriptors \<open>ds\<close> follow.\<close>

definition finish_builder ::
  "string \<Rightarrow> int \<Rightarrow> int \<Rightarrow> u16 \<Rightarrow> u16 \<Rightarrow> candidateBuilder \<Rightarrow> bytes list \<Rightarrow> candidate list" where
  "finish_builder path bus dev vid pid a ds =
     (let i = last_or (cb_bulkIn a) (bulk_addresses True ds);
          o' = last_or (cb_bulkOut a) (bulk_addresses False ds) in
      if i \<noteq> 0 \<and> o' \<noteq> 0
      then [\<lparr>DevicePath = path, BusNumber = bus, DeviceNumber = dev, VendorID = vid, ProductID = pid,
             InterfaceNumber = if_number (cb_iface a), BulkInEndpoint = i, BulkOutEndpoint = o'\<rparr>]
      else [])"

lemma last_or_Cons [simp]: "last_or z (x # xs) = last_or x xs" "last_or z [] = z"
  by (auto simp: last_or_def)

lemma bulk_addresses_simps [simp]:
  "bulk_addresses inward [] = []"
  "bulk_addresses inward (d # ds) =
     (case bulk_address d of None \<Rightarrow> []
      | Some a \<Rightarrow> if (a AND EndpointDirectionIn \<noteq> 0) = inward then [a] else []) @ bulk_addresses inward ds"
  by (auto simp: bulk_addresses_def List.map_filter_def split: option.splits)

lemma types_distinct [simp]:
  "descriptorTypeConfiguration \<noteq> descriptorTypeDevice" "descriptorTypeInterface \<noteq> descriptorTypeDevice"
  "descriptorTypeEndpoint \<noteq> descriptorTypeDevice" "descriptorTypeInterface \<noteq> descriptorTypeConfiguration"
  "descriptorTypeEndpoint \<noteq> descriptorTypeConfiguration" "descriptorTypeEndpoint \<noteq> descriptorTypeInterface"
  by (simp_all add: usb_consts)

lemma desc_step_inside:
  assumes "d ! 1 \<noteq> descriptorTypeDevice" "\<not> boundary d"
  shows "desc_step path bus dev d st =
    (case ps_active st of
       None \<Rightarrow> st
     | Some a \<Rightarrow> (case bulk_address d of
         None \<Rightarrow> st
       | Some x \<Rightarrow> st\<lparr>ps_active := Some (if x AND EndpointDirectionIn \<noteq> 0
                      then a\<lparr>cb_bulkIn := x\<rparr> else a\<lparr>cb_bulkOut := x\<rparr>)\<rparr>))"
  using assms by (auto simp: desc_step_def boundary_def bulk_address_def Let_def split: option.splits)

lemma desc_step_boundary:
  assumes "boundary d"
  shows "desc_step path bus dev d st =
    (flush path bus dev st)\<lparr>ps_active := map_option (\<lambda>i. \<lparr>cb_iface = i, cb_bulkIn = 0, cb_bulkOut = 0\<rparr>) (adb_interface d)\<rparr>"
  using assms flush_active [of path bus dev st]
  by (auto simp: desc_step_def boundary_def adb_interface_def Let_def split: option.splits simp del: flush_active)

lemma adb_interface_boundary: "\<not> boundary d \<Longrightarrow> adb_interface d = None"
  by (simp add: boundary_def adb_interface_def)

lemma flush_candidates:
  "ps_candidates (flush path bus dev st) = ps_candidates st @
    (case ps_active st of None \<Rightarrow> [] | Some a \<Rightarrow> finish_builder path bus dev (ps_vendorID st) (ps_productID st) a [])"
  "ps_vendorID (flush path bus dev st) = ps_vendorID st"
  "ps_productID (flush path bus dev st) = ps_productID st"
  by (auto simp: flush_def finish_builder_def split: option.splits)

lemma section_candidate_finish:
  "section_candidate path bus dev vid pid (i, ds) =
     finish_builder path bus dev vid pid \<lparr>cb_iface = i, cb_bulkIn = 0, cb_bulkOut = 0\<rparr> ds"
  by (simp add: section_candidate_def finish_builder_def Let_def)

lemma desc_fold_sections:
  assumes "\<forall>d \<in> set ds. d ! 1 \<noteq> descriptorTypeDevice"
  shows "ps_candidates (flush path bus dev (fold (desc_step path bus dev) ds st)) = ps_candidates st @
    (case ps_active st of None \<Rightarrow> []
     | Some a \<Rightarrow> finish_builder path bus dev (ps_vendorID st) (ps_productID st) a (takeWhile (\<lambda>d. \<not> boundary d) ds)) @
    concat (map (section_candidate path bus dev (ps_vendorID st) (ps_productID st)) (adb_sections ds))"
  using assms
proof (induction ds arbitrary: st)
  case Nil
  then show ?case by (simp add: flush_candidates split: option.splits)
next
  case (Cons d ds)
  show ?case
  proof (cases "boundary d")
    case True
    with Cons show ?thesis
      by (simp add: desc_step_boundary flush_candidates section_candidate_finish split: option.splits)
  next
    case False
    with Cons show ?thesis
      by (auto simp: desc_step_inside adb_interface_boundary finish_builder_def Let_def split: option.splits)
  qed
qed

section \<open>Properties\<close>

text \<open>C23: on every well-formed descriptor stream that starts with its device descriptor, the parser
  returns exactly one candidate per ADB interface section that has a bulk endpoint in each direction,
  in the order of the stream, with the vendor and product identifiers of the device descriptor and the
  last bulk endpoint of each direction.\<close>

theorem ParseADBCandidates_sections:
  assumes "desc_ok dd" "dd ! 1 = descriptorTypeDevice"
    and "\<forall>d \<in> set ds. desc_ok d" "\<forall>d \<in> set ds. d ! 1 \<noteq> descriptorTypeDevice"
  shows "ParseADBCandidates path bus dev (dd @ concat ds) =
    Inr (concat (map (section_candidate path bus dev (Uint16 (slice dd 8 10)) (Uint16 (slice dd 10 12)))
      (adb_sections ds)))"
proof -
  have "parse_loop path bus dev (dd @ concat ds) 0 init_parse =
      Inr (fold (desc_step path bus dev) ds (desc_step path bus dev dd init_parse))"
    using parse_loop_concat [of "dd # ds" path bus dev "[]" init_parse] assms(1,3) by simp
  moreover have "2 \<le> length dd" using assms(1) by (simp add: desc_ok_def)
  moreover have "desc_step path bus dev dd init_parse =
      \<lparr>ps_vendorID = Uint16 (slice dd 8 10), ps_productID = Uint16 (slice dd 10 12),
       ps_active = None, ps_candidates = []\<rparr>"
    using assms(2) by (simp add: desc_step_def init_parse_def)
  ultimately show ?thesis
    using desc_fold_sections [OF assms(4)] by (simp add: ParseADBCandidates_def)
qed

definition sample_device :: bytes where
  "sample_device = [18, 1, 0, 2, 0, 0, 0, 64, 0xd1, 0x18, 0xe7, 0x4e, 0, 0, 0, 0, 0, 1]"

definition sample_descriptors :: "bytes list" where
  "sample_descriptors =
     [[9, 2, 32, 0, 1, 1, 0, 0x80, 250], [9, 4, 1, 0, 2, 0xff, 0x42, 1, 0],
      [7, 5, 0x81, 2, 0, 2, 0], [7, 5, 0x02, 2, 0, 2, 0]]"

lemmas sample_usb = sample_device_def sample_descriptors_def desc_ok_def usb_consts

theorem ParseADBCandidates_sections_witness:
  "ParseADBCandidates ''p'' 1 2 (sample_device @ concat sample_descriptors) =
     Inr [\<lparr>DevicePath = ''p'', BusNumber = 1, DeviceNumber = 2, VendorID = 0x18d1, ProductID = 0x4ee7,
           InterfaceNumber = 1, BulkInEndpoint = 0x81, BulkOutEndpoint = 0x02\<rparr>]"
proof -
  have "ParseADBCandidates ''p'' 1 2 (sample_device @ concat sample_descriptors) =
    Inr (concat (map (section_candidate ''p'' 1 2 (Uint16 (slice sample_device 8 10)) (Uint16 (slice sample_device 10 12)))
      (adb_sections sample_descriptors)))"
    by (rule ParseADBCandidates_sections) (simp_all add: sample_usb)
  also have "\<dots> = Inr [\<lparr>DevicePath = ''p'', BusNumber = 1, DeviceNumber = 2, VendorID = 0x18d1, ProductID = 0x4ee7,
           InterfaceNumber = 1, BulkInEndpoint = 0x81, BulkOutEndpoint = 0x02\<rparr>]"
    by code_simp
  finally show ?thesis .
qed

text \<open>A descriptor of length one makes the parser read \<open>desc[1]\<close> past the end of the
  descriptor, a run-time panic, wherever it stands after well-formed descriptors.\<close>

theorem one_byte_descriptor_panics:
  assumes "\<forall>d \<in> set ds. desc_ok d" "ds \<noteq> [] \<or> rest \<noteq> []"
  shows "ParseADBCandidates path bus dev (concat ds @ 1 # rest) = Inl (IndexPanic (length (concat ds)))"
proof -
  have "parse_loop path bus dev (concat ds @ 1 # rest) 0 init_parse = Inl (IndexPanic (length (concat ds)))"
    using parse_loop_prefix [of ds path bus dev "[]" "1 # rest" init_parse] assms(1)
    by (simp add: parse_loop.simps [of path bus dev "concat ds @ 1 # rest" "length (concat ds)"] nth_append)
  moreover have "\<not> length (concat ds @ 1 # rest) < 2"
    using assms by (cases ds; cases rest) (auto simp: desc_ok_def)
  ultimately show ?thesis by (simp add: ParseADBCandidates_def)
qed

theorem one_byte_descriptor_panics_witness:
  "ParseADBCandidates ''p'' 1 2 (concat [sample_device] @ 1 # []) = Inl (IndexPanic 18)"
  using one_byte_descriptor_panics [of "[sample_device]" "[]" "''p''" 1 2] by (simp add: sample_usb)

end
