(* ===== verification/UsbTransport.thy ===== *)
theory UsbTransport
  imports UsbDescriptor
begin

text \<open>
  The usbfs transport, \<open>internal/usb/bulk_linux.go\<close>: the ioctl numbers, opening a candidate,
  bulk transfers and closing. The kernel is a world that records the system calls in order
  and answers each from a script (past the script every call succeeds); an ioctl on a
  closed file is refused with \<open>EBADF\<close> and never reaches the device. \<open>transport_step\<close> drives the operations in any
  order, so the machine's invariant speaks of every schedule of readers, writers and closers.
\<close>

section \<open>ioctl numbers\<close>

definition ioctlNRShift :: nat where "ioctlNRShift = 0"
definition ioctlTypeShift :: nat where "ioctlTypeShift = ioctlNRShift + 8"
definition ioctlSizeShift :: nat where "ioctlSizeShift = ioctlTypeShift + 8"
definition ioctlDirShift :: nat where "ioctlDirShift = ioctlSizeShift + 14"

definition ioctl :: "u64 \<Rightarrow> u64 \<Rightarrow> u64 \<Rightarrow> u64 \<Rightarrow> u64" where
  "ioctl dir typ nr sz =
     push_bit ioctlDirShift dir OR push_bit ioctlTypeShift typ OR push_bit ioctlNRShift nr OR
     push_bit ioctlSizeShift sz"

definition ioctlRead :: u64 where "ioctlRead = 2"
definition ioctlWrite :: u64 where "ioctlWrite = 1"
definition usbfsIOType :: u64 where "usbfsIOType = 0x55"

text \<open>\<open>unsafe.Sizeof(usbdevfsBulkTransfer{})\<close> on a 64-bit platform: three \<open>uint32\<close>, four bytes of
  padding and a \<open>uintptr\<close>.\<close>

definition sizeof_bulk_transfer :: u64 where "sizeof_bulk_transfer = 24"

definition usbdevfsBulk :: u64 where
  "usbdevfsBulk = ioctl (ioctlRead OR ioctlWrite) usbfsIOType 2 sizeof_bulk_transfer"
definition usbdevfsClaimInterface :: u64 where
  "usbdevfsClaimInterface = ioctl ioctlRead usbfsIOType 15 4"
definition usbdevfsReleaseInterface :: u64 where
  "usbdevfsReleaseInterface = ioctl ioctlRead usbfsIOType 16 4"

lemmas ioctl_defs = ioctl_def ioctlNRShift_def ioctlTypeShift_def ioctlSizeShift_def ioctlDirShift_def
  ioctlRead_def ioctlWrite_def usbfsIOType_def sizeof_bulk_transfer_def

lemma ioctl_numbers:
  "usbdevfsBulk = 0xC0185502" "usbdevfsClaimInterface = 0x8004550F" "usbdevfsReleaseInterface = 0x80045510"
  unfolding usbdevfsBulk_def usbdevfsClaimInterface_def usbdevfsReleaseInterface_def ioctl_defs
  by code_simp+

lemma ioctl_distinct [simp]:
  "usbdevfsBulk \<noteq> usbdevfsReleaseInterface" "usbdevfsClaimInterface \<noteq> usbdevfsReleaseInterface"
  "usbdevfsBulk \<noteq> usbdevfsClaimInterface"
  by (simp_all add: ioctl_numbers)

section \<open>The kernel\<close>

record usbdevfsBulkTransfer =
  Endpoint :: u32
  Length :: u32
  Timeout :: u32
  Data :: bytes

datatype ioctl_arg = ArgInterface u32 | ArgBulk usbdevfsBulkTransfer

datatype syscall = SysOpen string | SysIoctl u64 ioctl_arg | SysClose

text \<open>An answer is an error, or a count and the bytes stored into the caller's buffer.\<close>

type_synonym sys_reply = "io_error + nat \<times> bytes"

record usb_world =
  uw_open :: bool \<comment> \<open>the device file is open\<close>
  uw_trace :: "syscall list"
  uw_script :: "sys_reply list"

definition syscall_op :: "syscall \<Rightarrow> usb_world \<Rightarrow> sys_reply \<times> usb_world" where
  "syscall_op c w =
     (case uw_script w of
        [] \<Rightarrow> (Inr (0, []), w\<lparr>uw_trace := uw_trace w @ [c]\<rparr>)
      | r # rs \<Rightarrow> (r, w\<lparr>uw_trace := uw_trace w @ [c], uw_script := rs\<rparr>))"

definition EBADF :: io_error where "EBADF = OsError 9"

definition usbfsIoctl :: "u64 \<Rightarrow> ioctl_arg \<Rightarrow> usb_world \<Rightarrow> sys_reply \<times> usb_world" where
  "usbfsIoctl request arg w = (if uw_open w then syscall_op (SysIoctl request arg) w else (Inl EBADF, w))"

text \<open>\<open>os.OpenFile\<close> and \<open>(*os.File).Close\<close>; a file is closed even when \<open>close(2)\<close> reports an error.\<close>

definition open_file :: "string \<Rightarrow> usb_world \<Rightarrow> io_error option \<times> usb_world" where
  "open_file path w =
     (case syscall_op (SysOpen path) w of
        (Inl e, w') \<Rightarrow> (Some e, w')
      | (Inr _, w') \<Rightarrow> (None, w'\<lparr>uw_open := True\<rparr>))"

definition close_file :: "usb_world \<Rightarrow> io_error option \<times> usb_world" where
  "close_file w =
     (if uw_open w
      then case syscall_op SysClose w of
          (Inl e, w') \<Rightarrow> (Some e, w'\<lparr>uw_open := False\<rparr>)
        | (Inr _, w') \<Rightarrow> (None, w'\<lparr>uw_open := False\<rparr>)
      else (Some EBADF, w))"

section \<open>The transport\<close>

datatype transport_error =
    TransportCtx ctx_err
  | EmptyDevicePath
  | NotInEndpoint byte
  | NotOutEndpoint byte
  | OpenFailed io_error
  | ClaimFailed u32 io_error
  | ReleaseFailed u32 io_error
  | CloseFailed io_error
  | BulkFailed byte io_error
  | TransportUnsupported

record linuxBulkTransport =
  t_path :: string
  t_iface :: u32
  t_inEndpoint :: byte
  t_outEndpoint :: byte
  t_closeOnce :: bool \<comment> \<open>\<open>closeOnce\<close> has run\<close>
  t_closeErr :: "transport_error option"
  t_claimed :: bool

definition validateBulkCandidate :: "candidate \<Rightarrow> transport_error option" where
  "validateBulkCandidate c =
     (if DevicePath c = [] then Some EmptyDevicePath
      else if BulkInEndpoint c AND EndpointDirectionIn = 0 then Some (NotInEndpoint (BulkInEndpoint c))
      else if BulkOutEndpoint c AND EndpointDirectionIn \<noteq> 0 then Some (NotOutEndpoint (BulkOutEndpoint c))
      else None)"

definition claimInterface ::
  "linuxBulkTransport \<Rightarrow> usb_world \<Rightarrow> transport_error option \<times> linuxBulkTransport \<times> usb_world" where
  "claimInterface t w =
     (case usbfsIoctl usbdevfsClaimInterface (ArgInterface (t_iface t)) w of
        (Inl e, w') \<Rightarrow> (Some (ClaimFailed (t_iface t) e), t, w')
      | (Inr _, w') \<Rightarrow> (None, t\<lparr>t_claimed := True\<rparr>, w'))"

definition OpenBulkTransport ::
  "ctx_err option \<Rightarrow> candidate \<Rightarrow> usb_world \<Rightarrow> (transport_error + linuxBulkTransport) \<times> usb_world" where
  "OpenBulkTransport ctx c w =
     (case ctx of
        Some e \<Rightarrow> (Inl (TransportCtx e), w)
      | None \<Rightarrow>
          (case validateBulkCandidate c of
             Some e \<Rightarrow> (Inl e, w)
           | None \<Rightarrow>
               (case open_file (DevicePath c) w of
                  (Some e, w1) \<Rightarrow> (Inl (OpenFailed e), w1)
                | (None, w1) \<Rightarrow>
                    (let t = \<lparr>t_path = DevicePath c, t_iface = ucast (InterfaceNumber c),
                              t_inEndpoint = BulkInEndpoint c, t_outEndpoint = BulkOutEndpoint c,
                              t_closeOnce = False, t_closeErr = None, t_claimed = False\<rparr>
                     in case claimInterface t w1 of
                         (Some e, _, w2) \<Rightarrow> (Inl e, snd (close_file w2))
                       | (None, t', w2) \<Rightarrow> (Inr t', w2)))))"

definition bulk ::
  "byte \<Rightarrow> bytes \<Rightarrow> linuxBulkTransport \<Rightarrow> usb_world \<Rightarrow> (transport_error + nat \<times> bytes) \<times> usb_world" where
  "bulk endpoint p t w =
     (case usbfsIoctl usbdevfsBulk (ArgBulk \<lparr>Endpoint = ucast endpoint, Length = word_of_nat (length p),
         Timeout = 0, Data = p\<rparr>) w of
        (Inl e, w') \<Rightarrow> (Inl (BulkFailed endpoint e), w')
      | (Inr r, w') \<Rightarrow> (Inr r, w'))"

text \<open>\<open>Read\<close> and \<open>Write\<close>; the buffer given to \<open>Read\<close> is what it holds before the call.\<close>

definition transport_Read ::
  "bytes \<Rightarrow> linuxBulkTransport \<Rightarrow> usb_world \<Rightarrow> (transport_error + nat \<times> bytes) \<times> usb_world" where
  "transport_Read p t w = (if length p = 0 then (Inr (0, []), w) else bulk (t_inEndpoint t) p t w)"

definition transport_Write ::
  "bytes \<Rightarrow> linuxBulkTransport \<Rightarrow> usb_world \<Rightarrow> (transport_error + nat \<times> bytes) \<times> usb_world" where
  "transport_Write p t w = (if length p = 0 then (Inr (0, []), w) else bulk (t_outEndpoint t) p t w)"

definition release_interface :: "linuxBulkTransport \<Rightarrow> usb_world \<Rightarrow> linuxBulkTransport \<times> usb_world" where
  "release_interface t w =
     (if t_claimed t
      then case usbfsIoctl usbdevfsReleaseInterface (ArgInterface (t_iface t)) w of
          (Inl e, w') \<Rightarrow> (t\<lparr>t_closeErr := Some (ReleaseFailed (t_iface t) e), t_claimed := False\<rparr>, w')
        | (Inr _, w') \<Rightarrow> (t\<lparr>t_claimed := False\<rparr>, w')
      else (t, w))"

definition transport_Close ::
  "linuxBulkTransport \<Rightarrow> usb_world \<Rightarrow> transport_error option \<times> linuxBulkTransport \<times> usb_world" where
  "transport_Close t w =
     (if t_closeOnce t then (t_closeErr t, t, w)
      else case release_interface (t\<lparr>t_closeOnce := True\<rparr>) w of (t1, w1) \<Rightarrow>
        (case close_file w1 of
           (Some e, w2) \<Rightarrow>
             (let t2 = (if t_closeErr t1 = None then t1\<lparr>t_closeErr := Some (CloseFailed e)\<rparr> else t1)
              in (t_closeErr t2, t2, w2))
         | (None, w2) \<Rightarrow> (t_closeErr t1, t1, w2)))"

section \<open>Schedules\<close>

datatype transport_event = TRead bytes | TWrite bytes | TClose

datatype transport_obs = OTransfer "transport_error + nat \<times> bytes" | OClose "transport_error option"

type_synonym transport_state = "linuxBulkTransport \<times> usb_world"

fun transport_step :: "transport_event \<Rightarrow> transport_state \<Rightarrow> (transport_obs \<times> transport_state) option" where
  "transport_step (TRead p) (t, w) =
     (case transport_Read p t w of (r, w') \<Rightarrow> Some (OTransfer r, t, w'))"
| "transport_step (TWrite p) (t, w) =
     (case transport_Write p t w of (r, w') \<Rightarrow> Some (OTransfer r, t, w'))"
| "transport_step TClose (t, w) =
     (case transport_Close t w of (r, t', w') \<Rightarrow> Some (OClose r, t', w'))"

definition is_bulk :: "linuxBulkTransport \<Rightarrow> syscall \<Rightarrow> bool" where
  "is_bulk t c \<longleftrightarrow> (\<exists>x. c = SysIoctl usbdevfsBulk (ArgBulk x) \<and>
     (Endpoint x = ucast (t_inEndpoint t) \<or> Endpoint x = ucast (t_outEndpoint t)))"

text \<open>What the device saw since the file was opened: the claim, the transfers, and once the transport
  is closed the release and the close, with nothing after them.\<close>

definition transport_inv :: "syscall list \<Rightarrow> transport_state \<Rightarrow> bool" where
  "transport_inv before s \<longleftrightarrow> (case s of (t, w) \<Rightarrow>
     t_claimed t = (\<not> t_closeOnce t) \<and> uw_open w = (\<not> t_closeOnce t) \<and>
     (\<exists>transfers. (\<forall>c \<in> set transfers. is_bulk t c) \<and>
        uw_trace w = before @ [SysOpen (t_path t), SysIoctl usbdevfsClaimInterface (ArgInterface (t_iface t))] @
          transfers @
          (if t_closeOnce t then [SysIoctl usbdevfsReleaseInterface (ArgInterface (t_iface t)), SysClose] else [])))"

lemma syscall_op_effect [simp]:
  "uw_trace (snd (syscall_op c w)) = uw_trace w @ [c]" "uw_open (snd (syscall_op c w)) = uw_open w"
  by (auto simp: syscall_op_def split: list.splits)

lemma usbfsIoctl_effect [simp]:
  "uw_trace (snd (usbfsIoctl q a w)) = uw_trace w @ (if uw_open w then [SysIoctl q a] else [])"
  "uw_open (snd (usbfsIoctl q a w)) = uw_open w"
  by (auto simp: usbfsIoctl_def)

lemma close_file_effect [simp]:
  "uw_trace (snd (close_file w)) = uw_trace w @ (if uw_open w then [SysClose] else [])"
  "\<not> uw_open (snd (close_file w))"
  using syscall_op_effect [of SysClose w]
  by (auto simp: close_file_def split: prod.splits sum.splits simp del: syscall_op_effect)

lemma open_file_effect:
  "open_file path w = (None, w') \<Longrightarrow> uw_open w' \<and> uw_trace w' = uw_trace w @ [SysOpen path]"
  using syscall_op_effect [of "SysOpen path" w]
  by (auto simp: open_file_def split: prod.splits sum.splits simp del: syscall_op_effect)

lemma bulk_world: "snd (bulk ep p t w) = snd (usbfsIoctl usbdevfsBulk (ArgBulk \<lparr>Endpoint = ucast ep,
    Length = word_of_nat (length p), Timeout = 0, Data = p\<rparr>) w)"
  by (auto simp: bulk_def split: prod.splits sum.splits)

lemma transfer_inv [inv_intro]:
  assumes "transport_inv before (t, w)" "ep = t_inEndpoint t \<or> ep = t_outEndpoint t"
  shows "transport_inv before (t, snd (bulk ep p t w))"
proof (cases "t_closeOnce t")
  case True
  with assms show ?thesis by (auto simp: transport_inv_def bulk_world)
next
  case False
  with assms obtain tr where tr: "\<forall>c \<in> set tr. is_bulk t c" "uw_open w" "t_claimed t"
    "uw_trace w = before @ [SysOpen (t_path t), SysIoctl usbdevfsClaimInterface (ArgInterface (t_iface t))] @ tr"
    by (auto simp: transport_inv_def)
  let ?c = "SysIoctl usbdevfsBulk (ArgBulk \<lparr>Endpoint = ucast ep, Length = word_of_nat (length p), Timeout = 0, Data = p\<rparr>)"
  have "is_bulk t ?c" using assms(2) by (auto simp: is_bulk_def)
  with tr False show ?thesis
    by (auto simp: transport_inv_def bulk_world intro!: exI [of _ "tr @ [?c]"])
qed

lemma transport_Close_inv [inv_intro]:
  assumes "transport_inv before (t, w)" "transport_Close t w = (r, t', w')"
  shows "transport_inv before (t', w')"
proof (cases "t_closeOnce t")
  case True
  with assms show ?thesis by (simp add: transport_Close_def)
next
  case False
  with assms(1) obtain tr where tr: "\<forall>c \<in> set tr. is_bulk t c" "uw_open w" "t_claimed t"
    "uw_trace w = before @ [SysOpen (t_path t), SysIoctl usbdevfsClaimInterface (ArgInterface (t_iface t))] @ tr"
    by (auto simp: transport_inv_def)
  obtain t1 w1 where rel: "release_interface (t\<lparr>t_closeOnce := True\<rparr>) w = (t1, w1)" by fastforce
  with tr usbfsIoctl_effect [of usbdevfsReleaseInterface "ArgInterface (t_iface t)" w]
  have t1: "t_closeOnce t1" "\<not> t_claimed t1" "t_path t1 = t_path t" "t_iface t1 = t_iface t"
    "t_inEndpoint t1 = t_inEndpoint t" "t_outEndpoint t1 = t_outEndpoint t" "uw_open w1"
    "uw_trace w1 = uw_trace w @ [SysIoctl usbdevfsReleaseInterface (ArgInterface (t_iface t))]"
    by (auto simp: release_interface_def split: prod.splits sum.splits simp del: usbfsIoctl_effect)
  have "w' = snd (close_file w1)" and
    t': "t_closeOnce t'" "\<not> t_claimed t'" "t_path t' = t_path t" "t_iface t' = t_iface t"
    "t_inEndpoint t' = t_inEndpoint t" "t_outEndpoint t' = t_outEndpoint t"
    using assms(2) False rel t1
    by (auto simp: transport_Close_def Let_def split: prod.splits option.splits if_splits)
  with tr t1 show ?thesis
    by (auto simp: transport_inv_def is_bulk_def intro!: exI [of _ tr])
qed

lemma transport_step_inv:
  assumes "transport_inv before s" "transport_step e s = Some (x, s')"
  shows "transport_inv before s'"
proof -
  obtain t w where s: "s = (t, w)" by fastforce
  show ?thesis
  proof (cases e)
    case (TRead p)
    with assms s transfer_inv [of before t w "t_inEndpoint t" p] show ?thesis
      by (cases "p = []") (auto simp: transport_Read_def split: prod.splits)
  next
    case (TWrite p)
    with assms s transfer_inv [of before t w "t_outEndpoint t" p] show ?thesis
      by (cases "p = []") (auto simp: transport_Write_def split: prod.splits)
  next
    case TClose
    with assms s show ?thesis by (cases s') (auto split: prod.splits dest: transport_Close_inv)
  qed
qed

interpretation usb_transport: machine transport_step "transport_inv before" for before
  by unfold_locales (rule transport_step_inv)

section \<open>Properties\<close>

lemma OpenBulkTransport_InrD:
  assumes "OpenBulkTransport ctx c w = (Inr t, w1)"
  shows "transport_inv (uw_trace w) (t, w1) \<and> \<not> t_closeOnce t \<and> t_path t = DevicePath c \<and>
    t_iface t = ucast (InterfaceNumber c) \<and> t_inEndpoint t = BulkInEndpoint c \<and> t_outEndpoint t = BulkOutEndpoint c"
proof -
  from assms obtain w0 where w0: "open_file (DevicePath c) w = (None, w0)"
    by (auto simp: OpenBulkTransport_def split: option.splits prod.splits)
  let ?q = "usbfsIoctl usbdevfsClaimInterface (ArgInterface (ucast (InterfaceNumber c))) w0"
  from assms w0 obtain r where r: "?q = (Inr r, w1)"
    and t: "t = \<lparr>t_path = DevicePath c, t_iface = ucast (InterfaceNumber c), t_inEndpoint = BulkInEndpoint c,
      t_outEndpoint = BulkOutEndpoint c, t_closeOnce = False, t_closeErr = None, t_claimed = True\<rparr>"
    by (auto simp: OpenBulkTransport_def claimInterface_def Let_def split: option.splits prod.splits sum.splits)
  from r have "w1 = snd ?q" by simp
  with open_file_effect [OF w0] t show ?thesis by (simp add: transport_inv_def)
qed

lemma OpenBulkTransport_failure_closes:
  assumes "OpenBulkTransport ctx c w = (Inl e, w1)" "\<not> uw_open w"
  shows "\<not> uw_open w1"
proof -
  have "open_file (DevicePath c) w = (Some e', w') \<Longrightarrow> \<not> uw_open w'" for e' w'
    using assms(2) syscall_op_effect [of "SysOpen (DevicePath c)" w]
    by (auto simp: open_file_def split: prod.splits sum.splits simp del: syscall_op_effect)
  with assms show ?thesis
    by (auto simp: OpenBulkTransport_def Let_def split: option.splits prod.splits)
qed

lemma transport_run_frame:
  assumes "run transport_step es (t, w) = Some (xs, (t', w'))"
  shows "t_path t' = t_path t \<and> t_iface t' = t_iface t \<and> t_inEndpoint t' = t_inEndpoint t \<and>
    t_outEndpoint t' = t_outEndpoint t \<and> t_closeOnce t' = (t_closeOnce t \<or> TClose \<in> set es)"
  using assms
proof (induction es arbitrary: t w xs)
  case Nil
  then show ?case by simp
next
  case (Cons e es)
  then obtain x t1 w1 ys where st: "transport_step e (t, w) = Some (x, (t1, w1))"
    and rest: "run transport_step es (t1, w1) = Some (ys, (t', w'))"
    by (auto simp: run_Cons_Some simp del: run.simps)
  from st have "t_path t1 = t_path t \<and> t_iface t1 = t_iface t \<and> t_inEndpoint t1 = t_inEndpoint t \<and>
    t_outEndpoint t1 = t_outEndpoint t \<and> t_closeOnce t1 = (t_closeOnce t \<or> e = TClose)"
    by (cases e) (auto simp: transport_Close_def release_interface_def Let_def
        split: prod.splits option.splits if_splits sum.splits)
  with Cons.IH [OF rest] show ?case by auto
qed


definition sample_candidate :: candidate where
  "sample_candidate = \<lparr>DevicePath = ''/d'', BusNumber = 1, DeviceNumber = 2, VendorID = 0x18d1,
     ProductID = 0x4ee7, InterfaceNumber = 1, BulkInEndpoint = 0x81, BulkOutEndpoint = 0x02\<rparr>"

definition sample_world :: usb_world where
  "sample_world = \<lparr>uw_open = False, uw_trace = [], uw_script = []\<rparr>"


text \<open>Every candidate that discovery returns can be opened: it has a path, and its endpoints
  point in the directions the transport demands, so validation never rejects it.\<close>

theorem discovered_candidates_are_openable:
  assumes "DiscoverADBInRoot ctx root entries = Inr cs" "c \<in> set cs"
  shows "validateBulkCandidate c = None"
proof -
  from assms(1) have "discover_walk root entries [] = Inr cs"
    by (simp add: DiscoverADBInRoot_def split: option.splits)
  from discover_walk_usable [OF this] assms(2) have "usable_candidate c" by simp
  then show ?thesis by (simp add: usable_candidate_def validateBulkCandidate_def)
qed

definition sample_walk :: "walk_entry list" where
  "sample_walk = [\<lparr>we_rel = ''001/002'', we_err = None, we_ctx = None, we_dir = False,
     we_open = Inr \<lparr>rd_data = sample_device @ concat sample_descriptors, rd_end = EOF\<rparr>\<rparr>]"

definition sample_found :: candidate where
  "sample_found = \<lparr>DevicePath = ''/u/001/002'', BusNumber = 1, DeviceNumber = 2, VendorID = 0x18d1,
     ProductID = 0x4ee7, InterfaceNumber = 1, BulkInEndpoint = 0x81, BulkOutEndpoint = 0x02\<rparr>"

theorem discovered_candidates_are_openable_witness:
  "DiscoverADBInRoot None ''/u'' sample_walk = Inr [sample_found] \<and> validateBulkCandidate sample_found = None"
proof -
  have "ParseADBCandidates ''/u/001/002'' 1 2 (sample_device @ concat sample_descriptors) = Inr [sample_found]"
    by code_simp
  moreover have "parseLinuxDevicePath ''001/002'' = Some (1, 2)" by code_simp
  moreover have "length (sample_device @ concat sample_descriptors) = 50" by code_simp
  ultimately have "DiscoverADBInRoot None ''/u'' sample_walk = Inr [sample_found]"
    by (simp add: DiscoverADBInRoot_def sample_walk_def readDescriptorFile_def LimitReader_def read_all_def)
  with discovered_candidates_are_openable [OF this] show ?thesis by simp
qed

end
