(* ===== verification/ClientConnect.thy ===== *)
theory ClientConnect
  imports Handshake Mux GoNet UsbTransport
begin

text \<open>
  Connecting: \<open>client/transport.go\<close>, the connection half of \<open>client/client.go\<close>, \<open>client/usb.go\<close> and
  \<open>client/errors.go\<close>. A dialer is the interface \<open>transportDialer\<close>: dialing changes a world (the
  operating system), gives a transport or an error, and the transport is closed in the same world.
  The locale \<open>transport_dialer\<close> is the contract a dialer keeps with the world; that a failed
  connection attempt leaves no transport open is proved once in it, and it is interpreted for the TCP and
  the USB dialer.
\<close>

section \<open>TCP addresses\<close>

definition defaultTCPPort :: string where "defaultTCPPort = ''5555''"

text \<open>\<open>None\<close> is the error for an empty address.\<close>

definition normalizeTCPAddr :: "string \<Rightarrow> string option" where
  "normalizeTCPAddr addr0 =
     (let addr = TrimSpace addr0 in
      if addr = [] then None
      else case SplitHostPort addr of
          Inr (host, port) \<Rightarrow>
            Some (JoinHostPort host (if port = [] then defaultTCPPort else port))
        | Inl _ \<Rightarrow>
            if Count addr CHR '':'' > 1 \<and> \<not> HasPrefix addr ''[''
            then Some (JoinHostPort addr defaultTCPPort)
            else if Count addr CHR '':'' = 1 then
              (case Cut addr '':'' of
                 Some (a, b) \<Rightarrow> if b \<noteq> [] then Some addr else Some (JoinHostPort a defaultTCPPort)
               | None \<Rightarrow> Some addr)
            else Some (JoinHostPort addr defaultTCPPort))"

section \<open>Choosing a USB device\<close>

record USBDevice =
  ud_DevicePath :: string
  ud_BusNumber :: int
  ud_DeviceNumber :: int
  ud_VendorID :: u16
  ud_ProductID :: u16
  ud_InterfaceNumber :: byte
  ud_BulkInEndpoint :: byte
  ud_BulkOutEndpoint :: byte

record USBOptions =
  uo_DevicePath :: string
  uo_BusNumber :: int
  uo_DeviceNumber :: int
  uo_VendorID :: u16
  uo_ProductID :: u16
  uo_Serial :: string
  uo_AuthCredentials :: credentials

datatype select_error =
    SerialUnsupported string
  | NeedBusAndDevice
  | NeedVendorAndProduct
  | DiscoverUnsupported
  | DiscoverFailed discover_error
  | NoMatch
  | ManyMatches nat
  | ListCtx ctx_err

definition validateUSBOptions :: "USBOptions \<Rightarrow> select_error option" where
  "validateUSBOptions opts =
     (if uo_Serial opts \<noteq> [] then Some (SerialUnsupported (uo_Serial opts))
      else if (uo_BusNumber opts = 0) \<noteq> (uo_DeviceNumber opts = 0) then Some NeedBusAndDevice
      else if (uo_VendorID opts = 0) \<noteq> (uo_ProductID opts = 0) then Some NeedVendorAndProduct
      else None)"

definition usbCandidateMatches :: "candidate \<Rightarrow> USBOptions \<Rightarrow> bool" where
  "usbCandidateMatches c opts =
     (if uo_DevicePath opts \<noteq> [] \<and> DevicePath c \<noteq> uo_DevicePath opts then False
      else if uo_BusNumber opts \<noteq> 0 \<and>
        (BusNumber c \<noteq> uo_BusNumber opts \<or> DeviceNumber c \<noteq> uo_DeviceNumber opts) then False
      else if uo_VendorID opts \<noteq> 0 \<and>
        (VendorID c \<noteq> uo_VendorID opts \<or> ProductID c \<noteq> uo_ProductID opts) then False
      else True)"

definition usbDeviceFromCandidate :: "candidate \<Rightarrow> USBDevice" where
  "usbDeviceFromCandidate c = \<lparr>ud_DevicePath = DevicePath c, ud_BusNumber = BusNumber c,
     ud_DeviceNumber = DeviceNumber c, ud_VendorID = VendorID c, ud_ProductID = ProductID c,
     ud_InterfaceNumber = InterfaceNumber c, ud_BulkInEndpoint = BulkInEndpoint c,
     ud_BulkOutEndpoint = BulkOutEndpoint c\<rparr>"

fun discover_error_of :: "discover_error \<Rightarrow> select_error" where
  "discover_error_of UsbUnsupported = DiscoverUnsupported"
| "discover_error_of e = DiscoverFailed e"

text \<open>\<open>disc\<close> is what \<open>discoverUSBCandidates(ctx)\<close> returns.\<close>

definition selectUSBCandidate ::
  "discover_error + candidate list \<Rightarrow> USBOptions \<Rightarrow> select_error + candidate" where
  "selectUSBCandidate disc opts =
     (case validateUSBOptions opts of
        Some e \<Rightarrow> Inl e
      | None \<Rightarrow>
          (case disc of
             Inl e \<Rightarrow> Inl (discover_error_of e)
           | Inr candidates \<Rightarrow>
               (case filter (\<lambda>c. usbCandidateMatches c opts) candidates of
                  [] \<Rightarrow> Inl NoMatch
                | [c] \<Rightarrow> Inr c
                | cs \<Rightarrow> Inl (ManyMatches (length cs)))))"

definition ListUSBDevices ::
  "ctx_err option \<Rightarrow> discover_error + candidate list \<Rightarrow> select_error + USBDevice list" where
  "ListUSBDevices ctx disc =
     (case ctx of
        Some e \<Rightarrow> Inl (ListCtx e)
      | None \<Rightarrow>
          (case disc of
             Inl e \<Rightarrow> Inl (discover_error_of e)
           | Inr candidates \<Rightarrow> Inr (map usbDeviceFromCandidate candidates)))"

section \<open>Dialers\<close>

datatype dial_error = DialNet io_error | DialSelect select_error | DialUnsupported | DialUsb transport_error

datatype conn_desc = DescTcp string | DescUsb

record ('t, 'w) transportDialer =
  ConnectDescription :: conn_desc
  DialTransport :: "'w \<Rightarrow> (dial_error + 't) \<times> 'w"
  transport_io :: "'t \<Rightarrow> reader \<times> writer" \<comment> \<open>the bytes the transport carries\<close>
  transport_close :: "'t \<Rightarrow> 'w \<Rightarrow> 'w"

datatype connect_error =
    ConnectCtx ctx_err
  | AddrEmpty
  | DialerNil
  | DialFailed conn_desc dial_error
  | ErrAuthRequired conn_desc
  | HandshakeFailed conn_desc hs_error

text \<open>What \<open>ctx.Err()\<close> is on entry, before the handshake, and when the handshake has failed.\<close>

record connect_ctx =
  cc_entry :: "ctx_err option"
  cc_handshake :: "ctx_err option"
  cc_failed :: "ctx_err option"

definition connectWithTransportOptions ::
  "connect_ctx \<Rightarrow> ('t, 'w) transportDialer option \<Rightarrow> credentials \<Rightarrow> 'w \<Rightarrow> (connect_error + conn \<times> 't) \<times> 'w" where
  "connectWithTransportOptions ctx dialer creds w =
     (case cc_entry ctx of
        Some e \<Rightarrow> (Inl (ConnectCtx e), w)
      | None \<Rightarrow>
          (case dialer of
             None \<Rightarrow> (Inl DialerNil, w)
           | Some d \<Rightarrow>
               (let desc = ConnectDescription d in
                case DialTransport d w of
                  (Inl e, w1) \<Rightarrow> (Inl (DialFailed desc e), w1)
                | (Inr t, w1) \<Rightarrow>
                    (case transport_io d t of (r, wr) \<Rightarrow>
                       (case HandshakeWithOptions (cc_handshake ctx) (cc_failed ctx) creds r wr of
                          (Inl e, r', wr') \<Rightarrow>
                            (if is_ErrAuthRequired e then Inl (ErrAuthRequired desc)
                             else Inl (HandshakeFailed desc e), transport_close d t w1)
                        | (Inr _, r', wr') \<Rightarrow> (Inr (NewConnection r' wr', t), w1))))))"

definition connectWithTransport ::
  "connect_ctx \<Rightarrow> ('t, 'w) transportDialer option \<Rightarrow> 'w \<Rightarrow> (connect_error + conn \<times> 't) \<times> 'w" where
  "connectWithTransport ctx dialer w = connectWithTransportOptions ctx dialer [] w"

subsection \<open>TCP\<close>

text \<open>The network: \<open>net addr\<close> is what dialing \<open>addr\<close> gives. The world has the sockets that are open.\<close>

type_synonym network = "string \<Rightarrow> io_error + reader \<times> writer"

record tcp_world =
  tw_next :: nat
  tw_open :: "nat list"

definition tcpTransportDialer ::
  "network \<Rightarrow> string \<Rightarrow> (nat \<times> reader \<times> writer, tcp_world) transportDialer" where
  "tcpTransportDialer net addr =
     \<lparr>ConnectDescription = DescTcp addr,
      DialTransport = (\<lambda>w. case net addr of
          Inl e \<Rightarrow> (Inl (DialNet e), w)
        | Inr (r, wr) \<Rightarrow>
            (Inr (tw_next w, r, wr), w\<lparr>tw_next := Suc (tw_next w), tw_open := tw_next w # tw_open w\<rparr>)),
      transport_io = snd,
      transport_close = (\<lambda>t w. w\<lparr>tw_open := removeAll (fst t) (tw_open w)\<rparr>)\<rparr>"

definition newTCPTransportDialer ::
  "network \<Rightarrow> string \<Rightarrow> (nat \<times> reader \<times> writer, tcp_world) transportDialer option" where
  "newTCPTransportDialer net addr =
     (case normalizeTCPAddr addr of
        None \<Rightarrow> None
      | Some networkAddr \<Rightarrow> Some (tcpTransportDialer net networkAddr))"

definition ConnectTCPWithOptions ::
  "connect_ctx \<Rightarrow> network \<Rightarrow> string \<Rightarrow> credentials \<Rightarrow> tcp_world \<Rightarrow>
     (connect_error + conn \<times> nat \<times> reader \<times> writer) \<times> tcp_world" where
  "ConnectTCPWithOptions ctx net addr creds w =
     (case cc_entry ctx of
        Some e \<Rightarrow> (Inl (ConnectCtx e), w)
      | None \<Rightarrow>
          (case newTCPTransportDialer net addr of
             None \<Rightarrow> (Inl AddrEmpty, w)
           | Some d \<Rightarrow> connectWithTransportOptions ctx (Some d) creds w))"

definition ConnectTCP ::
  "connect_ctx \<Rightarrow> network \<Rightarrow> string \<Rightarrow> tcp_world \<Rightarrow> (connect_error + conn \<times> nat \<times> reader \<times> writer) \<times> tcp_world" where
  "ConnectTCP ctx net addr w = ConnectTCPWithOptions ctx net addr [] w"

subsection \<open>USB\<close>

text \<open>\<open>carry t\<close> is the traffic of the opened transport.\<close>

definition usb_DialTransport ::
  "ctx_err option \<Rightarrow> discover_error + candidate list \<Rightarrow> USBOptions \<Rightarrow> usb_world \<Rightarrow>
     (dial_error + linuxBulkTransport) \<times> usb_world" where
  "usb_DialTransport ctx disc opts w =
     (case selectUSBCandidate disc opts of
        Inl e \<Rightarrow> (Inl (DialSelect e), w)
      | Inr c \<Rightarrow>
          (case OpenBulkTransport ctx c w of
             (Inl e, w1) \<Rightarrow> (Inl (if e = TransportUnsupported then DialUnsupported else DialUsb e), w1)
           | (Inr t, w1) \<Rightarrow> (Inr t, w1)))"

definition usbTransportDialer ::
  "ctx_err option \<Rightarrow> discover_error + candidate list \<Rightarrow> (linuxBulkTransport \<Rightarrow> reader \<times> writer) \<Rightarrow> USBOptions \<Rightarrow>
     (linuxBulkTransport, usb_world) transportDialer" where
  "usbTransportDialer ctx disc carry opts =
     \<lparr>ConnectDescription = DescUsb, DialTransport = usb_DialTransport ctx disc opts, transport_io = carry,
      transport_close = (\<lambda>t w. snd (snd (transport_Close t w)))\<rparr>"

definition ConnectUSB ::
  "connect_ctx \<Rightarrow> ctx_err option \<Rightarrow> discover_error + candidate list \<Rightarrow> (linuxBulkTransport \<Rightarrow> reader \<times> writer) \<Rightarrow>
     USBOptions \<Rightarrow> usb_world \<Rightarrow> (connect_error + conn \<times> linuxBulkTransport) \<times> usb_world" where
  "ConnectUSB ctx dctx disc carry opts w =
     (case cc_entry ctx of
        Some e \<Rightarrow> (Inl (ConnectCtx e), w)
      | None \<Rightarrow>
          connectWithTransportOptions ctx (Some (usbTransportDialer dctx disc carry opts))
            (uo_AuthCredentials opts) w)"

section \<open>The contract of a dialer\<close>

locale transport_dialer =
  fixes dialer :: "('t, 'w) transportDialer"
    and idle :: "'w \<Rightarrow> bool"
  assumes dial_fails: "idle w \<Longrightarrow> DialTransport dialer w = (Inl e, w1) \<Longrightarrow> idle w1"
    and close_undoes: "idle w \<Longrightarrow> DialTransport dialer w = (Inr t, w1) \<Longrightarrow> idle (transport_close dialer t w1)"
begin

lemma connect_fails_idle:
  assumes "connectWithTransportOptions ctx (Some dialer) creds w = (Inl e, w')" "idle w"
  shows "idle w'"
  using assms dial_fails close_undoes
  by (auto simp: connectWithTransportOptions_def Let_def split: option.splits prod.splits sum.splits if_splits)

lemma connect_succeeds:
  assumes "connectWithTransportOptions ctx (Some dialer) creds w = (Inr (c, t), w')"
  shows "\<exists>r wr msg. DialTransport dialer w = (Inr t, w') \<and> transport_io dialer t = (r, wr) \<and>
    HandshakeWithOptions (cc_handshake ctx) (cc_failed ctx) creds r wr = (Inr msg, inp c, out c) \<and>
    c = NewConnection (inp c) (out c)"
  using assms
  by (auto simp: connectWithTransportOptions_def Let_def NewConnection_def
      split: option.splits prod.splits sum.splits if_splits)

end

definition tcp_fresh :: "nat list \<Rightarrow> tcp_world \<Rightarrow> bool" where
  "tcp_fresh opened w \<longleftrightarrow> tw_open w = opened \<and> (\<forall>i \<in> set opened. i < tw_next w)"

interpretation tcp_dialer: transport_dialer "tcpTransportDialer net addr" "tcp_fresh opened"
  for net addr opened
  by unfold_locales (auto simp: tcpTransportDialer_def tcp_fresh_def removeAll_id split: sum.splits)

interpretation usb_dialer: transport_dialer "usbTransportDialer ctx disc carry opts" "\<lambda>w. \<not> uw_open w"
  for ctx disc carry opts
proof
  fix w e w1
  assume "\<not> uw_open w" "DialTransport (usbTransportDialer ctx disc carry opts) w = (Inl e, w1)"
  then show "\<not> uw_open w1"
    by (auto simp: usbTransportDialer_def usb_DialTransport_def split: sum.splits prod.splits
        dest: OpenBulkTransport_failure_closes)
next
  fix w t w1
  assume "\<not> uw_open w" "DialTransport (usbTransportDialer ctx disc carry opts) w = (Inr t, w1)"
  then obtain c where "OpenBulkTransport ctx c w = (Inr t, w1)"
    by (auto simp: usbTransportDialer_def usb_DialTransport_def split: sum.splits prod.splits)
  from OpenBulkTransport_InrD [OF this] have "transport_inv (uw_trace w) (t, w1)" "\<not> t_closeOnce t" by auto
  moreover obtain r t' w' where cl: "transport_Close t w1 = (r, t', w')" by (cases "transport_Close t w1")
  ultimately have "transport_inv (uw_trace w) (t', w')" by (blast intro: transport_Close_inv)
  moreover have "t_closeOnce t'"
    using cl \<open>\<not> t_closeOnce t\<close> by (auto simp: transport_Close_def release_interface_def Let_def
        split: prod.splits option.splits if_splits sum.splits)
  ultimately show "\<not> uw_open (transport_close (usbTransportDialer ctx disc carry opts) t w1)"
    by (simp add: usbTransportDialer_def cl transport_inv_def)
qed

section \<open>Properties\<close>

text \<open>C25: a connection attempt that fails leaves no transport behind, neither a TCP socket nor an open
  USB device, whichever of dialing, opening, claiming or the handshake failed.\<close>

theorem failed_connect_leaves_no_transport:
  "ConnectTCPWithOptions ctx net addr creds tw = (Inl e, tw') \<Longrightarrow> tcp_fresh opened tw \<Longrightarrow>
   ConnectUSB ctx dctx disc carry opts uw = (Inl e', uw') \<Longrightarrow> \<not> uw_open uw \<Longrightarrow>
     tw_open tw' = opened \<and> \<not> uw_open uw'"
proof
  assume "ConnectTCPWithOptions ctx net addr creds tw = (Inl e, tw')" "tcp_fresh opened tw"
  then have "tcp_fresh opened tw'"
    by (auto simp: ConnectTCPWithOptions_def newTCPTransportDialer_def split: option.splits
        dest: tcp_dialer.connect_fails_idle)
  then show "tw_open tw' = opened" by (simp add: tcp_fresh_def)
next
  assume "ConnectUSB ctx dctx disc carry opts uw = (Inl e', uw')" "\<not> uw_open uw"
  then show "\<not> uw_open uw'"
    by (auto simp: ConnectUSB_def split: option.splits dest: usb_dialer.connect_fails_idle)
qed

definition sample_ctx :: connect_ctx where
  "sample_ctx = \<lparr>cc_entry = None, cc_handshake = None, cc_failed = None\<rparr>"

definition sample_uopts :: USBOptions where
  "sample_uopts = \<lparr>uo_DevicePath = [], uo_BusNumber = 1, uo_DeviceNumber = 2, uo_VendorID = 0,
     uo_ProductID = 0, uo_Serial = [], uo_AuthCredentials = []\<rparr>"

text \<open>A peer that closes the transport at once.\<close>

definition silent :: "reader \<times> writer" where
  "silent = (\<lparr>rd_data = [], rd_end = EOF\<rparr>, \<lparr>wr_out = [], wr_script = [WFail 0 (OsError 32)]\<rparr>)"

lemma writeFull_WFail: "p \<noteq> [] \<Longrightarrow> wr_script w = WFail k e # sc \<Longrightarrow> \<exists>w'. writeFull p w = (Some e, w')"
  by (subst writeFull.simps) (simp add: write_op_def)

lemma silent_handshake: "\<exists>e r w. HandshakeWithOptions None None [] (fst silent) (snd silent) = (Inl e, r, w)"
proof -
  have "message_header cnxn_request \<noteq> []" by (simp add: message_header_def PutUint32_def)
  from writeFull_WFail [OF this, of "snd silent"] show ?thesis
    by (auto simp: silent_def HandshakeWithOptions_def WriteMessage_def)
qed

theorem failed_connect_leaves_no_transport_witness:
  "tw_open (snd (ConnectTCPWithOptions sample_ctx (\<lambda>_. Inr silent) ''h:1'' [] \<lparr>tw_next = 1, tw_open = [0]\<rparr>)) = [0] \<and>
   \<not> uw_open (snd (ConnectUSB sample_ctx None (Inr [sample_candidate]) (\<lambda>_. silent) sample_uopts sample_world))"
proof -
  let ?t = "ConnectTCPWithOptions sample_ctx (\<lambda>_. Inr silent) ''h:1'' [] \<lparr>tw_next = 1, tw_open = [0]\<rparr>"
  let ?u = "ConnectUSB sample_ctx None (Inr [sample_candidate]) (\<lambda>_. silent) sample_uopts sample_world"
  have n: "normalizeTCPAddr ''h:1'' = Some ''h:1''" by code_simp
  obtain e r w where hs: "HandshakeWithOptions None None [] (fst silent) (snd silent) = (Inl e, r, w)"
    using silent_handshake by blast
  have t: "\<exists>e. ?t = (Inl e, snd ?t)"
    using hs by (auto simp: case_prod_beta ConnectTCPWithOptions_def newTCPTransportDialer_def tcpTransportDialer_def n
        connectWithTransportOptions_def sample_ctx_def Let_def)
  have "\<exists>t w. OpenBulkTransport None sample_candidate sample_world = (Inr t, w)"
    by (simp add: OpenBulkTransport_def sample_candidate_def sample_world_def validateBulkCandidate_def
        EndpointDirectionIn_def open_file_def syscall_op_def claimInterface_def usbfsIoctl_def)
  then have u: "\<exists>e. ?u = (Inl e, snd ?u)"
    using hs by (auto simp: case_prod_beta ConnectUSB_def usbTransportDialer_def usb_DialTransport_def selectUSBCandidate_def
        validateUSBOptions_def usbCandidateMatches_def sample_uopts_def connectWithTransportOptions_def
        sample_ctx_def sample_candidate_def Let_def)
  from t u failed_connect_leaves_no_transport [of sample_ctx "\<lambda>_. Inr silent" "''h:1''" "[]"
      "\<lparr>tw_next = 1, tw_open = [0]\<rparr>" _ "snd ?t" "[0]" None "Inr [sample_candidate]" "\<lambda>_. silent" sample_uopts sample_world _ "snd ?u"]
  show ?thesis by (auto simp: tcp_fresh_def sample_world_def)
qed

lemma filter_single: "filter P xs = [c] \<longleftrightarrow>
    (\<exists>pre post. xs = pre @ c # post \<and> P c \<and> (\<forall>d \<in> set pre \<union> set post. \<not> P d))"
proof
  assume "filter P xs = [c]"
  then obtain us vs where "xs = us @ c # vs" "\<forall>u \<in> set us. \<not> P u" "P c" "filter P vs = []"
    by (auto simp: filter_eq_Cons_iff)
  then show "\<exists>pre post. xs = pre @ c # post \<and> P c \<and> (\<forall>d \<in> set pre \<union> set post. \<not> P d)"
    by (auto simp: filter_empty_conv)
next
  assume "\<exists>pre post. xs = pre @ c # post \<and> P c \<and> (\<forall>d \<in> set pre \<union> set post. \<not> P d)"
  then show "filter P xs = [c]" by (auto simp: filter_empty_conv)
qed

text \<open>USB selection returns a device exactly when the options are consistent, discovery worked, and
  that device is the only one of the list that satisfies every selector that is set.\<close>

theorem selectUSBCandidate_unique:
  "selectUSBCandidate disc opts = Inr c \<longleftrightarrow>
     uo_Serial opts = [] \<and> (uo_BusNumber opts = 0 \<longleftrightarrow> uo_DeviceNumber opts = 0) \<and>
     (uo_VendorID opts = 0 \<longleftrightarrow> uo_ProductID opts = 0) \<and>
     (let sel = (\<lambda>d. (uo_DevicePath opts = [] \<or> DevicePath d = uo_DevicePath opts) \<and>
        (uo_BusNumber opts = 0 \<or> BusNumber d = uo_BusNumber opts \<and> DeviceNumber d = uo_DeviceNumber opts) \<and>
        (uo_VendorID opts = 0 \<or> VendorID d = uo_VendorID opts \<and> ProductID d = uo_ProductID opts))
      in \<exists>pre post. disc = Inr (pre @ c # post) \<and> sel c \<and> list_all (\<lambda>d. \<not> sel d) (pre @ post))"
proof -
  let ?sel = "\<lambda>d. (uo_DevicePath opts = [] \<or> DevicePath d = uo_DevicePath opts) \<and>
        (uo_BusNumber opts = 0 \<or> BusNumber d = uo_BusNumber opts \<and> DeviceNumber d = uo_DeviceNumber opts) \<and>
        (uo_VendorID opts = 0 \<or> VendorID d = uo_VendorID opts \<and> ProductID d = uo_ProductID opts)"
  have m: "usbCandidateMatches d opts \<longleftrightarrow> ?sel d" for d
    by (auto simp: usbCandidateMatches_def)
  have "selectUSBCandidate disc opts = Inr c \<longleftrightarrow>
      validateUSBOptions opts = None \<and> (\<exists>cs. disc = Inr cs \<and> filter ?sel cs = [c])"
    by (auto simp: selectUSBCandidate_def m split: option.splits sum.splits list.splits)
  also have "\<dots> \<longleftrightarrow> validateUSBOptions opts = None \<and>
      (\<exists>pre post. disc = Inr (pre @ c # post) \<and> ?sel c \<and> list_all (\<lambda>d. \<not> ?sel d) (pre @ post))"
    unfolding filter_single by (auto simp: list_all_iff)
  finally show ?thesis by (auto simp: validateUSBOptions_def Let_def)
qed

lemma Count_simps [simp]:
  "Count [] c = 0" "Count (x # s) c = (if x = c then Suc (Count s c) else Count s c)"
  "Count (s @ t) c = Count s c + Count t c"
  by (auto simp: Count_def)

lemma Count_zero: "Count s c = 0 \<longleftrightarrow> c \<notin> set s"
  by (auto simp: Count_def filter_empty_conv)

lemma Count_less: "n < Count s c \<Longrightarrow> c \<in> set s"
  by (metis Count_zero not_less_zero)

lemma SplitHostPort_no_colon:
  assumes "CHR '':'' \<notin> set s" shows "SplitHostPort s = Inl MissingPort"
proof -
  from assms have "LastIndexByte s CHR '':'' = None" by simp
  then show ?thesis by (simp only: SplitHostPort_def option.case)
qed

lemma SplitHostPort_many_colons:
  assumes "1 < Count s CHR '':''" "\<not> HasPrefix s ''[''"
  shows "SplitHostPort s = Inl TooManyColons"
proof -
  have "CHR '':'' \<in> set s" using assms(1) by (rule Count_less)
  then obtain a b where s: "s = a @ CHR '':'' # b" "CHR '':'' \<notin> set b" using split_list_last by metis
  with assms(1) have "CHR '':'' \<in> set a" using Count_less [of 0 a] by (simp add: Count_zero [THEN iffD2])
  moreover from this have "hd s \<noteq> CHR ''[''" using s assms(2) by (cases a) (auto simp: HasPrefix_def)
  moreover have "LastIndexByte s CHR '':'' = Some (length a)" using s by simp
  ultimately show ?thesis using s(1) by (simp add: SplitHostPort_def)
qed

text \<open>The address forms of the documentation. A plain host gets port 5555, \<open>host:\<close> too,
  \<open>host:port\<close> is kept, a bare IPv6 literal is bracketed with port 5555, and \<open>[v6]:port\<close> is kept.\<close>

theorem normalizeTCPAddr_forms:
  assumes "plain_text host" "host \<noteq> []" "plain_text port" "port \<noteq> []"
    and "CHR ''['' \<notin> set v6" "CHR '']'' \<notin> set v6" "1 < Count v6 CHR '':''"
    and trimmed: "TrimSpace host = host" "TrimSpace (host @ '':'') = host @ '':''"
      "TrimSpace (host @ '':'' @ port) = host @ '':'' @ port"
      "TrimSpace v6 = v6" "TrimSpace (''['' @ v6 @ '']:'' @ port) = ''['' @ v6 @ '']:'' @ port"
  shows "normalizeTCPAddr host = Some (host @ '':5555'') \<and>
    normalizeTCPAddr (host @ '':'') = Some (host @ '':5555'') \<and>
    normalizeTCPAddr (host @ '':'' @ port) = Some (host @ '':'' @ port) \<and>
    normalizeTCPAddr v6 = Some (''['' @ v6 @ '']:5555'') \<and>
    normalizeTCPAddr (''['' @ v6 @ '']:'' @ port) = Some (''['' @ v6 @ '']:'' @ port)"
proof (intro conjI)
  have colon: "CHR '':'' \<notin> set host" using assms(1) by (simp add: plain_text_def)
  have v6: "CHR '':'' \<in> set v6" "v6 \<noteq> []" "\<not> HasPrefix v6 ''[''"
    using assms(5) Count_less [OF assms(7)] by (auto simp: HasPrefix_iff)
  show "normalizeTCPAddr host = Some (host @ '':5555'')"
    using assms(2) colon trimmed(1) Count_zero [of host "CHR '':''"]
    by (simp add: normalizeTCPAddr_def SplitHostPort_no_colon JoinHostPort_def defaultTCPPort_def)
  show "normalizeTCPAddr (host @ '':'') = Some (host @ '':5555'')"
    using assms(1) colon trimmed(2) SplitHostPort_plain [of host "[]"]
    by (simp add: normalizeTCPAddr_def JoinHostPort_def defaultTCPPort_def plain_text_def)
  show "normalizeTCPAddr (host @ '':'' @ port) = Some (host @ '':'' @ port)"
    using assms(1,3,4) colon trimmed(3) SplitHostPort_plain [of host port]
    by (simp add: normalizeTCPAddr_def JoinHostPort_def)
  show "normalizeTCPAddr v6 = Some (''['' @ v6 @ '']:5555'')"
    using assms(7) v6 trimmed(4)
    by (simp add: normalizeTCPAddr_def SplitHostPort_many_colons JoinHostPort_def defaultTCPPort_def)
  show "normalizeTCPAddr (''['' @ v6 @ '']:'' @ port) = Some (''['' @ v6 @ '']:'' @ port)"
    using assms(3-6) v6 trimmed(5) SplitHostPort_bracketed [of v6 port]
    by (simp add: normalizeTCPAddr_def JoinHostPort_def)
qed

theorem normalizeTCPAddr_forms_witness:
  "normalizeTCPAddr ''phone'' = Some ''phone:5555'' \<and> normalizeTCPAddr ''phone:'' = Some ''phone:5555'' \<and>
   normalizeTCPAddr ''phone:1'' = Some ''phone:1'' \<and> normalizeTCPAddr ''fe80::1'' = Some ''[fe80::1]:5555'' \<and>
   normalizeTCPAddr ''[fe80::1]:1'' = Some ''[fe80::1]:1''"
proof -
  have "TrimSpace ''phone'' = ''phone''" "TrimSpace ''phone:'' = ''phone:''" "TrimSpace ''phone:1'' = ''phone:1''"
    "TrimSpace ''fe80::1'' = ''fe80::1''" "TrimSpace ''[fe80::1]:1'' = ''[fe80::1]:1''" by code_simp+
  with normalizeTCPAddr_forms [of "''phone''" "''1''" "''fe80::1''"] show ?thesis
    by (simp add: plain_text_def)
qed

text \<open>A bracketed IPv6 literal without a port is not given the default port properly: the brackets are
  doubled, and the result is not an address the dialer can split.\<close>

theorem normalizeTCPAddr_doubles_brackets:
  assumes "CHR '']'' \<notin> set v6" "1 < Count v6 CHR '':''"
    and "TrimSpace (''['' @ v6 @ '']'') = ''['' @ v6 @ '']''"
  shows "normalizeTCPAddr (''['' @ v6 @ '']'') = Some (''[['' @ v6 @ '']]:5555'') \<and>
    (\<exists>e. SplitHostPort (''[['' @ v6 @ '']]:5555'') = Inl e)"
proof
  have colon: "CHR '':'' \<in> set v6" using assms(2) by (rule Count_less)
  have i: "IndexByte (CHR ''['' # v6 @ CHR '']'' # r) CHR '']'' = Some (length v6 + 1)" for r
    using assms(1) IndexByte_append [of "CHR '']''" "CHR ''['' # v6" r] by simp
  obtain l where "LastIndexByte (''['' @ v6 @ '']'') CHR '':'' = Some l"
    using colon LastIndexByte_None [of "''['' @ v6 @ '']''" "CHR '':''"] by fastforce
  then have "SplitHostPort (''['' @ v6 @ '']'') = Inl MissingPort"
    using i [of "[]"] by (simp add: SplitHostPort_def)
  then show "normalizeTCPAddr (''['' @ v6 @ '']'') = Some (''[['' @ v6 @ '']]:5555'')"
    using assms(2,3) colon
    by (simp add: normalizeTCPAddr_def JoinHostPort_def defaultTCPPort_def HasPrefix_def)
  have j: "IndexByte (CHR ''['' # CHR ''['' # v6 @ CHR '']'' # r) CHR '']'' = Some (length v6 + 2)" for r
    using assms(1) IndexByte_append [of "CHR '']''" "CHR ''['' # CHR ''['' # v6" r] by simp
  have "LastIndexByte ((''[['' @ v6 @ '']]'') @ CHR '':'' # ''5555'') CHR '':'' = Some (length v6 + 4)"
    by (subst LastIndexByte_append) simp_all
  then show "\<exists>e. SplitHostPort (''[['' @ v6 @ '']]:5555'') = Inl e"
    using j by (simp add: SplitHostPort_def)
qed

theorem normalizeTCPAddr_doubles_brackets_witness:
  "normalizeTCPAddr ''[::1]'' = Some ''[[::1]]:5555'' \<and> (\<exists>e. SplitHostPort ''[[::1]]:5555'' = Inl e)"
proof -
  have "TrimSpace ''[::1]'' = ''[::1]''" by code_simp
  with normalizeTCPAddr_doubles_brackets [of "''::1''"] show ?thesis by simp
qed

end
