(* ===== verification/TcpScan.thy ===== *)
theory TcpScan
  imports ClientConnect "HOL-Library.Multiset"
begin

text \<open>
  Scanning for TCP targets, \<open>client/tcp_scan.go\<close>. One goroutine per port connects and sends its
  result on a channel; the order in which results arrive is an argument of the model, and the scan is
  shown not to depend on it. \<open>connect\<close> is the package variable \<open>scanTCPConnect\<close>.
\<close>

section \<open>Options and targets\<close>

record TCPTarget =
  Addr :: string
  Host :: string
  Port :: int
  AuthRequired :: bool

record TCPScanOptions =
  so_Host :: string
  so_StartPort :: int
  so_EndPort :: int
  so_IncludeEvenPorts :: bool
  so_Timeout :: int \<comment> \<open>nanoseconds\<close>

definition defaultTCPScanHost :: string where "defaultTCPScanHost = ''127.0.0.1''"
definition defaultTCPScanStartPort :: int where "defaultTCPScanStartPort = 5555"
definition defaultTCPScanEndPort :: int where "defaultTCPScanEndPort = 5585"
definition defaultTCPScanTimeout :: int where "defaultTCPScanTimeout = 300 * 1000000"

definition defaultTCPScanOptions :: "TCPScanOptions \<Rightarrow> TCPScanOptions" where
  "defaultTCPScanOptions opts =
     (let o1 = (if so_Host opts = [] then opts\<lparr>so_Host := defaultTCPScanHost\<rparr> else opts);
          o2 = (if so_StartPort o1 = 0 then o1\<lparr>so_StartPort := defaultTCPScanStartPort\<rparr> else o1);
          o3 = (if so_EndPort o2 = 0 then o2\<lparr>so_EndPort := defaultTCPScanEndPort\<rparr> else o2)
      in if so_Timeout o3 = 0 then o3\<lparr>so_Timeout := defaultTCPScanTimeout\<rparr> else o3)"

text \<open>The loop over the ports; \<open>port % 2\<close> in Go is the remainder, the ports are positive.\<close>

definition tcpScanPorts :: "TCPScanOptions \<Rightarrow> int list" where
  "tcpScanPorts opts =
     filter (\<lambda>port. \<not> (\<not> so_IncludeEvenPorts opts \<and> port mod 2 = 0)) [so_StartPort opts .. so_EndPort opts]"

definition scanTCPPort :: "(string \<Rightarrow> connect_error option) \<Rightarrow> TCPScanOptions \<Rightarrow> int \<Rightarrow> TCPTarget option" where
  "scanTCPPort connect opts port =
     (let addr = JoinHostPort (so_Host opts) (Itoa port) in
      case connect addr of
        None \<Rightarrow> Some \<lparr>Addr = addr, Host = so_Host opts, Port = port, AuthRequired = False\<rparr>
      | Some (ErrAuthRequired _) \<Rightarrow>
          Some \<lparr>Addr = addr, Host = so_Host opts, Port = port, AuthRequired = True\<rparr>
      | Some _ \<Rightarrow> None)"

section \<open>The scan\<close>

definition target_less :: "TCPTarget \<Rightarrow> TCPTarget \<Rightarrow> bool" where
  "target_less s t = (if Host s \<noteq> Host t then str_less (Host s) (Host t) else Port s < Port t)"

fun insert_target :: "TCPTarget \<Rightarrow> TCPTarget list \<Rightarrow> TCPTarget list" where
  "insert_target t [] = [t]"
| "insert_target t (x # xs) = (if target_less x t then x # insert_target t xs else t # x # xs)"

definition sort_targets :: "TCPTarget list \<Rightarrow> TCPTarget list" where
  "sort_targets ts = foldr insert_target ts []"

datatype scan_error =
    ScanCtx ctx_err
  | StartPortRange int
  | EndPortRange int
  | PortOrder int int
  | TimeoutNotPositive

text \<open>\<open>arrive\<close> is the order in which the results reach the channel.\<close>

definition ScanTCPTargets ::
  "ctx_err option \<Rightarrow> (string \<Rightarrow> connect_error option) \<Rightarrow> (TCPTarget list \<Rightarrow> TCPTarget list) \<Rightarrow> TCPScanOptions \<Rightarrow>
     scan_error + TCPTarget list" where
  "ScanTCPTargets ctx connect arrive opts0 =
     (case ctx of
        Some e \<Rightarrow> Inl (ScanCtx e)
      | None \<Rightarrow>
          (let opts = defaultTCPScanOptions opts0 in
           if so_StartPort opts < 1 \<or> 65535 < so_StartPort opts then Inl (StartPortRange (so_StartPort opts))
           else if so_EndPort opts < 1 \<or> 65535 < so_EndPort opts then Inl (EndPortRange (so_EndPort opts))
           else if so_EndPort opts < so_StartPort opts then Inl (PortOrder (so_StartPort opts) (so_EndPort opts))
           else if so_Timeout opts \<le> 0 then Inl TimeoutNotPositive
           else Inr (sort_targets (arrive (List.map_filter (scanTCPPort connect opts) (tcpScanPorts opts))))))"

section \<open>Sorting\<close>

lemma mset_insert_target: "mset (insert_target t ts) = add_mset t (mset ts)"
  by (induction ts) auto

lemma mset_sort_targets [simp]: "mset (sort_targets ts) = mset ts"
  by (induction ts) (auto simp: sort_targets_def mset_insert_target)

lemma set_insert_target [simp]: "set (insert_target t ts) = insert t (set ts)"
  by (metis mset_insert_target set_mset_add_mset_insert set_mset_mset)

lemma sorted_insert_target:
  assumes "sorted_wrt (\<lambda>s t. Port s < Port t) ts" "\<forall>x \<in> set ts. Host x = Host t \<and> Port x \<noteq> Port t"
  shows "sorted_wrt (\<lambda>s t. Port s < Port t) (insert_target t ts)"
  using assms by (induction ts) (auto simp: target_less_def)

lemma sorted_sort_targets:
  assumes "\<forall>x \<in> set ts. Host x = h" "distinct (map Port ts)"
  shows "sorted_wrt (\<lambda>s t. Port s < Port t) (sort_targets ts)"
  using assms
proof (induction ts)
  case Nil
  then show ?case by (simp add: sort_targets_def)
next
  case (Cons t ts)
  moreover have "set (sort_targets ts) = set ts" by (metis mset_sort_targets set_mset_mset)
  moreover have "\<forall>x \<in> set ts. Port x \<noteq> Port t" using Cons.prems(2) by (auto simp: image_iff)
  ultimately have "sorted_wrt (\<lambda>s t. Port s < Port t) (insert_target t (sort_targets ts))"
    by (intro sorted_insert_target) auto
  then show ?case by (simp add: sort_targets_def)
qed

lemma sorted_ports_unique:
  assumes "sorted_wrt (\<lambda>s t. Port s < Port t) xs" "sorted_wrt (\<lambda>s t. Port s < Port t) ys" "mset xs = mset ys"
  shows "xs = ys"
proof -
  have "inj_on Port (set xs)"
    using assms(1) strict_sorted_iff [of "map Port xs"] by (simp add: sorted_wrt_map distinct_map)
  moreover have "sorted_wrt (\<lambda>s t. Port s < Port t) zs \<Longrightarrow> sorted (map Port zs)" for zs
    unfolding sorted_map by (erule sorted_wrt_mono_rel [rotated]) simp
  with assms(1,2) have "sorted (map Port xs)" "sorted (map Port ys)" by blast+
  ultimately have "sort_key Port xs = xs" "sort_key Port xs = ys"
    using assms(3) by (auto intro: sort_key_inj_key_eq)
  then show ?thesis by metis
qed

lemma map_filter_Cons: "List.map_filter f (x # xs) =
    (case f x of None \<Rightarrow> List.map_filter f xs | Some y \<Rightarrow> y # List.map_filter f xs)"
  by (simp add: List.map_filter_def split: option.splits)

lemma set_map_filter: "set (List.map_filter f xs) = {y. \<exists>x \<in> set xs. f x = Some y}"
  by (induction xs) (auto simp: map_filter_Cons List.map_filter_def [of f "[]"] split: option.splits)

section \<open>Properties\<close>

lemma scan_target_fields: "scanTCPPort connect opts port = Some t \<Longrightarrow> Host t = so_Host opts \<and> Port t = port"
  by (auto simp: scanTCPPort_def Let_def split: option.splits connect_error.splits)

lemma found_ports:
  assumes "sorted_wrt (<) ports"
  shows "sorted_wrt (\<lambda>s t. Port s < Port t) (List.map_filter (scanTCPPort connect opts) ports)"
  using assms
proof (induction ports)
  case Nil
  then show ?case by (simp add: List.map_filter_def)
next
  case (Cons p ps)
  have "\<forall>t \<in> set (List.map_filter (scanTCPPort connect opts) ps). Port t \<in> set ps"
    by (auto simp: set_map_filter dest!: scan_target_fields)
  with Cons show ?case
    by (auto simp: map_filter_Cons split: option.splits dest!: scan_target_fields)
qed

lemma sorted_upto_int: "sorted_wrt (<) [i..j :: int]"
  by (induction i j rule: upto.induct) (subst upto.simps, auto)

text \<open>C39: with valid options a scan returns, in the order of the ports and without duplicates, exactly one
  target per scanned port whose connection succeeded or asked for authentication, whatever the order
  in which the goroutines deliver their results.\<close>

theorem scan_is_schedule_independent:
  assumes "\<And>ts. mset (arrive ts) = mset ts" "opts = defaultTCPScanOptions opts0"
    and "1 \<le> so_StartPort opts" "so_StartPort opts \<le> so_EndPort opts" "so_EndPort opts \<le> 65535" "0 < so_Timeout opts"
  shows "ScanTCPTargets None connect arrive opts0 =
      Inr (List.map_filter (scanTCPPort connect opts)
        (filter (\<lambda>p. so_IncludeEvenPorts opts \<or> odd p) [so_StartPort opts .. so_EndPort opts])) \<and>
    sorted_wrt (\<lambda>s t. Port s < Port t) (projr (ScanTCPTargets None connect arrive opts0))"
proof -
  let ?found = "List.map_filter (scanTCPPort connect opts) (tcpScanPorts opts)"
  have ports: "tcpScanPorts opts = filter (\<lambda>p. so_IncludeEvenPorts opts \<or> odd p) [so_StartPort opts .. so_EndPort opts]"
    by (auto simp: tcpScanPorts_def intro!: filter_cong)
  have "sorted_wrt (<) (tcpScanPorts opts)"
    unfolding tcpScanPorts_def by (rule sorted_wrt_filter [OF sorted_upto_int])
  then have s: "sorted_wrt (\<lambda>s t. Port s < Port t) ?found" by (rule found_ports)
  have "distinct (map Port ?found)" using s strict_sorted_iff [of "map Port ?found"] by (simp add: sorted_wrt_map)
  then have "distinct (map Port (arrive ?found))"
    using assms(1) [of ?found] by (metis mset_eq_imp_distinct_iff mset_map)
  moreover have "\<forall>x \<in> set (arrive ?found). Host x = so_Host opts"
  proof -
    have "set (arrive ?found) = set ?found" using assms(1) by (metis set_mset_mset)
    then show ?thesis by (auto simp: set_map_filter dest!: scan_target_fields)
  qed
  ultimately have "sort_targets (arrive ?found) = ?found"
    using s assms(1) by (intro sorted_ports_unique sorted_sort_targets) auto
  with assms(2-) have "ScanTCPTargets None connect arrive opts0 = Inr ?found"
    by (simp add: ScanTCPTargets_def Let_def)
  then show ?thesis using s by (simp add: ports)
qed

theorem scan_is_schedule_independent_witness:
  "ScanTCPTargets None (\<lambda>a. if a = ''127.0.0.1:3'' then None else Some AddrEmpty) rev
     \<lparr>so_Host = [], so_StartPort = 1, so_EndPort = 4, so_IncludeEvenPorts = False, so_Timeout = 0\<rparr> =
   Inr [\<lparr>Addr = ''127.0.0.1:3'', Host = ''127.0.0.1'', Port = 3, AuthRequired = False\<rparr>]"
proof -
  let ?c = "\<lambda>a. if a = ''127.0.0.1:3'' then None else Some AddrEmpty"
  let ?raw = "\<lparr>so_Host = [], so_StartPort = 1, so_EndPort = 4, so_IncludeEvenPorts = False, so_Timeout = 0\<rparr>"
  let ?o = "\<lparr>so_Host = ''127.0.0.1'', so_StartPort = 1, so_EndPort = 4, so_IncludeEvenPorts = False, so_Timeout = 300000000\<rparr>"
  have o: "defaultTCPScanOptions ?raw = ?o"
    by (simp add: defaultTCPScanOptions_def defaultTCPScanHost_def defaultTCPScanStartPort_def defaultTCPScanTimeout_def)
  have u: "[1..4 :: int] = [1, 2, 3, 4]" by (simp add: upto.simps)
  have "scanTCPPort ?c ?o 1 = None"
    "scanTCPPort ?c ?o 3 = Some \<lparr>Addr = ''127.0.0.1:3'', Host = ''127.0.0.1'', Port = 3, AuthRequired = False\<rparr>"
    by code_simp+
  with scan_is_schedule_independent [where arrive = rev and opts = ?o and ?opts0.0 = ?raw and connect = ?c] show ?thesis by (simp add: o u map_filter_Cons List.map_filter_def [of _ "[]"])
qed

end
