(* ===== verification/DeviceServices.thy ===== *)
theory DeviceServices
  imports GoIO GoStrings
begin

text \<open>
  The device services of the client that run over one service stream: \<open>OpenService\<close>,
  \<open>Shell\<close> and \<open>ShellStream\<close> (\<open>client/client.go\<close>), \<open>properties.go\<close>, \<open>reboot.go\<close>,
  \<open>logcat.go\<close> and \<open>screencap.go\<close>, and the local files they write.

  A service stream is seen as its two ends: the bytes the device sends with the error that ends
  them, and a sink for what the host sends; that a stream of the multiplexer is such a source
  is shown with the multiplexer. A device answers the services opened on it from a script,
  and records each service with the bytes it received. A nil client is \<open>None\<close>.
\<close>

section \<open>Services\<close>

datatype svc_error = SvcIO io_error | SvcCtx ctx_err

record service_stream =
  st_in :: reader
  st_out :: writer

record device =
  dv_answers :: "(svc_error + reader \<times> wstep list) list"
  dv_log :: "(string \<times> bytes) list"

type_synonym client = "device option"

fun OpenService :: "string \<Rightarrow> client \<Rightarrow> (svc_error + service_stream) \<times> client" where
  "OpenService service None = (Inl (SvcIO ErrDeviceClosed), None)"
| "OpenService service (Some d) =
     (case dv_answers d of
        [] \<Rightarrow> (Inl (SvcIO ErrDeviceClosed), Some (d\<lparr>dv_log := dv_log d @ [(service, [])]\<rparr>))
      | Inl e # as \<Rightarrow> (Inl e, Some (d\<lparr>dv_answers := as, dv_log := dv_log d @ [(service, [])]\<rparr>))
      | Inr (r, sc) # as \<Rightarrow>
          (Inr \<lparr>st_in = r, st_out = \<lparr>wr_out = [], wr_script = sc\<rparr>\<rparr>, Some (d\<lparr>dv_answers := as\<rparr>)))"

text \<open>Closing a stream; the record of the service is then complete. The streams of a
  \<open>protocol.Connection\<close> report no error on \<open>Close\<close>.\<close>

definition close_service :: "string \<Rightarrow> service_stream \<Rightarrow> client \<Rightarrow> client" where
  "close_service service st c =
     map_option (\<lambda>d. d\<lparr>dv_log := dv_log d @ [(service, wr_out (st_out st))]\<rparr>) c"

section \<open>io.Copy\<close>

text \<open>How the reads of a copy cut the data: \<open>cuts\<close> are the sizes of the first chunks.\<close>

fun chunks :: "nat list \<Rightarrow> bytes \<Rightarrow> bytes list" where
  "chunks [] b = (if b = [] then [] else [b])"
| "chunks (n # ns) b =
     (if b = [] then [] else if n = 0 then chunks ns b else take n b # chunks ns (drop n b))"

fun copy_chunks :: "bytes list \<Rightarrow> writer \<Rightarrow> io_error option \<times> writer" where
  "copy_chunks [] w = (None, w)"
| "copy_chunks (c # cs) w =
     (case write_op c w of
        ((n, Some e), w') \<Rightarrow> (Some e, w')
      | ((n, None), w') \<Rightarrow> if n \<noteq> length c then (Some ErrShortWrite, w') else copy_chunks cs w')"

definition io_copy :: "nat list \<Rightarrow> reader \<Rightarrow> writer \<Rightarrow> io_error option \<times> writer" where
  "io_copy cuts r w =
     (case copy_chunks (chunks cuts (rd_data r)) w of
        (Some e, w') \<Rightarrow> (Some e, w')
      | (None, w') \<Rightarrow> (if rd_end r = EOF then None else Some (rd_end r), w'))"

lemma concat_chunks [simp]: "concat (chunks cuts b) = b"
  by (induction cuts b rule: chunks.induct) auto

lemma copy_chunks_all: "wr_script w = [] \<Longrightarrow> copy_chunks cs w = (None, w\<lparr>wr_out := wr_out w @ concat cs\<rparr>)"
  by (induction cs arbitrary: w) (auto simp: write_op_def)

lemma io_copy_all:
  "wr_script w = [] \<Longrightarrow> io_copy cuts r w =
     (if rd_end r = EOF then None else Some (rd_end r), w\<lparr>wr_out := wr_out w @ rd_data r\<rparr>)"
  by (simp add: io_copy_def copy_chunks_all)

section \<open>Shell\<close>

datatype shell_error =
    StdoutNil
  | ShellOpen svc_error
  | ShellCanceled string ctx_err
  | ShellFailed string io_error

text \<open>\<open>ctx\<close> is \<open>ctx.Err()\<close> when the copy has ended.\<close>

definition ShellStream ::
  "ctx_err option \<Rightarrow> nat list \<Rightarrow> string \<Rightarrow> writer option \<Rightarrow> client \<Rightarrow> (shell_error option \<times> writer option) \<times> client" where
  "ShellStream ctx cuts cmd stdout c =
     (case stdout of
        None \<Rightarrow> ((Some StdoutNil, None), c)
      | Some w \<Rightarrow>
          (case OpenService (''shell:'' @ cmd) c of
             (Inl e, c1) \<Rightarrow> ((Some (ShellOpen e), Some w), c1)
           | (Inr st, c1) \<Rightarrow>
               (case io_copy cuts (st_in st) w of (err, w') \<Rightarrow>
                  ((case ctx of
                      Some ce \<Rightarrow> Some (ShellCanceled cmd ce)
                    | None \<Rightarrow> map_option (ShellFailed cmd) err, Some w'),
                   close_service (''shell:'' @ cmd) st c1))))"

definition empty_buffer :: writer where "empty_buffer = \<lparr>wr_out = [], wr_script = []\<rparr>"

definition Shell :: "ctx_err option \<Rightarrow> nat list \<Rightarrow> string \<Rightarrow> client \<Rightarrow> (shell_error + bytes) \<times> client" where
  "Shell ctx cuts cmd c =
     (case ShellStream ctx cuts cmd (Some empty_buffer) c of
        ((Some e, _), c1) \<Rightarrow> (Inl e, c1)
      | ((None, None), c1) \<Rightarrow> (Inr [], c1)
      | ((None, Some out), c1) \<Rightarrow> (Inr (wr_out out), c1))"

section \<open>logcat and reboot\<close>

definition logcatCommand :: "bool \<Rightarrow> string" where
  "logcatCommand dump = Join ([''logcat''] @ (if dump then [''-d''] else [])) '' ''"

datatype logcat_error = LogcatStdoutNil | LogcatShell shell_error

definition Logcat ::
  "ctx_err option \<Rightarrow> nat list \<Rightarrow> writer option \<Rightarrow> bool \<Rightarrow> client \<Rightarrow> (logcat_error option \<times> writer option) \<times> client" where
  "Logcat ctx cuts stdout dump c =
     (if stdout = None then ((Some LogcatStdoutNil, None), c)
      else case ShellStream ctx cuts (logcatCommand dump) stdout c of
          ((err, out), c1) \<Rightarrow> ((map_option LogcatShell err, out), c1))"

definition RebootNormal :: string where "RebootNormal = ''''"
definition RebootBootloader :: string where "RebootBootloader = ''bootloader''"
definition RebootRecovery :: string where "RebootRecovery = ''recovery''"

datatype reboot_error = RebootUnsupported string | RebootOpen string svc_error

definition rebootService :: "string \<Rightarrow> reboot_error + string" where
  "rebootService mode =
     (if mode \<in> {RebootNormal, RebootBootloader, RebootRecovery} then Inr (''reboot:'' @ mode)
      else Inl (RebootUnsupported mode))"

definition rebootModeLabel :: "string \<Rightarrow> string" where
  "rebootModeLabel mode = (if mode = RebootNormal then ''normal'' else mode)"

definition Reboot :: "string \<Rightarrow> client \<Rightarrow> reboot_error option \<times> client" where
  "Reboot mode c =
     (case rebootService mode of
        Inl e \<Rightarrow> (Some e, c)
      | Inr service \<Rightarrow>
          (case OpenService service c of
             (Inl e, c1) \<Rightarrow> (Some (RebootOpen (rebootModeLabel mode) e), c1)
           | (Inr st, c1) \<Rightarrow> (None, close_service service st c1)))"

section \<open>Quoting for the device shell\<close>

definition shellQuote :: "string \<Rightarrow> string" where
  "shellQuote s =
     [CHR 0x27] @ concat (map (\<lambda>c. if c = CHR 0x27 then [CHR 0x27, CHR 0x5C, CHR 0x27, CHR 0x27] else [c]) s)
     @ [CHR 0x27]"

section \<open>System properties\<close>

datatype getprop_error = MultiLine | MalformedLine nat string | LineTooLong | PropShell shell_error

definition newline :: char where "newline = CHR 0x0A"
definition cr :: char where "cr = CHR 0x0D"

definition parseGetPropValue :: "string \<Rightarrow> getprop_error + string" where
  "parseGetPropValue output =
     (let output = TrimSuffix (TrimSuffix output [newline]) [cr] in
      if ContainsAny output [cr, newline] then Inl MultiLine else Inr output)"

definition parseGetPropLine :: "string \<Rightarrow> (string \<times> string) option" where
  "parseGetPropLine line =
     (if \<not> HasPrefix line ''['' \<or> \<not> HasSuffix line '']'' then None
      else case Cut (TrimSuffix (TrimPrefix line ''['') '']'') '']: ['' of
          None \<Rightarrow> None
        | Some (name, value) \<Rightarrow> if name = [] then None else Some (name, value))"

text \<open>\<open>bufio.Scanner\<close> with \<open>ScanLines\<close>: the lines without their newline, the last one
  only when it is not empty. A line of \<open>MaxScanTokenSize\<close> bytes does not fit the buffer.\<close>

fun scan_lines :: "string \<Rightarrow> string \<Rightarrow> string list" where
  "scan_lines acc [] = (if acc = [] then [] else [acc])"
| "scan_lines acc (c # s) =
     (if c = newline then acc # scan_lines [] s else scan_lines (acc @ [c]) s)"

definition MaxScanTokenSize :: nat where "MaxScanTokenSize = 65536"

fun getprop_lines :: "nat \<Rightarrow> string list \<Rightarrow> (string \<rightharpoonup> string) \<Rightarrow> getprop_error + (string \<rightharpoonup> string)" where
  "getprop_lines n [] props = Inr props"
| "getprop_lines n (raw # rest) props =
     (if MaxScanTokenSize \<le> length raw then Inl LineTooLong
      else
        let line = TrimSuffix (TrimSuffix raw [cr]) [cr] in
        if line = [] then getprop_lines (n + 1) rest props
        else case parseGetPropLine line of
            None \<Rightarrow> Inl (MalformedLine (n + 1) line)
          | Some (name, value) \<Rightarrow> getprop_lines (n + 1) rest (props(name \<mapsto> value)))"

definition parseGetPropOutput :: "string \<Rightarrow> getprop_error + (string \<rightharpoonup> string)" where
  "parseGetPropOutput output = getprop_lines 0 (scan_lines [] output) Map.empty"

definition GetProp ::
  "ctx_err option \<Rightarrow> nat list \<Rightarrow> string \<Rightarrow> client \<Rightarrow> (getprop_error + string) \<times> client" where
  "GetProp ctx cuts name c =
     (case Shell ctx cuts (''getprop '' @ shellQuote name) c of
        (Inl e, c1) \<Rightarrow> (Inl (PropShell e), c1)
      | (Inr out, c1) \<Rightarrow> (parseGetPropValue (string_of_bytes out), c1))"

definition Properties ::
  "ctx_err option \<Rightarrow> nat list \<Rightarrow> client \<Rightarrow> (getprop_error + (string \<rightharpoonup> string)) \<times> client" where
  "Properties ctx cuts c =
     (case Shell ctx cuts ''getprop'' c of
        (Inl e, c1) \<Rightarrow> (Inl (PropShell e), c1)
      | (Inr out, c1) \<Rightarrow> (parseGetPropOutput (string_of_bytes out), c1))"

section \<open>Local files\<close>

text \<open>The files of the host. \<open>lf_deny\<close> are paths the system refuses to open, \<open>lf_writes\<close> scripts the
  writes (\<open>Some (k, e)\<close> stores \<open>k\<close> bytes and fails), \<open>lf_closeErr\<close> is what closing a file reports.\<close>

record localfs =
  lf_files :: "string \<rightharpoonup> bytes"
  lf_deny :: "string \<rightharpoonup> io_error"
  lf_writes :: "(nat \<times> io_error) option list"
  lf_closeErr :: "io_error option"

datatype file_error = ErrExist | FileErr io_error

definition open_excl :: "string \<Rightarrow> localfs \<Rightarrow> file_error option \<times> localfs" where
  "open_excl path fs =
     (case lf_deny fs path of
        Some e \<Rightarrow> (Some (FileErr e), fs)
      | None \<Rightarrow>
          if lf_files fs path \<noteq> None then (Some ErrExist, fs)
          else (None, fs\<lparr>lf_files := (lf_files fs)(path \<mapsto> [])\<rparr>))"

definition open_trunc :: "string \<Rightarrow> localfs \<Rightarrow> file_error option \<times> localfs" where
  "open_trunc path fs =
     (case lf_deny fs path of
        Some e \<Rightarrow> (Some (FileErr e), fs)
      | None \<Rightarrow> (None, fs\<lparr>lf_files := (lf_files fs)(path \<mapsto> [])\<rparr>))"

definition file_append :: "string \<Rightarrow> bytes \<Rightarrow> localfs \<Rightarrow> localfs" where
  "file_append path p fs =
     fs\<lparr>lf_files := (lf_files fs)(path \<mapsto> (case lf_files fs path of None \<Rightarrow> [] | Some b \<Rightarrow> b) @ p)\<rparr>"

definition file_write :: "string \<Rightarrow> bytes \<Rightarrow> localfs \<Rightarrow> io_error option \<times> localfs" where
  "file_write path p fs =
     (case lf_writes fs of
        [] \<Rightarrow> (None, file_append path p fs)
      | None # ws \<Rightarrow> (None, file_append path p (fs\<lparr>lf_writes := ws\<rparr>))
      | Some (k, e) # ws \<Rightarrow> (Some e, file_append path (take k p) (fs\<lparr>lf_writes := ws\<rparr>)))"

definition file_remove :: "string \<Rightarrow> localfs \<Rightarrow> localfs" where
  "file_remove path fs = fs\<lparr>lf_files := (lf_files fs)(path := None)\<rparr>"

section \<open>Screen capture\<close>

definition pngSignature :: bytes where
  "pngSignature = [0x89, 0x50, 0x4E, 0x47, 0x0D, 0x0A, 0x1A, 0x0A]"

definition mangledSignature :: bytes where
  "mangledSignature = [0x89, 0x50, 0x4E, 0x47, 0x0D, 0x0D, 0x0A, 0x1A, 0x0A]"

text \<open>The loop that drops every CR followed by an LF.\<close>

fun drop_cr :: "bytes \<Rightarrow> bytes" where
  "drop_cr [] = []"
| "drop_cr (b # bs) = (if b = 0x0D \<and> bs \<noteq> [] \<and> hd bs = 0x0A then drop_cr bs else b # drop_cr bs)"

definition normalizeScreencapPNG :: "bytes \<Rightarrow> bytes" where
  "normalizeScreencapPNG b =
     (if prefix pngSignature b then b
      else if \<not> prefix mangledSignature b then b
      else drop_cr b)"

definition Screencap :: "ctx_err option \<Rightarrow> nat list \<Rightarrow> client \<Rightarrow> (shell_error + bytes) \<times> client" where
  "Screencap ctx cuts c =
     (case Shell ctx cuts ''screencap -p'' c of
        (Inl e, c1) \<Rightarrow> (Inl e, c1)
      | (Inr out, c1) \<Rightarrow> (Inr (normalizeScreencapPNG out), c1))"

datatype screencap_error =
    CapShell shell_error
  | CapDestinationExists string
  | CapOpen string io_error
  | CapWrite string io_error
  | CapClose string io_error

definition ScreencapFile ::
  "ctx_err option \<Rightarrow> nat list \<Rightarrow> string \<Rightarrow> localfs \<Rightarrow> client \<Rightarrow> screencap_error option \<times> localfs \<times> client" where
  "ScreencapFile ctx cuts path fs c =
     (case Screencap ctx cuts c of
        (Inl e, c1) \<Rightarrow> (Some (CapShell e), fs, c1)
      | (Inr png, c1) \<Rightarrow>
          (case open_excl path fs of
             (Some ErrExist, fs1) \<Rightarrow> (Some (CapDestinationExists path), fs1, c1)
           | (Some (FileErr e), fs1) \<Rightarrow> (Some (CapOpen path e), fs1, c1)
           | (None, fs1) \<Rightarrow>
               (case file_write path png fs1 of
                  (Some e, fs2) \<Rightarrow> (Some (CapWrite path e), file_remove path fs2, c1)
                | (None, fs2) \<Rightarrow>
                    (case lf_closeErr fs2 of
                       Some e \<Rightarrow> (Some (CapClose path e), file_remove path fs2, c1)
                     | None \<Rightarrow> (None, fs2, c1)))))"

section \<open>Shell output\<close>

lemma Shell_spec:
  assumes "dv_answers d = Inr (r, sc) # as"
  shows "Shell ctx cuts cmd (Some d) =
    ((case ctx of
        Some e \<Rightarrow> Inl (ShellCanceled cmd e)
      | None \<Rightarrow> if rd_end r = EOF then Inr (rd_data r) else Inl (ShellFailed cmd (rd_end r))),
     Some (d\<lparr>dv_answers := as, dv_log := dv_log d @ [(''shell:'' @ cmd, [])]\<rparr>))"
  using assms
  by (auto simp: Shell_def ShellStream_def io_copy_all empty_buffer_def close_service_def split: option.splits)

text \<open>\<open>Shell\<close> returns exactly the bytes the device sent before it closed the stream, however
  the reads cut them; a stream that ends with an error and a cancelled context are reported as
  such; in each case the one service opened is \<open>shell:\<close> with the command, and nothing is sent on it.\<close>

theorem shell_returns_device_output:
  assumes "dv_answers d = Inr (r, sc) # as"
  shows "Shell None cuts cmd (Some d) =
      (if rd_end r = EOF then Inr (rd_data r) else Inl (ShellFailed cmd (rd_end r)),
       Some (d\<lparr>dv_answers := as, dv_log := dv_log d @ [(''shell:'' @ cmd, [])]\<rparr>)) \<and>
    fst (Shell (Some ce) cuts cmd (Some d)) = Inl (ShellCanceled cmd ce)"
  by (simp add: Shell_spec [OF assms])

theorem shell_returns_device_output_witness:
  "Shell None [1, 0, 2] ''id'' (Some \<lparr>dv_answers = [Inr (\<lparr>rd_data = [7, 8, 9], rd_end = EOF\<rparr>, [])], dv_log = []\<rparr>) =
     (Inr [7, 8, 9], Some \<lparr>dv_answers = [], dv_log = [(''shell:id'', [])]\<rparr>)"
  using shell_returns_device_output [of "\<lparr>dv_answers = [Inr (\<lparr>rd_data = [7, 8, 9], rd_end = EOF\<rparr>, [])], dv_log = []\<rparr>"
      "\<lparr>rd_data = [7, 8, 9], rd_end = EOF\<rparr>" "[]" "[]" "[1, 0, 2]" "''id''"] by simp

section \<open>The device shell's reading of a command\<close>

text \<open>
  How a POSIX shell splits a simple command into words, with single quotes and backslashes;
  \<open>None\<close> is a command that is not a plain list of words. \<open>cur\<close> is the word being read, \<open>q\<close> says
  whether a single quote is open.
\<close>

definition sh_meta :: string where
  "sh_meta = ''$\"*?[];&|<>()#~{}!'' @ [CHR 0x60, newline]"

definition cur_word :: "string option \<Rightarrow> string" where
  "cur_word cur = (case cur of None \<Rightarrow> [] | Some w \<Rightarrow> w)"

fun sh_split :: "string option \<Rightarrow> bool \<Rightarrow> string \<Rightarrow> string list option" where
  "sh_split cur True [] = None"
| "sh_split cur False [] = Some (case cur of None \<Rightarrow> [] | Some w \<Rightarrow> [w])"
| "sh_split cur True (c # s) =
     (if c = CHR 0x27 then sh_split cur False s else sh_split (Some (cur_word cur @ [c])) True s)"
| "sh_split cur False (c # s) =
     (if c = CHR 0x27 then sh_split (Some (cur_word cur)) True s
      else if c = CHR 0x5C then
        (case s of [] \<Rightarrow> None | d # s' \<Rightarrow> sh_split (Some (cur_word cur @ [d])) False s')
      else if c \<in> {CHR '' '', CHR 0x09} then
        (case cur of
           None \<Rightarrow> sh_split None False s
         | Some w \<Rightarrow> map_option (Cons w) (sh_split None False s))
      else if c \<in> set sh_meta then None
      else sh_split (Some (cur_word cur @ [c])) False s)"

lemma cur_word_simps [simp]: "cur_word None = []" "cur_word (Some w) = w"
  by (simp_all add: cur_word_def)

lemma sh_split_quoted:
  "sh_split (Some w) True (concat (map (\<lambda>c. if c = CHR 0x27 then [CHR 0x27, CHR 0x5C, CHR 0x27, CHR 0x27] else [c]) s)
     @ CHR 0x27 # rest) = sh_split (Some (w @ s)) False rest"
  by (induction s arbitrary: w) auto

lemma sh_split_shellQuote:
  "sh_split cur False (shellQuote s @ rest) = sh_split (Some (cur_word cur @ s)) False rest"
  by (simp add: shellQuote_def sh_split_quoted)

section \<open>Property listings\<close>

definition print_prop :: "string \<times> string \<Rightarrow> string" where
  "print_prop p = ''['' @ fst p @ '']: ['' @ snd p @ '']'' @ [newline]"

definition printable_prop :: "string \<times> string \<Rightarrow> bool" where
  "printable_prop p \<longleftrightarrow> fst p \<noteq> [] \<and> CHR '']'' \<notin> set (fst p) \<and> newline \<notin> set (fst p) \<and>
     newline \<notin> set (snd p) \<and> length (fst p) + length (snd p) + 6 < MaxScanTokenSize"

lemma scan_lines_line: "newline \<notin> set l \<Longrightarrow> scan_lines acc (l @ newline # s) = (acc @ l) # scan_lines [] s"
  by (induction l arbitrary: acc) auto

lemma parseGetPropLine_print:
  assumes "fst p \<noteq> []" "CHR '']'' \<notin> set (fst p)"
  shows "parseGetPropLine (''['' @ fst p @ '']: ['' @ snd p @ '']'') = Some p"
proof -
  have "HasSuffix (''['' @ fst p @ '']: ['' @ snd p @ '']'') '']''"
    unfolding HasSuffix_iff by (rule exI [of _ "''['' @ fst p @ '']: ['' @ snd p"]) simp
  moreover have "TrimSuffix (TrimPrefix (''['' @ fst p @ '']: ['' @ snd p @ '']'') ''['') '']'' = fst p @ '']: ['' @ snd p"
    using TrimSuffix_append [of "fst p @ '']: ['' @ snd p" "'']''"]
      TrimPrefix_append [of "''[''" "fst p @ '']: ['' @ snd p @ '']''"] by simp
  moreover have "Cut (fst p @ '']: ['' @ snd p) '']: ['' = Some (fst p, snd p)"
    using assms(2) by (intro Cut_append) auto
  ultimately show ?thesis using assms(1) unfolding parseGetPropLine_def by (auto simp: HasPrefix_def split: prod.splits)
qed

lemma getprop_lines_print:
  assumes "list_all printable_prop ps"
  shows "getprop_lines n (scan_lines [] (concat (map print_prop ps))) props = Inr (props ++ map_of (rev ps))"
  using assms
proof (induction ps arbitrary: n props)
  case Nil
  then show ?case by simp
next
  case (Cons p ps)
  let ?l = "''['' @ fst p @ '']: ['' @ snd p @ '']''"
  from Cons.prems have p: "printable_prop p" by simp
  then have "scan_lines [] (concat (map print_prop (p # ps))) = ?l # scan_lines [] (concat (map print_prop ps))"
    using scan_lines_line [of ?l "[]" "concat (map print_prop ps)"]
    by (auto simp: print_prop_def printable_prop_def newline_def)
  moreover have "\<not> HasSuffix ?l [cr]" by (auto simp: HasSuffix_def HasPrefix_def cr_def)
  moreover have "parseGetPropLine ?l = Some (fst p, snd p)"
    using parseGetPropLine_print [of p] p by (simp add: printable_prop_def)
  ultimately show ?case
    using p Cons by (cases p) (auto simp: printable_prop_def Let_def map_add_def fun_eq_iff split: option.splits)
qed

text \<open>C40: listing properties the way \<open>getprop\<close> prints them and parsing the listing gives the
  properties back, a later line of the same name replacing an earlier one, for all names without
  a closing bracket and values without a newline, values with brackets included.\<close>

theorem getprop_listing_roundtrip:
  assumes "list_all printable_prop ps"
  shows "parseGetPropOutput (concat (map print_prop ps)) = Inr (map_of (rev ps))"
  using getprop_lines_print [OF assms, of 0 Map.empty] by (simp add: parseGetPropOutput_def)

theorem getprop_listing_roundtrip_witness:
  "parseGetPropOutput (concat (map print_prop [(''a'', ''1''), (''b'', ''[x]: [y]''), (''a'', ''2'')])) =
     Inr [''a'' \<mapsto> ''2'', ''b'' \<mapsto> ''[x]: [y]'']"
  using getprop_listing_roundtrip [of "[(''a'', ''1''), (''b'', ''[x]: [y]''), (''a'', ''2'')]"]
  by (auto simp: printable_prop_def newline_def MaxScanTokenSize_def)

section \<open>Screen captures\<close>

text \<open>What a pseudo-terminal with \<open>ONLCR\<close> makes of the output.\<close>

definition lf_to_crlf :: "bytes \<Rightarrow> bytes" where
  "lf_to_crlf b = concat (map (\<lambda>x. if x = 0x0A then [0x0D, 0x0A] else [x]) b)"

lemma lf_to_crlf_simps [simp]:
  "lf_to_crlf [] = []"
  "lf_to_crlf (x # b) = (if x = 0x0A then [0x0D, 0x0A] else [x]) @ lf_to_crlf b"
  "lf_to_crlf (a @ b) = lf_to_crlf a @ lf_to_crlf b"
  by (simp_all add: lf_to_crlf_def)

lemma hd_lf_to_crlf: "lf_to_crlf b \<noteq> [] \<Longrightarrow> hd (lf_to_crlf b) \<noteq> 0x0A"
  by (cases b) (auto simp: hd_append)

lemma drop_cr_lf_to_crlf: "drop_cr (lf_to_crlf b) = b"
  by (induction b) (auto dest: hd_lf_to_crlf)

text \<open>Dropping the carriage returns does undo the terminal's expansion of a capture, but the
  signature the code looks for has the last line feed of the PNG signature unexpanded, so a capture
  that went through the terminal is never recognised and is returned as it came.\<close>

theorem screencap_never_recognises_expanded_png:
  assumes "prefix pngSignature png"
  shows "normalizeScreencapPNG (lf_to_crlf png) = lf_to_crlf png \<and> lf_to_crlf png \<noteq> png \<and>
    drop_cr (lf_to_crlf png) = png"
proof -
  from assms obtain t where png: "png = pngSignature @ t" by (auto simp: prefix_def)
  then have "\<not> prefix mangledSignature (lf_to_crlf png)" "\<not> prefix pngSignature (lf_to_crlf png)"
    by (simp_all add: pngSignature_def mangledSignature_def)
  moreover have "lf_to_crlf png \<noteq> png" using png by (simp add: pngSignature_def)
  ultimately show ?thesis by (simp add: normalizeScreencapPNG_def drop_cr_lf_to_crlf)
qed

theorem screencap_never_recognises_expanded_png_witness:
  "normalizeScreencapPNG (lf_to_crlf (pngSignature @ [1, 2])) =
     [0x89, 0x50, 0x4E, 0x47, 0x0D, 0x0D, 0x0A, 0x1A, 0x0D, 0x0A, 1, 2]"
  using screencap_never_recognises_expanded_png [of "pngSignature @ [1, 2]"] by (simp add: pngSignature_def)

lemma file_append_files: "lf_files (file_append path p fs) =
    (lf_files fs)(path \<mapsto> (case lf_files fs path of None \<Rightarrow> [] | Some b \<Rightarrow> b) @ p)"
  by (simp add: file_append_def)

text \<open>\<open>ScreencapFile\<close> either succeeds and adds exactly one new file with the capture, or
  fails and leaves the files as they were; an existing file is never changed.\<close>

theorem ScreencapFile_all_or_nothing:
  "case ScreencapFile ctx cuts path fs c of
     (None, fs', c') \<Rightarrow> \<exists>png. fst (Screencap ctx cuts c) = Inr png \<and> lf_files fs path = None \<and>
        lf_files fs' = (lf_files fs)(path \<mapsto> png)
   | (Some e, fs', c') \<Rightarrow> lf_files fs' = lf_files fs"
  by (auto simp: ScreencapFile_def open_excl_def file_write_def file_remove_def file_append_files fun_upd_idem
      split: prod.splits sum.splits option.splits file_error.splits list.splits if_splits)

end
