(* ===== verification/Sync.thy ===== *)
theory Sync
  imports DeviceServices
begin

text \<open>
  File transfer, \<open>client/sync.go\<close>: the sync packet codec, \<open>PullFile\<close> and \<open>PushFile\<close> over one
  \<open>sync:\<close> stream, with the local files of \<open>DeviceServices\<close>. The wire format is
  given by \<open>sync_packet\<close>; a reference reader of a push (\<open>recv_push\<close>) says what a device stores.
\<close>

section \<open>Packets\<close>

definition syncIDRECV :: string where "syncIDRECV = ''RECV''"
definition syncIDSEND :: string where "syncIDSEND = ''SEND''"
definition syncIDDATA :: string where "syncIDDATA = ''DATA''"
definition syncIDDONE :: string where "syncIDDONE = ''DONE''"
definition syncIDOKAY :: string where "syncIDOKAY = ''OKAY''"
definition syncIDFAIL :: string where "syncIDFAIL = ''FAIL''"
definition syncDataMax :: nat where "syncDataMax = 4096"

lemmas sync_ids = syncIDRECV_def syncIDSEND_def syncIDDATA_def syncIDDONE_def syncIDOKAY_def syncIDFAIL_def

text \<open>\<open>copy(header[0:4], id)\<close> into a zeroed header.\<close>

definition writeSyncHeaderTo :: "string \<Rightarrow> u32 \<Rightarrow> bytes" where
  "writeSyncHeaderTo ident sz =
     take 4 (bytes_of_string ident @ replicate 4 0) @ PutUint32 sz"

definition writeSyncRequest :: "string \<Rightarrow> bytes \<Rightarrow> writer \<Rightarrow> io_error option \<times> writer" where
  "writeSyncRequest ident payload w =
     writeFull (writeSyncHeaderTo ident (word_of_nat (length payload)) @ payload) w"

definition writeSyncHeader :: "string \<Rightarrow> u32 \<Rightarrow> writer \<Rightarrow> io_error option \<times> writer" where
  "writeSyncHeader ident sz w = writeFull (writeSyncHeaderTo ident sz) w"

definition readSyncHeader :: "reader \<Rightarrow> (io_error + string \<times> u32) \<times> reader" where
  "readSyncHeader r =
     (case read_full 8 r of
        (Inl e, r') \<Rightarrow> (Inl e, r')
      | (Inr h, r') \<Rightarrow> (Inr (string_of_bytes (slice h 0 4), Uint32 (slice h 4 8)), r'))"

section \<open>Errors\<close>

datatype sync_error =
    SyncCtx ctx_err
  | RemotePathEmpty
  | LocalPathEmpty
  | DestinationExists string
  | StatFailed string io_error
  | SyncOpen svc_error
  | SendRequest string io_error
  | CreateDestination string io_error
  | SyncCanceled ctx_err
  | ReadResponseFailed io_error
  | ReadData io_error
  | WriteData io_error
  | CloseDestination string io_error
  | ReadFail io_error
  | RemoteError bytes
  | UnexpectedResponse string
  | OpenSource string io_error
  | StatSource string io_error
  | SourceIsDirectory string
  | ReadSource string io_error

section \<open>Pull\<close>

text \<open>\<open>createOut\<close>; \<open>created\<close> is the flag of the same name.\<close>

definition createOut :: "bool \<Rightarrow> string \<Rightarrow> bool \<Rightarrow> localfs \<Rightarrow> sync_error option \<times> localfs" where
  "createOut overwrite localPath created fs =
     (if created then (None, fs)
      else case (if overwrite then open_trunc localPath fs else open_excl localPath fs) of
          (Some ErrExist, fs1) \<Rightarrow> (Some (DestinationExists localPath), fs1)
        | (Some (FileErr e), fs1) \<Rightarrow> (Some (CreateDestination localPath e), fs1)
        | (None, fs1) \<Rightarrow> (None, fs1))"

text \<open>\<open>io.CopyN(out, stream, size)\<close>: the bytes that arrived are written even when the stream ends early;
  a failed write is reported before the stream's end.\<close>

definition copy_to_file :: "string \<Rightarrow> nat \<Rightarrow> reader \<Rightarrow> localfs \<Rightarrow> sync_error option \<times> reader \<times> localfs" where
  "copy_to_file path n r fs =
     (case copy_n n r of
        ((err, got), r1) \<Rightarrow>
          (case (if got = [] then (None, fs) else file_write path got fs) of
             (Some e, fs1) \<Rightarrow> (Some (WriteData e), r1, fs1)
           | (None, fs1) \<Rightarrow> (map_option ReadData err, r1, fs1)))"

lemma readSyncHeader_length: "readSyncHeader r = (Inr x, r') \<Longrightarrow> length (rd_data r') < length (rd_data r)"
  by (auto simp: readSyncHeader_def read_full_def split: if_splits)

lemma copy_to_file_length: "copy_to_file path n r fs = (e, r', fs') \<Longrightarrow> length (rd_data r') \<le> length (rd_data r)"
  by (auto simp: copy_to_file_def copy_n_def split: if_splits prod.splits option.splits)

function pull_loop ::
  "ctx_err option \<Rightarrow> bool \<Rightarrow> string \<Rightarrow> bool \<Rightarrow> reader \<Rightarrow> localfs \<Rightarrow> sync_error option \<times> reader \<times> localfs" where
  "pull_loop ctx overwrite localPath created r fs =
     (case readSyncHeader r of
        (Inl e, r1) \<Rightarrow>
          ((case ctx of Some ce \<Rightarrow> Some (SyncCanceled ce) | None \<Rightarrow> Some (ReadResponseFailed e)), r1, fs)
      | (Inr (ident, sz), r1) \<Rightarrow>
          if ident = syncIDDATA then
            (case createOut overwrite localPath created fs of
               (Some e, fs1) \<Rightarrow> (Some e, r1, fs1)
             | (None, fs1) \<Rightarrow>
                 (case copy_to_file localPath (unat sz) r1 fs1 of
                    (Some e, r2, fs2) \<Rightarrow> (Some e, r2, fs2)
                  | (None, r2, fs2) \<Rightarrow> pull_loop ctx overwrite localPath True r2 fs2))
          else if ident = syncIDDONE then
            (case createOut overwrite localPath created fs of
               (Some e, fs1) \<Rightarrow> (Some e, r1, fs1)
             | (None, fs1) \<Rightarrow> (map_option (CloseDestination localPath) (lf_closeErr fs1), r1, fs1))
          else if ident = syncIDFAIL then
            (case read_full (unat sz) r1 of
               (Inl e, r2) \<Rightarrow> (Some (ReadFail e), r2, fs)
             | (Inr msg, r2) \<Rightarrow> (Some (RemoteError msg), r2, fs))
          else (Some (UnexpectedResponse ident), r1, fs))"
  by pat_completeness auto
termination
  by (relation "measure (\<lambda>(ctx, overwrite, localPath, created, r, fs). length (rd_data r))")
    (auto dest!: readSyncHeader_length [OF sym] copy_to_file_length [OF sym])

declare pull_loop.simps [simp del]

text \<open>\<open>ctx0\<close> is \<open>ctx.Err()\<close> on entry, \<open>ctx\<close> when a read of the response has failed, \<open>stat\<close> what
  \<open>os.Stat\<close> reports of the destination beside that it exists or not.\<close>

definition PullFileWithOptions ::
  "ctx_err option \<Rightarrow> ctx_err option \<Rightarrow> io_error option \<Rightarrow> string \<Rightarrow> string \<Rightarrow> bool \<Rightarrow> localfs \<Rightarrow> client \<Rightarrow>
     sync_error option \<times> localfs \<times> client" where
  "PullFileWithOptions ctx0 ctx stat remotePath localPath overwrite fs c =
     (case ctx0 of
        Some e \<Rightarrow> (Some (SyncCtx e), fs, c)
      | None \<Rightarrow>
          if remotePath = [] then (Some RemotePathEmpty, fs, c)
          else if localPath = [] then (Some LocalPathEmpty, fs, c)
          else if \<not> overwrite \<and> stat \<noteq> None then (Some (StatFailed localPath (the stat)), fs, c)
          else if \<not> overwrite \<and> lf_files fs localPath \<noteq> None then (Some (DestinationExists localPath), fs, c)
          else case OpenService ''sync:'' c of
              (Inl e, c1) \<Rightarrow> (Some (SyncOpen e), fs, c1)
            | (Inr st, c1) \<Rightarrow>
                (case writeSyncRequest syncIDRECV (bytes_of_string remotePath) (st_out st) of
                   (Some e, w) \<Rightarrow>
                     (Some (SendRequest syncIDRECV e), fs, close_service ''sync:'' (st\<lparr>st_out := w\<rparr>) c1)
                 | (None, w) \<Rightarrow>
                     (case pull_loop ctx overwrite localPath False (st_in st) fs of (err, r, fs1) \<Rightarrow>
                        (err, fs1, close_service ''sync:'' (st\<lparr>st_in := r, st_out := w\<rparr>) c1))))"

definition PullFile ::
  "ctx_err option \<Rightarrow> ctx_err option \<Rightarrow> io_error option \<Rightarrow> string \<Rightarrow> string \<Rightarrow> localfs \<Rightarrow> client \<Rightarrow>
     sync_error option \<times> localfs \<times> client" where
  "PullFile ctx0 ctx stat remotePath localPath fs c =
     PullFileWithOptions ctx0 ctx stat remotePath localPath False fs c"

section \<open>Push\<close>

text \<open>The local source: what opening and \<open>Stat\<close> give, whether it is a directory, its time in seconds,
  and the reads of the file: each read of \<open>buf\<close> returns at most \<open>syncDataMax\<close> bytes.\<close>

record source_file =
  src_open :: "io_error option"
  src_stat :: "io_error option"
  src_dir :: bool
  src_mtime :: int
  src_reads :: "bytes list"
  src_end :: io_error

text \<open>One turn per read; a read past the scripted ones reports the end of the file.\<close>

fun push_data :: "string \<Rightarrow> bytes list \<Rightarrow> io_error \<Rightarrow> writer \<Rightarrow> sync_error option \<times> writer" where
  "push_data localPath [] fin w = (if fin = EOF then (None, w) else (Some (ReadSource localPath fin), w))"
| "push_data localPath (b # bs) fin w =
     (if b = [] then push_data localPath bs fin w
      else case writeSyncRequest syncIDDATA b w of
          (Some e, w1) \<Rightarrow> (Some (SendRequest syncIDDATA e), w1)
        | (None, w1) \<Rightarrow> push_data localPath bs fin w1)"

definition defaultRemoteMode :: nat where "defaultRemoteMode = 420"

definition send_payload :: "string \<Rightarrow> bytes" where
  "send_payload remotePath = bytes_of_string (remotePath @ '','' @ FormatUint defaultRemoteMode)"

definition push_mtime :: "int \<Rightarrow> u32" where
  "push_mtime t = (if t < 0 then 0 else word_of_int t)"

text \<open>The requests of a push: SEND, one DATA per read, DONE.\<close>

definition push_requests :: "string \<Rightarrow> string \<Rightarrow> source_file \<Rightarrow> writer \<Rightarrow> sync_error option \<times> writer" where
  "push_requests localPath remotePath src w =
     (case writeSyncRequest syncIDSEND (send_payload remotePath) w of
        (Some e, w1) \<Rightarrow> (Some (SendRequest syncIDSEND e), w1)
      | (None, w1) \<Rightarrow>
          (case push_data localPath (src_reads src) (src_end src) w1 of
             (Some e, w2) \<Rightarrow> (Some e, w2)
           | (None, w2) \<Rightarrow>
               (case writeSyncHeader syncIDDONE (push_mtime (src_mtime src)) w2 of
                  (Some e, w3) \<Rightarrow> (Some (SendRequest syncIDDONE e), w3)
                | (None, w3) \<Rightarrow> (None, w3))))"

definition push_response :: "ctx_err option \<Rightarrow> reader \<Rightarrow> sync_error option \<times> reader" where
  "push_response ctx r =
     (case readSyncHeader r of
        (Inl e, r1) \<Rightarrow>
          ((case ctx of Some ce \<Rightarrow> Some (SyncCanceled ce) | None \<Rightarrow> Some (ReadResponseFailed e)), r1)
      | (Inr (ident, sz), r1) \<Rightarrow>
          if ident = syncIDOKAY then (None, r1)
          else if ident = syncIDFAIL then
            (case read_full (unat sz) r1 of
               (Inl e, r2) \<Rightarrow> (Some (ReadFail e), r2)
             | (Inr msg, r2) \<Rightarrow> (Some (RemoteError msg), r2))
          else (Some (UnexpectedResponse ident), r1))"

definition PushFile ::
  "ctx_err option \<Rightarrow> ctx_err option \<Rightarrow> string \<Rightarrow> string \<Rightarrow> source_file \<Rightarrow> client \<Rightarrow> sync_error option \<times> client" where
  "PushFile ctx0 ctx localPath remotePath src c =
     (case ctx0 of
        Some e \<Rightarrow> (Some (SyncCtx e), c)
      | None \<Rightarrow>
          if localPath = [] then (Some LocalPathEmpty, c)
          else if remotePath = [] then (Some RemotePathEmpty, c)
          else case src_open src of
              Some e \<Rightarrow> (Some (OpenSource localPath e), c)
            | None \<Rightarrow>
                (case src_stat src of
                   Some e \<Rightarrow> (Some (StatSource localPath e), c)
                 | None \<Rightarrow>
                     if src_dir src then (Some (SourceIsDirectory localPath), c)
                     else case OpenService ''sync:'' c of
                         (Inl e, c1) \<Rightarrow> (Some (SyncOpen e), c1)
                       | (Inr st, c1) \<Rightarrow>
                           (case push_requests localPath remotePath src (st_out st) of
                              (Some e, w) \<Rightarrow> (Some e, close_service ''sync:'' (st\<lparr>st_out := w\<rparr>) c1)
                            | (None, w) \<Rightarrow>
                                (case push_response ctx (st_in st) of (err, r) \<Rightarrow>
                                   (err, close_service ''sync:'' (st\<lparr>st_in := r, st_out := w\<rparr>) c1)))))"

section \<open>The wire format\<close>

definition sync_packet :: "string \<Rightarrow> bytes \<Rightarrow> bytes" where
  "sync_packet ident payload = bytes_of_string ident @ PutUint32 (word_of_nat (length payload)) @ payload"

definition sync_mark :: "string \<Rightarrow> u32 \<Rightarrow> bytes" where
  "sync_mark ident v = bytes_of_string ident @ PutUint32 v"

lemma writeSyncHeaderTo_id [simp]:
  "length ident = 4 \<Longrightarrow> writeSyncHeaderTo ident v = sync_mark ident v"
  by (simp add: writeSyncHeaderTo_def sync_mark_def)

lemma sync_packet_mark: "sync_packet ident p = sync_mark ident (word_of_nat (length p)) @ p"
  by (simp add: sync_packet_def sync_mark_def)

lemma readSyncHeader_mark:
  assumes "rd_data r = sync_mark ident v @ rest" "length ident = 4"
  shows "readSyncHeader r = (Inr (ident, v), r\<lparr>rd_data := rest\<rparr>)"
proof -
  have "read_full 8 r = (Inr (sync_mark ident v), r\<lparr>rd_data := rest\<rparr>)"
    using assms by (simp add: sync_mark_def)
  then show ?thesis using assms(2)
    by (simp add: readSyncHeader_def sync_mark_def slice_def string_of_bytes_of_string)
qed

lemma sync_id_lengths [simp]:
  "length syncIDRECV = 4" "length syncIDSEND = 4" "length syncIDDATA = 4" "length syncIDDONE = 4"
  "length syncIDOKAY = 4" "length syncIDFAIL = 4"
  by (simp_all add: sync_ids)

lemma sync_ids_distinct [simp]:
  "syncIDDONE \<noteq> syncIDDATA" "syncIDDATA \<noteq> syncIDDONE" "syncIDFAIL \<noteq> syncIDDATA" "syncIDFAIL \<noteq> syncIDDONE" "syncIDFAIL \<noteq> syncIDOKAY"
  by (simp_all add: sync_ids)

lemma unat_length: "length (b :: bytes) < 2 ^ 32 \<Longrightarrow> unat (word_of_nat (length b) :: u32) = length b"
  by (simp add: unat_of_nat)

lemma writeFull_ok: "writeFull p w = (None, w') \<Longrightarrow> wr_out w' = wr_out w @ p"
  by (auto dest: writeFull_prefix)

section \<open>What a device reads of a push\<close>

function recv_data :: "bytes \<Rightarrow> bytes \<Rightarrow> (bytes \<times> u32) option" where
  "recv_data acc b =
     (if length b < 8 then None
      else if string_of_bytes (take 4 b) = syncIDDONE then
        (if length b = 8 then Some (acc, Uint32 (drop 4 b)) else None)
      else if string_of_bytes (take 4 b) = syncIDDATA then
        (let n = unat (Uint32 (slice b 4 8)) in
         if length b < 8 + n then None else recv_data (acc @ slice b 8 (8 + n)) (drop (8 + n) b))
      else None)"
  by pat_completeness auto
termination
  by (relation "measure (\<lambda>(acc, b). length b)") auto

declare recv_data.simps [simp del]

definition recv_push :: "bytes \<Rightarrow> (bytes \<times> bytes \<times> u32) option" where
  "recv_push b =
     (if length b < 8 \<or> string_of_bytes (take 4 b) \<noteq> syncIDSEND then None
      else let n = unat (Uint32 (slice b 4 8)) in
        if length b < 8 + n then None
        else map_option (Pair (slice b 8 (8 + n))) (recv_data [] (drop (8 + n) b)))"

lemma take_drop_mark [simp]:
  assumes "length ident = 4"
  shows "string_of_bytes (take 4 (sync_mark ident v @ b)) = ident" "Uint32 (slice (sync_mark ident v @ b) 4 8) = v"
    "drop 8 (sync_mark ident v @ b) = b" "length (sync_mark ident v) = 8"
    "Uint32 (drop 4 (sync_mark ident v)) = v" "string_of_bytes (take 4 (sync_mark ident v)) = ident"
  using assms by (simp_all add: sync_mark_def slice_def)

lemma recv_data_done [simp]: "recv_data acc (sync_mark syncIDDONE v) = Some (acc, v)"
  by (simp add: recv_data.simps)

lemma recv_data_packet:
  assumes "length p < 2 ^ 32"
  shows "recv_data acc (sync_packet syncIDDATA p @ rest) = recv_data (acc @ p) rest"
proof -
  let ?b = "sync_mark syncIDDATA (word_of_nat (length p)) @ p @ rest"
  have "slice ?b 8 (8 + length p) = p" "drop (8 + length p) ?b = rest"
    using take_drop_mark(3) [of syncIDDATA "word_of_nat (length p)" "p @ rest"]
    by (simp_all add: slice_def)
  then show ?thesis
    using assms unat_length [OF assms]
    by (subst recv_data.simps) (simp add: sync_packet_mark Let_def)
qed

lemma recv_data_packets:
  assumes "\<forall>p \<in> set ps. length p < 2 ^ 32"
  shows "recv_data acc (concat (map (sync_packet syncIDDATA) ps) @ sync_mark syncIDDONE v) = Some (acc @ concat ps, v)"
  using assms by (induction ps arbitrary: acc) (simp_all add: recv_data_packet)

definition push_wire :: "string \<Rightarrow> bytes list \<Rightarrow> u32 \<Rightarrow> bytes" where
  "push_wire remotePath ps v = sync_packet syncIDSEND (send_payload remotePath) @
     concat (map (sync_packet syncIDDATA) ps) @ sync_mark syncIDDONE v"

lemma recv_push_wire:
  assumes "\<forall>p \<in> set ps. length p < 2 ^ 32" "length (send_payload remotePath) < 2 ^ 32"
  shows "recv_push (push_wire remotePath ps v) = Some (send_payload remotePath, concat ps, v)"
proof -
  let ?s = "send_payload remotePath"
  let ?rest = "concat (map (sync_packet syncIDDATA) ps) @ sync_mark syncIDDONE v"
  let ?b = "sync_mark syncIDSEND (word_of_nat (length ?s)) @ ?s @ ?rest"
  have "slice ?b 8 (8 + length ?s) = ?s" "drop (8 + length ?s) ?b = ?rest"
    by (simp_all add: slice_def)
  then show ?thesis
    using unat_length [OF assms(2)] recv_data_packets [OF assms(1)]
    by (simp add: recv_push_def push_wire_def sync_packet_mark Let_def)
qed

lemma push_data_wire:
  "push_data localPath ps fin w = (None, w') \<Longrightarrow>
     fin = EOF \<and> wr_out w' = wr_out w @ concat (map (sync_packet syncIDDATA) (filter (\<lambda>p. p \<noteq> []) ps))"
proof (induction ps arbitrary: w)
  case Nil
  then show ?case by (simp split: if_splits)
next
  case (Cons p ps)
  then show ?case
    by (auto simp: writeSyncRequest_def sync_packet_mark split: prod.splits option.splits if_splits
        dest!: writeFull_ok)
qed

lemma push_requests_wire:
  assumes "push_requests localPath remotePath src w = (None, w')"
  shows "src_end src = EOF \<and> wr_out w' =
    wr_out w @ push_wire remotePath (filter (\<lambda>p. p \<noteq> []) (src_reads src)) (push_mtime (src_mtime src))"
proof -
  from assms obtain w1 w2 where
    "writeSyncRequest syncIDSEND (send_payload remotePath) w = (None, w1)"
    "push_data localPath (src_reads src) (src_end src) w1 = (None, w2)"
    "writeSyncHeader syncIDDONE (push_mtime (src_mtime src)) w2 = (None, w')"
    by (auto simp: push_requests_def split: prod.splits option.splits)
  then show ?thesis
    by (auto simp: writeSyncRequest_def writeSyncHeader_def push_wire_def sync_packet_mark
        dest!: push_data_wire writeFull_ok)
qed

lemma concat_filter_nonempty [simp]: "concat (filter (\<lambda>p. p \<noteq> []) ps) = concat ps"
  by (induction ps) auto

lemma readSyncHeader_InrD:
  assumes "readSyncHeader r = (Inr (ident, v), r')"
  shows "rd_data r = sync_mark ident v @ rd_data r' \<and> length ident = 4"
proof -
  from assms have l: "8 \<le> length (rd_data r)" "ident = string_of_bytes (take 4 (take 8 (rd_data r)))"
    "v = Uint32 (slice (take 8 (rd_data r)) 4 8)" "rd_data r' = drop 8 (rd_data r)"
    by (auto simp: readSyncHeader_def read_full_def split: if_splits)
  then have "sync_mark ident v = take 4 (rd_data r) @ take 4 (drop 4 (rd_data r))"
    by (simp add: sync_mark_def slice_def PutUint32_Uint32 take_drop min_def)
  also have "\<dots> = take 8 (rd_data r)" using take_add [of 4 4 "rd_data r"] by simp
  finally show ?thesis using l by simp
qed

lemma push_response_okay:
  assumes "push_response ctx r = (None, r')"
  obtains v where "rd_data r = sync_mark syncIDOKAY v @ drop 8 (rd_data r)"
proof -
  from assms obtain v r1 where "readSyncHeader r = (Inr (syncIDOKAY, v), r1)"
    by (auto simp: push_response_def split: prod.splits sum.splits option.splits if_splits)
  from readSyncHeader_InrD [OF this] have "rd_data r = sync_mark syncIDOKAY v @ drop 8 (rd_data r)"
    by (metis take_drop_mark(3))
  then show thesis by (rule that)
qed

lemma PushFile_okD:
  assumes "PushFile ctx0 ctx localPath remotePath src (Some d) = (None, c')"
  shows "\<exists>r sc as w r' d'. dv_answers d = Inr (r, sc) # as \<and> c' = Some d' \<and>
    push_requests localPath remotePath src \<lparr>wr_out = [], wr_script = sc\<rparr> = (None, w) \<and>
    push_response ctx r = (None, r') \<and> dv_log d' = dv_log d @ [(''sync:'', wr_out w)] \<and>
    src_open src = None \<and> src_stat src = None \<and> \<not> src_dir src"
  using assms
  by (auto simp: PushFile_def close_service_def split: option.splits if_splits prod.splits list.splits sum.splits)

text \<open>C11: when \<open>PushFile\<close> reports success, one \<open>sync:\<close> service was opened, the device read on it
  exactly the remote path with mode 420 (octal 644), the whole contents of the local file in order, and
  its modification time, and answered OKAY, through any short writes of the stream.\<close>

theorem push_success_transfers_file:
  assumes "PushFile ctx0 ctx localPath remotePath src (Some d) = (None, c')"
    and "\<forall>p \<in> set (src_reads src). length p \<le> syncDataMax" "length remotePath < 2 ^ 31"
  shows "\<exists>b d' rest. c' = Some d' \<and> dv_log d' = dv_log d @ [(''sync:'', b)] \<and>
    recv_push b = Some (bytes_of_string (remotePath @ '',420''), concat (src_reads src), push_mtime (src_mtime src)) \<and>
    src_end src = EOF \<and>
    (\<exists>r sc as v. dv_answers d = Inr (r, sc) # as \<and> rd_data r = sync_mark syncIDOKAY v @ rest)"
proof -
  from PushFile_okD [OF assms(1)] obtain r sc as w r' d' where p: "dv_answers d = Inr (r, sc) # as" "c' = Some d'"
    "push_requests localPath remotePath src \<lparr>wr_out = [], wr_script = sc\<rparr> = (None, w)"
    "push_response ctx r = (None, r')" "dv_log d' = dv_log d @ [(''sync:'', wr_out w)]" by blast
  have mode: "send_payload remotePath = bytes_of_string (remotePath @ '',420'')"
    unfolding send_payload_def defaultRemoteMode_def by (simp add: FormatUint.simps digit_char_def) code_simp
  then have len: "length (send_payload remotePath) < 2 ^ 32" using assms(3) by simp
  have small: "\<forall>p \<in> set (filter (\<lambda>p. p \<noteq> []) (src_reads src)). length p < 2 ^ 32"
    using assms(2) by (fastforce simp: syncDataMax_def)
  from push_requests_wire [OF p(3)] recv_push_wire [OF small len]
  have "src_end src = EOF" "recv_push (wr_out w) =
      Some (bytes_of_string (remotePath @ '',420''), concat (src_reads src), push_mtime (src_mtime src))"
    by (auto simp: mode)
  moreover from p(4) obtain v where "rd_data r = sync_mark syncIDOKAY v @ drop 8 (rd_data r)"
    by (rule push_response_okay)
  ultimately show ?thesis using p by blast
qed

definition sample_source :: source_file where
  "sample_source = \<lparr>src_open = None, src_stat = None, src_dir = False, src_mtime = 5,
     src_reads = [[1, 2], [3]], src_end = EOF\<rparr>"

definition sample_sync_device :: device where
  "sample_sync_device = \<lparr>dv_answers = [Inr (\<lparr>rd_data = sync_mark syncIDOKAY 0, rd_end = EOF\<rparr>, [])], dv_log = []\<rparr>"

theorem push_success_transfers_file_witness:
  "\<exists>b d'. PushFile None None ''l'' ''r'' sample_source (Some sample_sync_device) = (None, Some d') \<and>
     dv_log d' = [(''sync:'', b)] \<and> recv_push b = Some (bytes_of_string ''r,420'', [1, 2, 3], 5)"
proof -
  have "readSyncHeader \<lparr>rd_data = sync_mark syncIDOKAY 0, rd_end = EOF\<rparr> = (Inr (syncIDOKAY, 0), \<lparr>rd_data = [], rd_end = EOF\<rparr>)"
    using readSyncHeader_mark [of "\<lparr>rd_data = sync_mark syncIDOKAY 0, rd_end = EOF\<rparr>" syncIDOKAY 0 "[]"] by simp
  then obtain c' where "PushFile None None ''l'' ''r'' sample_source (Some sample_sync_device) = (None, c')"
    by (auto simp: PushFile_def sample_source_def sample_sync_device_def push_requests_def writeSyncRequest_def
        writeSyncHeader_def push_response_def)
  moreover from push_success_transfers_file [OF this] obtain b d' where
    "c' = Some d'" "dv_log d' = dv_log sample_sync_device @ [(''sync:'', b)]"
    "recv_push b = Some (bytes_of_string (''r'' @ '',420''), concat (src_reads sample_source), push_mtime (src_mtime sample_source))"
    by (auto simp: sample_source_def syncDataMax_def)
  ultimately show ?thesis by (auto simp: sample_source_def sample_sync_device_def push_mtime_def)
qed

section \<open>Pull\<close>

text \<open>The destination can be created and written.\<close>

definition fs_ready :: "bool \<Rightarrow> string \<Rightarrow> localfs \<Rightarrow> bool" where
  "fs_ready overwrite path fs \<longleftrightarrow> lf_deny fs path = None \<and> lf_writes fs = [] \<and> lf_closeErr fs = None \<and>
     (overwrite \<or> lf_files fs path = None)"

lemma createOut_ready:
  "fs_ready overwrite path fs \<Longrightarrow>
     createOut overwrite path False fs = (None, fs\<lparr>lf_files := (lf_files fs)(path \<mapsto> [])\<rparr>)"
  by (auto simp: createOut_def fs_ready_def open_trunc_def open_excl_def)

lemma copy_to_file_ok:
  assumes "rd_data r = b @ rest" "lf_writes fs = []" "lf_files fs path = Some old"
  shows "copy_to_file path (length b) r fs =
    (None, r\<lparr>rd_data := rest\<rparr>, fs\<lparr>lf_files := (lf_files fs)(path \<mapsto> old @ b)\<rparr>)"
  using assms by (auto simp: copy_to_file_def copy_n_def file_write_def file_append_def fun_upd_idem)

definition pull_wire :: "bytes list \<Rightarrow> u32 \<Rightarrow> bytes" where
  "pull_wire ps v = concat (map (sync_packet syncIDDATA) ps) @ sync_mark syncIDDONE v"

lemma pull_loop_created:
  assumes "rd_data r = pull_wire ps v @ rest" "\<forall>p \<in> set ps. length p < 2 ^ 32"
    and "lf_writes fs = []" "lf_closeErr fs = None" "lf_files fs path = Some old"
  shows "pull_loop ctx overwrite path True r fs =
    (None, r\<lparr>rd_data := rest\<rparr>, fs\<lparr>lf_files := (lf_files fs)(path \<mapsto> old @ concat ps)\<rparr>)"
  using assms
proof (induction ps arbitrary: r fs old)
  case Nil
  then show ?case
    using readSyncHeader_mark [of r syncIDDONE v rest]
    by (subst pull_loop.simps) (simp add: pull_wire_def createOut_def fun_upd_idem)
next
  case (Cons p ps)
  let ?r1 = "r\<lparr>rd_data := p @ pull_wire ps v @ rest\<rparr>"
  have "readSyncHeader r = (Inr (syncIDDATA, word_of_nat (length p)), ?r1)"
    using Cons.prems(1) by (intro readSyncHeader_mark) (simp_all add: pull_wire_def sync_packet_mark)
  moreover have "copy_to_file path (length p) ?r1 fs = (None, r\<lparr>rd_data := pull_wire ps v @ rest\<rparr>,
      fs\<lparr>lf_files := (lf_files fs)(path \<mapsto> old @ p)\<rparr>)"
    using copy_to_file_ok [of ?r1 p "pull_wire ps v @ rest" fs path old] Cons.prems by simp
  ultimately show ?case
    using Cons.IH [of "r\<lparr>rd_data := pull_wire ps v @ rest\<rparr>" "fs\<lparr>lf_files := (lf_files fs)(path \<mapsto> old @ p)\<rparr>" "old @ p"]
      Cons.prems unat_length [of p]
    by (subst pull_loop.simps) (simp add: createOut_def fun_upd_def cong: if_cong)
qed

lemma pull_loop_not_created:
  "createOut overwrite path False fs = (None, fs1) \<Longrightarrow>
     (\<exists>ident v r1. readSyncHeader r = (Inr (ident, v), r1) \<and> ident \<in> {syncIDDATA, syncIDDONE}) \<Longrightarrow>
     pull_loop ctx overwrite path False r fs = pull_loop ctx overwrite path True r fs1"
  by (subst (1 2) pull_loop.simps) (auto simp: createOut_def [of _ _ True] split: prod.splits)

lemma pull_wire_head:
  assumes "rd_data r = pull_wire ps v @ rest"
  shows "\<exists>ident v r1. readSyncHeader r = (Inr (ident, v), r1) \<and> ident \<in> {syncIDDATA, syncIDDONE}"
proof (cases ps)
  case Nil
  with assms readSyncHeader_mark [of r syncIDDONE v rest] show ?thesis by (auto simp: pull_wire_def)
next
  case (Cons p ps')
  with assms readSyncHeader_mark [of r syncIDDATA "word_of_nat (length p)" "p @ pull_wire ps' v @ rest"]
  show ?thesis by (auto simp: pull_wire_def sync_packet_mark)
qed

text \<open>C12: when the device answers a pull with DATA packets and DONE, \<open>PullFile\<close> succeeds and stores exactly
  the concatenation of the packets in the destination, which it creates (or truncates when asked to overwrite),
  and changes no other file; what it sent is one RECV request with the remote path.\<close>

theorem pull_stores_transferred_bytes:
  assumes "dv_answers d = Inr (r, []) # as" "rd_data r = pull_wire ps v @ rest"
    and "\<forall>p \<in> set ps. length p < 2 ^ 32" "remotePath \<noteq> []" "localPath \<noteq> []"
    and "fs_ready overwrite localPath fs"
  shows "PullFileWithOptions None ctx None remotePath localPath overwrite fs (Some d) =
    (None, fs\<lparr>lf_files := (lf_files fs)(localPath \<mapsto> concat ps)\<rparr>,
     Some (d\<lparr>dv_answers := as, dv_log := dv_log d @ [(''sync:'', sync_packet syncIDRECV (bytes_of_string remotePath))]\<rparr>))"
proof -
  let ?fs1 = "fs\<lparr>lf_files := (lf_files fs)(localPath \<mapsto> [])\<rparr>"
  from assms(6) have f: "lf_writes fs = []" "lf_closeErr fs = None" "overwrite \<or> lf_files fs localPath = None"
    by (auto simp: fs_ready_def)
  have "pull_loop ctx overwrite localPath False r fs = pull_loop ctx overwrite localPath True r ?fs1"
    by (rule pull_loop_not_created [OF createOut_ready [OF assms(6)] pull_wire_head [OF assms(2)]])
  also have "\<dots> = (None, r\<lparr>rd_data := rest\<rparr>, fs\<lparr>lf_files := (lf_files fs)(localPath \<mapsto> concat ps)\<rparr>)"
    using pull_loop_created [OF assms(2,3), of ?fs1 localPath "[]"] f by simp
  finally show ?thesis
    using assms(1,4,5) f
    by (auto simp: PullFileWithOptions_def writeSyncRequest_def sync_packet_mark close_service_def)
qed

definition sample_fs :: localfs where
  "sample_fs = \<lparr>lf_files = Map.empty, lf_deny = Map.empty, lf_writes = [], lf_closeErr = None\<rparr>"

theorem pull_stores_transferred_bytes_witness:
  "lf_files (fst (snd (PullFileWithOptions None None None ''r'' ''l'' False sample_fs
     (Some \<lparr>dv_answers = [Inr (\<lparr>rd_data = pull_wire [[1, 2], [3]] 0, rd_end = EOF\<rparr>, [])], dv_log = []\<rparr>)))) ''l''
     = Some [1, 2, 3]"
  using pull_stores_transferred_bytes [of "\<lparr>dv_answers = [Inr (\<lparr>rd_data = pull_wire [[1, 2], [3]] 0, rd_end = EOF\<rparr>, [])], dv_log = []\<rparr>"
      "\<lparr>rd_data = pull_wire [[1, 2], [3]] 0, rd_end = EOF\<rparr>" "[]" "[[1, 2], [3]]" 0 "[]" "''r''" "''l''" False sample_fs None]
  by (simp add: fs_ready_def sample_fs_def)

definition only_changes :: "string \<Rightarrow> localfs \<Rightarrow> localfs \<Rightarrow> bool" where
  "only_changes path fs fs' \<longleftrightarrow> (\<forall>p. p \<noteq> path \<longrightarrow> lf_files fs' p = lf_files fs p)"

lemma only_changes_refl [simp]: "only_changes path fs fs"
  by (simp add: only_changes_def)

lemma createOut_frame: "createOut ov path cr' fs = (e, fs') \<Longrightarrow> only_changes path fs fs'"
  by (auto simp: createOut_def open_trunc_def open_excl_def only_changes_def
      split: if_splits option.splits prod.splits file_error.splits)

lemma copy_to_file_frame: "copy_to_file path n r fs = (e, r', fs') \<Longrightarrow> only_changes path fs fs'"
  by (auto simp: copy_to_file_def file_write_def file_append_def only_changes_def
      split: if_splits option.splits prod.splits list.splits)

lemma pull_loop_frame: "pull_loop ctx ov path cr' r fs = (e, r', fs') \<Longrightarrow> only_changes path fs fs'"
proof (induction ctx ov path cr' r fs rule: pull_loop.induct)
  case (1 ctx ov path cr' r fs)
  show ?case
  proof (cases "readSyncHeader r")
    case (Pair h r1)
    show ?thesis
    proof (cases "h = Inr (syncIDDATA, snd (projr h)) \<and> (\<exists>fs1 r2 fs2. createOut ov path cr' fs = (None, fs1) \<and>
        copy_to_file path (unat (snd (projr h))) r1 fs1 = (None, r2, fs2))")
      case True
      then obtain v fs1 r2 fs2 where h: "h = Inr (syncIDDATA, v)" and c: "createOut ov path cr' fs = (None, fs1)"
        and t: "copy_to_file path (unat v) r1 fs1 = (None, r2, fs2)" by (metis sum.sel(2) snd_conv)
      from "1.prems" Pair h c t have "pull_loop ctx ov path True r2 fs2 = (e, r', fs')"
        by (subst (asm) pull_loop.simps) simp
      from "1.IH" [OF Pair [symmetric] h _ _ c [symmetric] _ t [symmetric] _ _ this] have "only_changes path fs2 fs'"
        by simp
      with createOut_frame [OF c] copy_to_file_frame [OF t] show ?thesis by (simp add: only_changes_def)
    next
      case False
      with "1.prems" Pair show ?thesis
        by (subst (asm) pull_loop.simps)
          (auto split: sum.splits prod.splits option.splits if_splits
            dest!: createOut_frame copy_to_file_frame simp: only_changes_def)
    qed
  qed
qed

text \<open>Whatever the device sends and whatever fails, a pull changes at most the destination, and without
  \<open>Overwrite\<close> a destination that exists is refused before any service is opened.\<close>

theorem pull_touches_only_destination:
  assumes "PullFileWithOptions ctx0 ctx stat remotePath localPath overwrite fs c = (e, fs', c')"
  shows "(\<forall>p. p \<noteq> localPath \<longrightarrow> lf_files fs' p = lf_files fs p) \<and>
    (\<not> overwrite \<and> lf_files fs localPath \<noteq> None \<longrightarrow> e \<noteq> None \<and> fs' = fs \<and> c' = c)"
proof -
  have "only_changes localPath fs fs'"
    using assms
    by (auto simp: PullFileWithOptions_def split: option.splits if_splits prod.splits sum.splits
        dest!: pull_loop_frame)
  moreover have "\<not> overwrite \<and> lf_files fs localPath \<noteq> None \<longrightarrow> e \<noteq> None \<and> fs' = fs \<and> c' = c"
    using assms by (auto simp: PullFileWithOptions_def split: option.splits if_splits)
  ultimately show ?thesis by (simp add: only_changes_def)
qed

theorem pull_touches_only_destination_witness:
  "PullFileWithOptions None None None ''r'' ''l'' False (sample_fs\<lparr>lf_files := [''l'' \<mapsto> [9]]\<rparr>) (Some sample_sync_device) =
     (Some (DestinationExists ''l''), sample_fs\<lparr>lf_files := [''l'' \<mapsto> [9]]\<rparr>, Some sample_sync_device)"
proof -
  let ?p = "PullFileWithOptions None None None ''r'' ''l'' False (sample_fs\<lparr>lf_files := [''l'' \<mapsto> [9]]\<rparr>) (Some sample_sync_device)"
  have "fst ?p = Some (DestinationExists ''l'')" by (simp add: PullFileWithOptions_def)
  with pull_touches_only_destination [of None None None "''r''" "''l''" False "sample_fs\<lparr>lf_files := [''l'' \<mapsto> [9]]\<rparr>"
      "Some sample_sync_device" "fst ?p" "fst (snd ?p)" "snd (snd ?p)"]
  show ?thesis by (simp add: prod_eq_iff)
qed

end
