(* ===== verification/Install.thy ===== *)
theory Install
  imports Sync
begin

text \<open>
  Installing an APK, \<open>client/install.go\<close>: the temporary path on the device, the package-manager
  command, and the clean-up that runs whatever the installation did. The clock, the process number and
  the counter are inputs. The device shell's reading of the commands is \<open>sh_split\<close> of \<open>DeviceServices\<close>.
\<close>

section \<open>The temporary path\<close>

definition installRemoteDir :: string where "installRemoteDir = ''/data/local/tmp''"

definition is_safe_char :: "char \<Rightarrow> bool" where
  "is_safe_char c \<longleftrightarrow>
     (let n = (of_char c :: nat) in 97 \<le> n \<and> n \<le> 122 \<or> 65 \<le> n \<and> n \<le> 90 \<or> 48 \<le> n \<and> n \<le> 57)
     \<or> c = CHR ''.'' \<or> c = CHR ''_'' \<or> c = CHR ''-''"

text \<open>The bytes of the first rune of a string, as \<open>range\<close> decodes it: a byte that
  starts no valid UTF-8 sequence is a rune of its own.\<close>

definition cont :: "nat \<Rightarrow> nat \<Rightarrow> string \<Rightarrow> nat \<Rightarrow> bool" where
  "cont lo hi s i \<longleftrightarrow> i < length s \<and> lo \<le> of_char (s ! i) \<and> of_char (s ! i) \<le> hi"

definition rune_len :: "string \<Rightarrow> nat" where
  "rune_len s =
     (let b = (of_char (hd s) :: nat) in
      if 0xC2 \<le> b \<and> b \<le> 0xDF \<and> cont 0x80 0xBF s 1 then 2
      else if 0xE0 \<le> b \<and> b \<le> 0xEF \<and>
        cont (if b = 0xE0 then 0xA0 else 0x80) (if b = 0xED then 0x9F else 0xBF) s 1 \<and> cont 0x80 0xBF s 2 then 3
      else if 0xF0 \<le> b \<and> b \<le> 0xF4 \<and>
        cont (if b = 0xF0 then 0x90 else 0x80) (if b = 0xF4 then 0x8F else 0xBF) s 1 \<and> cont 0x80 0xBF s 2 \<and>
        cont 0x80 0xBF s 3 then 4
      else 1)"

lemma rune_len_pos [simp]: "0 < rune_len s"
  by (simp add: rune_len_def Let_def)

function sanitize_runes :: "string \<Rightarrow> string" where
  "sanitize_runes s =
     (if s = [] then []
      else (if is_safe_char (hd s) then hd s else CHR ''_'') # sanitize_runes (drop (rune_len s) s))"
  by pat_completeness auto
termination
  by (relation "measure length") auto

declare sanitize_runes.simps [simp del]

definition sanitizeInstallBase :: "string \<Rightarrow> string" where
  "sanitizeInstallBase base0 =
     (let base = TrimSpace base0 in
      if base = [] \<or> base = ''.'' \<or> base = ''/'' then ''app.apk''
      else let b = sanitize_runes base in if length b = 0 then ''app.apk'' else b)"

text \<open>\<open>filepath.Base\<close>\<close>

definition strip_slashes :: "string \<Rightarrow> string" where
  "strip_slashes p = rev (dropWhile (\<lambda>c. c = CHR ''/'') (rev p))"

definition path_base :: "string \<Rightarrow> string" where
  "path_base p =
     (if p = [] then ''.''
      else let q = strip_slashes p in
        if q = [] then ''/''
        else case LastIndexByte q CHR ''/'' of None \<Rightarrow> q | Some i \<Rightarrow> drop (i + 1) q)"

definition base36_char :: "nat \<Rightarrow> char" where
  "base36_char d = (if d < 10 then char_of (48 + d) else char_of (87 + d))"

fun FormatUint36 :: "nat \<Rightarrow> string" where
  "FormatUint36 n = (if n < 36 then [base36_char n] else FormatUint36 (n div 36) @ [base36_char (n mod 36)])"

declare FormatUint36.simps [simp del]

text \<open>\<open>counter\<close> is the value of \<open>installTempCounter\<close> before the atomic increment.\<close>

definition defaultInstallRemotePath :: "u64 \<Rightarrow> string \<Rightarrow> int \<Rightarrow> string \<Rightarrow> string \<times> u64" where
  "defaultInstallRemotePath counter stamp pid localPath =
     (let base = sanitizeInstallBase (path_base localPath); counter = counter + 1 in
      (installRemoteDir @ ''/adb-go-install-'' @ stamp @ ''-'' @ Itoa pid @ ''-'' @ FormatUint36 (unat counter)
         @ ''-'' @ base, counter))"

section \<open>The package manager\<close>

definition pmInstallSucceeded :: "string \<Rightarrow> bool" where
  "pmInstallSucceeded output = HasPrefix (TrimSpace output) ''Success''"

definition formatPMOutput :: "string \<Rightarrow> string" where
  "formatPMOutput output =
     (let output = TrimSpace output in
      if output = [] then ''package manager returned no success marker and no output'' else output)"

definition pm_command :: "bool \<Rightarrow> string \<Rightarrow> string" where
  "pm_command replace remotePath =
     Join ([''pm'', ''install''] @ (if replace then [''-r''] else []) @ [shellQuote remotePath]) '' ''"

definition rm_command :: "string \<Rightarrow> string" where
  "rm_command remotePath = ''rm -f -- '' @ shellQuote remotePath"

datatype install_error =
    InstallCtx ctx_err
  | ApkPathEmpty
  | PushApk sync_error
  | RunPM shell_error "string option"
  | PMFailed string

text \<open>What the operations see of their contexts: on entry, during the push (on entry and on failure),
  when the package manager's output has ended, and when the clean-up has.\<close>

record install_ctx =
  ic_entry :: "ctx_err option"
  ic_push0 :: "ctx_err option"
  ic_push :: "ctx_err option"
  ic_pm :: "ctx_err option"
  ic_rm :: "ctx_err option"

definition InstallAPKWithOptions ::
  "install_ctx \<Rightarrow> nat list \<Rightarrow> string \<Rightarrow> string \<Rightarrow> source_file \<Rightarrow> bool \<Rightarrow> client \<Rightarrow> install_error option \<times> client" where
  "InstallAPKWithOptions ctx cuts remotePath localPath src replace c =
     (case ic_entry ctx of
        Some e \<Rightarrow> (Some (InstallCtx e), c)
      | None \<Rightarrow>
          if localPath = [] then (Some ApkPathEmpty, c)
          else case PushFile (ic_push0 ctx) (ic_push ctx) localPath remotePath src c of
              (Some e, c1) \<Rightarrow> (Some (PushApk e), c1)
            | (None, c1) \<Rightarrow>
                (case ShellStream (ic_pm ctx) cuts (pm_command replace remotePath) (Some empty_buffer) c1 of
                   ((err, out), c2) \<Rightarrow>
                     (let output = string_of_bytes (case out of None \<Rightarrow> [] | Some w \<Rightarrow> wr_out w);
                          c3 = snd (Shell (ic_rm ctx) cuts (rm_command remotePath) c2)
                      in (case err of
                            Some e \<Rightarrow>
                              Some (RunPM e (if TrimSpace output \<noteq> [] then Some (formatPMOutput output) else None))
                          | None \<Rightarrow>
                              if \<not> pmInstallSucceeded output then Some (PMFailed (formatPMOutput output)) else None,
                          c3))))"

definition InstallAPK ::
  "install_ctx \<Rightarrow> nat list \<Rightarrow> string \<Rightarrow> string \<Rightarrow> source_file \<Rightarrow> client \<Rightarrow> install_error option \<times> client" where
  "InstallAPK ctx cuts remotePath localPath src c =
     InstallAPKWithOptions ctx cuts remotePath localPath src False c"

section \<open>The temporary path stays in its directory\<close>

lemma sanitize_runes_safe: "list_all is_safe_char (sanitize_runes s)"
  by (induction s rule: sanitize_runes.induct)
    (subst sanitize_runes.simps, auto simp: is_safe_char_def [of "CHR ''_''"])

lemma sanitize_runes_Nil [simp]: "sanitize_runes s = [] \<longleftrightarrow> s = []"
  by (subst sanitize_runes.simps) simp

lemma sanitizeInstallBase_safe:
  "sanitizeInstallBase b \<noteq> [] \<and> list_all is_safe_char (sanitizeInstallBase b)"
proof -
  have "list_all is_safe_char ''app.apk''" by (simp add: is_safe_char_def)
  with sanitize_runes_safe [of "TrimSpace b"] show ?thesis by (simp add: sanitizeInstallBase_def Let_def)
qed

lemma base36_safe: "d < 36 \<Longrightarrow> is_safe_char (base36_char d)"
  by (auto simp: is_safe_char_def base36_char_def Let_def)

lemma FormatUint36_safe: "list_all is_safe_char (FormatUint36 n)"
  by (induction n rule: FormatUint36.induct) (subst FormatUint36.simps, auto simp: base36_safe)

lemma FormatUint_safe: "list_all is_safe_char (FormatUint n)"
proof -
  have "d < 10 \<Longrightarrow> is_safe_char (digit_char d)" for d
    by (simp add: is_safe_char_def digit_char_def Let_def)
  then show ?thesis
    by (induction n rule: FormatUint.induct) (subst FormatUint.simps, auto)
qed

lemma Itoa_safe: "list_all is_safe_char (Itoa i)"
  using FormatUint_safe by (auto simp: Itoa_def is_safe_char_def [of "CHR ''-''"])

lemma sh_split_plain_word:
  assumes "\<forall>c \<in> set w. c \<notin> set sh_meta \<and> c \<notin> {CHR 0x27, CHR 0x5C, CHR '' '', CHR 0x09}"
  shows "sh_split (Some a) False (w @ s) = sh_split (Some (a @ w)) False s"
  using assms by (induction w arbitrary: a) auto

text \<open>Whatever the local file is called, the temporary file is directly in the temporary
  directory: after the directory the path has only letters, digits, dots, dashes and underscores, so no separator.\<close>

theorem install_path_stays_in_tmp:
  assumes "list_all is_safe_char stamp"
  shows "\<exists>name. fst (defaultInstallRemotePath counter stamp pid localPath) = installRemoteDir @ ''/'' @ name \<and>
    list_all is_safe_char name \<and> CHR ''/'' \<notin> set name \<and> name \<noteq> []"
proof -
  let ?name = "''adb-go-install-'' @ stamp @ ''-'' @ Itoa pid @ ''-'' @ FormatUint36 (unat (counter + 1)) @ ''-''
    @ sanitizeInstallBase (path_base localPath)"
  have lit: "list_all is_safe_char ''adb-go-install-''" "list_all is_safe_char ''-''"
    by (simp_all add: is_safe_char_def)
  have safe: "list_all is_safe_char ?name"
    using assms Itoa_safe FormatUint36_safe sanitizeInstallBase_safe lit
    by (simp only: list_all_append simp_thms)
  moreover have "CHR ''/'' \<notin> set ?name"
  proof
    assume "CHR ''/'' \<in> set ?name"
    with safe have "is_safe_char CHR ''/''" unfolding list_all_iff by blast
    then show False by (simp add: is_safe_char_def)
  qed
  moreover have "fst (defaultInstallRemotePath counter stamp pid localPath) = installRemoteDir @ ''/'' @ ?name"
    by (simp add: defaultInstallRemotePath_def Let_def)
  moreover have "?name \<noteq> []" by simp
  ultimately show ?thesis by blast
qed

theorem install_path_stays_in_tmp_witness:
  "\<exists>name. fst (defaultInstallRemotePath 0 ''20240101T000000.000000000Z'' 7 ''/x/../a b.apk'') =
     installRemoteDir @ ''/'' @ name \<and> CHR ''/'' \<notin> set name"
  using install_path_stays_in_tmp [of "''20240101T000000.000000000Z''" 0 7 "''/x/../a b.apk''"]
  by (auto simp: is_safe_char_def)

section \<open>The commands\<close>

lemma sh_split_pm:
  "sh_split None False (pm_command replace p) = Some ([''pm'', ''install''] @ (if replace then [''-r''] else []) @ [p])"
  using sh_split_shellQuote [of None p "[]"] by (simp add: pm_command_def sh_meta_def newline_def)

lemma sh_split_rm: "sh_split None False (rm_command p) = Some [''rm'', ''-f'', ''--'', p]"
  using sh_split_shellQuote [of None p "[]"] by (simp add: rm_command_def sh_meta_def newline_def)

text \<open>The device shell reads the install command and the clean-up command as exactly the
  intended words, with the path as one word, for every path, quotes and shell syntax included.\<close>

theorem install_commands_pass_path_as_one_word:
  "sh_split None False (pm_command replace p) = Some ([''pm'', ''install''] @ (if replace then [''-r''] else []) @ [p]) \<and>
   sh_split None False (rm_command p) = Some [''rm'', ''-f'', ''--'', p]"
  using sh_split_pm sh_split_rm by blast

section \<open>The installation\<close>

lemma PushFile_services:
  assumes "PushFile ctx0 ctx localPath remotePath src (Some d) = (None, c')"
  shows "\<exists>d1 b. c' = Some d1 \<and> dv_log d1 = dv_log d @ [(''sync:'', b)] \<and> dv_answers d1 = tl (dv_answers d)"
  using assms
  by (auto simp: PushFile_def close_service_def split: option.splits if_splits prod.splits list.splits sum.splits)

lemma ShellStream_services:
  "\<exists>d1 b. snd (ShellStream ctx cuts cmd (Some w) (Some d)) = Some d1 \<and>
     dv_log d1 = dv_log d @ [(''shell:'' @ cmd, b)] \<and> dv_answers d1 = tl (dv_answers d)"
  by (auto simp: ShellStream_def close_service_def split: prod.splits list.splits sum.splits)

lemma Shell_services:
  "\<exists>d1 b. snd (Shell ctx cuts cmd (Some d)) = Some d1 \<and> dv_log d1 = dv_log d @ [(''shell:'' @ cmd, b)]"
proof -
  obtain e o' d1 b where s: "ShellStream ctx cuts cmd (Some empty_buffer) (Some d) = ((e, o'), Some d1)"
    "dv_log d1 = dv_log d @ [(''shell:'' @ cmd, b)]"
    using ShellStream_services [of ctx cuts cmd empty_buffer d] by (metis prod.collapse)
  then show ?thesis by (auto simp: Shell_def split: option.splits)
qed


definition sample_install_ctx :: install_ctx where
  "sample_install_ctx = \<lparr>ic_entry = None, ic_push0 = None, ic_push = None, ic_pm = Some Canceled, ic_rm = None\<rparr>"


end
