(* ===== verification/ClientForward.thy ===== *)
theory ClientForward
  imports DeviceServices GoNet
begin

text \<open>
  Forwarding sessions of the client, \<open>client/forward.go\<close> and \<open>client/reverse.go\<close>: endpoints, the
  registration exchange of a reverse, and the sessions as machines that interleave accepting, the
  goroutines of each bridge and \<open>Close\<close>. A bridge is known by its number \<open>i\<close>; \<open>CConn i\<close> is its
  host connection and \<open>CStream i\<close> its device stream, and the state has the set of those that are open.
  The bookkeeping both sessions share (adding to the active set closes at once when the session is closed, closing
  closes what is active) is the locale \<open>closer_set\<close>.
\<close>

section \<open>Endpoints\<close>

datatype endpoint_error = PortRange int | UnsupportedEndpoint string | BadPort string num_error

definition tcp_service :: "int \<Rightarrow> string" where
  "tcp_service port = ''tcp:'' @ Itoa port"

definition ForwardTCP :: "int \<Rightarrow> endpoint_error + string" where
  "ForwardTCP port = (if port < 1 \<or> 65535 < port then Inl (PortRange port) else Inr (tcp_service port))"

record ReverseDeviceEndpoint =
  rd_service :: string
  rd_port :: int

record ReverseHostEndpoint =
  rh_service :: string
  rh_addr :: string
  rh_port :: int

definition ReverseDeviceTCP :: "int \<Rightarrow> endpoint_error + ReverseDeviceEndpoint" where
  "ReverseDeviceTCP port =
     (if port < 1 \<or> 65535 < port then Inl (PortRange port)
      else Inr \<lparr>rd_service = tcp_service port, rd_port = port\<rparr>)"

definition ReverseHostTCP :: "int \<Rightarrow> endpoint_error + ReverseHostEndpoint" where
  "ReverseHostTCP port =
     (if port < 1 \<or> 65535 < port then Inl (PortRange port)
      else Inr \<lparr>rh_service = tcp_service port, rh_addr = JoinHostPort ''127.0.0.1'' (Itoa port), rh_port = port\<rparr>)"

definition parse_tcp :: "string \<Rightarrow> endpoint_error + int" where
  "parse_tcp endpoint =
     (case Cut (TrimSpace endpoint) '':'' of
        None \<Rightarrow> Inl (UnsupportedEndpoint endpoint)
      | Some (family, value) \<Rightarrow>
          if family \<noteq> ''tcp'' then Inl (UnsupportedEndpoint endpoint)
          else case Atoi value of Inl e \<Rightarrow> Inl (BadPort value e) | Inr port \<Rightarrow> Inr port)"

definition ParseReverseDeviceEndpoint :: "string \<Rightarrow> endpoint_error + ReverseDeviceEndpoint" where
  "ParseReverseDeviceEndpoint endpoint =
     (case parse_tcp endpoint of Inl e \<Rightarrow> Inl e | Inr port \<Rightarrow> ReverseDeviceTCP port)"

definition ParseReverseHostEndpoint :: "string \<Rightarrow> endpoint_error + ReverseHostEndpoint" where
  "ParseReverseHostEndpoint endpoint =
     (case parse_tcp endpoint of Inl e \<Rightarrow> Inl e | Inr port \<Rightarrow> ReverseHostTCP port)"

section \<open>Registering a reverse\<close>

datatype reverse_error =
    ReverseOpen svc_error
  | ReverseRead io_error
  | ReverseRefused string
  | ReverseCtx ctx_err
  | RemoteEmpty
  | HostEmpty
  | ReverseHandle io_error
  | ReverseDeviceClosed

text \<open>The exchange of \<open>registerReverse\<close> and \<open>removeReverse\<close>: an empty answer is success.\<close>

definition reverse_request :: "string \<Rightarrow> client \<Rightarrow> reverse_error option \<times> client" where
  "reverse_request service c =
     (case OpenService service c of
        (Inl e, c1) \<Rightarrow> (Some (ReverseOpen e), c1)
      | (Inr st, c1) \<Rightarrow>
          (case read_all (st_in st) of ((err, response), r) \<Rightarrow>
             ((case err of
                 Some e \<Rightarrow> Some (ReverseRead e)
               | None \<Rightarrow>
                   if 0 < length response then Some (ReverseRefused (TrimSpace (string_of_bytes response))) else None),
              close_service service (st\<lparr>st_in := r\<rparr>) c1)))"

definition registerReverse ::
  "ReverseDeviceEndpoint \<Rightarrow> ReverseHostEndpoint \<Rightarrow> bool \<Rightarrow> client \<Rightarrow> reverse_error option \<times> client" where
  "registerReverse remote local norebind c =
     (let command = (if norebind then ''forward:norebind:'' else ''forward:'') in
      reverse_request (''reverse:'' @ command @ rd_service remote @ '';'' @ rh_service local) c)"

definition removeReverse :: "ReverseDeviceEndpoint \<Rightarrow> client \<Rightarrow> reverse_error option \<times> client" where
  "removeReverse remote c =
     (if rd_service remote = [] then (None, c)
      else reverse_request (''reverse:killforward:'' @ rd_service remote) c)"

section \<open>Sessions\<close>

datatype closer = CConn nat | CStream nat

text \<open>Where the goroutine of a bridge is: opening the service, between its two calls of \<open>addActive\<close>,
  copying, and after the copies.\<close>

datatype stage = Opening | AddConn | AddStream | Copying | RemoveStream | RemoveConn | Finished

record forward =
  fw_closed :: bool
  fw_active :: "closer set"
  fw_cancelled :: bool
  fw_listening :: bool
  fw_opened :: "closer set" \<comment> \<open>connections and streams that are open\<close>
  fw_bridges :: "stage list"
  fw_accept :: "io_error option option" \<comment> \<open>how the accept loop ended\<close>
  fw_done :: "io_error option list"

datatype forward_error = FwDeviceClosed | FwCtx ctx_err | FwRemoteEmpty | FwListen io_error

definition new_forward :: forward where
  "new_forward = \<lparr>fw_closed = False, fw_active = {}, fw_cancelled = False, fw_listening = True, fw_opened = {},
     fw_bridges = [], fw_accept = None, fw_done = []\<rparr>"

text \<open>\<open>listen\<close> is what listening on the local address gives.\<close>

definition ForwardLocalTCP ::
  "client \<Rightarrow> ctx_err option \<Rightarrow> io_error option \<Rightarrow> string \<Rightarrow> forward_error + forward" where
  "ForwardLocalTCP c ctx listen remote =
     (case c of
        None \<Rightarrow> Inl FwDeviceClosed
      | Some _ \<Rightarrow>
          (case ctx of
             Some e \<Rightarrow> Inl (FwCtx e)
           | None \<Rightarrow>
               if remote = [] then Inl FwRemoteEmpty
               else case listen of Some e \<Rightarrow> Inl (FwListen e) | None \<Rightarrow> Inr new_forward))"

definition fw_addActive :: "closer \<Rightarrow> forward \<Rightarrow> forward" where
  "fw_addActive x f =
     (if fw_closed f then f\<lparr>fw_opened := fw_opened f - {x}\<rparr> else f\<lparr>fw_active := insert x (fw_active f)\<rparr>)"

definition fw_removeActive :: "closer \<Rightarrow> forward \<Rightarrow> forward" where
  "fw_removeActive x f = f\<lparr>fw_active := fw_active f - {x}\<rparr>"

definition fw_Close :: "forward \<Rightarrow> forward" where
  "fw_Close f0 =
     (let f = f0\<lparr>fw_cancelled := True\<rparr> in
      if fw_closed f then f
      else f\<lparr>fw_closed := True, fw_listening := False, fw_opened := fw_opened f - fw_active f\<rparr>)"

definition acceptLoop_end :: "io_error \<Rightarrow> forward \<Rightarrow> forward" where
  "acceptLoop_end e f =
     f\<lparr>fw_accept := Some (if fw_cancelled f \<or> fw_closed f \<or> \<not> fw_listening f then None else Some e)\<rparr>"

definition set_stage :: "nat \<Rightarrow> stage \<Rightarrow> forward \<Rightarrow> forward" where
  "set_stage i s f = f\<lparr>fw_bridges := (fw_bridges f)[i := s]\<rparr>"

text \<open>The next step of the goroutine of bridge \<open>i\<close>; \<open>ok\<close> says whether \<open>OpenService\<close> succeeds.\<close>

definition handleConn_step :: "nat \<Rightarrow> bool \<Rightarrow> forward \<Rightarrow> forward" where
  "handleConn_step i ok f =
     (case fw_bridges f ! i of
        Opening \<Rightarrow>
          if ok then set_stage i AddConn (f\<lparr>fw_opened := insert (CStream i) (fw_opened f)\<rparr>)
          else set_stage i Finished (f\<lparr>fw_opened := fw_opened f - {CConn i}\<rparr>)
      | AddConn \<Rightarrow> set_stage i AddStream (fw_addActive (CConn i) f)
      | AddStream \<Rightarrow> set_stage i Copying (fw_addActive (CStream i) f)
      | Copying \<Rightarrow> set_stage i RemoveStream (f\<lparr>fw_opened := fw_opened f - {CConn i, CStream i}\<rparr>)
      | RemoveStream \<Rightarrow> set_stage i RemoveConn (fw_removeActive (CStream i) f)
      | RemoveConn \<Rightarrow> set_stage i Finished (fw_removeActive (CConn i) f)
      | Finished \<Rightarrow> f)"

datatype forward_event = FwAccept | FwAcceptError io_error | FwBridge nat bool | FwCloseEv | FwDone

fun forward_step :: "forward_event \<Rightarrow> forward \<Rightarrow> (unit \<times> forward) option" where
  "forward_step FwAccept f =
     (if fw_accept f = None \<and> fw_listening f
      then Some ((), f\<lparr>fw_opened := insert (CConn (length (fw_bridges f))) (fw_opened f),
                       fw_bridges := fw_bridges f @ [Opening]\<rparr>) else None)"
| "forward_step (FwAcceptError e) f =
     (if fw_accept f = None then Some ((), acceptLoop_end e f) else None)"
| "forward_step (FwBridge i ok) f =
     (if i < length (fw_bridges f) \<and> fw_bridges f ! i \<noteq> Finished then Some ((), handleConn_step i ok f) else None)"
| "forward_step FwCloseEv f = Some ((), fw_Close f)"
| "forward_step FwDone f =
     (case fw_accept f of
        Some r \<Rightarrow>
          if list_all (\<lambda>s. s = Finished) (fw_bridges f) \<and> fw_done f = [] then Some ((), f\<lparr>fw_done := [r]\<rparr>) else None
      | None \<Rightarrow> None)"

section \<open>Reverse sessions\<close>

text \<open>The goroutine of a reverse bridge: dialing the host target, before \<open>addBridge\<close>, copying, after the copies.\<close>

datatype rstage = RDialing | RAdding | RCopying | RRemoving | RFinished

record reverse =
  rv_remote :: ReverseDeviceEndpoint
  rv_local :: ReverseHostEndpoint
  rv_closed :: bool
  rv_active :: "closer set"
  rv_activeBridges :: nat
  rv_cancelled :: bool
  rv_handler :: bool \<comment> \<open>the open handler is installed\<close>
  rv_opened :: "closer set"
  rv_bridges :: "rstage list"
  rv_callbacks :: bool \<comment> \<open>the callbacks of the options are set\<close>
  rv_notes :: "nat list" \<comment> \<open>calls of \<open>OnActiveConnections\<close>\<close>
  rv_errors :: nat \<comment> \<open>calls of \<open>OnBridgeError\<close>\<close>
  rv_client :: client
  rv_cleanup :: "reverse_error option option" \<comment> \<open>the result of \<open>removeReverse\<close> in \<open>Close\<close>\<close>
  rv_done :: "reverse_error option list"

definition new_reverse :: "ReverseDeviceEndpoint \<Rightarrow> ReverseHostEndpoint \<Rightarrow> bool \<Rightarrow> client \<Rightarrow> reverse" where
  "new_reverse remote local callbacks c = \<lparr>rv_remote = remote, rv_local = local, rv_closed = False, rv_active = {},
     rv_activeBridges = 0, rv_cancelled = False, rv_handler = True, rv_opened = {}, rv_bridges = [],
     rv_callbacks = callbacks, rv_notes = [], rv_errors = 0, rv_client = c, rv_cleanup = None, rv_done = []\<rparr>"

text \<open>\<open>handle\<close> is what \<open>HandleOpen\<close> reports. The result has the session, or the error with the handler removed.\<close>

definition ReverseTCPWithOptions ::
  "client \<Rightarrow> ctx_err option \<Rightarrow> io_error option \<Rightarrow> ReverseDeviceEndpoint \<Rightarrow> ReverseHostEndpoint \<Rightarrow> bool \<Rightarrow> bool \<Rightarrow>
     (reverse_error + reverse) \<times> client" where
  "ReverseTCPWithOptions c ctx handle remote local norebind callbacks =
     (case c of
        None \<Rightarrow> (Inl ReverseDeviceClosed, c)
      | Some _ \<Rightarrow>
          (case ctx of
             Some e \<Rightarrow> (Inl (ReverseCtx e), c)
           | None \<Rightarrow>
               if rd_service remote = [] then (Inl RemoteEmpty, c)
               else if rh_service local = [] \<or> rh_addr local = [] then (Inl HostEmpty, c)
               else case handle of
                   Some e \<Rightarrow> (Inl (ReverseHandle e), c)
                 | None \<Rightarrow>
                     (case registerReverse remote local norebind c of
                        (Some e, c1) \<Rightarrow> (Inl e, c1)
                      | (None, c1) \<Rightarrow> (Inr (new_reverse remote local callbacks c1), c1))))"

definition notifyActive :: "nat \<Rightarrow> reverse \<Rightarrow> reverse" where
  "notifyActive n r = (if rv_callbacks r then r\<lparr>rv_notes := rv_notes r @ [n]\<rparr> else r)"

definition startBridge :: "reverse \<Rightarrow> reverse" where
  "startBridge r =
     (if rv_closed r then r\<lparr>rv_bridges := rv_bridges r @ [RFinished]\<rparr>
      else r\<lparr>rv_opened := insert (CStream (length (rv_bridges r))) (rv_opened r),
             rv_bridges := rv_bridges r @ [RDialing]\<rparr>)"

definition addBridge :: "closer set \<Rightarrow> reverse \<Rightarrow> reverse" where
  "addBridge xs r =
     (if rv_closed r then r\<lparr>rv_opened := rv_opened r - xs\<rparr>
      else let n = rv_activeBridges r + 1 in
        notifyActive n (r\<lparr>rv_active := rv_active r \<union> xs, rv_activeBridges := n\<rparr>))"

definition removeBridge :: "closer set \<Rightarrow> reverse \<Rightarrow> reverse" where
  "removeBridge xs r =
     (let n = (if 0 < rv_activeBridges r then rv_activeBridges r - 1 else rv_activeBridges r) in
      notifyActive n (r\<lparr>rv_active := rv_active r - xs, rv_activeBridges := n\<rparr>))"

definition set_rstage :: "nat \<Rightarrow> rstage \<Rightarrow> reverse \<Rightarrow> reverse" where
  "set_rstage i s r = r\<lparr>rv_bridges := (rv_bridges r)[i := s]\<rparr>"

text \<open>The next step of \<open>handleStream\<close> of bridge \<open>i\<close>; \<open>ok\<close> says whether dialing the host succeeds.\<close>

definition handleStream_step :: "nat \<Rightarrow> bool \<Rightarrow> reverse \<Rightarrow> reverse" where
  "handleStream_step i ok r =
     (case rv_bridges r ! i of
        RDialing \<Rightarrow>
          if ok then set_rstage i RAdding (r\<lparr>rv_opened := insert (CConn i) (rv_opened r)\<rparr>)
          else set_rstage i RFinished
            (r\<lparr>rv_opened := rv_opened r - {CStream i},
               rv_errors := rv_errors r + (if rv_callbacks r then 1 else 0)\<rparr>)
      | RAdding \<Rightarrow> set_rstage i RCopying (addBridge {CStream i, CConn i} r)
      | RCopying \<Rightarrow> set_rstage i RRemoving (r\<lparr>rv_opened := rv_opened r - {CConn i, CStream i}\<rparr>)
      | RRemoving \<Rightarrow> set_rstage i RFinished (removeBridge {CStream i, CConn i} r)
      | RFinished \<Rightarrow> r)"

text \<open>\<open>Close\<close> in its three parts: closing what is active, removing the registration, and the end after the
  wait for the bridges.\<close>

definition rv_Close :: "reverse \<Rightarrow> reverse" where
  "rv_Close r0 =
     (let r = r0\<lparr>rv_cancelled := True\<rparr> in
      if rv_closed r then r
      else r\<lparr>rv_closed := True, rv_callbacks := False, rv_handler := False,
             rv_opened := rv_opened r - rv_active r\<rparr>)"

definition rv_Close_cleanup :: "reverse \<Rightarrow> reverse" where
  "rv_Close_cleanup r =
     (case removeReverse (rv_remote r) (rv_client r) of
        (err, c) \<Rightarrow> r\<lparr>rv_client := c, rv_cleanup := Some err\<rparr>)"

definition rv_Close_end :: "reverse_error option \<Rightarrow> reverse \<Rightarrow> reverse" where
  "rv_Close_end err r = r\<lparr>rv_done := (if rv_done r = [] then [err] else rv_done r)\<rparr>"

datatype reverse_event = RvOpen | RvBridge nat bool | RvCloseEv | RvCleanup | RvCloseEnd

fun reverse_step :: "reverse_event \<Rightarrow> reverse \<Rightarrow> (unit \<times> reverse) option" where
  "reverse_step RvOpen r = Some ((), startBridge r)"
| "reverse_step (RvBridge i ok) r =
     (if i < length (rv_bridges r) \<and> rv_bridges r ! i \<noteq> RFinished then Some ((), handleStream_step i ok r) else None)"
| "reverse_step RvCloseEv r = Some ((), rv_Close r)"
| "reverse_step RvCleanup r =
     (if rv_closed r \<and> rv_cleanup r = None then Some ((), rv_Close_cleanup r) else None)"
| "reverse_step RvCloseEnd r =
     (case rv_cleanup r of
        None \<Rightarrow> None
      | Some err \<Rightarrow>
          if list_all (\<lambda>s. s = RFinished) (rv_bridges r) \<and> rv_done r = [] then Some ((), rv_Close_end err r) else None)"

section \<open>What a closed session guarantees\<close>

text \<open>
  The shared contract. \<open>safe_closers\<close> of a set: while the session is open its members are in the
  active set, so that \<open>Close\<close> will close them; once it is closed they are closed.
\<close>

definition safe_closers :: "bool \<Rightarrow> closer set \<Rightarrow> closer set \<Rightarrow> closer set \<Rightarrow> bool" where
  "safe_closers isClosed active opened xs \<longleftrightarrow> (\<forall>x \<in> xs. if isClosed then x \<notin> opened else x \<in> active)"

locale closer_set =
  fixes isClosed :: "'s \<Rightarrow> bool" and active opened :: "'s \<Rightarrow> closer set"
    and add remove :: "'x \<Rightarrow> 's \<Rightarrow> 's" and closers :: "'x \<Rightarrow> closer set" and close :: "'s \<Rightarrow> 's"
  assumes add_when_closed: "isClosed s \<Longrightarrow> isClosed (add x s) \<and> opened (add x s) = opened s - closers x"
    and add_when_open: "\<not> isClosed s \<Longrightarrow>
      \<not> isClosed (add x s) \<and> active (add x s) = active s \<union> closers x \<and> opened (add x s) = opened s"
    and remove_effect: "isClosed (remove x s) = isClosed s \<and> active (remove x s) = active s - closers x \<and>
      opened (remove x s) = opened s"
    and close_effect: "isClosed (close s)"
      "opened (close s) = (if isClosed s then opened s else opened s - active s)"
begin

lemma safe_add:
  "safe_closers (isClosed s) (active s) (opened s) ys \<Longrightarrow>
     safe_closers (isClosed (add x s)) (active (add x s)) (opened (add x s)) (ys \<union> closers x)"
  using add_when_closed [of s x] add_when_open [of s x] by (cases "isClosed s") (auto simp: safe_closers_def)

lemma safe_remove:
  "safe_closers (isClosed s) (active s) (opened s) ys \<Longrightarrow> closers x \<inter> ys = {} \<Longrightarrow>
     safe_closers (isClosed (remove x s)) (active (remove x s)) (opened (remove x s)) ys"
  using remove_effect [of x s] by (auto simp: safe_closers_def)

lemma safe_close:
  "safe_closers (isClosed s) (active s) (opened s) ys \<Longrightarrow>
     safe_closers (isClosed (close s)) (active (close s)) (opened (close s)) ys"
  using close_effect [of s] by (auto simp: safe_closers_def split: if_splits)

lemma opened_shrinks: "opened (add x s) \<subseteq> opened s" "opened (remove x s) \<subseteq> opened s" "opened (close s) \<subseteq> opened s"
  using add_when_closed [of s x] add_when_open [of s x] remove_effect [of x s] close_effect [of s]
  by (cases "isClosed s"; auto)+

end

interpretation fw: closer_set fw_closed fw_active fw_opened fw_addActive fw_removeActive "\<lambda>x. {x}" fw_Close
  by unfold_locales (auto simp: fw_addActive_def fw_removeActive_def fw_Close_def Let_def)

interpretation rv: closer_set rv_closed rv_active rv_opened addBridge removeBridge "\<lambda>xs. xs" rv_Close
  by unfold_locales (auto simp: addBridge_def removeBridge_def notifyActive_def rv_Close_def Let_def)

lemma safe_mono: "safe_closers b a o' xs \<Longrightarrow> ys \<subseteq> xs \<Longrightarrow> o'' \<subseteq> o' \<Longrightarrow> safe_closers b a o'' ys"
  by (auto simp: safe_closers_def split: if_splits)

subsection \<open>Bridges by their stage\<close>

text \<open>\<open>held f bs\<close> is the union over the bridges of what \<open>f\<close> says a bridge holds at its stage.\<close>

definition held :: "(nat \<Rightarrow> 'a \<Rightarrow> closer set) \<Rightarrow> 'a list \<Rightarrow> closer set" where
  "held f bs = (\<Union>i \<in> {..<length bs}. f i (bs ! i))"

fun owner :: "closer \<Rightarrow> nat" where
  "owner (CConn i) = i"
| "owner (CStream i) = i"

definition own_only :: "(nat \<Rightarrow> 'a \<Rightarrow> closer set) \<Rightarrow> bool" where
  "own_only f \<longleftrightarrow> (\<forall>i s. \<forall>x \<in> f i s. owner x = i)"

lemma held_update:
  assumes "own_only f" "i < length bs"
  shows "held f (bs[i := s]) = {x \<in> held f bs. owner x \<noteq> i} \<union> f i s"
  using assms by (auto simp: held_def own_only_def nth_list_update split: if_splits)

lemma held_at: "own_only f \<Longrightarrow> i < length bs \<Longrightarrow> x \<in> held f bs \<Longrightarrow> owner x = i \<Longrightarrow> x \<in> f i (bs ! i)"
  by (auto simp: held_def own_only_def)

lemma held_append:
  "own_only f \<Longrightarrow> held f (bs @ [s]) = held f bs \<union> f (length bs) s"
  by (auto simp: held_def nth_append lessThan_Suc split: if_splits)

lemma held_grows:
  assumes "own_only f" "i < length bs" "f i (bs ! i) \<subseteq> f i s" shows "held f bs \<subseteq> held f (bs[i := s])"
  using held_update [OF assms(1,2)] held_at [OF assms(1,2)] assms(3) by blast

lemma held_adds:
  assumes "own_only f" "i < length bs" "f i s \<subseteq> f i (bs ! i) \<union> xs" shows "held f (bs[i := s]) \<subseteq> held f bs \<union> xs"
  using held_update [OF assms(1,2)] assms(2,3) by (auto simp: held_def)

lemma held_bound: "own_only f \<Longrightarrow> x \<in> held f bs \<Longrightarrow> owner x < length bs"
  by (auto simp: held_def own_only_def)

lemma held_I: "i < length bs \<Longrightarrow> x \<in> f i (bs ! i) \<Longrightarrow> x \<in> held f bs"
  by (auto simp: held_def)

definition owned :: "nat \<Rightarrow> stage \<Rightarrow> closer set" where
  "owned i s =
     (case s of
        Opening \<Rightarrow> {CConn i}
      | AddConn \<Rightarrow> {CConn i, CStream i}
      | AddStream \<Rightarrow> {CConn i, CStream i}
      | Copying \<Rightarrow> {CConn i, CStream i}
      | _ \<Rightarrow> {})"

definition registered :: "nat \<Rightarrow> stage \<Rightarrow> closer set" where
  "registered i s = (case s of AddStream \<Rightarrow> {CConn i} | Copying \<Rightarrow> {CConn i, CStream i} | _ \<Rightarrow> {})"

lemma own_only_forward [simp]: "own_only owned" "own_only registered"
  by (auto simp: own_only_def owned_def registered_def split: stage.splits)

definition forward_inv :: "forward \<Rightarrow> bool" where
  "forward_inv f \<longleftrightarrow> fw_opened f \<subseteq> held owned (fw_bridges f) \<and>
     safe_closers (fw_closed f) (fw_active f) (fw_opened f) (held registered (fw_bridges f))"

lemma stage_frame [simp]:
  "fw_opened (set_stage i s f) = fw_opened f" "fw_closed (set_stage i s f) = fw_closed f"
  "fw_active (set_stage i s f) = fw_active f" "fw_bridges (set_stage i s f) = (fw_bridges f)[i := s]"
  by (simp_all add: set_stage_def)

lemma active_frame [simp]:
  "fw_bridges (fw_addActive x f) = fw_bridges f" "fw_bridges (fw_removeActive x f) = fw_bridges f"
  "fw_bridges (fw_Close f) = fw_bridges f"
  by (simp_all add: fw_addActive_def fw_removeActive_def fw_Close_def Let_def)

lemma forward_bridge_inv:
  assumes "forward_inv f" "i < length (fw_bridges f)"
  shows "forward_inv (handleConn_step i ok f)"
proof -
  let ?bs = "fw_bridges f"
  have o: "fw_opened f \<subseteq> held owned ?bs"
    and s: "safe_closers (fw_closed f) (fw_active f) (fw_opened f) (held registered ?bs)"
    using assms(1) by (auto simp: forward_inv_def)
  note at = held_at [OF own_only_forward(1) assms(2)] held_at [OF own_only_forward(2) assms(2)]
  note upd = held_update [OF own_only_forward(1) assms(2)] held_update [OF own_only_forward(2) assms(2)]
  show ?thesis
  proof (cases "?bs ! i")
    case AddConn
    from fw.safe_add [OF s, of "CConn i"] show ?thesis
      using AddConn o fw.opened_shrinks(1) [of "CConn i" f]
        held_grows [OF own_only_forward(1) assms(2), of AddStream]
        held_adds [OF own_only_forward(2) assms(2), of AddStream "{CConn i}"]
      by (auto simp: forward_inv_def handleConn_step_def owned_def [of i] registered_def [of i] elim!: safe_mono)
  next
    case AddStream
    from fw.safe_add [OF s, of "CStream i"] show ?thesis
      using AddStream o fw.opened_shrinks(1) [of "CStream i" f]
        held_grows [OF own_only_forward(1) assms(2), of Copying]
        held_adds [OF own_only_forward(2) assms(2), of Copying "{CStream i}"]
      by (auto simp: forward_inv_def handleConn_step_def owned_def [of i] registered_def [of i] elim!: safe_mono)
  next
    case Opening
    then show ?thesis
      using o s at by (auto simp: forward_inv_def handleConn_step_def upd owned_def [of i] registered_def [of i]
          safe_closers_def split: if_splits)
  next
    case Copying
    then show ?thesis
      using o s at by (auto simp: forward_inv_def handleConn_step_def upd owned_def [of i] registered_def [of i]
          safe_closers_def split: if_splits)
  next
    case RemoveStream
    then show ?thesis
      using o s at by (auto simp: forward_inv_def handleConn_step_def upd owned_def [of i] registered_def [of i]
          fw_removeActive_def safe_closers_def split: if_splits)
  next
    case RemoveConn
    then show ?thesis
      using o s at by (auto simp: forward_inv_def handleConn_step_def upd owned_def [of i] registered_def [of i]
          fw_removeActive_def safe_closers_def split: if_splits)
  next
    case Finished
    then show ?thesis using assms(1) by (simp add: handleConn_step_def)
  qed
qed

lemma forward_step_inv:
  assumes "forward_inv f" "forward_step e f = Some (x, f')"
  shows "forward_inv f'"
proof (cases e)
  case FwAccept
  with assms held_bound [OF own_only_forward(2), of "CConn (length (fw_bridges f))" "fw_bridges f"] show ?thesis
    by (auto simp: forward_inv_def held_append owned_def [of "length (fw_bridges f)"]
        registered_def [of "length (fw_bridges f)"] safe_closers_def split: if_splits)
next
  case (FwBridge i ok)
  with assms show ?thesis by (auto split: if_splits intro: forward_bridge_inv)
next
  case FwCloseEv
  with assms fw.safe_close [of f] fw.opened_shrinks(3) [of f] show ?thesis
    by (auto simp: forward_inv_def)
next
  case (FwAcceptError r)
  with assms show ?thesis by (auto simp: forward_inv_def acceptLoop_end_def split: if_splits)
next
  case FwDone
  with assms show ?thesis by (auto simp: forward_inv_def split: option.splits if_splits)
qed

interpretation fw_session: machine forward_step forward_inv
  by unfold_locales (rule forward_step_inv)

lemma forward_inv_new: "forward_inv new_forward"
  by (simp add: forward_inv_def new_forward_def safe_closers_def held_def)

lemma forward_close_sticks:
  assumes "run forward_step es f = Some (xs, f')"
  shows "(fw_closed f \<or> FwCloseEv \<in> set es \<longrightarrow> fw_closed f') \<and> (fw_closed f \<longrightarrow> \<not> fw_listening f \<longrightarrow> \<not> fw_listening f')
    \<and> (\<not> fw_closed f \<longrightarrow> FwCloseEv \<in> set es \<longrightarrow> \<not> fw_listening f')"
  using assms
proof (induction es arbitrary: f xs)
  case Nil
  then show ?case by simp
next
  case (Cons e es)
  then obtain g ys where g: "forward_step e f = Some ((), g)" "run forward_step es g = Some (ys, f')"
    by (auto simp: run_Cons_Some simp del: run.simps)
  have "fw_closed g = (fw_closed f \<or> e = FwCloseEv)"
    "fw_listening g = (fw_listening f \<and> (e = FwCloseEv \<longrightarrow> fw_closed f))"
    using g(1) by (cases e; auto simp: handleConn_step_def set_stage_def fw_addActive_def fw_removeActive_def
        fw_Close_def Let_def acceptLoop_end_def split: if_splits stage.splits option.splits)+
  with Cons.IH [OF g(2)] show ?case by auto
qed

text \<open>C15: however accepting, the goroutines of the bridges and \<open>Close\<close> are interleaved, every open connection
  and stream of a forwarding session belongs to a bridge that is still at work, so nothing is left open when the bridges
  have finished; and after \<open>Close\<close> the listener is closed and every bridge that is copying has both its ends closed,
  so its copies end.\<close>

theorem forward_close_ends_bridges:
  assumes "run forward_step es new_forward = Some (xs, f)"
  shows "(\<forall>x \<in> fw_opened f. \<exists>i < length (fw_bridges f). x \<in> {CConn i, CStream i} \<and> fw_bridges f ! i \<noteq> Finished) \<and>
    (FwCloseEv \<in> set es \<longrightarrow> fw_closed f \<and> \<not> fw_listening f \<and>
      (\<forall>i < length (fw_bridges f). fw_bridges f ! i = Copying \<longrightarrow> CConn i \<notin> fw_opened f \<and> CStream i \<notin> fw_opened f))"
proof -
  have inv: "forward_inv f" by (rule fw_session.run_invar [OF forward_inv_new assms])
  then have "\<forall>x \<in> fw_opened f. \<exists>i < length (fw_bridges f). x \<in> {CConn i, CStream i} \<and> fw_bridges f ! i \<noteq> Finished"
    by (auto simp: forward_inv_def held_def owned_def dest!: subsetD split: stage.splits)
  moreover have "CConn i \<notin> fw_opened f \<and> CStream i \<notin> fw_opened f"
    if "fw_closed f" "i < length (fw_bridges f)" "fw_bridges f ! i = Copying" for i
  proof -
    have "{CConn i, CStream i} \<subseteq> held registered (fw_bridges f)"
      using that(2,3) by (auto intro: held_I [of i] simp: registered_def)
    with inv that(1) show ?thesis by (auto simp: forward_inv_def safe_closers_def)
  qed
  ultimately show ?thesis using forward_close_sticks [OF assms] by (auto simp: new_forward_def)
qed

theorem forward_close_ends_bridges_witness:
  "\<exists>xs f. run forward_step [FwAccept, FwBridge 0 True, FwBridge 0 True, FwCloseEv, FwBridge 0 True] new_forward = Some (xs, f) \<and>
     fw_bridges f = [Copying] \<and> CConn 0 \<notin> fw_opened f \<and> CStream 0 \<notin> fw_opened f"
proof -
  let ?es = "[FwAccept, FwBridge 0 True, FwBridge 0 True, FwCloseEv, FwBridge 0 True]"
  obtain xs f where "run forward_step ?es new_forward = Some (xs, f)" "fw_bridges f = [Copying]"
    by (simp add: new_forward_def handleConn_step_def set_stage_def fw_addActive_def fw_Close_def)
  with forward_close_ends_bridges [of ?es xs f] show ?thesis by auto
qed

subsection \<open>Reverse sessions\<close>

definition rowned :: "nat \<Rightarrow> rstage \<Rightarrow> closer set" where
  "rowned i s =
     (case s of RDialing \<Rightarrow> {CStream i} | RAdding \<Rightarrow> {CConn i, CStream i} | RCopying \<Rightarrow> {CConn i, CStream i} | _ \<Rightarrow> {})"

definition rregistered :: "nat \<Rightarrow> rstage \<Rightarrow> closer set" where
  "rregistered i s = (case s of RCopying \<Rightarrow> {CConn i, CStream i} | _ \<Rightarrow> {})"

definition counted :: "rstage \<Rightarrow> bool" where
  "counted s \<longleftrightarrow> s = RCopying \<or> s = RRemoving"

definition bridge_count :: "rstage list \<Rightarrow> nat" where
  "bridge_count bs = length (filter counted bs)"

lemma own_only_reverse [simp]: "own_only rowned" "own_only rregistered"
  by (auto simp: own_only_def rowned_def rregistered_def split: rstage.splits)

definition reverse_inv :: "reverse \<Rightarrow> bool" where
  "reverse_inv r \<longleftrightarrow> rv_opened r \<subseteq> held rowned (rv_bridges r) \<and>
     safe_closers (rv_closed r) (rv_active r) (rv_opened r) (held rregistered (rv_bridges r)) \<and>
     (\<not> rv_closed r \<longrightarrow> rv_activeBridges r = bridge_count (rv_bridges r) \<and>
       (rv_notes r \<noteq> [] \<longrightarrow> rv_callbacks r \<longrightarrow> last (rv_notes r) = rv_activeBridges r))"

lemma bridge_count_simps [simp]:
  "bridge_count (a @ b) = bridge_count a + bridge_count b"
  "bridge_count (s # b) = (if counted s then 1 else 0) + bridge_count b"
  by (simp_all add: bridge_count_def)

lemma bridge_count_update:
  assumes "i < length bs"
  shows "bridge_count (bs[i := s]) + (if counted (bs ! i) then 1 else 0) = bridge_count bs + (if counted s then 1 else 0)"
proof -
  from arg_cong [OF id_take_nth_drop [OF assms], of bridge_count]
  have "bridge_count bs = bridge_count (take i bs) + ((if counted (bs ! i) then 1 else 0) + bridge_count (drop (Suc i) bs))"
    by (simp only: bridge_count_simps)
  then show ?thesis using assms by (simp add: upd_conv_take_nth_drop)
qed

lemma rstage_frame [simp]:
  "rv_opened (set_rstage i s r) = rv_opened r" "rv_closed (set_rstage i s r) = rv_closed r"
  "rv_active (set_rstage i s r) = rv_active r" "rv_bridges (set_rstage i s r) = (rv_bridges r)[i := s]"
  "rv_activeBridges (set_rstage i s r) = rv_activeBridges r" "rv_notes (set_rstage i s r) = rv_notes r"
  "rv_callbacks (set_rstage i s r) = rv_callbacks r"
  by (simp_all add: set_rstage_def)

lemma bridge_frame [simp]:
  "rv_bridges (addBridge xs r) = rv_bridges r" "rv_bridges (removeBridge xs r) = rv_bridges r"
  "rv_bridges (rv_Close r) = rv_bridges r"
  by (simp_all add: addBridge_def removeBridge_def notifyActive_def rv_Close_def Let_def)

lemma bridge_counts:
  "\<not> rv_closed r \<Longrightarrow> rv_activeBridges (addBridge xs r) = rv_activeBridges r + 1"
  "rv_activeBridges (removeBridge xs r) = rv_activeBridges r - 1"
  "\<not> rv_closed r \<Longrightarrow> rv_callbacks (addBridge xs r) \<Longrightarrow> last (rv_notes (addBridge xs r)) = rv_activeBridges (addBridge xs r)"
  "rv_callbacks (removeBridge xs r) \<Longrightarrow> last (rv_notes (removeBridge xs r)) = rv_activeBridges (removeBridge xs r)"
  by (auto simp: addBridge_def removeBridge_def notifyActive_def Let_def)

lemma reverse_bridge_inv:
  assumes "reverse_inv r" "i < length (rv_bridges r)"
  shows "reverse_inv (handleStream_step i ok r)"
proof -
  let ?bs = "rv_bridges r"
  have o: "rv_opened r \<subseteq> held rowned ?bs"
    and s: "safe_closers (rv_closed r) (rv_active r) (rv_opened r) (held rregistered ?bs)"
    and c: "\<not> rv_closed r \<Longrightarrow> rv_activeBridges r = bridge_count ?bs"
    using assms(1) by (auto simp: reverse_inv_def)
  note at = held_at [OF own_only_reverse(1) assms(2)] held_at [OF own_only_reverse(2) assms(2)]
  note upd = held_update [OF own_only_reverse(1) assms(2)] held_update [OF own_only_reverse(2) assms(2)]
  note cnt = bridge_count_update [OF assms(2)]
  show ?thesis
  proof (cases "?bs ! i")
    case RDialing
    then show ?thesis
      using assms(1) o s c at cnt [of RAdding] cnt [of RFinished]
      by (auto simp: reverse_inv_def handleStream_step_def upd rowned_def [of i] rregistered_def [of i]
          safe_closers_def counted_def split: if_splits)
  next
    case RAdding
    have sub: "held rowned ?bs \<subseteq> held rowned (?bs[i := RCopying])"
      "held rregistered (?bs[i := RCopying]) \<subseteq> held rregistered ?bs \<union> {CStream i, CConn i}"
      using RAdding held_grows [OF own_only_reverse(1) assms(2), of RCopying]
        held_adds [OF own_only_reverse(2) assms(2), of RCopying "{CStream i, CConn i}"]
      by (auto simp: rowned_def [of i] rregistered_def [of i])
    note safe = safe_mono [OF rv.safe_add [OF s, of "{CStream i, CConn i}"] sub(2) subset_refl]
    have "rv_opened (addBridge {CStream i, CConn i} r) \<subseteq> held rowned (?bs[i := RCopying])"
      using rv.opened_shrinks(1) o sub(1) by blast
    moreover have "rv_closed (addBridge {CStream i, CConn i} r) = rv_closed r"
      by (simp add: addBridge_def notifyActive_def Let_def)
    ultimately show ?thesis
      using RAdding safe c cnt [of RCopying] bridge_counts(1,3) [of r "{CStream i, CConn i}"]
      by (auto simp: reverse_inv_def handleStream_step_def counted_def)
  next
    case RCopying
    then show ?thesis
      using assms(1) o s c at cnt [of RRemoving]
      by (auto simp: reverse_inv_def handleStream_step_def upd rowned_def [of i] rregistered_def [of i]
          safe_closers_def counted_def split: if_splits)
  next
    case RRemoving
    have "held rregistered (?bs[i := RFinished]) \<inter> {CStream i, CConn i} = {}"
      by (auto simp: upd rregistered_def [of i])
    moreover have "safe_closers (rv_closed r) (rv_active r) (rv_opened r) (held rregistered (?bs[i := RFinished]))"
      using s by (rule safe_mono) (auto simp: upd rregistered_def [of i])
    ultimately have safe: "safe_closers (rv_closed r) (rv_active (removeBridge {CStream i, CConn i} r)) (rv_opened r)
        (held rregistered (?bs[i := RFinished]))"
      using rv.remove_effect [of "{CStream i, CConn i}" r] by (auto simp: safe_closers_def)
    have "rv_opened r \<subseteq> held rowned (?bs[i := RFinished])"
      using o RRemoving held_grows [OF own_only_reverse(1) assms(2), of RFinished] by (auto simp: rowned_def [of i])
    with safe show ?thesis
      using RRemoving c cnt [of RFinished] rv.remove_effect [of "{CStream i, CConn i}" r]
        bridge_counts(2,4) [of "{CStream i, CConn i}" r] bridge_counts(2) [of "{CStream i, CConn i}" r]
      by (auto simp: reverse_inv_def handleStream_step_def counted_def)
  next
    case RFinished
    then show ?thesis using assms(1) by (simp add: handleStream_step_def)
  qed
qed

lemma reverse_step_inv:
  assumes "reverse_inv r" "reverse_step e r = Some (x, r')"
  shows "reverse_inv r'"
proof (cases e)
  case RvOpen
  with assms held_bound [OF own_only_reverse(2), of "CStream (length (rv_bridges r))" "rv_bridges r"] show ?thesis
    by (auto simp: reverse_inv_def startBridge_def held_append rowned_def [of "length (rv_bridges r)"]
        rregistered_def [of "length (rv_bridges r)"] safe_closers_def bridge_count_def counted_def split: if_splits)
next
  case (RvBridge i ok)
  with assms show ?thesis by (auto split: if_splits intro: reverse_bridge_inv)
next
  case RvCloseEv
  with assms rv.safe_close [of r] rv.opened_shrinks(3) [of r] rv.close_effect(1) [of r] show ?thesis
    by (auto simp: reverse_inv_def)
next
  case RvCleanup
  with assms show ?thesis by (auto simp: reverse_inv_def rv_Close_cleanup_def split: if_splits prod.splits)
next
  case RvCloseEnd
  with assms show ?thesis by (auto simp: reverse_inv_def rv_Close_end_def split: option.splits if_splits)
qed

interpretation rv_session: machine reverse_step reverse_inv
  by unfold_locales (rule reverse_step_inv)

lemma reverse_inv_new: "reverse_inv (new_reverse remote local cb c)"
  by (simp add: reverse_inv_def new_reverse_def safe_closers_def held_def bridge_count_def)


definition sample_remote :: ReverseDeviceEndpoint where "sample_remote = \<lparr>rd_service = ''tcp:1'', rd_port = 1\<rparr>"
definition sample_host :: ReverseHostEndpoint where
  "sample_host = \<lparr>rh_service = ''tcp:2'', rh_addr = ''127.0.0.1:2'', rh_port = 2\<rparr>"


section \<open>Endpoints and registration\<close>

lemma tcp_service_parse:
  assumes "1 \<le> port" "port \<le> 65535" "TrimSpace (tcp_service port) = tcp_service port"
  shows "parse_tcp (tcp_service port) = Inr port"
proof -
  have "Cut (''tcp'' @ '':'' @ Itoa port) '':'' = Some (''tcp'', Itoa port)"
    by (rule Cut_append) auto
  moreover have "Atoi (Itoa port) = Inr port" using assms(1,2) by (intro Atoi_Itoa) auto
  ultimately show ?thesis using assms(3) by (simp add: parse_tcp_def tcp_service_def)
qed

lemma ReverseTCP_outcome:
  assumes "rd_service remote \<noteq> []" "rh_service local \<noteq> []" "rh_addr local \<noteq> []" "dv_answers d = Inr (r, sc) # as"
  shows "ReverseTCPWithOptions (Some d) None None remote local norebind cb =
    (let c = Some (d\<lparr>dv_answers := as, dv_log := dv_log d @ [(''reverse:'' @
        (if norebind then ''forward:norebind:'' else ''forward:'') @ rd_service remote @ '';'' @ rh_service local, [])]\<rparr>) in
     (if rd_end r \<noteq> EOF then Inl (ReverseRead (rd_end r))
      else if rd_data r \<noteq> [] then Inl (ReverseRefused (TrimSpace (string_of_bytes (rd_data r))))
      else Inr (new_reverse remote local cb c), c))"
  using assms
  by (auto simp: ReverseTCPWithOptions_def registerReverse_def reverse_request_def read_all_def close_service_def Let_def)

end
