(* ===== verification/Auth.thy ===== *)
theory Auth
  imports GoIO GoStrings
begin

text \<open>
  Host credentials, \<open>auth/auth.go\<close>: the Android encoding of an RSA public key (modulus, Montgomery
  constants, exponent), its base64 payload, and the checks of a credential. Numbers are unbounded
  (\<open>math/big\<close>). The PEM and X.509 decoders and the RSA library's validation and signing are
  arguments: the source only passes their results on.
\<close>

section \<open>Big numbers\<close>

fun BitLen :: "nat \<Rightarrow> nat" where
  "BitLen n = (if n = 0 then 0 else Suc (BitLen (n div 2)))"

declare BitLen.simps [simp del]

fun le_bytes :: "nat \<Rightarrow> bytes" where
  "le_bytes n = (if n = 0 then [] else word_of_nat (n mod 256) # le_bytes (n div 256))"

declare le_bytes.simps [simp del]

text \<open>\<open>(*big.Int).Bytes\<close>: big-endian, without leading zeros.\<close>

definition big_Bytes :: "nat \<Rightarrow> bytes" where
  "big_Bytes n = rev (le_bytes n)"

text \<open>\<open>(*big.Int).ModInverse\<close>: \<open>nil\<close> when the numbers are not relatively prime.\<close>

definition ModInverse :: "nat \<Rightarrow> nat \<Rightarrow> nat option" where
  "ModInverse g n = (if gcd g n = 1 then Some (nat (fst (bezw g n) mod int n)) else None)"

section \<open>The key encoding\<close>

definition androidRSAModulusSizeWords :: nat where "androidRSAModulusSizeWords = 64"
definition androidRSAModulusSizeBytes :: nat where
  "androidRSAModulusSizeBytes = androidRSAModulusSizeWords * 4"
definition defaultPublicKeyComment :: string where "defaultPublicKeyComment = ''adb-go''"

definition littleEndianFixed :: "nat \<Rightarrow> nat \<Rightarrow> bytes" where
  "littleEndianFixed n sz =
     (let be = big_Bytes n in
      map (\<lambda>i. if i < length be then be ! (length be - 1 - i) else 0) [0..<sz])"

definition montgomeryRR :: "nat \<Rightarrow> nat \<Rightarrow> bytes" where
  "montgomeryRR n modulusSizeBytes =
     littleEndianFixed (2 ^ (modulusSizeBytes * 8 * 2) mod n) modulusSizeBytes"

definition n0inv :: "nat \<Rightarrow> u32 option" where
  "n0inv n =
     (case ModInverse (n mod 2 ^ 32) (2 ^ 32) of
        None \<Rightarrow> None
      | Some i \<Rightarrow> Some (0 - word_of_nat i))"

datatype auth_error =
    KeyPathEmpty
  | ReadKey io_error
  | NotPEM
  | Encrypted
  | ParsePKCS1 io_error
  | ParsePKCS8 io_error
  | NotRSA
  | UnsupportedPEM string
  | KeyNil
  | KeyInvalid io_error
  | KeySize nat
  | ExponentNotPositive
  | CommentControlChar
  | NotInvertible

record rsa_public =
  pub_N :: nat
  pub_E :: int

definition encodeAndroidRSAPublicKey :: "rsa_public option \<Rightarrow> auth_error + bytes" where
  "encodeAndroidRSAPublicKey key =
     (case key of
        None \<Rightarrow> Inl KeyNil
      | Some k \<Rightarrow>
          if BitLen (pub_N k) \<noteq> androidRSAModulusSizeBytes * 8 then Inl (KeySize (BitLen (pub_N k)))
          else
            let modulus = littleEndianFixed (pub_N k) androidRSAModulusSizeBytes;
                rr = montgomeryRR (pub_N k) androidRSAModulusSizeBytes
            in case n0inv (pub_N k) of
                None \<Rightarrow> Inl NotInvertible
              | Some n0 \<Rightarrow>
                  Inr (PutUint32 (word_of_nat androidRSAModulusSizeWords) @ PutUint32 n0 @ modulus @ rr @
                       PutUint32 (word_of_int (pub_E k))))"

section \<open>base64\<close>

definition base64_alphabet :: string where
  "base64_alphabet = ''ABCDEFGHIJKLMNOPQRSTUVWXYZabcdefghijklmnopqrstuvwxyz0123456789+/''"

definition b64 :: "nat \<Rightarrow> char" where
  "b64 i = base64_alphabet ! (i mod 64)"

fun base64_encode :: "nat list \<Rightarrow> string" where
  "base64_encode (a # b # c # rest) =
     b64 (a div 4) # b64 (a mod 4 * 16 + b div 16) # b64 (b mod 16 * 4 + c div 64) # b64 (c mod 64)
     # base64_encode rest"
| "base64_encode [a, b] = [b64 (a div 4), b64 (a mod 4 * 16 + b div 16), b64 (b mod 16 * 4), CHR ''='']"
| "base64_encode [a] = [b64 (a div 4), b64 (a mod 4 * 16), CHR ''='', CHR ''='']"
| "base64_encode [] = []"

definition EncodeToString :: "bytes \<Rightarrow> string" where
  "EncodeToString b = base64_encode (map unat b)"

definition encodePublicKeyPayload :: "rsa_public option \<Rightarrow> string \<Rightarrow> auth_error + bytes" where
  "encodePublicKeyPayload key comment =
     (case encodeAndroidRSAPublicKey key of
        Inl e \<Rightarrow> Inl e
      | Inr adbKey \<Rightarrow>
          Inr (bytes_of_string (EncodeToString adbKey) @ [0x20] @ bytes_of_string comment @ [0]))"

section \<open>Credentials\<close>

text \<open>An RSA private key: its public part, what \<open>key.Validate()\<close> reports, and its signatures.\<close>

record rsa_private =
  prv_pub :: rsa_public
  prv_validate :: "io_error option"
  prv_sign :: "bytes \<Rightarrow> io_error + bytes"

record Credential =
  cr_privateKey :: rsa_private
  cr_publicKeyPayload :: bytes

definition NewCredentialWithComment :: "rsa_private option \<Rightarrow> string \<Rightarrow> auth_error + Credential" where
  "NewCredentialWithComment key comment0 =
     (case key of
        None \<Rightarrow> Inl KeyNil
      | Some k \<Rightarrow>
          (case prv_validate k of
             Some e \<Rightarrow> Inl (KeyInvalid e)
           | None \<Rightarrow>
               if BitLen (pub_N (prv_pub k)) \<noteq> androidRSAModulusSizeBytes * 8
               then Inl (KeySize (BitLen (pub_N (prv_pub k))))
               else if pub_E (prv_pub k) \<le> 0 then Inl ExponentNotPositive
               else if ContainsAny comment0 [CHR 0x00, CHR 0x0D, CHR 0x0A] then Inl CommentControlChar
               else
                 let comment = (if TrimSpace comment0 = [] then defaultPublicKeyComment else TrimSpace comment0)
                 in case encodePublicKeyPayload (Some (prv_pub k)) comment of
                     Inl e \<Rightarrow> Inl e
                   | Inr payload \<Rightarrow> Inr \<lparr>cr_privateKey = k, cr_publicKeyPayload = payload\<rparr>))"

definition NewCredential :: "rsa_private option \<Rightarrow> auth_error + Credential" where
  "NewCredential key = NewCredentialWithComment key defaultPublicKeyComment"

text \<open>The decoders: \<open>pem.Decode\<close> gives the block's type and bytes, PKCS#8 may hold a key that is not RSA.\<close>

record decoders =
  pem_Decode :: "string \<Rightarrow> (string \<times> bytes) option"
  ParsePKCS1PrivateKey :: "bytes \<Rightarrow> io_error + rsa_private"
  ParsePKCS8PrivateKey :: "bytes \<Rightarrow> io_error + rsa_private option"

fun contains_text :: "string \<Rightarrow> string \<Rightarrow> bool" where
  "contains_text [] p = (p = [])"
| "contains_text (c # s) p = (HasPrefix (c # s) p \<or> contains_text s p)"

definition ParsePrivateKey :: "decoders \<Rightarrow> string \<Rightarrow> auth_error + Credential" where
  "ParsePrivateKey dec data =
     (case pem_Decode dec (TrimSpace data) of
        None \<Rightarrow> Inl NotPEM
      | Some (typ, der) \<Rightarrow>
          if contains_text typ ''ENCRYPTED'' then Inl Encrypted
          else if typ = ''RSA PRIVATE KEY'' then
            (case ParsePKCS1PrivateKey dec der of
               Inl e \<Rightarrow> Inl (ParsePKCS1 e)
             | Inr key \<Rightarrow> NewCredential (Some key))
          else if typ = ''PRIVATE KEY'' then
            (case ParsePKCS8PrivateKey dec der of
               Inl e \<Rightarrow> Inl (ParsePKCS8 e)
             | Inr None \<Rightarrow> Inl NotRSA
             | Inr (Some key) \<Rightarrow> NewCredential (Some key))
          else Inl (UnsupportedPEM typ))"

definition LoadPrivateKey :: "decoders \<Rightarrow> (string \<Rightarrow> io_error + string) \<Rightarrow> string \<Rightarrow> auth_error + Credential" where
  "LoadPrivateKey dec readFile path0 =
     (let path = TrimSpace path0 in
      if path = [] then Inl KeyPathEmpty
      else case readFile path of
          Inl e \<Rightarrow> Inl (ReadKey e)
        | Inr data \<Rightarrow> ParsePrivateKey dec data)"

section \<open>Numbers and bytes\<close>

definition le_value :: "bytes \<Rightarrow> nat" where
  "le_value b = foldr (\<lambda>x acc. unat x + 256 * acc) b 0"

lemma le_value_simps [simp]: "le_value [] = 0" "le_value (x # b) = unat x + 256 * le_value b"
  by (simp_all add: le_value_def)

lemma le_value_append: "le_value (a @ b) = le_value a + 256 ^ length a * le_value b"
  by (induction a) (simp_all add: algebra_simps)

lemma le_value_zeros [simp]: "le_value (replicate k 0) = 0"
  by (induction k) simp_all

lemma le_value_le_bytes [simp]: "le_value (le_bytes n) = n"
proof (induction n rule: le_bytes.induct)
  case (1 n)
  show ?case
  proof (cases "n = 0")
    case True
    then show ?thesis by (simp add: le_bytes.simps)
  next
    case False
    have "unat (word_of_nat (n mod 256) :: byte) = n mod 256" by (simp add: unat_of_nat)
    with 1 False show ?thesis by (subst le_bytes.simps) simp
  qed
qed

lemma length_le_bytes: "n < 256 ^ k \<Longrightarrow> length (le_bytes n) \<le> k"
proof (induction k arbitrary: n)
  case 0
  then show ?case by (simp add: le_bytes.simps)
next
  case (Suc k)
  then have "n div 256 < 256 ^ k" by (simp add: less_mult_imp_div_less mult.commute)
  with Suc.IH show ?case by (subst le_bytes.simps) simp
qed

lemma littleEndianFixed_pad:
  assumes "n < 256 ^ sz"
  shows "littleEndianFixed n sz = le_bytes n @ replicate (sz - length (le_bytes n)) 0"
proof (rule nth_equalityI)
  show "length (littleEndianFixed n sz) = length (le_bytes n @ replicate (sz - length (le_bytes n)) 0)"
    using length_le_bytes [OF assms] by (simp add: littleEndianFixed_def Let_def)
next
  fix i assume "i < length (littleEndianFixed n sz)"
  then show "littleEndianFixed n sz ! i = (le_bytes n @ replicate (sz - length (le_bytes n)) 0) ! i"
    by (auto simp: littleEndianFixed_def Let_def big_Bytes_def rev_nth nth_append)
qed

lemma littleEndianFixed_value: "n < 256 ^ sz \<Longrightarrow> le_value (littleEndianFixed n sz) = n"
  by (simp add: littleEndianFixed_pad le_value_append)

lemma length_littleEndianFixed [simp]: "length (littleEndianFixed n sz) = sz"
  by (simp add: littleEndianFixed_def Let_def)

lemma BitLen_bounds: "BitLen n = Suc k \<longleftrightarrow> 2 ^ k \<le> n \<and> n < 2 ^ Suc k"
proof (induction k arbitrary: n)
  case 0
  show ?case by (subst BitLen.simps) (auto simp: BitLen.simps [of "n div 2"])
next
  case (Suc k)
  have "BitLen n = Suc (Suc k) \<longleftrightarrow> n \<noteq> 0 \<and> BitLen (n div 2) = Suc k" by (subst BitLen.simps) simp
  also have "\<dots> \<longleftrightarrow> 2 ^ Suc k \<le> n \<and> n < 2 ^ Suc (Suc k)" unfolding Suc by auto
  finally show ?case .
qed

section \<open>The Montgomery constant\<close>

lemma ModInverse_inverse:
  assumes "ModInverse g n = Some i" "0 < n"
  shows "(int i * int g) mod int n = 1 mod int n"
proof -
  from assms have c: "gcd g n = 1" and i: "int i = fst (bezw g n) mod int n"
    by (auto simp: ModInverse_def split: if_splits)
  have "fst (bezw g n) * int g + snd (bezw g n) * int n = 1" using bezw_aux [of g n] c by simp
  then have "(fst (bezw g n) * int g) mod int n = 1 mod int n"
    by (metis mod_mult_self1)
  with i show ?thesis by (simp add: mod_mult_left_eq)
qed

lemma odd_coprime_32: "odd n \<Longrightarrow> gcd (n mod 2 ^ 32) (2 ^ 32) = (1 :: nat)"
proof -
  assume "odd n"
  then have "odd (n mod 2 ^ 32)" by (metis dvd_mod_iff dvd_power zero_less_numeral)
  then have "coprime (n mod 2 ^ 32) (2 ^ 32)" by (simp only: coprime_power_right_iff coprime_right_2_iff_odd simp_thms)
  then show ?thesis by (simp add: coprime_iff_gcd_eq_1)
qed

lemma n0inv_odd:
  assumes "odd n"
  shows "\<exists>v. n0inv n = Some v \<and> v * word_of_nat n = - 1"
proof -
  let ?g = "n mod 2 ^ 32"
  obtain i where i: "ModInverse ?g (2 ^ 32) = Some i"
    using odd_coprime_32 [OF assms] by (simp add: ModInverse_def)
  from ModInverse_inverse [OF this] have "(int i * int ?g) mod 2 ^ 32 = 1 mod 2 ^ 32" by simp
  then have "(word_of_int (int i * int ?g) :: u32) = word_of_int 1"
    by (simp only: word_of_int_eq_iff take_bit_eq_mod) simp
  then have "(word_of_nat i * word_of_nat ?g :: u32) = 1" by simp
  moreover have "(word_of_nat ?g :: u32) = word_of_nat n"
    by (simp add: word_of_nat_eq_iff take_bit_eq_mod)
  ultimately show ?thesis using i by (simp add: n0inv_def)
qed

lemma encode_fields:
  assumes "2 ^ 2047 \<le> pub_N k" "pub_N k < 2 ^ 2048" "n0inv (pub_N k) = Some v"
  shows "encodeAndroidRSAPublicKey (Some k) =
    Inr (PutUint32 64 @ PutUint32 v @ littleEndianFixed (pub_N k) 256 @
      littleEndianFixed (2 ^ 4096 mod pub_N k) 256 @ PutUint32 (word_of_int (pub_E k)))"
proof -
  have "Suc 2047 = 2048" by simp
  with assms(1,2) have "BitLen (pub_N k) = Suc 2047" unfolding BitLen_bounds by metis
  then have "BitLen (pub_N k) = 2048" by simp
  then show ?thesis
    using assms(3) by (simp add: encodeAndroidRSAPublicKey_def androidRSAModulusSizeBytes_def
        androidRSAModulusSizeWords_def montgomeryRR_def)
qed

lemma power_256: "(256 :: nat) ^ 256 = 2 ^ 2048"
proof -
  have "(256 :: nat) ^ 256 = (2 ^ 8) ^ 256" by (rule arg_cong [where f = "\<lambda>x. x ^ 256"]) simp
  also have "\<dots> = 2 ^ (8 * 256)" by (rule power_mult [symmetric])
  also have "8 * 256 = (2048 :: nat)" by simp
  finally show ?thesis .
qed

text \<open>C18: the Android encoding of every odd 2048-bit modulus has 524 bytes and holds the word count 64,
  the constant \<open>n0inv\<close> with \<open>n0inv * N = -1\<close> modulo \<open>2^32\<close>, the modulus, \<open>2^4096 mod N\<close>, both as
  little-endian numbers of 256 bytes, and the exponent.\<close>

theorem android_key_encoding_correct:
  assumes "2 ^ 2047 \<le> pub_N k" "pub_N k < 2 ^ 2048" "odd (pub_N k)"
  shows "\<exists>b. encodeAndroidRSAPublicKey (Some k) = Inr b \<and> length b = 524 \<and> Uint32 b = 64 \<and>
    Uint32 (slice b 4 8) * word_of_nat (pub_N k) = - 1 \<and> le_value (slice b 8 264) = pub_N k \<and>
    le_value (slice b 264 520) = 2 ^ 4096 mod pub_N k \<and> Uint32 (slice b 520 524) = word_of_int (pub_E k)"
proof -
  let ?N = "pub_N k" and ?R = "2 ^ 4096 mod pub_N k"
  obtain v where v: "n0inv ?N = Some v" "v * word_of_nat ?N = - 1" using n0inv_odd [OF assms(3)] by blast
  let ?m = "littleEndianFixed ?N 256" and ?r = "littleEndianFixed ?R 256" and ?e = "PutUint32 (word_of_int (pub_E k))"
  let ?b = "PutUint32 64 @ PutUint32 v @ ?m @ ?r @ ?e"
  have sl: "slice ?b 4 8 = PutUint32 v" "slice ?b 8 264 = ?m" "slice ?b 264 520 = ?r" "slice ?b 520 524 = ?e"
    by (simp_all add: slice_def)
  have N: "?N < 256 ^ 256" unfolding power_256 by (rule assms(2))
  have "?N \<noteq> 0" using assms(3) by (metis even_zero)
  then have "?R < 256 ^ 256" using N by (meson less_trans mod_less_divisor neq0_conv)
  note vals = littleEndianFixed_value [OF N] littleEndianFixed_value [OF this]
  show ?thesis
  proof (intro exI [of _ ?b] conjI)
    show "encodeAndroidRSAPublicKey (Some k) = Inr ?b" by (rule encode_fields [OF assms(1,2) v(1)])
    show "length ?b = 524" by simp
    show "Uint32 ?b = 64" by (rule Uint32_PutUint32)
    show "Uint32 (slice ?b 4 8) * word_of_nat ?N = - 1" unfolding sl Uint32_PutUint32_Nil by (rule v(2))
    show "le_value (slice ?b 8 264) = ?N" "le_value (slice ?b 264 520) = ?R" unfolding sl by (rule vals)+
    show "Uint32 (slice ?b 520 524) = word_of_int (pub_E k)" unfolding sl by (rule Uint32_PutUint32_Nil)
  qed
qed

definition sample_key :: rsa_public where
  "sample_key = \<lparr>pub_N = 2 ^ 2047 + 1, pub_E = 65537\<rparr>"

lemma sample_key_bounds: "2 ^ 2047 \<le> pub_N sample_key" "pub_N sample_key < 2 ^ 2048" "odd (pub_N sample_key)"
proof -
  have "Suc 2047 = 2048" by simp
  moreover have "(1 :: nat) < 2 ^ 2047" by (rule one_less_power) simp_all
  then have "(2 :: nat) ^ 2047 + 1 < 2 ^ Suc 2047" unfolding power_Suc by linarith
  ultimately show "pub_N sample_key < 2 ^ 2048" unfolding sample_key_def rsa_public.select_convs by metis
  show "2 ^ 2047 \<le> pub_N sample_key" unfolding sample_key_def rsa_public.select_convs by (rule le_add1)
  show "odd (pub_N sample_key)" unfolding sample_key_def rsa_public.select_convs
    by (metis even_add even_power even_numeral odd_one zero_less_numeral)
qed

theorem android_key_encoding_correct_witness:
  "\<exists>b. encodeAndroidRSAPublicKey (Some sample_key) = Inr b \<and> length b = 524 \<and>
     le_value (slice b 8 264) = pub_N sample_key"
  using android_key_encoding_correct [OF sample_key_bounds] by blast

section \<open>The payload\<close>

text \<open>A reader of the payload, as on the device: the base64 text up to the first space, then
  the comment up to the terminating NUL.\<close>

fun base64_decode :: "string \<Rightarrow> nat list option" where
  "base64_decode [] = Some []"
| "base64_decode (p # q # r # s # rest) =
     (case (IndexByte base64_alphabet p, IndexByte base64_alphabet q) of
        (Some a, Some b) \<Rightarrow>
          if r = CHR ''='' \<and> s = CHR ''='' \<and> rest = [] then Some [a * 4 + b div 16]
          else (case IndexByte base64_alphabet r of
              None \<Rightarrow> None
            | Some c \<Rightarrow>
                if s = CHR ''='' \<and> rest = [] then Some [a * 4 + b div 16, b mod 16 * 16 + c div 4]
                else (case IndexByte base64_alphabet s of
                    None \<Rightarrow> None
                  | Some d \<Rightarrow>
                      map_option (append [a * 4 + b div 16, b mod 16 * 16 + c div 4, c mod 4 * 64 + d])
                        (base64_decode rest)))
      | _ \<Rightarrow> None)"
| "base64_decode _ = None"

definition read_payload :: "bytes \<Rightarrow> (bytes \<times> string) option" where
  "read_payload b =
     (case Cut (string_of_bytes b) '' '' of
        None \<Rightarrow> None
      | Some (key, rest) \<Rightarrow>
          (case (base64_decode key, Cut rest [CHR 0x00]) of
             (Some ns, Some (comment, [])) \<Rightarrow> Some (map word_of_nat ns, comment)
           | _ \<Rightarrow> None))"

lemma b64_table: "list_all (\<lambda>i. IndexByte base64_alphabet (base64_alphabet ! i) = Some i \<and>
    base64_alphabet ! i \<noteq> CHR ''='' \<and> base64_alphabet ! i \<noteq> CHR '' '') [0..<64]"
  by code_simp

lemma b64_index [simp]:
  "IndexByte base64_alphabet (b64 i) = Some (i mod 64)" "b64 i \<noteq> CHR ''=''" "b64 i \<noteq> CHR '' ''"
  using b64_table by (auto simp: b64_def list_all_iff)

lemma join_div_mod:
  assumes "(y :: nat) < n" shows "(x * n + y) div n = x" "(x * n + y) mod n = y"
  using assms by simp_all

lemma join_less: "(x :: nat) < m \<Longrightarrow> y < n \<Longrightarrow> x * n + y < m * n"
  by (metis add.commute less_le_trans mult_le_mono1 Suc_leI mult_Suc nat_add_left_cancel_less)

lemma byte_div: "(a :: nat) < 256 \<Longrightarrow> a div 4 < 64" "(a :: nat) < 256 \<Longrightarrow> a div 16 < 16" "(a :: nat) < 256 \<Longrightarrow> a div 64 < 4"
  by simp_all

lemma b64_sextets:
  assumes "(a :: nat) < 256" "b < 256" "c < 256"
  shows "a div 4 mod 64 = a div 4" "(a mod 4 * 16 + b div 16) mod 64 = a mod 4 * 16 + b div 16"
    "(b mod 16 * 4 + c div 64) mod 64 = b mod 16 * 4 + c div 64"
  using byte_div [of a] byte_div [of b] byte_div [of c] assms
    join_less [of "a mod 4" 4 "b div 16" 16] join_less [of "b mod 16" 16 "c div 64" 4] by simp_all

lemma b64_octets:
  assumes "(a :: nat) < 256" "b < 256" "c < 256"
  shows "a div 4 * 4 + (a mod 4 * 16 + b div 16) div 16 = a"
    "(a mod 4 * 16 + b div 16) mod 16 * 16 + (b mod 16 * 4 + c div 64) div 4 = b"
    "(b mod 16 * 4 + c div 64) mod 4 * 64 + c mod 64 = c"
proof -
  have d: "b div 16 < 16" "c div 64 < 4" using byte_div assms by auto
  show "a div 4 * 4 + (a mod 4 * 16 + b div 16) div 16 = a"
    unfolding join_div_mod [OF d(1)] by (rule div_mult_mod_eq)
  show "(a mod 4 * 16 + b div 16) mod 16 * 16 + (b mod 16 * 4 + c div 64) div 4 = b"
    unfolding join_div_mod [OF d(1)] join_div_mod [OF d(2)] by (rule div_mult_mod_eq)
  show "(b mod 16 * 4 + c div 64) mod 4 * 64 + c mod 64 = c"
    unfolding join_div_mod [OF d(2)] by (rule div_mult_mod_eq)
qed

lemma base64_roundtrip: "list_all (\<lambda>x. x < 256) xs \<Longrightarrow> base64_decode (base64_encode xs) = Some xs"
proof (induction xs rule: base64_encode.induct)
  case (1 a b c rest)
  then have "a < 256" "b < 256" "c < 256" by simp_all
  note f = b64_sextets [OF this] b64_octets [OF this]
  from 1 byte_div [of b] byte_div [of c] show ?case by (simp add: f)
next
  case (2 a b)
  then have "a < 256" "b < 256" "(0 :: nat) < 256" by simp_all
  note f = b64_sextets [OF this] b64_octets [OF this]
  from f show ?case by simp
next
  case (3 a)
  then have "a < 256" "(0 :: nat) < 256" "(0 :: nat) < 256" by simp_all
  note f = b64_sextets [OF this] b64_octets [OF this]
  from f show ?case by simp
next
  case 4
  then show ?case by simp
qed

lemma base64_no_space: "CHR '' '' \<notin> set (base64_encode xs)"
  by (induction xs rule: base64_encode.induct) (auto dest: b64_index(3) [THEN notE, OF sym])

lemma unat_bytes [simp]: "map (word_of_nat \<circ> unat) (b :: bytes) = b" "list_all (\<lambda>x. x < 256) (map unat (b :: bytes))"
  using unsigned_less [where ?'a = nat and ?'b = 8]
  by (auto simp: map_idI list_all_iff)

lemma read_payload_encoded:
  assumes "CHR 0x00 \<notin> set comment"
  shows "read_payload (bytes_of_string (EncodeToString key) @ [0x20] @ bytes_of_string comment @ [0]) = Some (key, comment)"
proof -
  have sp: "string_of_bytes [0x20] = '' ''" "string_of_bytes [0] = [CHR 0x00]" by code_simp+
  have "string_of_bytes (bytes_of_string (EncodeToString key) @ [0x20] @ bytes_of_string comment @ [0]) =
      EncodeToString key @ '' '' @ comment @ [CHR 0x00]"
    by (simp only: string_of_bytes_append string_of_bytes_of_string sp)
  moreover have "Cut (EncodeToString key @ '' '' @ comment @ [CHR 0x00]) '' '' = Some (EncodeToString key, comment @ [CHR 0x00])"
    using base64_no_space by (intro Cut_append) (auto simp: EncodeToString_def)
  moreover have "Cut (comment @ [CHR 0x00] @ []) [CHR 0x00] = Some (comment, [])"
    using assms by (intro Cut_append) auto
  moreover have "base64_decode (EncodeToString key) = Some (map unat key)"
    unfolding EncodeToString_def by (rule base64_roundtrip) simp
  ultimately show ?thesis by (simp add: read_payload_def)
qed

lemma TrimSpace_set: "set (TrimSpace s) \<subseteq> set s"
  using TrimSpace_infix [of s] by (metis Un_iff set_append subsetI)

text \<open>A credential is only built from a valid key with a 2048-bit modulus and a positive exponent, and
  its public-key payload is read back as the Android encoding of exactly that key and the comment (trimmed, or the
  default when it is blank), so no comment can be mistaken for key text or end the payload early.\<close>

theorem credential_payload_roundtrip:
  assumes "NewCredentialWithComment (Some k) comment = Inr c"
  shows "\<exists>enc. encodeAndroidRSAPublicKey (Some (prv_pub k)) = Inr enc \<and>
    read_payload (cr_publicKeyPayload c) =
      Some (enc, if TrimSpace comment = [] then defaultPublicKeyComment else TrimSpace comment) \<and>
    cr_privateKey c = k \<and> prv_validate k = None \<and> 0 < pub_E (prv_pub k) \<and>
    2 ^ 2047 \<le> pub_N (prv_pub k) \<and> pub_N (prv_pub k) < 2 ^ Suc 2047"
proof -
  let ?cm = "if TrimSpace comment = [] then defaultPublicKeyComment else TrimSpace comment"
  from assms obtain payload where p: "encodePublicKeyPayload (Some (prv_pub k)) ?cm = Inr payload"
    "c = \<lparr>cr_privateKey = k, cr_publicKeyPayload = payload\<rparr>" "prv_validate k = None" "0 < pub_E (prv_pub k)"
    "BitLen (pub_N (prv_pub k)) = 2048" "\<not> ContainsAny comment [CHR 0x00, CHR 0x0D, CHR 0x0A]"
    by (auto simp: NewCredentialWithComment_def Let_def androidRSAModulusSizeBytes_def androidRSAModulusSizeWords_def
        split: option.splits if_splits sum.splits)
  from p(1) obtain enc where enc: "encodeAndroidRSAPublicKey (Some (prv_pub k)) = Inr enc"
    "payload = bytes_of_string (EncodeToString enc) @ [0x20] @ bytes_of_string ?cm @ [0]"
    by (auto simp: encodePublicKeyPayload_def split: sum.splits)
  have "CHR 0x00 \<notin> set comment" using p(6) by (auto simp: ContainsAny_def list_ex_iff)
  then have "CHR 0x00 \<notin> set ?cm" using TrimSpace_set [of comment] by (auto simp: defaultPublicKeyComment_def)
  then have "read_payload payload = Some (enc, ?cm)" unfolding enc(2) by (rule read_payload_encoded)
  moreover have "BitLen (pub_N (prv_pub k)) = Suc 2047" using p(5) by simp
  then have "2 ^ 2047 \<le> pub_N (prv_pub k) \<and> pub_N (prv_pub k) < 2 ^ Suc 2047" unfolding BitLen_bounds .
  ultimately show ?thesis using p enc(1) by (intro exI [of _ enc]) (simp only: Credential.select_convs)
qed

definition sample_private :: rsa_private where
  "sample_private = \<lparr>prv_pub = sample_key, prv_validate = None, prv_sign = (\<lambda>_. Inr [1])\<rparr>"

theorem credential_payload_roundtrip_witness:
  "\<exists>c enc. NewCredentialWithComment (Some sample_private) '' me '' = Inr c \<and>
     read_payload (cr_publicKeyPayload c) = Some (enc, ''me'') \<and> encodeAndroidRSAPublicKey (Some sample_key) = Inr enc"
proof -
  obtain v where "n0inv (pub_N sample_key) = Some v" using n0inv_odd [OF sample_key_bounds(3)] by blast
  then obtain b where enc: "encodeAndroidRSAPublicKey (Some sample_key) = Inr b"
    using encode_fields [OF sample_key_bounds(1,2)] by blast
  have "Suc 2047 = 2048" by simp
  then have "BitLen (pub_N sample_key) = Suc 2047" unfolding BitLen_bounds using sample_key_bounds(1,2) by metis
  then have bl: "BitLen (pub_N sample_key) = androidRSAModulusSizeBytes * 8"
    by (simp add: androidRSAModulusSizeBytes_def androidRSAModulusSizeWords_def)
  have t: "TrimSpace '' me '' = ''me''" by code_simp
  have "pub_E sample_key = 65537" by (simp only: sample_key_def rsa_public.select_convs)
  with bl enc have "\<exists>c. NewCredentialWithComment (Some sample_private) '' me '' = Inr c"
    by (simp add: NewCredentialWithComment_def sample_private_def encodePublicKeyPayload_def ContainsAny_def t)
  then obtain c where c: "NewCredentialWithComment (Some sample_private) '' me '' = Inr c" by blast
  have k: "prv_pub sample_private = sample_key" by (simp add: sample_private_def)
  from credential_payload_roundtrip [OF c] obtain e where
    "encodeAndroidRSAPublicKey (Some sample_key) = Inr e"
    "read_payload (cr_publicKeyPayload c) = Some (e, if ''me'' = [] then defaultPublicKeyComment else ''me'')"
    unfolding t k by blast
  with c show ?thesis by (intro exI [of _ c] exI [of _ e]) simp
qed

end
