(* ===== verification/ClientWait.thy ===== *)
theory ClientWait
  imports ClientForward ClientConnect Auth
begin

text \<open>
  What the users of the client call on what they hold: \<open>Wait\<close> of the forwarding sessions (\<open>client/forward.go\<close>,
  \<open>client/reverse.go\<close>), \<open>Connect\<close>, \<open>ConnectWithOptions\<close> and \<open>Close\<close> of a client (\<open>client/client.go\<close>), and the
  accessors of a credential (\<open>auth/auth.go\<close>). A \<open>Wait\<close> receives from the channel \<open>done\<close>; several goroutines may
  wait, so the machine of a session is extended by receives. The locale \<open>waitable\<close> is the contract of a channel whose next
  receive, once it is possible, stays possible with the same value.
\<close>

section \<open>Waiting\<close>

text \<open>\<open>Wait\<close> when \<open>k\<close> values were received before: \<open>None\<close> is a wait that does not return yet. The channel of a forward is
  closed after its value, that of a reverse is not.\<close>

definition fw_Wait :: "forward option \<Rightarrow> nat \<Rightarrow> io_error option option" where
  "fw_Wait fo k =
     (case fo of
        None \<Rightarrow> Some None
      | Some f \<Rightarrow> if k < length (fw_done f) then Some (fw_done f ! k) else if fw_done f \<noteq> [] then Some None else None)"

definition rv_Wait :: "reverse option \<Rightarrow> nat \<Rightarrow> reverse_error option option" where
  "rv_Wait ro k =
     (case ro of
        None \<Rightarrow> Some None
      | Some r \<Rightarrow> if k < length (rv_done r) then Some (rv_done r ! k) else None)"

datatype 'e wait_event = SessionEvent 'e | WaitReturns

fun wait_step :: "('e \<Rightarrow> 's \<Rightarrow> (unit \<times> 's) option) \<Rightarrow> ('s option \<Rightarrow> nat \<Rightarrow> 'r option) \<Rightarrow> 'e wait_event \<Rightarrow> 's \<times> nat \<Rightarrow>
    ('r option \<times> 's \<times> nat) option" where
  "wait_step step wait (SessionEvent e) (s, k) = (case step e s of None \<Rightarrow> None | Some (_, s') \<Rightarrow> Some (None, s', k))"
| "wait_step step wait WaitReturns (s, k) = (case wait (Some s) k of None \<Rightarrow> None | Some x \<Rightarrow> Some (Some x, s, Suc k))"

text \<open>What the waits of a run returned.\<close>

fun returned :: "'r option list \<Rightarrow> 'r list" where
  "returned [] = []"
| "returned (None # xs) = returned xs"
| "returned (Some x # xs) = x # returned xs"

locale waitable = machine step invar
  for step :: "'e \<Rightarrow> 's \<Rightarrow> (unit \<times> 's) option" and invar :: "'s \<Rightarrow> bool" +
  fixes wait :: "'s option \<Rightarrow> nat \<Rightarrow> 'r option"
  assumes wait_stays: "invar s \<Longrightarrow> wait (Some s) k = Some x \<Longrightarrow> step e s = Some (u, s') \<Longrightarrow> wait (Some s') k = Some x"
begin

text \<open>What the waits of a run returned is what waits could still return at its end, in the order of the receives.\<close>

lemma waits_returned:
  assumes "run (wait_step step wait) es (s, k) = Some (xs, s', k')" "invar s"
  shows "invar s' \<and> k' = k + length (returned xs) \<and>
    (\<forall>j < length (returned xs). wait (Some s') (k + j) = Some (returned xs ! j)) \<and>
    (\<forall>j x. wait (Some s) j = Some x \<longrightarrow> wait (Some s') j = Some x)"
  using assms
proof (induction es arbitrary: s k xs)
  case Nil
  then show ?case by simp
next
  case (Cons ev es)
  then obtain y ys s1 k1 where st: "wait_step step wait ev (s, k) = Some (y, s1, k1)"
    "run (wait_step step wait) es (s1, k1) = Some (ys, s', k')" "xs = y # ys"
    by (auto simp: run_Cons_Some simp del: run.simps)
  show ?case
  proof (cases ev)
    case (SessionEvent e)
    with st(1) obtain u where e: "step e s = Some (u, s1)" "y = None" "k1 = k" by (auto split: option.splits)
    have "invar s1" by (rule step_invar [OF Cons.prems(2) e(1)])
    with Cons.IH [OF st(2)] wait_stays [OF Cons.prems(2) _ e(1)] show ?thesis by (simp add: st(3) e)
  next
    case WaitReturns
    with st(1) obtain x where x: "wait (Some s) k = Some x" "y = Some x" "s1 = s" "k1 = Suc k" by (auto split: option.splits)
    note IH = Cons.IH [OF st(2)] 
    have "wait (Some s') (k + j) = Some ((x # returned ys) ! j)" if "j < Suc (length (returned ys))" for j
      using IH x Cons.prems(2) that by (cases j) auto
    with IH Cons.prems(2) show ?thesis by (simp add: st(3) x)
  qed
qed

end

section \<open>Forwards\<close>

text \<open>The value in the channel is how the accept loop ended, and it is sent when no bridge is left.\<close>

definition done_ok :: "forward \<Rightarrow> bool" where
  "done_ok f \<longleftrightarrow> forward_inv f \<and> (fw_done f \<noteq> [] \<longrightarrow> (\<exists>r. fw_done f = [r] \<and> fw_accept f = Some r) \<and>
     list_all (\<lambda>s. s = Finished) (fw_bridges f))"

lemma forward_done_step:
  assumes "done_ok f" "forward_step ev f = Some (u, f')"
  shows "done_ok f' \<and> (fw_done f \<noteq> [] \<longrightarrow> fw_done f' = fw_done f)"
proof -
  have inv: "forward_inv f'" using fw_session.step_invar [OF _ assms(2)] assms(1) by (simp add: done_ok_def)
  show ?thesis
  proof (cases ev)
    case (FwBridge i ok)
    with assms(2) have "\<not> list_all (\<lambda>s. s = Finished) (fw_bridges f)" "f' = handleConn_step i ok f"
      by (auto simp: list_all_length split: if_splits)
    moreover have "fw_done (handleConn_step i ok f) = fw_done f"
      by (simp add: handleConn_step_def set_stage_def fw_addActive_def fw_removeActive_def split: stage.split)
    ultimately show ?thesis using assms(1) inv by (auto simp: done_ok_def)
  qed (use assms inv in \<open>auto simp: done_ok_def acceptLoop_end_def fw_Close_def Let_def split: if_splits option.splits\<close>)
qed

interpretation fw_waits: waitable forward_step done_ok fw_Wait
  by unfold_locales (auto simp: fw_Wait_def dest: forward_done_step split: if_splits)

text \<open>C17: However many goroutines call \<open>Wait\<close> of a forward and whenever they do, a \<open>Wait\<close> returns only when the accept loop has ended,
  every bridge has finished and no connection or stream of the forward is open. The first to return gets how the accept loop
  ended and every other one gets no error; and once one has returned, a further one returns at once.\<close>

theorem forward_Wait_waits_for_bridges:
  assumes "run (wait_step forward_step fw_Wait) es (new_forward, 0) = Some (xs, f, k)" "returned xs = r # rs"
  shows "fw_accept f = Some r \<and> set rs \<subseteq> {None} \<and> list_all (\<lambda>s. s = Finished) (fw_bridges f) \<and> fw_opened f = {} \<and>
    fw_Wait (Some f) k = Some None"
proof -
  have "done_ok new_forward" using forward_inv_new by (simp add: done_ok_def new_forward_def)
  note w = fw_waits.waits_returned [OF assms(1) this]
  then have ret: "\<forall>j < Suc (length rs). fw_Wait (Some f) j = Some ((r # rs) ! j)" "k = Suc (length rs)" "done_ok f"
    by (simp_all add: assms(2))
  from ret(1) have "fw_Wait (Some f) 0 = Some r" by auto
  then obtain d where d: "fw_done f = [d]" "d = r" "fw_accept f = Some d" "list_all (\<lambda>s. s = Finished) (fw_bridges f)" "forward_inv f"
    using ret(3) by (auto simp: fw_Wait_def done_ok_def split: if_splits)
  have "x = None" if "x \<in> set rs" for x
  proof -
    from that obtain j where "j < length rs" "rs ! j = x" by (auto simp: in_set_conv_nth)
    with ret(1) [rule_format, of "Suc j"] show ?thesis by (simp add: fw_Wait_def d(1))
  qed
  moreover have "fw_opened f = {}" using d(4,5) by (auto simp: forward_inv_def held_def owned_def list_all_length)
  moreover have "fw_Wait (Some f) k = Some None" using ret(2) by (simp add: fw_Wait_def d(1))
  ultimately show ?thesis using d by auto
qed

theorem forward_Wait_waits_for_bridges_witness:
  "\<exists>xs f k. run (wait_step forward_step fw_Wait) [SessionEvent FwAccept, SessionEvent FwCloseEv, SessionEvent (FwAcceptError EOF),
      SessionEvent (FwBridge 0 False), SessionEvent FwDone, WaitReturns, WaitReturns] (new_forward, 0) = Some (xs, f, k) \<and>
     fw_accept f = Some None \<and> fw_opened f = {}"
proof -
  let ?es = "[SessionEvent FwAccept, SessionEvent FwCloseEv, SessionEvent (FwAcceptError EOF),
      SessionEvent (FwBridge 0 False), SessionEvent FwDone, WaitReturns, WaitReturns]"
  obtain xs f k where r: "run (wait_step forward_step fw_Wait) ?es (new_forward, 0) = Some (xs, f, k)" "returned xs = [None, None]"
    by (simp add: new_forward_def acceptLoop_end_def fw_Close_def handleConn_step_def set_stage_def fw_Wait_def)
  from forward_Wait_waits_for_bridges [OF r] r(1) show ?thesis by blast
qed

section \<open>Reverses\<close>

definition rdone_ok :: "reverse \<Rightarrow> bool" where
  "rdone_ok r \<longleftrightarrow> reverse_inv r \<and> length (rv_done r) \<le> 1 \<and> (rv_cleanup r \<noteq> None \<longrightarrow> rv_closed r) \<and>
     (rv_done r \<noteq> [] \<longrightarrow> rv_closed r \<and> rv_cleanup r = Some (hd (rv_done r)) \<and> list_all (\<lambda>s. s = RFinished) (rv_bridges r))"

lemma reverse_done_step:
  assumes "rdone_ok r" "reverse_step ev r = Some (u, r')"
  shows "rdone_ok r' \<and> (rv_done r \<noteq> [] \<longrightarrow> rv_done r' = rv_done r)"
proof -
  have inv: "reverse_inv r'" using rv_session.step_invar [OF _ assms(2)] assms(1) by (simp add: rdone_ok_def)
  show ?thesis
  proof (cases ev)
    case (RvBridge i ok)
    with assms(2) have "\<not> list_all (\<lambda>s. s = RFinished) (rv_bridges r)" "r' = handleStream_step i ok r"
      by (auto simp: list_all_length split: if_splits)
    moreover have "rv_done (handleStream_step i ok r) = rv_done r" "rv_cleanup (handleStream_step i ok r) = rv_cleanup r"
      "rv_closed (handleStream_step i ok r) = rv_closed r"
      by (simp_all add: handleStream_step_def set_rstage_def addBridge_def removeBridge_def notifyActive_def Let_def split: rstage.split)
    ultimately show ?thesis using assms(1) inv by (auto simp: rdone_ok_def)
  qed (use assms inv in \<open>auto simp: rdone_ok_def startBridge_def rv_Close_def rv_Close_cleanup_def rv_Close_end_def Let_def
        split: if_splits option.splits prod.splits\<close>)
qed

interpretation rv_waits: waitable reverse_step rdone_ok rv_Wait
  by unfold_locales (auto simp: rv_Wait_def dest: reverse_done_step split: if_splits)

text \<open>C22: Over every schedule at most one call of \<open>Wait\<close> of a reverse session returns, with the error of the removal of its registration, and
  only when the session is closed and its bridges have finished; every other call, also one made after the session has stopped,
  waits for ever.\<close>

theorem reverse_Wait_returns_once:
  assumes "run (wait_step reverse_step rv_Wait) es (new_reverse remote local cb c, 0) = Some (xs, r, k)"
  shows "length (returned xs) \<le> 1 \<and> (returned xs \<noteq> [] \<longrightarrow> rv_closed r \<and> rv_cleanup r = Some (hd (returned xs)) \<and>
    rv_opened r = {} \<and> list_all (\<lambda>s. s = RFinished) (rv_bridges r) \<and> rv_Wait (Some r) k = None)"
proof -
  have "rdone_ok (new_reverse remote local cb c)" using reverse_inv_new by (simp add: rdone_ok_def new_reverse_def)
  note w = rv_waits.waits_returned [OF assms this]
  then have ret: "\<forall>j < length (returned xs). rv_Wait (Some r) j = Some (returned xs ! j)" "k = length (returned xs)" "rdone_ok r"
    by simp_all
  have len: "length (returned xs) \<le> length (rv_done r)"
    using ret(1) by (cases "length (returned xs)") (auto simp: rv_Wait_def split: if_splits dest!: spec [of _ "length (returned xs) - 1"])
  moreover have "hd (returned xs) = hd (rv_done r)" "rv_opened r = {}" "rv_Wait (Some r) k = None" if "returned xs \<noteq> []"
  proof -
    from that ret(1) have "rv_Wait (Some r) 0 = Some (hd (returned xs))" by (simp add: hd_conv_nth)
    then show "hd (returned xs) = hd (rv_done r)" by (auto simp: rv_Wait_def hd_conv_nth split: if_splits)
    show "rv_opened r = {}" using ret(3) that len by (auto simp: rdone_ok_def reverse_inv_def held_def rowned_def list_all_length)
    have "0 < length (returned xs)" "length (rv_done r) \<le> 1" using that ret(3) by (simp_all add: rdone_ok_def)
    then have "\<not> k < length (rv_done r)" using ret(2) by linarith
    then show "rv_Wait (Some r) k = None" by (simp add: rv_Wait_def)
  qed
  ultimately show ?thesis using ret(3) by (auto simp: rdone_ok_def)
qed

theorem reverse_Wait_returns_once_witness:
  "\<exists>xs r k. run (wait_step reverse_step rv_Wait) [SessionEvent RvCloseEv, SessionEvent RvCleanup, SessionEvent RvCloseEnd, WaitReturns]
      (new_reverse sample_remote sample_host True None, 0) = Some (xs, r, k) \<and> length (returned xs) = 1 \<and> rv_Wait (Some r) k = None"
proof -
  let ?es = "[SessionEvent RvCloseEv, SessionEvent RvCleanup, SessionEvent RvCloseEnd, WaitReturns]"
  obtain e c' where "removeReverse sample_remote None = (e, c')" by (metis surj_pair)
  then obtain xs r k where r: "run (wait_step reverse_step rv_Wait) ?es (new_reverse sample_remote sample_host True None, 0) = Some (xs, r, k)"
    "length (returned xs) = 1"
    by (simp add: new_reverse_def rv_Close_def rv_Close_cleanup_def rv_Close_end_def rv_Wait_def Let_def)
  from reverse_Wait_returns_once [OF r(1)] r show ?thesis by auto
qed

section \<open>Clients\<close>

definition client_Connect ::
  "connect_ctx \<Rightarrow> network \<Rightarrow> string \<Rightarrow> tcp_world \<Rightarrow> (connect_error + conn \<times> nat \<times> reader \<times> writer) \<times> tcp_world" where
  "client_Connect ctx net addr w = ConnectTCP ctx net addr w"

definition ConnectWithOptions ::
  "connect_ctx \<Rightarrow> network \<Rightarrow> string \<Rightarrow> credentials \<Rightarrow> tcp_world \<Rightarrow>
     (connect_error + conn \<times> nat \<times> reader \<times> writer) \<times> tcp_world" where
  "ConnectWithOptions ctx net addr creds w = ConnectTCPWithOptions ctx net addr creds w"

text \<open>\<open>Client.Close\<close> with \<open>Connection.Close\<close>: the streams, then the transport. \<open>None\<close> is a nil client.\<close>

definition Client_Close :: "('t, 'w) transportDialer \<Rightarrow> (conn \<times> 't) option \<Rightarrow> 'w \<Rightarrow> (conn \<times> 't) option \<times> 'w" where
  "Client_Close d cl w =
     (case cl of
        None \<Rightarrow> (None, w)
      | Some (c, t) \<Rightarrow> (Some (Connection_Close c, t), transport_close d t w))"

lemma closeAllStreams_empty: "streams (closeAllStreams e c) = []"
proof -
  have "streams (fold (\<lambda>(lid, i). upd_stream i (closeWithError e)) xs c) = streams c" for xs :: "(u32 \<times> nat) list" and c :: conn
    by (induction xs arbitrary: c) (auto simp: upd_stream_def)
  then show ?thesis by (simp add: closeAllStreams_def)
qed

context transport_dialer
begin

lemma connect_close_idle:
  assumes "connectWithTransportOptions ctx (Some dialer) creds w = (Inr (c, t), w')" "idle w"
  shows "idle (snd (Client_Close dialer (Some (c', t)) w'))"
  using connect_succeeds [OF assms(1)] close_undoes [OF assms(2)] by (auto simp: Client_Close_def)

end

text \<open>A client that was connected and is closed, whatever was done with its connection meanwhile, leaves no socket and no USB device open
  and no stream in its table.\<close>

lemma connected_client_closes:
  "ConnectWithOptions ctx net addr creds tw = (Inr (c, t), tw') \<Longrightarrow> tcp_fresh opened tw \<Longrightarrow>
   ConnectUSB ctx dctx disc carry opts uw = (Inr (d, u), uw') \<Longrightarrow> \<not> uw_open uw \<Longrightarrow>
     tw_open (snd (Client_Close (tcpTransportDialer net addr') (Some (c', t)) tw')) = opened \<and>
     \<not> uw_open (snd (Client_Close (usbTransportDialer dctx disc carry opts) (Some (d', u)) uw')) \<and>
     streams (fst (the (fst (Client_Close (tcpTransportDialer net addr') (Some (c', t)) tw')))) = []"
proof (intro conjI)
  assume "ConnectWithOptions ctx net addr creds tw = (Inr (c, t), tw')" "tcp_fresh opened tw"
  then obtain a where "connectWithTransportOptions ctx (Some (tcpTransportDialer net a)) creds tw = (Inr (c, t), tw')"
    by (auto simp: ConnectWithOptions_def ConnectTCPWithOptions_def newTCPTransportDialer_def split: option.splits)
  from tcp_dialer.connect_close_idle [OF this \<open>tcp_fresh opened tw\<close>, of c']
  show "tw_open (snd (Client_Close (tcpTransportDialer net addr') (Some (c', t)) tw')) = opened"
    by (simp add: tcp_fresh_def Client_Close_def tcpTransportDialer_def)
next
  assume "ConnectUSB ctx dctx disc carry opts uw = (Inr (d, u), uw')" "\<not> uw_open uw"
  then show "\<not> uw_open (snd (Client_Close (usbTransportDialer dctx disc carry opts) (Some (d', u)) uw'))"
    by (auto simp: ConnectUSB_def split: option.splits dest: usb_dialer.connect_close_idle)
next
  show "streams (fst (the (fst (Client_Close (tcpTransportDialer net addr') (Some (c', t)) tw')))) = []"
    by (simp add: Client_Close_def Connection_Close_def closeAllStreams_empty)
qed

section \<open>Credentials\<close>

definition Signer :: "Credential option \<Rightarrow> rsa_private option" where
  "Signer c = map_option cr_privateKey c"

definition RSAPrivateKey :: "Credential option \<Rightarrow> rsa_private option" where
  "RSAPrivateKey c = map_option cr_privateKey c"

definition PublicKeyPayload :: "Credential option \<Rightarrow> bytes option" where
  "PublicKeyPayload c = map_option cr_publicKeyPayload c"

end
