(* ===== verification/ServerTypes.thy ===== *)
theory ServerTypes
  imports GoNet "HOL-Library.AList"
begin

text \<open>
  The control protocol of the \<open>adb-gos\<close> server: \<open>internal/server/protocol.go\<close>, the request and
  registry data of \<open>forward.go\<close>, \<open>reverse.go\<close> and \<open>device.go\<close> with their validation, and the
  device registry. An error is its code; the texts are for people. The parameters of a request come
  from \<open>encoding/json\<close>: they are missing, malformed, or a value.
\<close>

section \<open>Requests and errors\<close>

definition ProtocolVersion :: int where "ProtocolVersion = 1"

datatype error_code =
    ErrorBadRequest
  | ErrorUnsupportedVersion
  | ErrorUnknownCommand
  | ErrorInternal
  | ErrorAddressInUse
  | ErrorUnsupportedEndpoint
  | ErrorBadTarget
  | ErrorRebindDisallowed
  | ErrorForwardNotFound
  | ErrorReverseNotFound
  | ErrorRegistrationFailed

datatype 'p raw_params = RawMissing | RawMalformed | RawParams 'p

section \<open>Endpoints\<close>

record ForwardLocalEndpoint =
  fl_Network :: string
  fl_Address :: string

record ForwardRemoteEndpoint =
  fr_Service :: string

record ForwardTarget =
  ft_Transport :: string
  ft_Address :: string

record ReverseRemoteEndpoint =
  rr_Service :: string

record ReverseLocalEndpoint =
  rl_Service :: string

record ForwardCreateParams =
  fc_Local :: ForwardLocalEndpoint
  fc_Remote :: ForwardRemoteEndpoint
  fc_Target :: ForwardTarget
  fc_Norebind :: bool

record ForwardRemoveParams =
  fm_ID :: string
  fm_Local :: "ForwardLocalEndpoint option"

record ReverseCreateParams =
  rc_Remote :: ReverseRemoteEndpoint
  rc_Local :: ReverseLocalEndpoint
  rc_Target :: ForwardTarget
  rc_Norebind :: bool

record ReverseRemoveParams =
  rm_ID :: string
  rm_Remote :: "ReverseRemoteEndpoint option"

definition splitHostPort :: "string \<Rightarrow> (string \<times> int) option" where
  "splitHostPort address =
     (case SplitHostPort address of
        Inl _ \<Rightarrow> None
      | Inr (host, portText) \<Rightarrow> (case Atoi portText of Inl _ \<Rightarrow> None | Inr port \<Rightarrow> Some (host, port)))"

definition isLoopbackHost :: "string \<Rightarrow> bool" where
  "isLoopbackHost host =
     (if EqualFold_lower host ''localhost'' then True
      else case ParseIP host of None \<Rightarrow> False | Some ip \<Rightarrow> IsLoopback ip)"

definition validateForwardLocal :: "ForwardLocalEndpoint \<Rightarrow> error_code option" where
  "validateForwardLocal local =
     (if fl_Network local \<noteq> ''tcp'' then Some ErrorUnsupportedEndpoint
      else case splitHostPort (fl_Address local) of
          None \<Rightarrow> Some ErrorUnsupportedEndpoint
        | Some (host, port) \<Rightarrow>
            if port < 0 \<or> 65535 < port then Some ErrorUnsupportedEndpoint
            else if host = [] then Some ErrorUnsupportedEndpoint
            else if \<not> isLoopbackHost host then Some ErrorUnsupportedEndpoint
            else None)"

definition tcp_port_ok :: "string \<Rightarrow> bool" where
  "tcp_port_ok portText = (case Atoi portText of Inl _ \<Rightarrow> False | Inr port \<Rightarrow> \<not> (port < 1 \<or> 65535 < port))"

definition validateForwardRemote :: "ForwardRemoteEndpoint \<Rightarrow> error_code option" where
  "validateForwardRemote remote =
     (case CutPrefix (fr_Service remote) ''tcp:'' of
        None \<Rightarrow> Some ErrorUnsupportedEndpoint
      | Some portText \<Rightarrow> if tcp_port_ok portText then None else Some ErrorUnsupportedEndpoint)"

definition validateForwardTarget :: "ForwardTarget \<Rightarrow> error_code option" where
  "validateForwardTarget target =
     (if ft_Transport target \<noteq> ''tcp'' then Some ErrorBadTarget
      else case splitHostPort (ft_Address target) of
          None \<Rightarrow> Some ErrorBadTarget
        | Some (host, port) \<Rightarrow>
            if host = [] \<or> port < 1 \<or> 65535 < port then Some ErrorBadTarget else None)"

definition first_error :: "error_code option list \<Rightarrow> error_code option" where
  "first_error es = (case dropWhile (\<lambda>e. e = None) es of [] \<Rightarrow> None | e # _ \<Rightarrow> e)"

definition validateForwardCreateParams :: "ForwardCreateParams \<Rightarrow> error_code option" where
  "validateForwardCreateParams p =
     first_error [validateForwardLocal (fc_Local p), validateForwardRemote (fc_Remote p),
                  validateForwardTarget (fc_Target p)]"

definition validateTCPService :: "string \<Rightarrow> error_code option" where
  "validateTCPService service =
     (case CutPrefix (TrimSpace service) ''tcp:'' of
        None \<Rightarrow> Some ErrorUnsupportedEndpoint
      | Some portText \<Rightarrow> if tcp_port_ok portText then None else Some ErrorUnsupportedEndpoint)"

definition validateReverseRemote :: "ReverseRemoteEndpoint \<Rightarrow> error_code option" where
  "validateReverseRemote remote = validateTCPService (rr_Service remote)"

definition validateReverseLocal :: "ReverseLocalEndpoint \<Rightarrow> error_code option" where
  "validateReverseLocal local = validateTCPService (rl_Service local)"

definition validateReverseCreateParams :: "ReverseCreateParams \<Rightarrow> error_code option" where
  "validateReverseCreateParams p =
     first_error [validateReverseRemote (rc_Remote p), validateReverseLocal (rc_Local p),
                  validateForwardTarget (rc_Target p)]"

section \<open>Decoding parameters\<close>

definition decodeForwardCreateParams :: "ForwardCreateParams raw_params \<Rightarrow> error_code + ForwardCreateParams" where
  "decodeForwardCreateParams raw =
     (case raw of
        RawMissing \<Rightarrow> Inl ErrorBadRequest
      | RawMalformed \<Rightarrow> Inl ErrorBadRequest
      | RawParams p \<Rightarrow> (case validateForwardCreateParams p of Some e \<Rightarrow> Inl e | None \<Rightarrow> Inr p))"

definition decodeForwardRemoveParams :: "ForwardRemoveParams raw_params \<Rightarrow> error_code + ForwardRemoveParams" where
  "decodeForwardRemoveParams raw =
     (case raw of
        RawMissing \<Rightarrow> Inl ErrorBadRequest
      | RawMalformed \<Rightarrow> Inl ErrorBadRequest
      | RawParams p \<Rightarrow>
          (let idSet = (TrimSpace (fm_ID p) \<noteq> []); localSet = (fm_Local p \<noteq> None) in
           if idSet = localSet then Inl ErrorBadRequest
           else case fm_Local p of
               None \<Rightarrow> Inr p
             | Some l \<Rightarrow> (case validateForwardLocal l of Some e \<Rightarrow> Inl e | None \<Rightarrow> Inr p)))"

definition decodeReverseCreateParams :: "ReverseCreateParams raw_params \<Rightarrow> error_code + ReverseCreateParams" where
  "decodeReverseCreateParams raw =
     (case raw of
        RawMissing \<Rightarrow> Inl ErrorBadRequest
      | RawMalformed \<Rightarrow> Inl ErrorBadRequest
      | RawParams p \<Rightarrow> (case validateReverseCreateParams p of Some e \<Rightarrow> Inl e | None \<Rightarrow> Inr p))"

definition decodeReverseRemoveParams :: "ReverseRemoveParams raw_params \<Rightarrow> error_code + ReverseRemoveParams" where
  "decodeReverseRemoveParams raw =
     (case raw of
        RawMissing \<Rightarrow> Inl ErrorBadRequest
      | RawMalformed \<Rightarrow> Inl ErrorBadRequest
      | RawParams p \<Rightarrow>
          (let idSet = (TrimSpace (rm_ID p) \<noteq> []); remoteSet = (rm_Remote p \<noteq> None) in
           if idSet = remoteSet then Inl ErrorBadRequest
           else case rm_Remote p of
               None \<Rightarrow> Inr p
             | Some l \<Rightarrow> (case validateReverseRemote l of Some e \<Rightarrow> Inl e | None \<Rightarrow> Inr p)))"

section \<open>Devices\<close>

definition DeviceStateDevice :: string where "DeviceStateDevice = ''device''"
definition DeviceStateOffline :: string where "DeviceStateOffline = ''offline''"

record Device =
  dev_Serial :: string
  dev_State :: string
  dev_Transport :: string
  dev_Address :: string

record DeviceRegisterParams =
  dp_Serial :: string
  dp_Transport :: string
  dp_Address :: string
  dp_State :: string

text \<open>\<open>bySerial\<close>; the order of the association list stands for the iteration order of the Go map.\<close>

type_synonym deviceRegistry = "(string \<times> Device) list"

definition newDeviceRegistry :: deviceRegistry where "newDeviceRegistry = []"

definition decodeDeviceRegisterParams :: "DeviceRegisterParams raw_params \<Rightarrow> error_code + DeviceRegisterParams" where
  "decodeDeviceRegisterParams raw =
     (case raw of RawMissing \<Rightarrow> Inl ErrorBadRequest | RawMalformed \<Rightarrow> Inl ErrorBadRequest | RawParams p \<Rightarrow> Inr p)"

definition validateDeviceRegisterParams :: "DeviceRegisterParams \<Rightarrow> error_code + Device" where
  "validateDeviceRegisterParams p =
     (if dp_Transport p \<noteq> ''tcp'' then Inl ErrorBadRequest
      else if dp_Address p = [] then Inl ErrorBadRequest
      else case SplitHostPort (dp_Address p) of
          Inl _ \<Rightarrow> Inl ErrorBadRequest
        | Inr _ \<Rightarrow>
            (let state = (if dp_State p = [] then DeviceStateDevice else dp_State p) in
             if state \<noteq> DeviceStateDevice \<and> state \<noteq> DeviceStateOffline then Inl ErrorBadRequest
             else Inr \<lparr>dev_Serial = (if dp_Serial p = [] then dp_Address p else dp_Serial p), dev_State = state,
                       dev_Transport = dp_Transport p, dev_Address = dp_Address p\<rparr>))"

definition device_register :: "DeviceRegisterParams \<Rightarrow> deviceRegistry \<Rightarrow> (error_code + Device) \<times> deviceRegistry" where
  "device_register p r =
     (case validateDeviceRegisterParams p of
        Inl e \<Rightarrow> (Inl e, r)
      | Inr d \<Rightarrow> (Inr d, AList.update (dev_Serial d) d r))"

fun insert_device :: "Device \<Rightarrow> Device list \<Rightarrow> Device list" where
  "insert_device d [] = [d]"
| "insert_device d (x # xs) =
     (if str_less (dev_Serial x) (dev_Serial d) then x # insert_device d xs else d # x # xs)"

definition device_list :: "deviceRegistry \<Rightarrow> Device list" where
  "device_list r = foldr insert_device (map snd r) []"

section \<open>Registered mappings\<close>

definition ForwardStateListening :: string where "ForwardStateListening = ''listening''"
definition ForwardStateDegraded :: string where "ForwardStateDegraded = ''degraded''"
definition ForwardStateStopped :: string where "ForwardStateStopped = ''stopped''"

definition ReverseStateListening :: string where "ReverseStateListening = ''listening''"
definition ReverseStateDegraded :: string where "ReverseStateDegraded = ''degraded''"
definition ReverseStateStopped :: string where "ReverseStateStopped = ''stopped''"

lemma states_distinct [simp]:
  "ForwardStateListening \<noteq> ForwardStateDegraded" "ForwardStateDegraded \<noteq> ForwardStateListening"
  "ForwardStateStopped \<noteq> ForwardStateListening" "ForwardStateStopped \<noteq> ForwardStateDegraded"
  "ReverseStateListening \<noteq> ReverseStateDegraded" "ReverseStateDegraded \<noteq> ReverseStateListening"
  "ReverseStateStopped \<noteq> ReverseStateListening" "ReverseStateStopped \<noteq> ReverseStateDegraded"
  by (simp_all add: ForwardStateListening_def ForwardStateDegraded_def ForwardStateStopped_def
      ReverseStateListening_def ReverseStateDegraded_def ReverseStateStopped_def)

record Forward =
  f_ID :: string
  f_State :: string
  f_Local :: ForwardLocalEndpoint
  f_Remote :: ForwardRemoteEndpoint
  f_Target :: ForwardTarget
  f_Norebind :: bool
  f_CreatedAt :: string
  f_ActiveConnections :: nat
  f_LastError :: string

record Reverse =
  r_ID :: string
  r_State :: string
  r_Remote :: ReverseRemoteEndpoint
  r_Local :: ReverseLocalEndpoint
  r_Target :: ForwardTarget
  r_Norebind :: bool
  r_CreatedAt :: string
  r_ActiveConnections :: nat
  r_LastError :: string

record ForwardDiagnostics =
  fd_Total :: nat
  fd_Listening :: nat
  fd_Degraded :: nat
  fd_ActiveConnections :: nat

record ReverseDiagnostics =
  rd_Total :: nat
  rd_Listening :: nat
  rd_Degraded :: nat
  rd_ActiveConnections :: nat

definition forward_key :: "ForwardLocalEndpoint \<Rightarrow> string" where
  "forward_key e = fl_Network e @ '':'' @ fl_Address e"

definition reverse_key :: "ReverseRemoteEndpoint \<Rightarrow> string" where
  "reverse_key e = rr_Service e"

section \<open>Validation\<close>

lemma first_error_None [simp]: "first_error es = None \<longleftrightarrow> (\<forall>e \<in> set es. e = None)"
  by (induction es) (auto simp: first_error_def)

lemma decodeForwardCreate_valid:
  "decodeForwardCreateParams raw = Inr p \<Longrightarrow> raw = RawParams p \<and> validateForwardCreateParams p = None"
  by (auto simp: decodeForwardCreateParams_def split: raw_params.splits option.splits)

lemma validateForwardLocal_loopback:
  "validateForwardLocal l = None \<Longrightarrow>
     \<exists>host port. SplitHostPort (fl_Address l) = Inr (host, port) \<and> isLoopbackHost host"
  by (auto simp: validateForwardLocal_def splitHostPort_def split: if_splits option.splits sum.splits)

end
