(* ===== verification/ServerTable.thy ===== *)
theory ServerTable
  imports ServerTypes
begin

text \<open>
  What the forward and the reverse registry share: two tables, from the ID to the entry and from the
  endpoint key to the ID, that must stay inverse to each other, and IDs printed from a \<open>uint64\<close>
  counter. Entries are numbers of objects; the order of an association list stands for the iteration order
  of the Go map.
\<close>

section \<open>Objects\<close>

lemma nth_upd: "xs[i := x] ! j = (if i = j \<and> j < length xs then x else xs ! j)"
  by (cases "i < length xs") (auto simp: nth_list_update list_update_beyond)

lemma map_update_same: "(\<And>x. g (h x) = g x) \<Longrightarrow> map g (xs[i := h (xs ! i)]) = map g xs"
  by (rule nth_equalityI) (auto simp: nth_upd)

section \<open>Tables\<close>

definition table_ok :: "(nat \<Rightarrow> string) \<Rightarrow> (nat \<Rightarrow> string) \<Rightarrow> (string \<times> nat) list \<Rightarrow> (string \<times> string) list \<Rightarrow> bool" where
  "table_ok idof keyof byID byKey \<longleftrightarrow> distinct (map fst byID) \<and> distinct (map fst byKey) \<and>
     (\<forall>i e. map_of byID i = Some e \<longrightarrow> idof e = i \<and> map_of byKey (keyof e) = Some i) \<and>
     (\<forall>k i. map_of byKey k = Some i \<longrightarrow> (\<exists>e. map_of byID i = Some e \<and> keyof e = k))"

definition in_table :: "(string \<times> nat) list \<Rightarrow> nat \<Rightarrow> bool" where
  "in_table byID e \<longleftrightarrow> e \<in> snd ` set byID"

lemma table_ok_Nil [simp]: "table_ok idof keyof [] []"
  by (simp add: table_ok_def)

lemma table_registered:
  assumes "table_ok idof keyof B K"
  shows "in_table B e \<longleftrightarrow> map_of B (idof e) = Some e"
  using assms by (force simp: table_ok_def in_table_def dest: map_of_is_SomeI)

lemma in_tableI: "map_of B i = Some e \<Longrightarrow> in_table B e"
  by (force simp: in_table_def dest: map_of_SomeD)

lemma table_lookup:
  assumes "table_ok idof keyof B K"
  shows "map_of B i = Some e \<Longrightarrow> idof e = i \<and> in_table B e \<and> map_of K (keyof e) = Some i"
    and "map_of K k = Some i \<Longrightarrow> \<exists>e. map_of B i = Some e \<and> keyof e = k \<and> in_table B e"
  using assms in_tableI [of B] unfolding table_ok_def by blast+

lemma table_keys_inj:
  assumes "table_ok idof keyof B K" "in_table B e" "in_table B e'" "keyof e = keyof e'"
  shows "e = e'"
proof -
  have "map_of B (idof e) = Some e" "map_of B (idof e') = Some e'"
    using assms by (simp_all add: table_registered)
  from this table_lookup(1) [OF assms(1) this(1)] table_lookup(1) [OF assms(1) this(2)] assms(4) show ?thesis by simp
qed

lemma table_delete:
  assumes "table_ok idof keyof B K" "in_table B e"
  shows "table_ok idof keyof (AList.delete (idof e) B) (AList.delete (keyof e) K)"
    and "in_table (AList.delete (idof e) B) e' \<longleftrightarrow> in_table B e' \<and> e' \<noteq> e"
proof -
  let ?B = "AList.delete (idof e) B" and ?K = "AList.delete (keyof e) K"
  have e: "map_of B (idof e) = Some e" using assms by (simp add: table_registered)
  have a: "idof x = i \<and> map_of ?K (keyof x) = Some i" if "map_of ?B i = Some x" for i x
  proof -
    from that have x: "map_of B i = Some x" "i \<noteq> idof e" by (auto simp: delete_conv' split: if_splits)
    with table_lookup(1) [OF assms(1) x(1)] table_lookup(1) [OF assms(1) e] show ?thesis by (auto simp: delete_conv')
  qed
  have b: "\<exists>x. map_of ?B i = Some x \<and> keyof x = k" if "map_of ?K k = Some i" for k i
    using that e table_lookup(1) [OF assms(1) e] table_lookup(2) [OF assms(1), of k i]
    by (auto simp: delete_conv' split: if_splits)
  have d: "distinct (map fst ?B)" "distinct (map fst ?K)"
    using assms(1) by (auto simp: table_ok_def intro: distinct_delete)
  show "table_ok idof keyof ?B ?K" unfolding table_ok_def using a b d by blast
  then show "in_table ?B e' \<longleftrightarrow> in_table B e' \<and> e' \<noteq> e"
    using e table_registered [OF assms(1), of e'] by (auto simp: table_registered delete_conv')
qed

lemma table_insert:
  assumes "table_ok idof keyof B K" "map_of B (idof e) = None" "map_of K (keyof e) = None"
  shows "table_ok idof keyof (AList.update (idof e) e B) (AList.update (keyof e) (idof e) K)"
    and "in_table (AList.update (idof e) e B) e' \<longleftrightarrow> in_table B e' \<or> e' = e"
proof -
  let ?B = "AList.update (idof e) e B" and ?K = "AList.update (keyof e) (idof e) K"
  have a: "idof x = i \<and> map_of ?K (keyof x) = Some i" if "map_of ?B i = Some x" for i x
    using that assms table_lookup(1) [OF assms(1), of i x] by (auto simp: update_conv' split: if_splits)
  have b: "\<exists>x. map_of ?B i = Some x \<and> keyof x = k" if "map_of ?K k = Some i" for k i
    using that assms table_lookup(2) [OF assms(1), of k i] by (auto simp: update_conv' split: if_splits)
  have d: "distinct (map fst ?B)" "distinct (map fst ?K)"
    using assms(1) by (auto simp: table_ok_def intro: distinct_update)
  show "table_ok idof keyof ?B ?K" unfolding table_ok_def using a b d by blast
  then show "in_table ?B e' \<longleftrightarrow> in_table B e' \<or> e' = e"
    using assms(2) table_registered [OF assms(1), of e'] by (auto simp: table_registered update_conv' split: if_splits)
qed

lemma table_cong:
  assumes "table_ok idof keyof B K" "\<And>e. in_table B e \<Longrightarrow> idof' e = idof e \<and> keyof' e = keyof e"
  shows "table_ok idof' keyof' B K"
proof -
  have "idof' e = idof e \<and> keyof' e = keyof e" if "map_of B i = Some e" for i e
    using assms(2) table_lookup(1) [OF assms(1) that] by blast
  then have "(\<forall>i e. map_of B i = Some e \<longrightarrow> idof' e = i \<and> map_of K (keyof' e) = Some i) \<and>
     (\<forall>k i. map_of K k = Some i \<longrightarrow> (\<exists>e. map_of B i = Some e \<and> keyof' e = k))"
    using table_lookup(1) [OF assms(1)] table_lookup(2) [OF assms(1)] by (simp, fastforce)
  with assms(1) show ?thesis by (simp add: table_ok_def)
qed

lemma registered_list:
  "table_ok idof keyof B K \<Longrightarrow> distinct (map snd B)"
proof -
  assume t: "table_ok idof keyof B K"
  have "map fst B = map idof (map snd B)"
    using t by (auto simp: table_ok_def dest: map_of_is_SomeI)
  with t show ?thesis by (metis table_ok_def distinct_map)
qed

section \<open>IDs\<close>

text \<open>The counter after \<open>n\<close> IDs is \<open>n\<close> modulo \<open>2 ^ 64\<close>.\<close>

definition counted_id :: "string \<Rightarrow> u64 \<Rightarrow> string" where
  "counted_id pre n = pre @ FormatUint (unat n)"

lemma counted_id_inject [simp]: "counted_id p m = counted_id p n \<longleftrightarrow> m = n"
  by (simp add: counted_id_def word_unat_eq_iff)

lemma counter_inject:
  "m < 2 ^ 64 \<Longrightarrow> n < 2 ^ 64 \<Longrightarrow> (word_of_nat m :: u64) = word_of_nat n \<longleftrightarrow> m = n"
  by (simp add: word_unat_eq_iff unat_of_nat)

text \<open>The IDs of all entries ever made, in order, with the counter.\<close>

definition numbered :: "string \<Rightarrow> string list \<Rightarrow> u64 \<Rightarrow> bool" where
  "numbered pre I n \<longleftrightarrow> n = word_of_nat (length I) \<and> (\<forall>e < length I. I ! e = counted_id pre (word_of_nat (Suc e)))"

lemma numbered_Nil [simp]: "numbered pre [] 0"
  by (simp add: numbered_def)

lemma numbered_append: "numbered pre I n \<Longrightarrow> numbered pre (I @ [counted_id pre (n + 1)]) (n + 1)"
  by (auto simp: numbered_def nth_append less_Suc_eq add.commute)

lemma numbered_inj:
  "numbered pre I n \<Longrightarrow> length I < 2 ^ 64 \<Longrightarrow> e < length I \<Longrightarrow> e' < length I \<Longrightarrow> I ! e = I ! e' \<Longrightarrow> e = e'"
  using counter_inject [of "Suc e" "Suc e'"] by (simp add: numbered_def)

lemma numbered_not_Nil: "numbered pre I n \<Longrightarrow> e < length I \<Longrightarrow> I ! e \<noteq> []"
  by (simp add: numbered_def counted_id_def)

end
