(* ===== verification/ServerForward.thy ===== *)
theory ServerForward
  imports ServerTable
begin

text \<open>
  The forward registry of the server, \<open>internal/server/forward_registry.go\<close>. A registry operation is
  one or more sections under the registry's lock; \<open>create\<close> has three of them, with \<open>net.Listen\<close> outside
  the lock. The machine \<open>fwd_step\<close> interleaves these sections with the accept loops and the
  bridge goroutines. Entries, connections and listeners are objects in lists, their positions stand
  for pointers. The environment decides what \<open>Listen\<close>, \<open>Accept\<close>, \<open>ConnectTCP\<close> and \<open>OpenService\<close>
  report; a successful \<open>Listen\<close> never reports the address of a listener that is still open.
\<close>

section \<open>State\<close>

record listener =
  ln_addr :: string
  ln_open :: bool

text \<open>The goroutine of a bridge: accepted and not yet added, connecting to the target, opening the service, before
  \<open>recordForwardSuccess\<close>, copying, before the deferred \<open>close\<close>, before the deferred \<open>removeActive\<close>, ended.\<close>

datatype conn_stage = Accepted | Connecting | OpeningService | Recording | Bridging | Closing | Removing | Ended

record forwardConn =
  cn_entry :: nat
  cn_host :: bool
  cn_client :: "bool option"
  cn_stream :: "bool option"
  cn_stage :: conn_stage

record forwardEntry =
  fe_forward :: Forward
  fe_listener :: nat
  fe_active :: "nat list"
  fe_done :: bool
  fe_accepted :: "nat option" \<comment> \<open>the connection the accept loop holds between \<open>Accept\<close> and \<open>addActive\<close>\<close>
  fe_started :: bool \<comment> \<open>the goroutine of \<open>acceptAndBridge\<close> was started\<close>

datatype creating =
    ListenFor ForwardCreateParams
  | AllocateFor ForwardCreateParams nat
  | InsertFor ForwardCreateParams nat
  | CreateDone "error_code + Forward"

record forwardRegistry =
  fr_nextID :: u64
  fr_byID :: "(string \<times> nat) list"
  fr_byLocal :: "(string \<times> string) list"
  fr_entries :: "forwardEntry list"
  fr_conns :: "forwardConn list"
  fr_listeners :: "listener list"
  fr_creates :: "creating list"
  fr_panicked :: bool

definition newForwardRegistry :: forwardRegistry where
  "newForwardRegistry = \<lparr>fr_nextID = 0, fr_byID = [], fr_byLocal = [], fr_entries = [], fr_conns = [], fr_listeners = [],
     fr_creates = [], fr_panicked = False\<rparr>"

abbreviation entry_id :: "forwardRegistry \<Rightarrow> nat \<Rightarrow> string" where
  "entry_id r e \<equiv> f_ID (fe_forward (fr_entries r ! e))"

abbreviation entry_key :: "forwardRegistry \<Rightarrow> nat \<Rightarrow> string" where
  "entry_key r e \<equiv> forward_key (f_Local (fe_forward (fr_entries r ! e)))"

definition set_entry :: "nat \<Rightarrow> (forwardEntry \<Rightarrow> forwardEntry) \<Rightarrow> forwardRegistry \<Rightarrow> forwardRegistry" where
  "set_entry e h r = r\<lparr>fr_entries := (fr_entries r)[e := h (fr_entries r ! e)]\<rparr>"

definition set_forward :: "nat \<Rightarrow> (Forward \<Rightarrow> Forward) \<Rightarrow> forwardRegistry \<Rightarrow> forwardRegistry" where
  "set_forward e h = set_entry e (\<lambda>x. x\<lparr>fe_forward := h (fe_forward x)\<rparr>)"

definition set_conn :: "nat \<Rightarrow> (forwardConn \<Rightarrow> forwardConn) \<Rightarrow> forwardRegistry \<Rightarrow> forwardRegistry" where
  "set_conn c h r = r\<lparr>fr_conns := (fr_conns r)[c := h (fr_conns r ! c)]\<rparr>"

definition listener_close :: "nat \<Rightarrow> forwardRegistry \<Rightarrow> forwardRegistry" where
  "listener_close l r = r\<lparr>fr_listeners := (fr_listeners r)[l := (fr_listeners r ! l)\<lparr>ln_open := False\<rparr>]\<rparr>"

section \<open>Operations\<close>

definition conn_close :: "forwardConn \<Rightarrow> forwardConn" where
  "conn_close c = c\<lparr>cn_host := False, cn_client := map_option (\<lambda>_. False) (cn_client c),
     cn_stream := map_option (\<lambda>_. False) (cn_stream c)\<rparr>"

definition close_active :: "nat list \<Rightarrow> forwardRegistry \<Rightarrow> forwardRegistry" where
  "close_active cs r = fold (\<lambda>c. set_conn c conn_close) cs r"

definition removeLocked :: "nat \<Rightarrow> forwardRegistry \<Rightarrow> forwardRegistry" where
  "removeLocked e r =
     close_active (fe_active (fr_entries r ! e))
       (listener_close (fe_listener (fr_entries r ! e))
         (set_forward e (\<lambda>f. f\<lparr>f_State := ForwardStateStopped\<rparr>)
           (r\<lparr>fr_byID := AList.delete (entry_id r e) (fr_byID r),
              fr_byLocal := AList.delete (entry_key r e) (fr_byLocal r)\<rparr>)))"

text \<open>\<open>removeLocked\<close> of a nil entry dereferences it.\<close>

definition displace :: "string \<Rightarrow> bool \<Rightarrow> forwardRegistry \<Rightarrow> (error_code + unit) \<times> forwardRegistry" where
  "displace key norebind r =
     (case map_of (fr_byLocal r) key of
        None \<Rightarrow> (Inr (), r)
      | Some existingID \<Rightarrow>
          if norebind then (Inl ErrorRebindDisallowed, r)
          else case map_of (fr_byID r) existingID of
              None \<Rightarrow> (Inr (), r\<lparr>fr_panicked := True\<rparr>)
            | Some existing \<Rightarrow> (Inr (), removeLocked existing r))"

definition create_start :: "ForwardCreateParams \<Rightarrow> forwardRegistry \<Rightarrow> (error_code + unit) \<times> forwardRegistry" where
  "create_start params r =
     (case validateForwardCreateParams params of
        Some e \<Rightarrow> (Inl e, r)
      | None \<Rightarrow> displace (forward_key (fc_Local params)) (fc_Norebind params) r)"

text \<open>Whether the error of \<open>net.Listen\<close> wraps a \<open>*net.OpError\<close>.\<close>

datatype listen_err = ListenOpError | ListenOther

definition listenError :: "listen_err \<Rightarrow> error_code" where
  "listenError err = (case err of ListenOpError \<Rightarrow> ErrorAddressInUse | ListenOther \<Rightarrow> ErrorUnsupportedEndpoint)"

definition create_listen :: "listen_err + string \<Rightarrow> forwardRegistry \<Rightarrow> (error_code + nat) \<times> forwardRegistry" where
  "create_listen res r =
     (case res of
        Inl err \<Rightarrow> (Inl (listenError err), r)
      | Inr addr \<Rightarrow>
          (Inr (length (fr_listeners r)), r\<lparr>fr_listeners := fr_listeners r @ [\<lparr>ln_addr = addr, ln_open = True\<rparr>]\<rparr>))"

definition nextForwardID :: "forwardRegistry \<Rightarrow> string \<times> forwardRegistry" where
  "nextForwardID r = (let n = fr_nextID r + 1 in (counted_id ''fwd_'' n, r\<lparr>fr_nextID := n\<rparr>))"

definition create_entry :: "ForwardCreateParams \<Rightarrow> nat \<Rightarrow> string \<Rightarrow> forwardRegistry \<Rightarrow> nat \<times> forwardRegistry" where
  "create_entry params l now r0 =
     (let actualLocal = (fc_Local params)\<lparr>fl_Address := ln_addr (fr_listeners r0 ! l)\<rparr>;
          (ident, r) = nextForwardID r0 in
      (length (fr_entries r),
       r\<lparr>fr_entries := fr_entries r @
           [\<lparr>fe_forward = \<lparr>f_ID = ident, f_State = ForwardStateListening, f_Local = actualLocal, f_Remote = fc_Remote params,
              f_Target = fc_Target params, f_Norebind = fc_Norebind params, f_CreatedAt = now,
              f_ActiveConnections = 0, f_LastError = []\<rparr>,
             fe_listener = l, fe_active = [], fe_done = False, fe_accepted = None, fe_started = False\<rparr>]\<rparr>))"

definition create_insert :: "ForwardCreateParams \<Rightarrow> nat \<Rightarrow> forwardRegistry \<Rightarrow> (error_code + Forward) \<times> forwardRegistry" where
  "create_insert params e r0 =
     (let key = entry_key r0 e;
          r1 = (if map_of (fr_byLocal r0) key = None then r0 else listener_close (fe_listener (fr_entries r0 ! e)) r0) in
      case displace key (fc_Norebind params) r1 of
        (Inl err, r) \<Rightarrow> (Inl err, r)
      | (Inr _, r) \<Rightarrow>
          (Inr (fe_forward (fr_entries r ! e)),
           set_entry e (\<lambda>x. x\<lparr>fe_started := True\<rparr>)
             (r\<lparr>fr_byID := AList.update (entry_id r e) e (fr_byID r),
                fr_byLocal := AList.update (entry_key r e) (entry_id r e) (fr_byLocal r)\<rparr>)))"

text \<open>\<open>create\<close> with nothing interleaved.\<close>

definition forward_create ::
  "listen_err + string \<Rightarrow> string \<Rightarrow> ForwardCreateParams \<Rightarrow> forwardRegistry \<Rightarrow> (error_code + Forward) \<times> forwardRegistry" where
  "forward_create res now params r0 =
     (case create_start params r0 of
        (Inl e, r) \<Rightarrow> (Inl e, r)
      | (Inr _, r) \<Rightarrow>
          (case create_listen res r of
             (Inl e, r) \<Rightarrow> (Inl e, r)
           | (Inr l, r) \<Rightarrow> (case create_entry params l now r of (e, r) \<Rightarrow> create_insert params e r)))"

definition forward_list :: "forwardRegistry \<Rightarrow> Forward list" where
  "forward_list r = map (\<lambda>(_, e). fe_forward (fr_entries r ! e)) (fr_byID r)"

definition diagnose :: "Forward \<Rightarrow> ForwardDiagnostics \<Rightarrow> ForwardDiagnostics" where
  "diagnose f d =
     (let d = (if f_State f = ForwardStateListening then d\<lparr>fd_Listening := fd_Listening d + 1\<rparr>
               else if f_State f = ForwardStateDegraded then d\<lparr>fd_Degraded := fd_Degraded d + 1\<rparr> else d) in
      d\<lparr>fd_ActiveConnections := fd_ActiveConnections d + f_ActiveConnections f\<rparr>)"

definition forward_diagnostics :: "forwardRegistry \<Rightarrow> ForwardDiagnostics" where
  "forward_diagnostics r =
     fold diagnose (forward_list r)
       \<lparr>fd_Total = length (fr_byID r), fd_Listening = 0, fd_Degraded = 0, fd_ActiveConnections = 0\<rparr>"

definition forward_remove :: "ForwardRemoveParams \<Rightarrow> forwardRegistry \<Rightarrow> (error_code + nat) \<times> forwardRegistry" where
  "forward_remove params r =
     (if fm_ID params = [] \<and> fm_Local params = None \<or> fm_ID params \<noteq> [] \<and> fm_Local params \<noteq> None
      then (Inl ErrorBadRequest, r)
      else case (case fm_Local params of None \<Rightarrow> None | Some local \<Rightarrow> validateForwardLocal local) of
          Some e \<Rightarrow> (Inl e, r)
        | None \<Rightarrow>
            (let ident = (if fm_ID params \<noteq> [] then fm_ID params
                 else case map_of (fr_byLocal r) (forward_key (the (fm_Local params))) of None \<Rightarrow> [] | Some i \<Rightarrow> i) in
             case map_of (fr_byID r) ident of
               None \<Rightarrow> (Inl ErrorForwardNotFound, r)
             | Some e \<Rightarrow> (Inr 1, removeLocked e r)))"

definition forward_removeAll :: "forwardRegistry \<Rightarrow> nat \<times> forwardRegistry" where
  "forward_removeAll r = fold (\<lambda>(_, e) (n, r). (n + 1, removeLocked e r)) (fr_byID r) (0, r)"

definition registry_close :: "forwardRegistry \<Rightarrow> forwardRegistry" where
  "registry_close r = snd (forward_removeAll r)"

definition addActive :: "nat \<Rightarrow> nat \<Rightarrow> forwardRegistry \<Rightarrow> forwardRegistry" where
  "addActive e c =
     set_entry e (\<lambda>x. let active = List.insert c (fe_active x) in
       x\<lparr>fe_active := active, fe_forward := (fe_forward x)\<lparr>f_ActiveConnections := length active\<rparr>\<rparr>)"

definition removeActive :: "nat \<Rightarrow> nat \<Rightarrow> forwardRegistry \<Rightarrow> forwardRegistry" where
  "removeActive e c =
     set_entry e (\<lambda>x. let active = removeAll c (fe_active x) in
       x\<lparr>fe_active := active, fe_forward := (fe_forward x)\<lparr>f_ActiveConnections := length active\<rparr>\<rparr>)"

definition recordForwardError :: "nat \<Rightarrow> string \<Rightarrow> forwardRegistry \<Rightarrow> forwardRegistry" where
  "recordForwardError e message = set_forward e (\<lambda>f. f\<lparr>f_State := ForwardStateDegraded, f_LastError := message\<rparr>)"

definition recordForwardSuccess :: "nat \<Rightarrow> forwardRegistry \<Rightarrow> forwardRegistry" where
  "recordForwardSuccess e = set_forward e (\<lambda>f. f\<lparr>f_State := ForwardStateListening, f_LastError := []\<rparr>)"

definition setClient :: "nat \<Rightarrow> forwardRegistry \<Rightarrow> forwardRegistry" where
  "setClient c = set_conn c (\<lambda>x. x\<lparr>cn_client := Some True\<rparr>)"

definition setStream :: "nat \<Rightarrow> forwardRegistry \<Rightarrow> forwardRegistry" where
  "setStream c = set_conn c (\<lambda>x. x\<lparr>cn_stream := Some True\<rparr>)"

abbreviation goto :: "nat \<Rightarrow> conn_stage \<Rightarrow> forwardRegistry \<Rightarrow> forwardRegistry" where
  "goto c s \<equiv> set_conn c (\<lambda>x. x\<lparr>cn_stage := s\<rparr>)"

text \<open>The next step of \<open>bridge\<close>; \<open>res\<close> is the error text of \<open>ConnectTCP\<close> or \<open>OpenService\<close>, if it failed.\<close>

definition bridge_step :: "nat \<Rightarrow> string option \<Rightarrow> forwardRegistry \<Rightarrow> forwardRegistry" where
  "bridge_step c res r =
     (let e = cn_entry (fr_conns r ! c); f = fe_forward (fr_entries r ! e) in
      case cn_stage (fr_conns r ! c) of
        Accepted \<Rightarrow> r
      | Connecting \<Rightarrow>
          (case res of
             Some err \<Rightarrow>
               goto c Closing (recordForwardError e (''connect target '' @ ft_Address (f_Target f) @ '': '' @ err) r)
           | None \<Rightarrow> goto c OpeningService (setClient c r))
      | OpeningService \<Rightarrow>
          (case res of
             Some err \<Rightarrow>
               goto c Closing (recordForwardError e (''open remote service '' @ fr_Service (f_Remote f) @ '': '' @ err) r)
           | None \<Rightarrow> goto c Recording (setStream c r))
      | Recording \<Rightarrow> goto c Bridging (recordForwardSuccess e r)
      | Bridging \<Rightarrow> goto c Closing r
      | Closing \<Rightarrow> goto c Removing (set_conn c conn_close r)
      | Removing \<Rightarrow> goto c Ended (removeActive e c r)
      | Ended \<Rightarrow> r)"

text \<open>\<open>acceptAndBridge\<close>: \<open>Accept\<close> with its outcome, then \<open>addActive\<close> and the start of the bridge.\<close>

definition accept_conn :: "nat \<Rightarrow> forwardRegistry \<Rightarrow> forwardRegistry" where
  "accept_conn e r =
     set_entry e (\<lambda>x. x\<lparr>fe_accepted := Some (length (fr_conns r))\<rparr>)
       (r\<lparr>fr_conns := fr_conns r @ [\<lparr>cn_entry = e, cn_host = True, cn_client = None, cn_stream = None, cn_stage = Accepted\<rparr>]\<rparr>)"

definition accept_add :: "nat \<Rightarrow> nat \<Rightarrow> forwardRegistry \<Rightarrow> forwardRegistry" where
  "accept_add e c r = set_entry e (\<lambda>x. x\<lparr>fe_accepted := None\<rparr>) (goto c Connecting (addActive e c r))"

definition accept_fails :: "nat \<Rightarrow> forwardRegistry \<Rightarrow> forwardRegistry" where
  "accept_fails e = set_entry e (\<lambda>x. x\<lparr>fe_done := True\<rparr>)"

section \<open>The machine\<close>

datatype fwd_event =
    CreateCall ForwardCreateParams
  | CreateListen nat "listen_err + string"
  | CreateEntry nat string
  | CreateInsert nat
  | RemoveCall ForwardRemoveParams
  | RemoveAllCall
  | Accept nat
  | AcceptFails nat
  | AddActive nat
  | Bridge nat "string option"

definition set_create :: "nat \<Rightarrow> creating \<Rightarrow> forwardRegistry \<Rightarrow> forwardRegistry" where
  "set_create i c r = r\<lparr>fr_creates := (fr_creates r)[i := c]\<rparr>"

definition address_free :: "string \<Rightarrow> forwardRegistry \<Rightarrow> bool" where
  "address_free addr r \<longleftrightarrow> list_all (\<lambda>l. ln_open l \<longrightarrow> ln_addr l \<noteq> addr) (fr_listeners r)"

definition accepting :: "nat \<Rightarrow> forwardRegistry \<Rightarrow> bool" where
  "accepting e r \<longleftrightarrow> e < length (fr_entries r) \<and> fe_started (fr_entries r ! e) \<and> \<not> fe_done (fr_entries r ! e) \<and>
     fe_accepted (fr_entries r ! e) = None"

text \<open>An event shows what a call of \<open>remove\<close> or \<open>removeAll\<close> returns.\<close>

fun fwd_step :: "fwd_event \<Rightarrow> forwardRegistry \<Rightarrow> ((error_code + nat) option \<times> forwardRegistry) option" where
  "fwd_step (CreateCall p) r =
     (case create_start p r of
        (Inl e, r) \<Rightarrow> Some (None, r\<lparr>fr_creates := fr_creates r @ [CreateDone (Inl e)]\<rparr>)
      | (Inr _, r) \<Rightarrow> Some (None, r\<lparr>fr_creates := fr_creates r @ [ListenFor p]\<rparr>))"
| "fwd_step (CreateListen i res) r =
     (if i < length (fr_creates r) \<and> (case res of Inl _ \<Rightarrow> True | Inr addr \<Rightarrow> address_free addr r) then
        case fr_creates r ! i of
          ListenFor p \<Rightarrow>
            (case create_listen res r of
               (Inl e, r) \<Rightarrow> Some (None, set_create i (CreateDone (Inl e)) r)
             | (Inr l, r) \<Rightarrow> Some (None, set_create i (AllocateFor p l) r))
        | _ \<Rightarrow> None
      else None)"
| "fwd_step (CreateEntry i now) r =
     (if i < length (fr_creates r) then
        case fr_creates r ! i of
          AllocateFor p l \<Rightarrow> (case create_entry p l now r of (e, r) \<Rightarrow> Some (None, set_create i (InsertFor p e) r))
        | _ \<Rightarrow> None
      else None)"
| "fwd_step (CreateInsert i) r =
     (if i < length (fr_creates r) then
        case fr_creates r ! i of
          InsertFor p e \<Rightarrow> (case create_insert p e r of (res, r) \<Rightarrow> Some (None, set_create i (CreateDone res) r))
        | _ \<Rightarrow> None
      else None)"
| "fwd_step (RemoveCall p) r = (case forward_remove p r of (res, r) \<Rightarrow> Some (Some res, r))"
| "fwd_step RemoveAllCall r = (case forward_removeAll r of (n, r) \<Rightarrow> Some (Some (Inr n), r))"
| "fwd_step (Accept e) r =
     (if accepting e r \<and> ln_open (fr_listeners r ! fe_listener (fr_entries r ! e)) then Some (None, accept_conn e r) else None)"
| "fwd_step (AcceptFails e) r = (if accepting e r then Some (None, accept_fails e r) else None)"
| "fwd_step (AddActive e) r =
     (if e < length (fr_entries r) then
        case fe_accepted (fr_entries r ! e) of
          Some c \<Rightarrow> Some (None, accept_add e c r)
        | None \<Rightarrow> None
      else None)"
| "fwd_step (Bridge c res) r =
     (if c < length (fr_conns r) \<and> cn_stage (fr_conns r ! c) \<noteq> Accepted \<and> cn_stage (fr_conns r ! c) \<noteq> Ended
      then Some (None, bridge_step c res r) else None)"

section \<open>Views of the state\<close>

text \<open>The invariant has four parts, each about a view of the state that most operations leave alone.\<close>

definition skels :: "forwardRegistry \<Rightarrow> (string \<times> ForwardLocalEndpoint \<times> nat) list" where
  "skels r = map (\<lambda>x. (f_ID (fe_forward x), f_Local (fe_forward x), fe_listener x)) (fr_entries r)"

definition eview :: "forwardRegistry \<Rightarrow> (nat list \<times> nat \<times> nat option) list" where
  "eview r = map (\<lambda>x. (fe_active x, f_ActiveConnections (fe_forward x), fe_accepted x)) (fr_entries r)"

definition cview :: "forwardRegistry \<Rightarrow> (nat \<times> conn_stage) list" where
  "cview r = map (\<lambda>c. (cn_entry c, cn_stage c)) (fr_conns r)"

definition sview :: "forwardRegistry \<Rightarrow> (string \<times> bool) list" where
  "sview r = map (\<lambda>x. (f_State (fe_forward x), fe_started x)) (fr_entries r)"

definition view :: "forwardRegistry \<Rightarrow> (string \<times> ForwardLocalEndpoint \<times> nat) list \<times> (nat list \<times> nat \<times> nat option) list \<times>
    (nat \<times> conn_stage) list \<times> (string \<times> bool) list" where
  "view r = (skels r, eview r, cview r, sview r)"

lemma view_lengths [simp]:
  "length (skels r) = length (fr_entries r)" "length (eview r) = length (fr_entries r)"
  "length (sview r) = length (fr_entries r)" "length (cview r) = length (fr_conns r)"
  by (simp_all add: skels_def eview_def sview_def cview_def)

lemma view_nth:
  "e < length (fr_entries r) \<Longrightarrow> skels r ! e = (entry_id r e, f_Local (fe_forward (fr_entries r ! e)), fe_listener (fr_entries r ! e))"
  "e < length (fr_entries r) \<Longrightarrow>
     eview r ! e = (fe_active (fr_entries r ! e), f_ActiveConnections (fe_forward (fr_entries r ! e)), fe_accepted (fr_entries r ! e))"
  "e < length (fr_entries r) \<Longrightarrow> sview r ! e = (f_State (fe_forward (fr_entries r ! e)), fe_started (fr_entries r ! e))"
  "c < length (fr_conns r) \<Longrightarrow> cview r ! c = (cn_entry (fr_conns r ! c), cn_stage (fr_conns r ! c))"
  by (simp_all add: skels_def eview_def sview_def cview_def)

text \<open>The fields an update of one object leaves alone.\<close>

lemma set_entry_frame [simp]:
  "fr_nextID (set_entry e h r) = fr_nextID r" "fr_byID (set_entry e h r) = fr_byID r"
  "fr_byLocal (set_entry e h r) = fr_byLocal r" "fr_conns (set_entry e h r) = fr_conns r"
  "fr_listeners (set_entry e h r) = fr_listeners r" "fr_creates (set_entry e h r) = fr_creates r"
  "fr_panicked (set_entry e h r) = fr_panicked r"
  "fr_entries (set_entry e h r) = (fr_entries r)[e := h (fr_entries r ! e)]"
  by (simp_all add: set_entry_def)

lemma set_conn_frame [simp]:
  "fr_nextID (set_conn c h r) = fr_nextID r" "fr_byID (set_conn c h r) = fr_byID r"
  "fr_byLocal (set_conn c h r) = fr_byLocal r" "fr_entries (set_conn c h r) = fr_entries r"
  "fr_listeners (set_conn c h r) = fr_listeners r" "fr_creates (set_conn c h r) = fr_creates r"
  "fr_panicked (set_conn c h r) = fr_panicked r"
  "fr_conns (set_conn c h r) = (fr_conns r)[c := h (fr_conns r ! c)]"
  by (simp_all add: set_conn_def)

lemma listener_close_frame [simp]:
  "fr_nextID (listener_close l r) = fr_nextID r" "fr_byID (listener_close l r) = fr_byID r"
  "fr_byLocal (listener_close l r) = fr_byLocal r" "fr_entries (listener_close l r) = fr_entries r"
  "fr_conns (listener_close l r) = fr_conns r" "fr_creates (listener_close l r) = fr_creates r"
  "fr_panicked (listener_close l r) = fr_panicked r"
  "fr_listeners (listener_close l r) = (fr_listeners r)[l := (fr_listeners r ! l)\<lparr>ln_open := False\<rparr>]"
  by (simp_all add: listener_close_def)

lemma set_create_frame [simp]:
  "fr_nextID (set_create i c r) = fr_nextID r" "fr_byID (set_create i c r) = fr_byID r"
  "fr_byLocal (set_create i c r) = fr_byLocal r" "fr_entries (set_create i c r) = fr_entries r"
  "fr_conns (set_create i c r) = fr_conns r" "fr_listeners (set_create i c r) = fr_listeners r"
  "fr_panicked (set_create i c r) = fr_panicked r"
  "fr_creates (set_create i c r) = (fr_creates r)[i := c]"
  by (simp_all add: set_create_def)

lemma close_active_frame [simp]:
  "fr_nextID (close_active cs r) = fr_nextID r" "fr_byID (close_active cs r) = fr_byID r"
  "fr_byLocal (close_active cs r) = fr_byLocal r" "fr_entries (close_active cs r) = fr_entries r"
  "fr_listeners (close_active cs r) = fr_listeners r" "fr_creates (close_active cs r) = fr_creates r"
  "fr_panicked (close_active cs r) = fr_panicked r" "length (fr_conns (close_active cs r)) = length (fr_conns r)"
  "cview (close_active cs r) = cview r"
proof (induction cs arbitrary: r)
  case (Cons c cs)
  { case 9 show ?case using Cons(9) [of "set_conn c conn_close r"]
      by (simp add: close_active_def cview_def) (rule map_update_same, simp add: conn_close_def) }
qed (simp_all add: close_active_def)

lemma view_cong:
  "fr_entries r' = fr_entries r \<Longrightarrow> skels r' = skels r \<and> eview r' = eview r \<and> sview r' = sview r"
  "fr_conns r' = fr_conns r \<Longrightarrow> cview r' = cview r"
  by (simp_all add: skels_def eview_def sview_def cview_def)

lemma removeLocked_frame [simp]:
  "fr_nextID (removeLocked e r) = fr_nextID r"
  "fr_byID (removeLocked e r) = AList.delete (entry_id r e) (fr_byID r)"
  "fr_byLocal (removeLocked e r) = AList.delete (entry_key r e) (fr_byLocal r)"
  "fr_creates (removeLocked e r) = fr_creates r" "fr_panicked (removeLocked e r) = fr_panicked r"
  "fr_listeners (removeLocked e r) =
     (let l = fe_listener (fr_entries r ! e) in (fr_listeners r)[l := (fr_listeners r ! l)\<lparr>ln_open := False\<rparr>])"
  "length (fr_entries (removeLocked e r)) = length (fr_entries r)"
  "length (fr_conns (removeLocked e r)) = length (fr_conns r)"
  "skels (removeLocked e r) = skels r" "eview (removeLocked e r) = eview r" "cview (removeLocked e r) = cview r"
  "sview (removeLocked e r) = (sview r)[e := (ForwardStateStopped, snd (sview r ! e))]"
  by (simp_all add: removeLocked_def set_forward_def Let_def skels_def eview_def map_update_same del: map_update)
    (simp_all add: cview_def sview_def, auto intro!: nth_equalityI simp: nth_upd)

end
