(* ===== verification/ServerForwardProps.thy ===== *)
theory ServerForwardProps
  imports ServerForward
begin

text \<open>
  The invariant of the forward registry over every interleaving, and what follows for its callers:
  the two tables are inverse to each other, every registered forward listens on its own address, the
  counters agree with the connections, and the registry never dereferences a missing entry.
\<close>

section \<open>The parts of the invariant\<close>

definition ids_ok :: "(string \<times> ForwardLocalEndpoint \<times> nat) list \<Rightarrow> u64 \<Rightarrow> bool" where
  "ids_ok S n \<longleftrightarrow> numbered ''fwd_'' (map fst S) n"

abbreviation lst :: "(string \<times> ForwardLocalEndpoint \<times> nat) list \<Rightarrow> nat \<Rightarrow> nat" where
  "lst S e \<equiv> snd (snd (S ! e))"

definition creating_ok :: "(string \<times> ForwardLocalEndpoint \<times> nat) list \<Rightarrow> listener list \<Rightarrow> creating \<Rightarrow> bool" where
  "creating_ok S L c =
     (case c of
        ListenFor p \<Rightarrow> fl_Network (fc_Local p) = ''tcp''
      | AllocateFor p l \<Rightarrow>
          fl_Network (fc_Local p) = ''tcp'' \<and> l < length L \<and> ln_open (L ! l) \<and> (\<forall>e < length S. lst S e \<noteq> l)
      | InsertFor p e \<Rightarrow> e < length S \<and> ln_open (L ! lst S e)
      | CreateDone _ \<Rightarrow> True)"

definition owns :: "creating \<Rightarrow> (nat + nat) set" where
  "owns c = (case c of AllocateFor _ l \<Rightarrow> {Inl l} | InsertFor _ e \<Rightarrow> {Inr e} | _ \<Rightarrow> {})"

definition listeners_ok :: "listener list \<Rightarrow> bool" where
  "listeners_ok L \<longleftrightarrow> (\<forall>l < length L. \<forall>l' < length L. ln_open (L ! l) \<and> ln_open (L ! l') \<and> ln_addr (L ! l) = ln_addr (L ! l') \<longrightarrow> l = l')"

definition entries_ok :: "(string \<times> ForwardLocalEndpoint \<times> nat) list \<Rightarrow> listener list \<Rightarrow> bool" where
  "entries_ok S L \<longleftrightarrow> (\<forall>e < length S. \<forall>e' < length S. lst S e = lst S e' \<longrightarrow> e = e') \<and>
     (\<forall>e < length S. lst S e < length L \<and> fl_Network (fst (snd (S ! e))) = ''tcp'' \<and>
        fl_Address (fst (snd (S ! e))) = ln_addr (L ! lst S e))"

definition creates_ok :: "(string \<times> ForwardLocalEndpoint \<times> nat) list \<Rightarrow> listener list \<Rightarrow> creating list \<Rightarrow> bool" where
  "creates_ok S L C \<longleftrightarrow> (\<forall>i < length C. creating_ok S L (C ! i)) \<and>
     (\<forall>i < length C. \<forall>j < length C. i \<noteq> j \<longrightarrow> owns (C ! i) \<inter> owns (C ! j) = {})"

abbreviation id_of :: "(string \<times> ForwardLocalEndpoint \<times> nat) list \<Rightarrow> nat \<Rightarrow> string" where
  "id_of S e \<equiv> fst (S ! e)"

abbreviation key_of :: "(string \<times> ForwardLocalEndpoint \<times> nat) list \<Rightarrow> nat \<Rightarrow> string" where
  "key_of S e \<equiv> forward_key (fst (snd (S ! e)))"

definition live_state :: "string \<Rightarrow> bool" where
  "live_state s \<longleftrightarrow> s = ForwardStateListening \<or> s = ForwardStateDegraded"

definition reg_ok :: "(string \<times> ForwardLocalEndpoint \<times> nat) list \<Rightarrow> (string \<times> bool) list \<Rightarrow> listener list \<Rightarrow> (string \<times> nat) list \<Rightarrow> bool" where
  "reg_ok S T L B \<longleftrightarrow>
     (\<forall>e. in_table B e \<longrightarrow> e < length S \<and> ln_open (L ! lst S e) \<and> live_state (fst (T ! e)) \<and> snd (T ! e))"

definition unstarted_ok :: "(string \<times> bool) list \<Rightarrow> creating list \<Rightarrow> (string \<times> nat) list \<Rightarrow> bool" where
  "unstarted_ok T C B \<longleftrightarrow>
     (\<forall>p e. InsertFor p e \<in> set C \<longrightarrow> \<not> in_table B e \<and> T ! e = (ForwardStateListening, False))"

definition working :: "conn_stage \<Rightarrow> bool" where
  "working s \<longleftrightarrow> s \<noteq> Accepted \<and> s \<noteq> Ended"

definition conns_ok :: "(nat list \<times> nat \<times> nat option) list \<Rightarrow> (nat \<times> conn_stage) list \<Rightarrow> (string \<times> bool) list \<Rightarrow> bool" where
  "conns_ok E C T \<longleftrightarrow>
     (\<forall>e < length E. distinct (fst (E ! e)) \<and> fst (snd (E ! e)) = length (fst (E ! e)) \<and>
        (\<forall>c \<in> set (fst (E ! e)). c < length C \<and> fst (C ! c) = e \<and> working (snd (C ! c))) \<and>
        (\<forall>c. snd (snd (E ! e)) = Some c \<longrightarrow> c < length C \<and> C ! c = (e, Accepted))) \<and>
     (\<forall>c < length C. fst (C ! c) < length E \<and> snd (T ! fst (C ! c)) \<and>
        (working (snd (C ! c)) \<longrightarrow> c \<in> set (fst (E ! fst (C ! c)))))"

definition fwd_ok :: "forwardRegistry \<Rightarrow> bool" where
  "fwd_ok r \<longleftrightarrow> ids_ok (skels r) (fr_nextID r) \<and> listeners_ok (fr_listeners r) \<and> entries_ok (skels r) (fr_listeners r) \<and>
     creates_ok (skels r) (fr_listeners r) (fr_creates r) \<and>
     table_ok (id_of (skels r)) (key_of (skels r)) (fr_byID r) (fr_byLocal r) \<and>
     reg_ok (skels r) (sview r) (fr_listeners r) (fr_byID r) \<and> unstarted_ok (sview r) (fr_creates r) (fr_byID r) \<and>
     conns_ok (eview r) (cview r) (sview r) \<and> \<not> fr_panicked r"

definition fwd_inv :: "forwardRegistry \<Rightarrow> bool" where
  "fwd_inv r \<longleftrightarrow> (length (fr_entries r) < 2 ^ 64 \<longrightarrow> fwd_ok r)"

lemmas fwd_parts = ids_ok_def listeners_ok_def entries_ok_def creates_ok_def reg_ok_def unstarted_ok_def conns_ok_def

section \<open>Identifiers and keys\<close>

lemma ids_inj:
  assumes "ids_ok S n" "length S < 2 ^ 64" "e < length S" "e' < length S" "id_of S e = id_of S e'"
  shows "e = e'"
  using assms numbered_inj [of "''fwd_''" "map fst S" n e e'] by (simp add: ids_ok_def)

lemma key_addr:
  assumes "fl_Network a = ''tcp''" "fl_Network b = ''tcp''"
  shows "forward_key a = forward_key b \<longleftrightarrow> fl_Address a = fl_Address b"
  using assms by (simp add: forward_key_def)

text \<open>Two entries with the same key and open listeners are the same entry: the collision check at the end of
  \<open>create\<close> never finds one.\<close>

lemma open_keys_inj:
  assumes "listeners_ok L" "entries_ok S L" "e < length S" "e' < length S"
    and "ln_open (L ! lst S e)" "ln_open (L ! lst S e')" "key_of S e = key_of S e'"
  shows "e = e'"
proof -
  have "ln_addr (L ! lst S e) = ln_addr (L ! lst S e')"
    using assms key_addr by (metis entries_ok_def)
  with assms have "lst S e = lst S e'" by (auto simp: listeners_ok_def entries_ok_def)
  with assms show ?thesis by (auto simp: entries_ok_def)
qed

section \<open>Removing\<close>

lemma close_listener_ok:
  assumes "listeners_ok L" "entries_ok S L"
  shows "listeners_ok (L[l := (L ! l)\<lparr>ln_open := False\<rparr>])" "entries_ok S (L[l := (L ! l)\<lparr>ln_open := False\<rparr>])"
  using assms by (auto simp: listeners_ok_def entries_ok_def nth_upd)

lemma remove_ok:
  assumes "fwd_ok r" "in_table (fr_byID r) e"
  shows "fwd_ok (removeLocked e r)"
proof -
  let ?S = "skels r" and ?L = "fr_listeners r" and ?B = "fr_byID r" and ?C = "fr_creates r"
  let ?L' = "?L[lst ?S e := (?L ! lst ?S e)\<lparr>ln_open := False\<rparr>]"
  note ok = assms(1) [unfolded fwd_ok_def]
  have e: "e < length ?S" "e < length (fr_entries r)" using assms by (auto simp: fwd_ok_def reg_ok_def)
  have ids: "entry_id r e = id_of ?S e" "entry_key r e = key_of ?S e" "fe_listener (fr_entries r ! e) = lst ?S e"
    using e by (simp_all add: view_nth)
  have inj: "lst ?S e' \<noteq> lst ?S e" if "e' < length ?S" "e' \<noteq> e" for e'
    using ok e that by (auto simp: entries_ok_def)
  have "creates_ok ?S ?L' ?C"
  proof -
    have "creating_ok ?S ?L' c" if "creating_ok ?S ?L c" "c \<in> set ?C" for c
      using that inj ok e assms(2) by (cases c) (auto simp: creating_ok_def nth_upd unstarted_ok_def, blast)
    with ok show ?thesis by (auto simp: creates_ok_def)
  qed
  moreover have "reg_ok ?S ((sview r)[e := (ForwardStateStopped, snd (sview r ! e))]) ?L' (AList.delete (id_of ?S e) ?B)"
    using ok assms(2) table_delete(2) [of "id_of ?S" "key_of ?S" ?B "fr_byLocal r" e] inj
    by (auto simp: reg_ok_def nth_upd, blast)
  moreover have "unstarted_ok ((sview r)[e := (ForwardStateStopped, snd (sview r ! e))]) ?C (AList.delete (id_of ?S e) ?B)"
    using ok assms(2) table_delete(2) [of "id_of ?S" "key_of ?S" ?B "fr_byLocal r" e]
    by (auto simp: unstarted_ok_def nth_upd)
  moreover have "conns_ok (eview r) (cview r) ((sview r)[e := (ForwardStateStopped, snd (sview r ! e))])"
    using ok by (auto simp: conns_ok_def nth_upd)
  ultimately show ?thesis
    using ok close_listener_ok [of ?L ?S] table_delete(1) [of "id_of ?S" "key_of ?S" ?B "fr_byLocal r" e] assms(2)
    by (simp add: fwd_ok_def ids Let_def)
qed

lemma remove_table:
  assumes "fwd_ok r" "in_table (fr_byID r) e"
  shows "in_table (fr_byID (removeLocked e r)) e' \<longleftrightarrow> in_table (fr_byID r) e' \<and> e' \<noteq> e"
proof -
  have "e < length (fr_entries r)" using assms by (auto simp: fwd_ok_def reg_ok_def)
  then have "entry_id r e = id_of (skels r) e" by (simp add: view_nth)
  with assms table_delete(2) [of "id_of (skels r)" "key_of (skels r)" "fr_byID r" "fr_byLocal r" e] show ?thesis
    by (simp add: fwd_ok_def)
qed

lemma displace_ok:
  assumes "fwd_ok r" "displace key nb r = (res, r')"
  shows "fwd_ok r'" "skels r' = skels r" "fr_creates r' = fr_creates r" "length (fr_entries r') = length (fr_entries r)"
    "in_table (fr_byID r') e \<Longrightarrow> in_table (fr_byID r) e"
proof -
  have t: "table_ok (id_of (skels r)) (key_of (skels r)) (fr_byID r) (fr_byLocal r)" using assms(1) by (simp add: fwd_ok_def)
  consider "r' = r" | x where "in_table (fr_byID r) x" "r' = removeLocked x r"
    using assms(2) table_lookup(2) [OF t] by (fastforce simp: displace_def split: option.splits if_splits)
  note cases = this
  show "fwd_ok r'" by (rule cases) (simp_all add: assms(1) remove_ok)
  show "skels r' = skels r" "fr_creates r' = fr_creates r" "length (fr_entries r') = length (fr_entries r)"
    by (rule cases; simp)+
  show "in_table (fr_byID r') e \<Longrightarrow> in_table (fr_byID r) e"
    by (rule cases) (simp_all add: remove_table [OF assms(1)] del: removeLocked_frame)
qed

section \<open>Creating\<close>

lemma creates_at:
  assumes "creates_ok S L C" "i < length C"
  shows "creating_ok S L (C ! i)" "j < length C \<Longrightarrow> j \<noteq> i \<Longrightarrow> owns (C ! i) \<inter> owns (C ! j) = {}"
  using assms by (auto simp: creates_ok_def)

lemma creates_mem: "creates_ok S L C \<Longrightarrow> c \<in> set C \<Longrightarrow> creating_ok S L c"
  by (metis creates_at(1) in_set_conv_nth)

lemma creates_append:
  assumes "creates_ok S L C" "creating_ok S L c" "owns c = {}"
  shows "creates_ok S L (C @ [c])"
  using assms by (auto simp: creates_ok_def nth_append less_Suc_eq)

lemma creates_update:
  assumes "creates_ok S L C" "\<And>j. j < length C \<Longrightarrow> j \<noteq> i \<Longrightarrow> creating_ok S L (C ! j) \<Longrightarrow> creating_ok S' L' (C ! j)"
    and "creating_ok S' L' c" "\<And>j. j < length C \<Longrightarrow> j \<noteq> i \<Longrightarrow> creating_ok S L (C ! j) \<Longrightarrow> owns c \<inter> owns (C ! j) = {}"
  shows "creates_ok S' L' (C[i := c])"
  using assms by (fastforce simp: creates_ok_def nth_upd)

lemma create_start_ok:
  assumes "fwd_ok r" "create_start p r = (res, r')"
  shows "fwd_ok (r'\<lparr>fr_creates := fr_creates r' @ [case res of Inl e \<Rightarrow> CreateDone (Inl e) | Inr _ \<Rightarrow> ListenFor p]\<rparr>)"
    and "length (fr_entries r') = length (fr_entries r)"
proof -
  have r': "fwd_ok r'" "length (fr_entries r') = length (fr_entries r)"
    using assms displace_ok(1,4) [OF assms(1)] by (auto simp: create_start_def split: option.splits)
  then show "length (fr_entries r') = length (fr_entries r)" by simp
  let ?c = "case res of Inl e \<Rightarrow> CreateDone (Inl e) | Inr _ \<Rightarrow> ListenFor p"
  have "fl_Network (fc_Local p) = ''tcp''" if "res = Inr ()"
    using assms(2) that by (auto simp: create_start_def validateForwardCreateParams_def validateForwardLocal_def
        split: option.splits if_splits)
  then have c: "creating_ok (skels r') (fr_listeners r') ?c" "owns ?c = {}" "\<And>p e. ?c \<noteq> InsertFor p e"
    by (auto simp: creating_ok_def owns_def split: sum.splits)
  from r'(1) creates_append [OF _ c(1,2)] c(3)
  show "fwd_ok (r'\<lparr>fr_creates := fr_creates r' @ [?c]\<rparr>)"
    by (simp add: fwd_ok_def skels_def sview_def eview_def cview_def unstarted_ok_def) metis
qed

lemma set_create_ok:
  assumes "fwd_ok r" "i < length (fr_creates r)" "creating_ok (skels r) (fr_listeners r) c" "owns c \<subseteq> owns (fr_creates r ! i)"
    and "\<And>p e. c \<noteq> InsertFor p e"
  shows "fwd_ok (set_create i c r)"
proof -
  have "creates_ok (skels r) (fr_listeners r) ((fr_creates r)[i := c])"
    using assms creates_at(2) [of "skels r" "fr_listeners r" "fr_creates r" i]
    by (intro creates_update [of "skels r" "fr_listeners r"]) (auto simp: fwd_ok_def, blast)
  moreover have "unstarted_ok (sview r) ((fr_creates r)[i := c]) (fr_byID r)"
    using assms(1,5) set_update_subset_insert [of "fr_creates r" i c] by (fastforce simp: fwd_ok_def unstarted_ok_def)
  moreover have "skels (set_create i c r) = skels r" "sview (set_create i c r) = sview r"
    "eview (set_create i c r) = eview r" "cview (set_create i c r) = cview r"
    by (simp_all add: skels_def sview_def eview_def cview_def)
  ultimately show ?thesis using assms(1) by (simp add: fwd_ok_def)
qed

lemma listen_ok:
  assumes "fwd_ok r" "i < length (fr_creates r)" "fr_creates r ! i = ListenFor p" "address_free addr r"
  shows "fwd_ok (set_create i (AllocateFor p (length (fr_listeners r)))
           (r\<lparr>fr_listeners := fr_listeners r @ [\<lparr>ln_addr = addr, ln_open = True\<rparr>]\<rparr>))"
proof -
  let ?x = "\<lparr>ln_addr = addr, ln_open = True\<rparr>" and ?L = "fr_listeners r" and ?S = "skels r" and ?C = "fr_creates r"
  let ?r = "r\<lparr>fr_listeners := ?L @ [?x]\<rparr>" and ?c = "AllocateFor p (length (fr_listeners r))"
  note ok = assms(1) [unfolded fwd_ok_def]
  have l: "listeners_ok (?L @ [?x])"
    using ok assms(4) by (auto simp: listeners_ok_def address_free_def list_all_length nth_append less_Suc_eq)
  have s: "entries_ok ?S (?L @ [?x])" using ok by (auto simp: entries_ok_def nth_append)
  have grow: "creating_ok ?S (?L @ [?x]) c" if "creating_ok ?S ?L c" for c
    using that ok by (cases c) (auto simp: creating_ok_def nth_append entries_ok_def)
  have p: "fl_Network (fc_Local p) = ''tcp''"
    using creates_at(1) [of ?S ?L ?C i] ok assms(2,3) by (auto simp: creating_ok_def)
  have fresh: "owns ?c \<inter> owns c = {}" if "creating_ok ?S ?L c" for c
    using that by (cases c) (auto simp: owns_def creating_ok_def)
  have "creating_ok ?S (?L @ [?x]) ?c" using ok p by (auto simp: creating_ok_def entries_ok_def)
  then have "creates_ok ?S (?L @ [?x]) (?C[i := ?c])"
    using ok grow fresh by (intro creates_update [of ?S ?L]) auto
  moreover have "unstarted_ok (sview r) (?C[i := ?c]) (fr_byID r)"
    using ok set_update_subset_insert [of ?C i ?c] by (fastforce simp: unstarted_ok_def)
  moreover have "reg_ok ?S (sview r) (?L @ [?x]) (fr_byID r)" using ok by (auto simp: reg_ok_def nth_append entries_ok_def)
  moreover have "skels (set_create i ?c ?r) = ?S" "sview (set_create i ?c ?r) = sview r"
    "eview (set_create i ?c ?r) = eview r" "cview (set_create i ?c ?r) = cview r"
    by (simp_all add: skels_def sview_def eview_def cview_def)
  ultimately show ?thesis using ok l s by (simp add: fwd_ok_def)
qed

lemma create_entry_ok:
  assumes "fwd_ok r" "i < length (fr_creates r)" "fr_creates r ! i = AllocateFor p l" "create_entry p l now r = (e, r')"
  shows "fwd_ok (set_create i (InsertFor p e) r')" and "length (fr_entries r') = Suc (length (fr_entries r))"
proof -
  let ?S = "skels r" and ?C = "fr_creates r" and ?L = "fr_listeners r"
  let ?s = "(counted_id ''fwd_'' (fr_nextID r + 1), (fc_Local p)\<lparr>fl_Address := ln_addr (?L ! l)\<rparr>, l)"
  let ?c = "InsertFor p e" and ?r = "set_create i (InsertFor p e) r'"
  note ok = assms(1) [unfolded fwd_ok_def]
  have e: "e = length ?S" using assms(4) by (auto simp: create_entry_def nextForwardID_def Let_def)
  have r': "fr_nextID ?r = fr_nextID r + 1" "fr_listeners ?r = ?L" "fr_byID ?r = fr_byID r" "fr_byLocal ?r = fr_byLocal r"
    "fr_creates ?r = ?C[i := ?c]" "fr_panicked ?r = fr_panicked r" "skels ?r = ?S @ [?s]" "cview ?r = cview r"
    "eview ?r = eview r @ [([], 0, None)]" "sview ?r = sview r @ [(ForwardStateListening, False)]"
    using assms(4) by (auto simp: create_entry_def nextForwardID_def Let_def skels_def eview_def sview_def cview_def)
  show "length (fr_entries r') = Suc (length (fr_entries r))"
    using assms(4) by (auto simp: create_entry_def nextForwardID_def Let_def)
  have ids: "ids_ok (?S @ [?s]) (fr_nextID r + 1)"
    using ok numbered_append [of "''fwd_''" "map fst ?S"] by (simp add: ids_ok_def)
  have lp: "l < length ?L" "ln_open (?L ! l)" "\<forall>x < length ?S. lst ?S x \<noteq> l" "fl_Network (fc_Local p) = ''tcp''"
    using creates_at(1) [of ?S ?L ?C i] ok assms(2,3) by (auto simp: creating_ok_def)
  have ent: "entries_ok (?S @ [?s]) ?L"
    using ok lp by (auto simp: entries_ok_def nth_append less_Suc_eq)
  have grow: "creating_ok (?S @ [?s]) ?L c" if "creating_ok ?S ?L c" "owns c \<inter> {Inl l} = {}" for c
    using that by (cases c) (auto simp: creating_ok_def nth_append owns_def less_Suc_eq)
  have "creating_ok (?S @ [?s]) ?L ?c" using lp e by (simp add: creating_ok_def nth_append)
  moreover have "owns ?c \<inter> owns c = {}" if "creating_ok ?S ?L c" for c
    using that e by (cases c) (auto simp: creating_ok_def owns_def)
  moreover have "owns (?C ! j) \<inter> {Inl l} = {}" if "j < length ?C" "j \<noteq> i" for j
    using creates_at(2) [of ?S ?L ?C i j] ok assms(2,3) that by (auto simp: owns_def)
  ultimately have cr: "creates_ok (?S @ [?s]) ?L (?C[i := ?c])"
    using ok grow by (intro creates_update [of ?S ?L]) auto
  have reg: "reg_ok (?S @ [?s]) (sview r @ [(ForwardStateListening, False)]) ?L (fr_byID r)"
    using ok by (auto simp: reg_ok_def nth_append)
  have un: "unstarted_ok (sview r @ [(ForwardStateListening, False)]) (?C[i := ?c]) (fr_byID r)"
    unfolding unstarted_ok_def
  proof (intro allI impI)
    fix q x assume "InsertFor q x \<in> set (?C[i := ?c])"
    then have "x = e \<or> InsertFor q x \<in> set ?C" using set_update_subset_insert [of ?C i ?c] by auto
    moreover have "InsertFor q x \<in> set ?C \<Longrightarrow> x < length ?S"
      using creates_mem [of ?S ?L ?C "InsertFor q x"] ok by (auto simp: creating_ok_def)
    ultimately show "\<not> in_table (fr_byID r) x \<and> (sview r @ [(ForwardStateListening, False)]) ! x = (ForwardStateListening, False)"
      using ok e by (auto simp: unstarted_ok_def nth_append reg_ok_def)
  qed
  have "table_ok (id_of (?S @ [?s])) (key_of (?S @ [?s])) (fr_byID r) (fr_byLocal r)"
    by (rule table_cong [of "id_of ?S" "key_of ?S"]) (use ok in \<open>auto simp: reg_ok_def nth_append\<close>)
  moreover have "conns_ok (eview r @ [([], 0, None)]) (cview r) (sview r @ [(ForwardStateListening, False)])"
  proof -
    have "conns_ok (eview r) (cview r) (sview r)" "length (sview r) = length (eview r)" using ok by auto
    then show ?thesis by (simp add: conns_ok_def nth_append less_Suc_eq all_conj_distrib)
  qed
  ultimately show "fwd_ok ?r" unfolding fwd_ok_def r' using ok ids ent cr reg un by simp
qed

lemma insert_key_free:
  assumes "fwd_ok r" "InsertFor p e \<in> set (fr_creates r)"
  shows "map_of (fr_byLocal r) (key_of (skels r) e) = None" "e < length (fr_entries r)"
proof -
  let ?S = "skels r" and ?L = "fr_listeners r"
  note ok = assms(1) [unfolded fwd_ok_def]
  have e: "e < length ?S" "ln_open (?L ! lst ?S e)" "\<not> in_table (fr_byID r) e"
    using creates_mem [of ?S ?L "fr_creates r", OF _ assms(2)] ok assms(2) by (auto simp: creating_ok_def unstarted_ok_def)
  then show "e < length (fr_entries r)" by simp
  show "map_of (fr_byLocal r) (key_of ?S e) = None"
  proof (rule ccontr)
    assume "map_of (fr_byLocal r) (key_of ?S e) \<noteq> None"
    then obtain e' where e': "in_table (fr_byID r) e'" "key_of ?S e' = key_of ?S e"
      using table_lookup(2) [of "id_of ?S" "key_of ?S" "fr_byID r" "fr_byLocal r" "key_of ?S e"] ok by auto
    then have "e' < length ?S" "ln_open (?L ! lst ?S e')" using ok by (auto simp: reg_ok_def)
    then have "e' = e" using e e' ok open_keys_inj [of ?L ?S e' e] by blast
    with e e' show False by simp
  qed
qed

lemma create_insert_free:
  assumes "fwd_ok r" "InsertFor p e \<in> set (fr_creates r)"
  shows "create_insert p e r =
     (Inr (fe_forward (fr_entries r ! e)),
      set_entry e (\<lambda>x. x\<lparr>fe_started := True\<rparr>)
        (r\<lparr>fr_byID := AList.update (entry_id r e) e (fr_byID r),
           fr_byLocal := AList.update (entry_key r e) (entry_id r e) (fr_byLocal r)\<rparr>))"
  using insert_key_free [OF assms] by (simp add: create_insert_def displace_def view_nth Let_def)

lemma create_insert_ok:
  assumes "fwd_ok r" "length (fr_entries r) < 2 ^ 64" "i < length (fr_creates r)" "fr_creates r ! i = InsertFor p e"
    and "create_insert p e r = (res, r')"
  shows "fwd_ok (set_create i (CreateDone res) r')" "length (fr_entries r') = length (fr_entries r)"
proof -
  let ?S = "skels r" and ?L = "fr_listeners r" and ?C = "fr_creates r" and ?B = "fr_byID r" and ?K = "fr_byLocal r"
  let ?T = "(sview r)[e := (fst (sview r ! e), True)]" and ?B' = "AList.update (id_of ?S e) e ?B"
  let ?K' = "AList.update (key_of ?S e) (id_of ?S e) ?K" and ?r = "set_create i (CreateDone res) r'"
  note ok = assms(1) [unfolded fwd_ok_def]
  have mem: "InsertFor p e \<in> set ?C" using assms(3,4) by (metis nth_mem)
  note free = insert_key_free [OF assms(1) mem]
  have e: "e < length ?S" "ln_open (?L ! lst ?S e)" "\<not> in_table ?B e" "sview r ! e = (ForwardStateListening, False)"
    using creates_mem [of ?S ?L ?C, OF _ mem] ok mem by (auto simp: creating_ok_def unstarted_ok_def)
  have r': "fr_nextID ?r = fr_nextID r" "fr_listeners ?r = ?L" "fr_byID ?r = ?B'" "fr_byLocal ?r = ?K'"
    "fr_creates ?r = ?C[i := CreateDone res]" "fr_panicked ?r = fr_panicked r" "skels ?r = ?S" "cview ?r = cview r"
    "eview ?r = eview r" "sview ?r = ?T" "length (fr_entries r') = length (fr_entries r)"
    using assms(5) free(2) unfolding create_insert_free [OF assms(1) mem]
    by (auto simp: skels_def eview_def cview_def sview_def map_update_same view_nth map_update nth_upd intro!: nth_equalityI
        simp del: map_update)
  then show "length (fr_entries r') = length (fr_entries r)" by simp
  have idfree: "map_of ?B (id_of ?S e) = None"
  proof (rule ccontr)
    assume "map_of ?B (id_of ?S e) \<noteq> None"
    then obtain e' where e': "map_of ?B (id_of ?S e) = Some e'" by auto
    then have x: "in_table ?B e'" "id_of ?S e' = id_of ?S e"
      using table_lookup(1) [of "id_of ?S" "key_of ?S" ?B ?K] ok by auto
    then have "e' < length ?S" using ok by (auto simp: reg_ok_def)
    then have "e' = e" using ids_inj [of ?S _ e' e] ok assms(2) e x by auto
    with x e show False by simp
  qed
  have t: "table_ok (id_of ?S) (key_of ?S) ?B' ?K'" "\<And>x. in_table ?B' x \<longleftrightarrow> in_table ?B x \<or> x = e"
    using table_insert [of "id_of ?S" "key_of ?S" ?B ?K e] idfree free(1) ok by auto
  have "reg_ok ?S ?T ?L ?B'" using ok e t(2) by (auto simp: reg_ok_def nth_upd live_state_def)
  moreover have cr: "creates_ok ?S ?L (?C[i := CreateDone res])"
    using ok by (intro creates_update [of ?S ?L]) (auto simp: creating_ok_def owns_def)
  moreover have "unstarted_ok ?T (?C[i := CreateDone res]) ?B'"
  proof -
    have other: "x \<noteq> e \<and> InsertFor q x \<in> set ?C" if "InsertFor q x \<in> set (?C[i := CreateDone res])" for q x
    proof -
      obtain j where j: "j < length ?C" "j \<noteq> i" "?C ! j = InsertFor q x"
        using \<open>InsertFor q x \<in> set (?C[i := CreateDone res])\<close> by (auto simp: in_set_conv_nth nth_upd split: if_splits)
      with creates_at(2) [of ?S ?L ?C i j] ok assms(3,4) have "x \<noteq> e" by (auto simp: owns_def)
      with j show ?thesis by (metis nth_mem)
    qed
    show ?thesis
      unfolding unstarted_ok_def using other ok t(2) by (fastforce simp: unstarted_ok_def nth_upd)
  qed
  moreover have "conns_ok (eview r) (cview r) ?T" using ok by (auto simp: conns_ok_def nth_upd)
  ultimately show "fwd_ok ?r" unfolding fwd_ok_def r' using ok t(1) by simp
qed

section \<open>Removing many\<close>

lemma remove_call_ok:
  assumes "fwd_ok r" "forward_remove p r = (res, r')"
  shows "fwd_ok r'" "length (fr_entries r') = length (fr_entries r)"
proof -
  have t: "table_ok (id_of (skels r)) (key_of (skels r)) (fr_byID r) (fr_byLocal r)" using assms(1) by (simp add: fwd_ok_def)
  have "fwd_ok r' \<and> length (fr_entries r') = length (fr_entries r)"
    using assms remove_ok [OF assms(1)] table_lookup(1) [OF t]
    by (auto simp: forward_remove_def Let_def split: if_splits option.splits)
  then show "fwd_ok r'" "length (fr_entries r') = length (fr_entries r)" by simp_all
qed

lemma removeLocked_listener:
  assumes "fwd_ok r" "in_table (fr_byID r) e"
  shows "\<not> ln_open (fr_listeners (removeLocked e r) ! lst (skels r) e)"
    "ln_open (fr_listeners (removeLocked e r) ! l) \<Longrightarrow> ln_open (fr_listeners r ! l)"
proof -
  have "e < length (fr_entries r)" "lst (skels r) e < length (fr_listeners r)"
    using assms by (auto simp: fwd_ok_def reg_ok_def entries_ok_def)
  then show "\<not> ln_open (fr_listeners (removeLocked e r) ! lst (skels r) e)"
    "ln_open (fr_listeners (removeLocked e r) ! l) \<Longrightarrow> ln_open (fr_listeners r ! l)"
    by (auto simp: Let_def view_nth nth_upd split: if_splits)
qed

lemma remove_fold:
  assumes "fwd_ok r" "distinct (map snd xs)" "snd ` set xs \<subseteq> {e. in_table (fr_byID r) e}"
  shows "\<exists>r'. fold (\<lambda>(_, e) (n, r). (n + 1, removeLocked e r)) xs (k, r) = (k + length xs, r') \<and> fwd_ok r' \<and>
     skels r' = skels r \<and> length (fr_entries r') = length (fr_entries r) \<and> fr_creates r' = fr_creates r \<and>
     (\<forall>e. in_table (fr_byID r') e \<longleftrightarrow> in_table (fr_byID r) e \<and> e \<notin> snd ` set xs) \<and>
     (\<forall>e \<in> snd ` set xs. \<not> ln_open (fr_listeners r' ! lst (skels r) e)) \<and>
     (\<forall>l. ln_open (fr_listeners r' ! l) \<longrightarrow> ln_open (fr_listeners r ! l))"
  using assms
proof (induction xs arbitrary: r k)
  case Nil
  then show ?case by simp
next
  case (Cons x xs)
  let ?r = "removeLocked (snd x) r"
  have x: "in_table (fr_byID r) (snd x)" using Cons.prems(3) by simp
  note tab = remove_table [OF Cons.prems(1) x] and lis = removeLocked_listener [OF Cons.prems(1) x]
  have "snd ` set xs \<subseteq> {e. in_table (fr_byID ?r) e}" using Cons.prems(2,3) tab by (auto simp del: removeLocked_frame) (metis snd_conv image_eqI)
  from Cons.IH [OF remove_ok [OF Cons.prems(1) x] _ this, of "k + 1"] Cons.prems(2) obtain r' where
    r': "fold (\<lambda>(_, e) (n, r). (n + 1, removeLocked e r)) xs (k + 1, ?r) = (k + 1 + length xs, r')" "fwd_ok r'"
      "skels r' = skels r" "length (fr_entries r') = length (fr_entries r)" "fr_creates r' = fr_creates r"
      "\<forall>e. in_table (fr_byID r') e \<longleftrightarrow> in_table (fr_byID ?r) e \<and> e \<notin> snd ` set xs"
      "\<forall>e \<in> snd ` set xs. \<not> ln_open (fr_listeners r' ! lst (skels r) e)"
      "\<forall>l. ln_open (fr_listeners r' ! l) \<longrightarrow> ln_open (fr_listeners ?r ! l)"
    by auto
  then have "fold (\<lambda>(_, e) (n, r). (n + 1, removeLocked e r)) (x # xs) (k, r) = (k + length (x # xs), r')"
    by (simp add: case_prod_beta)
  moreover have "\<forall>e \<in> snd ` set (x # xs). \<not> ln_open (fr_listeners r' ! lst (skels r) e)"
    using r'(7,8) lis(1) by auto
  moreover have "\<forall>e. in_table (fr_byID r') e \<longleftrightarrow> in_table (fr_byID r) e \<and> e \<notin> snd ` set (x # xs)"
    using r'(6) tab by (simp del: removeLocked_frame)
  moreover have "\<forall>l. ln_open (fr_listeners r' ! l) \<longrightarrow> ln_open (fr_listeners r ! l)" using r'(8) lis(2) by blast
  ultimately show ?case using r'(2-5) by blast
qed

lemma removeAll_effect:
  assumes "fwd_ok r"
  shows "\<exists>r'. forward_removeAll r = (length (fr_byID r), r') \<and> fwd_ok r' \<and> fr_byID r' = [] \<and> fr_byLocal r' = [] \<and>
     length (fr_entries r') = length (fr_entries r) \<and> skels r' = skels r \<and> fr_creates r' = fr_creates r \<and>
     (\<forall>e. in_table (fr_byID r) e \<longrightarrow> \<not> ln_open (fr_listeners r' ! lst (skels r) e))"
proof -
  have t: "table_ok (id_of (skels r)) (key_of (skels r)) (fr_byID r) (fr_byLocal r)" using assms by (simp add: fwd_ok_def)
  have "snd ` set (fr_byID r) \<subseteq> {e. in_table (fr_byID r) e}" by (auto simp: in_table_def)
  from remove_fold [OF assms registered_list [OF t] this, of 0] obtain r' where
    r': "forward_removeAll r = (length (fr_byID r), r')" "fwd_ok r'" "skels r' = skels r"
      "length (fr_entries r') = length (fr_entries r)" "fr_creates r' = fr_creates r"
      "\<forall>e. \<not> in_table (fr_byID r') e" "\<forall>e \<in> snd ` set (fr_byID r). \<not> ln_open (fr_listeners r' ! lst (skels r) e)"
    by (auto simp: forward_removeAll_def in_table_def)
  have "fr_byID r' = []" using r'(6) by (cases "fr_byID r'") (auto simp: in_table_def)
  moreover have "fr_byLocal r' = []"
  proof (rule ccontr)
    assume "fr_byLocal r' \<noteq> []"
    then obtain k i where "map_of (fr_byLocal r') k = Some i" by (cases "fr_byLocal r'") (auto, metis)
    with r'(2,6) table_lookup(2) [of "id_of (skels r')" "key_of (skels r')" "fr_byID r'" "fr_byLocal r'"] show False
      by (auto simp: fwd_ok_def)
  qed
  ultimately show ?thesis using r' by (auto simp: in_table_def)
qed

section \<open>Connections\<close>

text \<open>The steps of accept loops and bridges keep the tables, the listeners and the creations.\<close>

definition same_tables :: "forwardRegistry \<Rightarrow> forwardRegistry \<Rightarrow> bool" where
  "same_tables r r' \<longleftrightarrow> fr_nextID r' = fr_nextID r \<and> fr_byID r' = fr_byID r \<and> fr_byLocal r' = fr_byLocal r \<and>
     fr_listeners r' = fr_listeners r \<and> fr_creates r' = fr_creates r \<and> fr_panicked r' = fr_panicked r \<and> skels r' = skels r"

lemma conn_step_ok:
  assumes "fwd_ok r" "same_tables r r'" "conns_ok (eview r') (cview r') (sview r')"
    and "sview r' = sview r \<or> (\<exists>e s. snd (sview r ! e) \<and> live_state s \<and> sview r' = (sview r)[e := (s, snd (sview r ! e))])"
  shows "fwd_ok r'"
proof -
  have "reg_ok (skels r) (sview r') (fr_listeners r) (fr_byID r)"
    using assms(1,4) by (auto simp: fwd_ok_def reg_ok_def nth_upd)
  moreover have "unstarted_ok (sview r') (fr_creates r) (fr_byID r)"
    using assms(1,4) by (fastforce simp: fwd_ok_def unstarted_ok_def nth_upd)
  ultimately show ?thesis using assms(1-3) by (simp add: fwd_ok_def same_tables_def)
qed

lemma conns_at:
  assumes "conns_ok E C T" "e < length E"
  shows "distinct (fst (E ! e))" "fst (snd (E ! e)) = length (fst (E ! e))"
    "c \<in> set (fst (E ! e)) \<Longrightarrow> c < length C \<and> fst (C ! c) = e \<and> working (snd (C ! c))"
    "snd (snd (E ! e)) = Some c \<Longrightarrow> c < length C \<and> C ! c = (e, Accepted)"
  using assms by (auto simp: conns_ok_def)

lemma conns_conn:
  assumes "conns_ok E C T" "c < length C"
  shows "fst (C ! c) < length E" "snd (T ! fst (C ! c))" "working (snd (C ! c)) \<Longrightarrow> c \<in> set (fst (E ! fst (C ! c)))"
  using assms by (auto simp: conns_ok_def)

lemma conns_okI:
  assumes "\<And>e. e < length E \<Longrightarrow> distinct (fst (E ! e)) \<and> fst (snd (E ! e)) = length (fst (E ! e))"
    and "\<And>e c. e < length E \<Longrightarrow> c \<in> set (fst (E ! e)) \<Longrightarrow> c < length C \<and> fst (C ! c) = e \<and> working (snd (C ! c))"
    and "\<And>e c. e < length E \<Longrightarrow> snd (snd (E ! e)) = Some c \<Longrightarrow> c < length C \<and> C ! c = (e, Accepted)"
    and "\<And>c. c < length C \<Longrightarrow> fst (C ! c) < length E \<and> snd (T ! fst (C ! c))"
    and "\<And>c. c < length C \<Longrightarrow> working (snd (C ! c)) \<Longrightarrow> c \<in> set (fst (E ! fst (C ! c)))"
  shows "conns_ok E C T"
  using assms by (simp add: conns_ok_def)

lemma conns_started: "conns_ok E C T \<Longrightarrow> (\<And>e. snd (T ! e) \<Longrightarrow> snd (T' ! e)) \<Longrightarrow> conns_ok E C T'"
  by (auto simp: conns_ok_def)

lemma conns_accept:
  assumes "conns_ok E C T" "e < length E" "snd (T ! e)" "E ! e = (act, n, None)"
  shows "conns_ok (E[e := (act, n, Some (length C))]) (C @ [(e, Accepted)]) T"
proof (rule conns_okI, goal_cases)
  case (1 e')
  then show ?case using conns_at(1,2) [OF assms(1), of e'] assms(4) by (auto simp: nth_upd)
next
  case (2 e' c)
  then show ?case using conns_at(3) [OF assms(1), of e' c] assms(2,4) by (auto simp: nth_upd nth_append split: if_splits)
next
  case (3 e' c)
  then show ?case using conns_at(4) [OF assms(1), of e' c] assms(2,4) by (auto simp: nth_upd nth_append split: if_splits)
next
  case (4 c)
  then show ?case using conns_conn(1,2) [OF assms(1), of c] assms(2,3) by (auto simp: nth_append less_Suc_eq)
next
  case (5 c)
  then show ?case using conns_conn(3) [OF assms(1), of c] assms(2,4)
    by (auto simp: nth_append nth_upd less_Suc_eq working_def split: if_splits)
qed

lemma conns_stage:
  assumes "conns_ok E C T" "c < length C" "working (snd (C ! c))" "working s"
  shows "conns_ok E (C[c := (fst (C ! c), s)]) T"
proof -
  have "snd (C ! c) \<noteq> Accepted" using assms(3) by (simp add: working_def)
  then show ?thesis using assms unfolding conns_ok_def by (auto simp: nth_upd)
qed

lemma conns_add:
  assumes "conns_ok E C T" "e < length E" "E ! e = (act, n, Some c)"
  shows "conns_ok (E[e := (List.insert c act, length (List.insert c act), None)]) (C[c := (e, Connecting)]) T"
proof -
  have c: "c < length C" "C ! c = (e, Accepted)" using conns_at(4) [OF assms(1,2)] assms(3) by auto
  have other: "c \<notin> set (fst (E ! e'))" if "e' < length E" for e'
    using conns_at(3) [OF assms(1) that, of c] c by (auto simp: working_def)
  have acc: "snd (snd (E ! e')) \<noteq> Some c" if "e' < length E" "e' \<noteq> e" for e'
    using conns_at(4) [OF assms(1) that(1), of c] c that by auto
  show ?thesis
  proof (rule conns_okI, goal_cases)
    case (1 e')
    then show ?case using conns_at(1,2) [OF assms(1), of e'] assms(3) by (auto simp: nth_upd)
  next
    case (2 e' x)
    then show ?case using conns_at(3) [OF assms(1), of e' x] other c assms(2,3)
      by (auto simp: nth_upd working_def split: if_splits)
  next
    case (3 e' x)
    then show ?case using conns_at(4) [OF assms(1), of e' x] acc assms(2) by (auto simp: nth_upd split: if_splits)
  next
    case (4 x)
    then show ?case using conns_conn(1,2) [OF assms(1), of x] c by (auto simp: nth_upd)
  next
    case (5 x)
    then show ?case using conns_conn(3) [OF assms(1), of x] c assms(2,3) by (auto simp: nth_upd split: if_splits)
  qed
qed

lemma conns_remove:
  assumes "conns_ok E C T" "c < length C" "C ! c = (e, s)" "working s" "E ! e = (act, n, acc)"
  shows "conns_ok (E[e := (removeAll c act, length (removeAll c act), acc)]) (C[c := (e, Ended)]) T"
proof -
  have e: "e < length E" using conns_conn(1) [OF assms(1,2)] assms(3) by simp
  have other: "c \<notin> set (fst (E ! e'))" if "e' < length E" "e' \<noteq> e" for e'
    using conns_at(3) [OF assms(1) that(1), of c] assms(3) that by auto
  have ac: "snd (snd (E ! e')) \<noteq> Some c" if "e' < length E" for e'
    using conns_at(4) [OF assms(1) that, of c] assms(3,4) by (auto simp: working_def)
  show ?thesis
  proof (rule conns_okI, goal_cases)
    case (1 e')
    then show ?case using conns_at(1,2) [OF assms(1), of e'] assms(5) by (auto simp: nth_upd distinct_removeAll)
  next
    case (2 e' x)
    then show ?case using conns_at(3) [OF assms(1), of e' x] other [of e'] assms(5) e by (auto simp: nth_upd split: if_splits)
  next
    case (3 e' x)
    then show ?case using conns_at(4) [OF assms(1), of e' x] ac [of e'] assms(5) e by (auto simp: nth_upd split: if_splits)
  next
    case (4 x)
    then show ?case using conns_conn(1,2) [OF assms(1), of x] assms(3) by (auto simp: nth_upd)
  next
    case (5 x)
    then show ?case using conns_conn(3) [OF assms(1), of x] assms(5) e by (auto simp: nth_upd working_def split: if_splits)
  qed
qed

lemma set_conn_views [simp]:
  "skels (set_conn c h r) = skels r" "eview (set_conn c h r) = eview r" "sview (set_conn c h r) = sview r"
  "cview (set_conn c h r) = (cview r)[c := (cn_entry (h (fr_conns r ! c)), cn_stage (h (fr_conns r ! c)))]"
  by (simp_all add: skels_def eview_def sview_def cview_def map_update)

lemma set_entry_views:
  "cview (set_entry e h r) = cview r"
  "skels (set_entry e h r) = (skels r)[e := (f_ID (fe_forward (h (fr_entries r ! e))),
     f_Local (fe_forward (h (fr_entries r ! e))), fe_listener (h (fr_entries r ! e)))]"
  "eview (set_entry e h r) = (eview r)[e := (fe_active (h (fr_entries r ! e)),
     f_ActiveConnections (fe_forward (h (fr_entries r ! e))), fe_accepted (h (fr_entries r ! e)))]"
  "sview (set_entry e h r) = (sview r)[e := (f_State (fe_forward (h (fr_entries r ! e))), fe_started (h (fr_entries r ! e)))]"
  by (simp_all add: skels_def eview_def sview_def cview_def map_update)

lemma skels_same: "(skels r)[e := (entry_id r e, f_Local (fe_forward (fr_entries r ! e)), fe_listener (fr_entries r ! e))] = skels r"
  by (auto simp: skels_def intro!: nth_equalityI simp: nth_upd)

lemma eview_same:
  "(eview r)[e := (fe_active (fr_entries r ! e), f_ActiveConnections (fe_forward (fr_entries r ! e)), fe_accepted (fr_entries r ! e))] = eview r"
  by (auto simp: eview_def intro!: nth_equalityI simp: nth_upd)

lemma sview_same: "(sview r)[e := (f_State (fe_forward (fr_entries r ! e)), fe_started (fr_entries r ! e))] = sview r"
  by (auto simp: sview_def intro!: nth_equalityI simp: nth_upd)

lemma cview_same: "(cview r)[c := (cn_entry (fr_conns r ! c), cn_stage (fr_conns r ! c))] = cview r"
  by (auto simp: cview_def intro!: nth_equalityI simp: nth_upd)

lemmas step_views = set_entry_views skels_same eview_same sview_same cview_same same_tables_def set_forward_def

lemma bridge_ok:
  assumes "fwd_ok r" "c < length (fr_conns r)" "working (cn_stage (fr_conns r ! c))"
  shows "fwd_ok (bridge_step c res r)" "length (fr_entries (bridge_step c res r)) = length (fr_entries r)"
proof -
  let ?x = "fr_conns r ! c"
  have ok: "conns_ok (eview r) (cview r) (sview r)" using assms(1) by (simp add: fwd_ok_def)
  have c: "c < length (cview r)" "cview r ! c = (cn_entry ?x, cn_stage ?x)" using assms(2) by (simp_all add: view_nth)
  have e: "cn_entry ?x < length (fr_entries r)" "snd (sview r ! cn_entry ?x)" using conns_conn(1,2) [OF ok c(1)] c(2) by simp_all
  note stage = conns_stage [OF ok c(1), unfolded c(2), simplified, OF assms(3)]
  have upd: "conns_ok (eview r) ((cview r)[c := (cn_entry ?x, s)]) ((sview r)[cn_entry ?x := (t, snd (sview r ! cn_entry ?x))])"
    if "working s" for s t
    by (rule conns_started [OF stage [OF that]]) (auto simp: nth_upd)
  have rec: "fwd_ok (goto c s (set_forward (cn_entry ?x) h r))" if "working s" "live_state (f_State (h (fe_forward (fr_entries r ! cn_entry ?x))))"
    "\<And>f. f_ID (h f) = f_ID f \<and> f_Local (h f) = f_Local f \<and> f_ActiveConnections (h f) = f_ActiveConnections f" for s h
    by (rule conn_step_ok [OF assms(1)])
      (use upd [OF that(1)] that(2,3) e in \<open>auto simp: step_views view_nth intro!: exI [of _ "cn_entry ?x"]\<close>)
  have plain: "fwd_ok (goto c s (set_conn c h r))" if "working s" "\<And>x. cn_entry (h x) = cn_entry x" for s h
    by (rule conn_step_ok [OF assms(1)]) (use stage [OF that(1)] that assms(2) in \<open>auto simp: same_tables_def\<close>)
  have go: "fwd_ok (goto c s r)" if "working s" for s
    by (rule conn_step_ok [OF assms(1)]) (use stage [OF that] in \<open>auto simp: same_tables_def\<close>)
  have rem: "fwd_ok (goto c Ended (removeActive (cn_entry ?x) c r))"
    by (rule conn_step_ok [OF assms(1)])
      (use conns_remove [OF ok c assms(3)] e(1) in \<open>auto simp: step_views removeActive_def view_nth(2) Let_def\<close>)
  note defs = bridge_step_def Let_def recordForwardError_def recordForwardSuccess_def setClient_def setStream_def
  show "fwd_ok (bridge_step c res r)"
  proof (cases "cn_stage ?x")
    case Removing
    then show ?thesis using rem by (simp add: bridge_step_def Let_def)
  qed (use assms(1) in \<open>auto simp: defs live_state_def working_def conn_close_def intro!: rec plain go split: option.splits\<close>)
  show "length (fr_entries (bridge_step c res r)) = length (fr_entries r)"
    by (simp add: defs set_forward_def removeActive_def split: conn_stage.split option.split)
qed

lemma accepting_ok:
  assumes "fwd_ok r" "accepting e r"
  shows "fwd_ok (accept_conn e r)" "fwd_ok (accept_fails e r)"
proof -
  have e: "e < length (eview r)" "e < length (fr_entries r)" "snd (sview r ! e)" "eview r ! e = (fst (eview r ! e), fst (snd (eview r ! e)), None)"
    using assms(2) by (auto simp: accepting_def view_nth)
  have ok: "conns_ok (eview r) (cview r) (sview r)" using assms(1) by (simp add: fwd_ok_def)
  let ?r = "r\<lparr>fr_conns := fr_conns r @ [\<lparr>cn_entry = e, cn_host = True, cn_client = None, cn_stream = None, cn_stage = Accepted\<rparr>]\<rparr>"
  have v: "skels ?r = skels r" "eview ?r = eview r" "sview ?r = sview r" "cview ?r = cview r @ [(e, Accepted)]"
    by (simp_all add: skels_def eview_def sview_def cview_def)
  have a: "skels (accept_conn e r) = skels r" "sview (accept_conn e r) = sview r" "cview (accept_conn e r) = cview r @ [(e, Accepted)]"
    "eview (accept_conn e r) = (eview r)[e := (fst (eview r ! e), fst (snd (eview r ! e)), Some (length (cview r)))]"
    using e(2) by (simp_all add: accept_conn_def set_entry_views v skels_same sview_same view_nth(2))
  have "same_tables r (accept_conn e r)" by (simp add: same_tables_def a) (simp add: accept_conn_def)
  then show "fwd_ok (accept_conn e r)"
    using conns_accept [OF ok e(1,3,4)] by (intro conn_step_ok [OF assms(1)]) (simp_all add: a)
  show "fwd_ok (accept_fails e r)"
    by (rule conn_step_ok [OF assms(1)]) (use ok in \<open>auto simp: accept_fails_def step_views\<close>)
qed

lemma accept_add_ok:
  assumes "fwd_ok r" "e < length (fr_entries r)" "fe_accepted (fr_entries r ! e) = Some c"
  shows "fwd_ok (accept_add e c r)"
proof -
  have ok: "conns_ok (eview r) (cview r) (sview r)" using assms(1) by (simp add: fwd_ok_def)
  have e: "eview r ! e = (fe_active (fr_entries r ! e), f_ActiveConnections (fe_forward (fr_entries r ! e)), Some c)"
    using assms(2,3) by (simp add: view_nth)
  then have "c < length (cview r)" "cview r ! c = (e, Accepted)" using conns_at(4) [OF ok, of e c] assms(2) by auto
  then have c: "cn_entry (fr_conns r ! c) = e" by (simp add: view_nth)
  show ?thesis
    by (rule conn_step_ok [OF assms(1)])
      (use conns_add [OF ok _ e] c assms(2) in \<open>auto simp: accept_add_def addActive_def step_views Let_def\<close>)
qed

section \<open>The invariant\<close>

lemma fwd_step_ok:
  assumes "fwd_step ev r = Some (x, r')" "fwd_ok r" "length (fr_entries r) < 2 ^ 64"
  shows "fwd_ok r'"
proof (cases ev)
  case (CreateCall p)
  then show ?thesis using assms create_start_ok(1) [OF assms(2), of p] by (auto split: prod.splits sum.splits)
next
  case (CreateListen i res)
  with assms(1) obtain p where p: "i < length (fr_creates r)" "fr_creates r ! i = ListenFor p"
    "\<forall>a. res = Inr a \<longrightarrow> address_free a r"
    by (auto split: if_splits creating.splits sum.splits)
  have "fwd_ok (set_create i (CreateDone y) r)" for y
    using assms(2) p(1) by (intro set_create_ok) (auto simp: creating_ok_def owns_def)
  with CreateListen assms p listen_ok [OF assms(2) p(1,2)] show ?thesis
    by (auto simp: create_listen_def split: if_splits sum.splits)
next
  case (CreateEntry i now)
  then show ?thesis using assms create_entry_ok(1) [OF assms(2), of i] by (auto split: if_splits creating.splits prod.splits)
next
  case (CreateInsert i)
  then show ?thesis using assms create_insert_ok(1) [OF assms(2,3), of i] by (auto split: if_splits creating.splits prod.splits)
next
  case (RemoveCall p)
  then show ?thesis using assms remove_call_ok(1) [OF assms(2), of p] by (auto split: prod.splits)
next
  case RemoveAllCall
  then show ?thesis using assms removeAll_effect [OF assms(2)] by auto
next
  case (Accept e)
  then show ?thesis using assms accepting_ok(1) by (auto split: if_splits)
next
  case (AcceptFails e)
  then show ?thesis using assms accepting_ok(2) by (auto split: if_splits)
next
  case (AddActive e)
  then show ?thesis using assms accept_add_ok by (auto split: if_splits option.splits)
next
  case (Bridge c res)
  then show ?thesis using assms bridge_ok(1) by (auto simp: working_def split: if_splits)
qed

lemma fwd_step_grows: "fwd_step ev r = Some (x, r') \<Longrightarrow> length (fr_entries r) \<le> length (fr_entries r')"
proof (cases ev)
  case (CreateInsert i)
  moreover assume "fwd_step ev r = Some (x, r')"
  ultimately show ?thesis
    by (auto simp: create_insert_def displace_def Let_def split: if_splits option.splits creating.splits)
next
  case RemoveAllCall
  have "length (fr_entries (snd (fold (\<lambda>(_, e) (n, r). (n + 1, removeLocked e r)) xs (k, r)))) = length (fr_entries r)"
    for xs :: "(string \<times> nat) list" and k :: nat and r
    by (induction xs arbitrary: k r) (auto simp: case_prod_beta)
  from this [of "fr_byID r" 0 r] show "fwd_step ev r = Some (x, r') \<Longrightarrow> ?thesis"
    using RemoveAllCall by (auto simp: forward_removeAll_def split: prod.splits)
next
  case (Bridge c res)
  moreover assume "fwd_step ev r = Some (x, r')"
  ultimately show ?thesis
    by (auto simp: bridge_step_def Let_def recordForwardError_def recordForwardSuccess_def setClient_def setStream_def
        set_forward_def removeActive_def split: if_splits conn_stage.splits option.splits)
qed (auto simp: create_start_def displace_def create_listen_def create_entry_def nextForwardID_def forward_remove_def
    accept_conn_def accept_add_def accept_fails_def addActive_def Let_def
    split: if_splits option.splits sum.splits creating.splits prod.splits)

interpretation fwd: machine fwd_step fwd_inv
proof
  fix r ev x r'
  assume "fwd_inv r" "fwd_step ev r = Some (x, r')"
  with fwd_step_ok [of ev r x r'] fwd_step_grows [of ev r x r'] show "fwd_inv r'" by (auto simp: fwd_inv_def)
qed

lemma fwd_inv_new: "fwd_inv newForwardRegistry"
  by (simp add: fwd_inv_def fwd_ok_def fwd_parts newForwardRegistry_def skels_def eview_def sview_def cview_def in_table_def)

lemma reachable_ok:
  assumes "run fwd_step es newForwardRegistry = Some (xs, r)" "length (fr_entries r) < 2 ^ 64"
  shows "fwd_ok r"
  using fwd.run_invar [OF fwd_inv_new assms(1)] assms(2) by (simp add: fwd_inv_def)

text \<open>The connections in flight of a forward.\<close>

definition in_flight :: "forwardRegistry \<Rightarrow> nat \<Rightarrow> nat set" where
  "in_flight r e = {c. c < length (fr_conns r) \<and> cn_entry (fr_conns r ! c) = e \<and> cn_stage (fr_conns r ! c) \<notin> {Accepted, Ended}}"

lemma active_in_flight:
  assumes "fwd_ok r" "e < length (fr_entries r)"
  shows "set (fe_active (fr_entries r ! e)) = in_flight r e"
    "f_ActiveConnections (fe_forward (fr_entries r ! e)) = card (in_flight r e)"
proof -
  have ok: "conns_ok (eview r) (cview r) (sview r)" using assms(1) by (simp add: fwd_ok_def)
  show set: "set (fe_active (fr_entries r ! e)) = in_flight r e"
  proof
    show "set (fe_active (fr_entries r ! e)) \<subseteq> in_flight r e"
    proof
      fix c assume "c \<in> set (fe_active (fr_entries r ! e))"
      with conns_at(3) [OF ok, of e c] assms(2) show "c \<in> in_flight r e" by (auto simp: view_nth in_flight_def working_def)
    qed
    show "in_flight r e \<subseteq> set (fe_active (fr_entries r ! e))"
    proof
      fix c assume "c \<in> in_flight r e"
      with conns_conn(3) [OF ok, of c] assms(2) show "c \<in> set (fe_active (fr_entries r ! e))"
        by (auto simp: view_nth in_flight_def working_def)
    qed
  qed
  have "distinct (fe_active (fr_entries r ! e))"
    "f_ActiveConnections (fe_forward (fr_entries r ! e)) = length (fe_active (fr_entries r ! e))"
    using conns_at(1,2) [OF ok, of e] assms(2) by (auto simp: view_nth)
  with set show "f_ActiveConnections (fe_forward (fr_entries r ! e)) = card (in_flight r e)"
    by (metis distinct_card)
qed

lemma entry_registered:
  assumes "fwd_ok r" "map_of (fr_byID r) i = Some e"
  shows "e < length (fr_entries r)" "entry_id r e = i" "map_of (fr_byLocal r) (entry_key r e) = Some i"
    "ln_open (fr_listeners r ! fe_listener (fr_entries r ! e))"
    "fl_Address (f_Local (fe_forward (fr_entries r ! e))) = ln_addr (fr_listeners r ! fe_listener (fr_entries r ! e))"
    "live_state (f_State (fe_forward (fr_entries r ! e)))" "in_table (fr_byID r) e"
proof -
  let ?S = "skels r"
  note ok = assms(1) [unfolded fwd_ok_def]
  have t: "id_of ?S e = i" "in_table (fr_byID r) e" "map_of (fr_byLocal r) (key_of ?S e) = Some i"
    using table_lookup(1) [of "id_of ?S" "key_of ?S" "fr_byID r" "fr_byLocal r"] ok assms(2) by blast+
  have e: "e < length (fr_entries r)" using ok t(2) by (auto simp: reg_ok_def)
  show "e < length (fr_entries r)" "entry_id r e = i" "map_of (fr_byLocal r) (entry_key r e) = Some i"
    "ln_open (fr_listeners r ! fe_listener (fr_entries r ! e))"
    "fl_Address (f_Local (fe_forward (fr_entries r ! e))) = ln_addr (fr_listeners r ! fe_listener (fr_entries r ! e))"
    "live_state (f_State (fe_forward (fr_entries r ! e)))" "in_table (fr_byID r) e"
    using t e ok view_nth(1,3) [OF e] by (auto simp: reg_ok_def entries_ok_def)
qed

lemma diagnose_fold:
  assumes "\<forall>f \<in> set fs. live_state (f_State f)"
  shows "fd_Total (fold diagnose fs d) = fd_Total d \<and>
    fd_Listening (fold diagnose fs d) + fd_Degraded (fold diagnose fs d) = fd_Listening d + fd_Degraded d + length fs \<and>
    fd_ActiveConnections (fold diagnose fs d) = fd_ActiveConnections d + sum_list (map f_ActiveConnections fs)"
  using assms
proof (induction fs arbitrary: d)
  case (Cons f fs)
  have "live_state (f_State f)" using Cons.prems by simp
  then have "fd_Total (diagnose f d) = fd_Total d \<and> fd_Listening (diagnose f d) + fd_Degraded (diagnose f d) = Suc (fd_Listening d + fd_Degraded d) \<and>
    fd_ActiveConnections (diagnose f d) = fd_ActiveConnections d + f_ActiveConnections f"
    by (auto simp: diagnose_def live_state_def Let_def)
  with Cons.IH [of "diagnose f d"] Cons.prems show ?case by simp
qed simp

text \<open>C4: over every interleaving of the calls, the accept loops and the bridges, and as long as fewer than \<open>2 ^ 64\<close> forwards
  were created, the registry never dereferences a missing entry; the tables by ID and by local endpoint are
  inverse to each other; every registered forward has an open listener on the address it shows, is listening or
  degraded, and counts exactly its connections in flight; and the diagnostics count every forward once.\<close>

theorem forward_registry_invariant:
  assumes "run fwd_step es newForwardRegistry = Some (xs, r)" "length (fr_entries r) < 2 ^ 64"
  shows "\<not> fr_panicked r \<and>
    (\<forall>i e. map_of (fr_byID r) i = Some e \<longrightarrow>
       (let f = fe_forward (fr_entries r ! e); l = fr_listeners r ! fe_listener (fr_entries r ! e) in
        f_ID f = i \<and> map_of (fr_byLocal r) (forward_key (f_Local f)) = Some i \<and> ln_open l \<and> ln_addr l = fl_Address (f_Local f) \<and>
        f_State f \<in> {ForwardStateListening, ForwardStateDegraded} \<and> f_ActiveConnections f = card (in_flight r e))) \<and>
    (\<forall>k i. map_of (fr_byLocal r) k = Some i \<longrightarrow> (\<exists>e. map_of (fr_byID r) i = Some e \<and> entry_key r e = k)) \<and>
    (let d = forward_diagnostics r in fd_Total d = length (forward_list r) \<and> fd_Total d = fd_Listening d + fd_Degraded d)"
proof -
  note ok = reachable_ok [OF assms]
  note reg = entry_registered [OF ok]
  have "\<exists>e. map_of (fr_byID r) i = Some e \<and> entry_key r e = k" if "map_of (fr_byLocal r) k = Some i" for k i
  proof -
    from ok table_lookup(2) [of "id_of (skels r)" "key_of (skels r)" "fr_byID r" "fr_byLocal r" k i] that
    obtain e where e: "map_of (fr_byID r) i = Some e" "key_of (skels r) e = k" by (auto simp: fwd_ok_def)
    with view_nth(1) [OF reg(1) [OF e(1)]] show ?thesis by auto
  qed
  moreover have "live_state (f_State f)" if "f \<in> set (forward_list r)" for f
  proof -
    from that obtain i e where "(i, e) \<in> set (fr_byID r)" "f = fe_forward (fr_entries r ! e)" by (auto simp: forward_list_def)
    moreover have "distinct (map fst (fr_byID r))" using ok by (simp add: fwd_ok_def table_ok_def)
    ultimately show ?thesis using reg(6) by (metis map_of_is_SomeI)
  qed
  then have "let d = forward_diagnostics r in fd_Total d = length (forward_list r) \<and> fd_Total d = fd_Listening d + fd_Degraded d"
    using diagnose_fold [of "forward_list r"] by (simp add: forward_diagnostics_def Let_def forward_list_def)
  ultimately show ?thesis
    using ok reg active_in_flight(2) [OF ok reg(1)] by (auto simp: Let_def live_state_def fwd_ok_def)
qed

text \<open>A forward that is created, serves a connection and is listed.\<close>

definition sample_forward :: ForwardCreateParams where
  "sample_forward = \<lparr>fc_Local = \<lparr>fl_Network = ''tcp'', fl_Address = ''localhost:9000''\<rparr>, fc_Remote = \<lparr>fr_Service = ''tcp:8000''\<rparr>,
     fc_Target = \<lparr>ft_Transport = ''tcp'', ft_Address = ''h:1''\<rparr>, fc_Norebind = False\<rparr>"

lemma sample_forward_valid: "validateForwardCreateParams sample_forward = None"
  by code_simp

lemma sample_fields [simp]:
  "fl_Network (fc_Local sample_forward) = ''tcp''" "fl_Address (fc_Local sample_forward) = ''localhost:9000''"
  "fc_Norebind sample_forward = False"
  by (simp_all add: sample_forward_def)

lemmas fwd_run = create_start_def displace_def create_listen_def create_entry_def nextForwardID_def create_insert_def
  forward_remove_def removeLocked_def accept_conn_def accept_add_def addActive_def bridge_step_def set_forward_def
  setClient_def setStream_def recordForwardSuccess_def close_active_def address_free_def accepting_def
  newForwardRegistry_def sample_forward_valid Let_def set_create_def set_entry_def set_conn_def listener_close_def

definition sample_created :: "fwd_event list" where
  "sample_created = [CreateCall sample_forward, CreateListen 0 (Inr ''127.0.0.1:9000''), CreateEntry 0 [], CreateInsert 0]"

lemma sample_created_run:
  "\<exists>xs r. run fwd_step sample_created newForwardRegistry = Some (xs, r) \<and> fr_byID r = [(counted_id ''fwd_'' 1, 0)] \<and>
     length (fr_entries r) = 1 \<and> length (fr_conns r) = 0 \<and> fr_byLocal r = [(''tcp:127.0.0.1:9000'', counted_id ''fwd_'' 1)] \<and>
     fe_listener (fr_entries r ! 0) = 0 \<and> fr_listeners r = [\<lparr>ln_addr = ''127.0.0.1:9000'', ln_open = True\<rparr>] \<and>
     fe_started (fr_entries r ! 0) \<and> \<not> fe_done (fr_entries r ! 0) \<and> fe_accepted (fr_entries r ! 0) = None \<and>
     fe_active (fr_entries r ! 0) = [] \<and> entry_id r 0 = counted_id ''fwd_'' 1 \<and> entry_key r 0 = ''tcp:127.0.0.1:9000''"
  by (simp add: sample_created_def fwd_run forward_key_def)

theorem forward_registry_invariant_witness:
  "\<exists>xs r. run fwd_step sample_created newForwardRegistry = Some (xs, r) \<and> fd_Total (forward_diagnostics r) = 1 \<and>
     fd_Listening (forward_diagnostics r) + fd_Degraded (forward_diagnostics r) = 1 \<and> ln_open (fr_listeners r ! 0)"
proof -
  obtain xs r where r: "run fwd_step sample_created newForwardRegistry = Some (xs, r)" "fr_byID r = [(counted_id ''fwd_'' 1, 0)]"
    "length (fr_entries r) = 1" "fe_listener (fr_entries r ! 0) = 0"
    using sample_created_run by auto
  then have "length (forward_list r) = 1" by (simp add: forward_list_def)
  moreover have "map_of (fr_byID r) (counted_id ''fwd_'' 1) = Some 0" using r(2) by simp
  ultimately show ?thesis using forward_registry_invariant [OF r(1)] r(1,3,4) unfolding Let_def by (metis one_less_numeral_iff
      power_one power_strict_increasing_iff semiring_norm(76) zero_less_numeral one_less_power)
qed

section \<open>Removing a forward\<close>

lemma no_empty_id:
  assumes "fwd_ok r" shows "map_of (fr_byID r) [] = None"
proof (rule ccontr)
  assume "map_of (fr_byID r) [] \<noteq> None"
  then obtain e where e: "map_of (fr_byID r) [] = Some e" by auto
  from entry_registered(1,2) [OF assms e] view_nth(1) [of e r] assms numbered_not_Nil [of "''fwd_''" "map fst (skels r)" _ e]
  show False by (auto simp: fwd_ok_def ids_ok_def)
qed

lemma close_active_nth:
  "c < length (fr_conns r) \<Longrightarrow>
     fr_conns (close_active cs r) ! c = (if c \<in> set cs then conn_close (fr_conns r ! c) else fr_conns r ! c)"
proof (induction cs arbitrary: r)
  case (Cons x cs)
  have "conn_close (conn_close y) = conn_close y" for y by (cases y) (simp add: conn_close_def option.map_comp comp_def)
  with Cons.IH [of "set_conn x conn_close r"] Cons.prems show ?case by (auto simp: close_active_def nth_upd)
qed (simp add: close_active_def)

lemma removeLocked_conns:
  "c < length (fr_conns r) \<Longrightarrow> c \<in> set (fe_active (fr_entries r ! e)) \<Longrightarrow>
     fr_conns (removeLocked e r) ! c = conn_close (fr_conns r ! c)"
  by (simp add: removeLocked_def close_active_nth set_forward_def)

text \<open>C13: when \<open>remove\<close> succeeds it removes exactly one forward, the one with the given ID or on the given
  local endpoint: its listener is closed, the host connection, the client and the stream of every connection in
  flight are closed, and every other forward stays registered.\<close>

theorem forward_remove_stops:
  assumes "run fwd_step es newForwardRegistry = Some (xs, r)" "length (fr_entries r) < 2 ^ 64"
    and "forward_remove p r = (Inr n, r')"
  shows "n = 1 \<and> (\<exists>i e. map_of (fr_byID r) i = Some e \<and> (fm_ID p = i \<or> fm_ID p = [] \<and> map_option forward_key (fm_Local p) = Some (entry_key r e)) \<and>
     fr_byID r' = AList.delete i (fr_byID r) \<and> fr_byLocal r' = AList.delete (entry_key r e) (fr_byLocal r) \<and>
     \<not> ln_open (fr_listeners r' ! fe_listener (fr_entries r ! e)) \<and>
     (\<forall>c \<in> in_flight r e. \<not> cn_host (fr_conns r' ! c) \<and> cn_client (fr_conns r' ! c) \<noteq> Some True \<and>
        cn_stream (fr_conns r' ! c) \<noteq> Some True))"
proof -
  note ok = reachable_ok [OF assms(1,2)]
  let ?sel = "if fm_ID p \<noteq> [] then fm_ID p
    else case map_of (fr_byLocal r) (forward_key (the (fm_Local p))) of None \<Rightarrow> [] | Some i \<Rightarrow> i"
  note not_nil = no_empty_id [OF ok]
  from assms(3) obtain e where e: "map_of (fr_byID r) ?sel = Some e" "n = 1" "r' = removeLocked e r"
    and one: "\<not> (fm_ID p = [] \<and> fm_Local p = None)"
    by (auto simp: forward_remove_def Let_def split: if_splits option.splits)
  note reg = entry_registered [OF ok e(1)]
  have "fm_ID p = ?sel \<or> fm_ID p = [] \<and> map_option forward_key (fm_Local p) = Some (entry_key r e)"
  proof (cases "fm_ID p = []")
    case True
    with one e(1) not_nil obtain l where l: "fm_Local p = Some l" "map_of (fr_byLocal r) (forward_key l) = Some ?sel"
      by (auto split: option.splits)
    with ok e(1) table_lookup(2) [of "id_of (skels r)" "key_of (skels r)" "fr_byID r" "fr_byLocal r" "forward_key l" ?sel]
    have "key_of (skels r) e = forward_key l" by (auto simp: fwd_ok_def)
    with l True view_nth(1) [OF reg(1)] show ?thesis by simp
  qed simp
  moreover have "\<not> ln_open (fr_listeners r' ! fe_listener (fr_entries r ! e))"
    using removeLocked_listener(1) [OF ok reg(7)] view_nth(1) [OF reg(1)] e(3) by simp
  moreover have "\<forall>c \<in> in_flight r e. fr_conns r' ! c = conn_close (fr_conns r ! c)"
    using removeLocked_conns [of _ r e] active_in_flight(1) [OF ok reg(1)] e(3) by (auto simp: in_flight_def)
  ultimately show ?thesis
    using e reg(2) by (intro conjI exI [of _ ?sel] exI [of _ e]) (auto simp: conn_close_def)
qed

theorem forward_remove_stops_witness:
  "\<exists>xs r r'. run fwd_step sample_created newForwardRegistry = Some (xs, r) \<and>
     forward_remove \<lparr>fm_ID = counted_id ''fwd_'' 1, fm_Local = None\<rparr> r = (Inr 1, r') \<and> \<not> ln_open (fr_listeners r' ! 0)"
proof -
  obtain xs r where r: "run fwd_step sample_created newForwardRegistry = Some (xs, r)" "fr_byID r = [(counted_id ''fwd_'' 1, 0)]"
    "length (fr_entries r) = 1" "fe_listener (fr_entries r ! 0) = 0"
    using sample_created_run by auto
  let ?p = "\<lparr>fm_ID = counted_id ''fwd_'' 1, fm_Local = None\<rparr>"
  have "forward_remove ?p r = (Inr 1, removeLocked 0 r)"
    using r(2) by (simp add: forward_remove_def Let_def counted_id_def)
  moreover from forward_remove_stops [OF r(1) _ this] r have "\<not> ln_open (fr_listeners (removeLocked 0 r) ! 0)"
    by (auto split: if_splits)
  ultimately show ?thesis using r(1) by blast
qed

text \<open>A connection that is accepted just before its forward is removed and added just after is not closed by the removal:
  the bridge of the removed forward goes on with both ends open, and no later \<open>remove\<close> or
  \<open>removeAll\<close> can reach it.\<close>

theorem removed_forward_keeps_bridging:
  "\<exists>es xs r. run fwd_step es newForwardRegistry = Some (xs, r) \<and> fr_byID r = [] \<and>
     \<not> ln_open (fr_listeners r ! 0) \<and>
     (\<exists>c. fr_conns r = [c] \<and> cn_stage c = Bridging \<and> cn_host c \<and> cn_client c = Some True \<and> cn_stream c = Some True) \<and>
     (\<forall>p. snd (forward_remove p r) = r) \<and> forward_removeAll r = (0, r)"
proof -
  let ?es = "sample_created @ [Accept 0, RemoveCall \<lparr>fm_ID = counted_id ''fwd_'' 1, fm_Local = None\<rparr>, AddActive 0,
    Bridge 0 None, Bridge 0 None, Bridge 0 None]"
  have "\<exists>xs r. run fwd_step ?es newForwardRegistry = Some (xs, r) \<and> fr_byID r = [] \<and> \<not> ln_open (fr_listeners r ! 0) \<and>
     (\<exists>c. fr_conns r = [c] \<and> cn_stage c = Bridging \<and> cn_host c \<and> cn_client c = Some True \<and> cn_stream c = Some True)"
    by (simp add: sample_created_def fwd_run forward_key_def counted_id_def)
  then obtain xs r where r: "run fwd_step ?es newForwardRegistry = Some (xs, r)" "fr_byID r = []" "\<not> ln_open (fr_listeners r ! 0)"
     "\<exists>c. fr_conns r = [c] \<and> cn_stage c = Bridging \<and> cn_host c \<and> cn_client c = Some True \<and> cn_stream c = Some True" by blast
  moreover have "snd (forward_remove p r) = r" for p
    using r(2) by (auto simp: forward_remove_def Let_def split: option.splits)
  moreover have "forward_removeAll r = (0, r)" using r(2) by (simp add: forward_removeAll_def)
  ultimately show ?thesis by (intro exI [of _ ?es]) auto
qed

section \<open>Selecting by local endpoint\<close>

lemma displace_removes:
  assumes "fwd_ok r" "displace key nb r = (Inr u, r')"
  shows "map_of (fr_byLocal r') key = None"
proof -
  have "entry_key r e = key" if "map_of (fr_byLocal r) key = Some i" "map_of (fr_byID r) i = Some e" for i e
  proof -
    from assms(1) that table_lookup(2) [of "id_of (skels r)" "key_of (skels r)" "fr_byID r" "fr_byLocal r" key i]
    have "key_of (skels r) e = key" by (auto simp: fwd_ok_def)
    with view_nth(1) [OF entry_registered(1) [OF assms(1) that(2)]] show ?thesis by simp
  qed
  moreover have "\<exists>e. map_of (fr_byID r) i = Some e" if "map_of (fr_byLocal r) key = Some i" for i
    using assms(1) that table_lookup(2) [of "id_of (skels r)" "key_of (skels r)" "fr_byID r" "fr_byLocal r" key i]
    by (auto simp: fwd_ok_def)
  ultimately show ?thesis using assms(2)
    by (fastforce simp: displace_def delete_conv' split: option.splits if_splits)
qed

lemma displace_keeps_None:
  "displace key nb r = (res, r') \<Longrightarrow> map_of (fr_byLocal r) k = None \<Longrightarrow> map_of (fr_byLocal r') k = None"
  "displace key nb r = (res, r') \<Longrightarrow> map_of (fr_byID r) i = None \<Longrightarrow> map_of (fr_byID r') i = None"
  "displace key nb r = (res, r') \<Longrightarrow> skels r' = skels r"
  by (auto simp: displace_def delete_conv' skels_def split: option.splits if_splits)
    (simp add: skels_def [symmetric])

text \<open>A forward is registered under the address its listener reports. When that is not the text of the request, as for
  \<open>localhost:9000\<close>, the same local endpoint given to \<open>remove\<close> does not find the forward just created.\<close>

theorem forward_selector_mismatch:
  assumes "run fwd_step es newForwardRegistry = Some (xs, r)" "length (fr_entries r) < 2 ^ 64"
    and "forward_create (Inr addr) now p r = (Inr f, r')" "addr \<noteq> fl_Address (fc_Local p)"
  shows "forward_remove \<lparr>fm_ID = [], fm_Local = Some (fc_Local p)\<rparr> r' = (Inl ErrorForwardNotFound, r')"
proof -
  note ok = reachable_ok [OF assms(1,2)]
  let ?k = "forward_key (fc_Local p)"
  from assms(3) obtain r1 where r1: "validateForwardCreateParams p = None" "displace ?k (fc_Norebind p) r = (Inr (), r1)"
    by (auto simp: forward_create_def create_start_def split: option.splits prod.splits sum.splits)
  let ?l = "length (fr_listeners r1)"
  let ?r2 = "r1\<lparr>fr_listeners := fr_listeners r1 @ [\<lparr>ln_addr = addr, ln_open = True\<rparr>]\<rparr>"
  obtain e r3 where r3: "create_entry p ?l now ?r2 = (e, r3)" by (cases "create_entry p ?l now ?r2")
  have ins: "create_insert p e r3 = (Inr f, r')"
    using assms(3) r1 r3 by (simp add: forward_create_def create_start_def create_listen_def)
  have e: "e < length (fr_entries r3)" "entry_key r3 e = forward_key ((fc_Local p)\<lparr>fl_Address := addr\<rparr>)" "entry_id r3 e \<noteq> []"
    "fr_byLocal r3 = fr_byLocal r1" "fr_byID r3 = fr_byID r1"
    using r3 by (auto simp: create_entry_def nextForwardID_def Let_def counted_id_def)
  have none: "map_of (fr_byLocal r3) ?k = None" "map_of (fr_byID r3) [] = None"
    using displace_removes [OF ok r1(2)] no_empty_id [OF displace_ok(1) [OF ok r1(2)]] e by simp_all
  obtain r4 where r4: "displace (entry_key r3 e) (fc_Norebind p)
      (if map_of (fr_byLocal r3) (entry_key r3 e) = None then r3 else listener_close (fe_listener (fr_entries r3 ! e)) r3) = (Inr (), r4)"
    and r': "fr_byID r' = AList.update (entry_id r4 e) e (fr_byID r4)" "fr_byLocal r' = AList.update (entry_key r4 e) (entry_id r4 e) (fr_byLocal r4)"
    using ins by (auto simp: create_insert_def Let_def split: prod.splits sum.splits)
  have s: "skels r4 = skels r3" using displace_keeps_None(3) [OF r4] by (simp add: skels_def split: if_splits)
  then have len: "e < length (fr_entries r4)" using e(1) view_lengths(1) [of r4] view_lengths(1) [of r3] by simp
  have same: "entry_id r4 e = entry_id r3 e" "entry_key r4 e = entry_key r3 e"
    using view_nth(1) [OF len] view_nth(1) [OF e(1)] s by simp_all
  have "map_of (fr_byLocal r4) ?k = None" "map_of (fr_byID r4) [] = None"
    using displace_keeps_None(1,2) [OF r4] none by simp_all
  moreover have "entry_key r3 e \<noteq> ?k" using e(2) assms(4) by (simp add: forward_key_def)
  ultimately have "map_of (fr_byLocal r') ?k = None" "map_of (fr_byID r') [] = None"
    using r' same e(3) by (auto simp: update_conv')
  moreover have "validateForwardLocal (fc_Local p) = None" using r1(1) by (simp add: validateForwardCreateParams_def)
  ultimately show ?thesis by (simp add: forward_remove_def Let_def)
qed

theorem forward_selector_mismatch_witness:
  "\<exists>f r'. forward_create (Inr ''127.0.0.1:9000'') [] sample_forward newForwardRegistry = (Inr f, r') \<and>
     fl_Address (f_Local f) = ''127.0.0.1:9000'' \<and> forward_list r' = [f] \<and>
     forward_remove \<lparr>fm_ID = [], fm_Local = Some (fc_Local sample_forward)\<rparr> r' = (Inl ErrorForwardNotFound, r')"
proof -
  have "\<exists>f r'. forward_create (Inr ''127.0.0.1:9000'') [] sample_forward newForwardRegistry = (Inr f, r') \<and>
     fl_Address (f_Local f) = ''127.0.0.1:9000'' \<and> forward_list r' = [f]"
    by (simp add: forward_create_def fwd_run forward_list_def)
  then obtain f r' where "forward_create (Inr ''127.0.0.1:9000'') [] sample_forward newForwardRegistry = (Inr f, r')"
     "fl_Address (f_Local f) = ''127.0.0.1:9000''" "forward_list r' = [f]" by blast
  moreover from forward_selector_mismatch [of "[]" "[]" newForwardRegistry, OF _ _ this(1)]
  have "forward_remove \<lparr>fm_ID = [], fm_Local = Some (fc_Local sample_forward)\<rparr> r' = (Inl ErrorForwardNotFound, r')"
    by (simp add: newForwardRegistry_def)
  ultimately show ?thesis by blast
qed

end
