(* ===== verification/RegistrySpec.thy ===== *)
theory RegistrySpec
  imports ServerForwardProps
begin

text \<open>
  What the forward registry promises, without IDs, entries, listeners, goroutines and bridges: a map from local
  endpoints to forwards and the calls of \<open>create\<close> that have not returned. The registry of \<open>ServerForward\<close>
  implements it step by step, under every interleaving.
\<close>

section \<open>The promise\<close>

type_synonym forward_table = "string \<Rightarrow> Forward option"

text \<open>A call of \<open>create\<close> is waiting with its parameters, or has returned.\<close>

type_synonym create_calls = "(ForwardCreateParams + (error_code + Forward)) list"

definition made_for :: "ForwardCreateParams \<Rightarrow> Forward \<Rightarrow> bool" where
  "made_for p f \<longleftrightarrow> f_Remote f = fc_Remote p \<and> f_Target f = fc_Target p \<and> f_Norebind f = fc_Norebind p \<and>
     f_Local f = (fc_Local p)\<lparr>fl_Address := fl_Address (f_Local f)\<rparr> \<and>
     f_State f = ForwardStateListening \<and> f_ActiveConnections f = 0 \<and> f_LastError f = []"

text \<open>What may change in a registered forward.\<close>

definition progress :: "Forward \<Rightarrow> Forward \<Rightarrow> bool" where
  "progress f f' \<longleftrightarrow> (\<exists>s n m. live_state s \<and> f' = f\<lparr>f_State := s, f_ActiveConnections := n, f_LastError := m\<rparr>)"

text \<open>The forward a removal selects.\<close>

definition selects :: "ForwardRemoveParams \<Rightarrow> Forward \<Rightarrow> bool" where
  "selects p f \<longleftrightarrow> (if fm_ID p \<noteq> [] then f_ID f = fm_ID p else fm_Local p \<noteq> None \<and> forward_key (f_Local f) = forward_key (the (fm_Local p)))"

definition remove_error :: "ForwardRemoveParams \<Rightarrow> error_code option" where
  "remove_error p =
     (if (fm_ID p = []) = (fm_Local p = None) then Some ErrorBadRequest
      else case fm_Local p of None \<Rightarrow> None | Some local \<Rightarrow> validateForwardLocal local)"

inductive promise :: "fwd_event \<Rightarrow> (error_code + nat) option \<Rightarrow> forward_table \<times> create_calls \<Rightarrow> forward_table \<times> create_calls \<Rightarrow> bool" where
  invalid: "validateForwardCreateParams p = Some e \<Longrightarrow>
    promise (CreateCall p) None (T, C) (T, C @ [Inr (Inl e)])"
| norebind: "validateForwardCreateParams p = None \<Longrightarrow> fc_Norebind p \<Longrightarrow> T (forward_key (fc_Local p)) \<noteq> None \<Longrightarrow>
    promise (CreateCall p) None (T, C) (T, C @ [Inr (Inl ErrorRebindDisallowed)])"
| start: "validateForwardCreateParams p = None \<Longrightarrow> \<not> fc_Norebind p \<or> T (forward_key (fc_Local p)) = None \<Longrightarrow>
    promise (CreateCall p) None (T, C) (T(forward_key (fc_Local p) := None), C @ [Inl p])"
| listen_fails: "i < length C \<Longrightarrow> C ! i = Inl p \<Longrightarrow>
    promise (CreateListen i (Inl err)) None (T, C) (T, C[i := Inr (Inl (listenError err))])"
| listens: "i < length C \<Longrightarrow> C ! i = Inl p \<Longrightarrow> (\<forall>f \<in> ran T. fl_Address (f_Local f) \<noteq> a) \<Longrightarrow>
    promise (CreateListen i (Inr a)) None (T, C) (T, C)"
| entry: "i < length C \<Longrightarrow> C ! i = Inl p \<Longrightarrow> promise (CreateEntry i now) None (T, C) (T, C)"
| insert: "i < length C \<Longrightarrow> C ! i = Inl p \<Longrightarrow> made_for p f \<Longrightarrow> T (forward_key (f_Local f)) = None \<Longrightarrow> f_ID f \<notin> f_ID ` ran T \<Longrightarrow>
    promise (CreateInsert i) None (T, C) (T(forward_key (f_Local f) \<mapsto> f), C[i := Inr (Inr f)])"
| remove_refused: "remove_error p = Some e \<Longrightarrow> promise (RemoveCall p) (Some (Inl e)) (T, C) (T, C)"
| remove_missing: "remove_error p = None \<Longrightarrow> \<forall>f \<in> ran T. \<not> selects p f \<Longrightarrow>
    promise (RemoveCall p) (Some (Inl ErrorForwardNotFound)) (T, C) (T, C)"
| removes: "remove_error p = None \<Longrightarrow> T k = Some f \<Longrightarrow> selects p f \<Longrightarrow>
    promise (RemoveCall p) (Some (Inr 1)) (T, C) (T(k := None), C)"
| remove_all: "promise RemoveAllCall (Some (Inr (card (dom T)))) (T, C) (Map.empty, C)"
| accept: "promise (Accept e) None (T, C) (T, C)"
| accept_ends: "promise (AcceptFails e) None (T, C) (T, C)"
| add_active: "T k = Some f \<Longrightarrow> progress f f' \<Longrightarrow> promise (AddActive e) None (T, C) (T(k \<mapsto> f'), C)"
| add_removed: "promise (AddActive e) None (T, C) (T, C)"
| bridge: "T k = Some f \<Longrightarrow> progress f f' \<Longrightarrow> promise (Bridge c res) None (T, C) (T(k \<mapsto> f'), C)"
| bridge_quiet: "promise (Bridge c res) None (T, C) (T, C)"

text \<open>A run of the promise, event by event.\<close>

inductive promised :: "fwd_event list \<Rightarrow> (error_code + nat) option list \<Rightarrow> forward_table \<times> create_calls \<Rightarrow> forward_table \<times> create_calls \<Rightarrow> bool" where
  nothing: "promised [] [] s s"
| event: "promise ev x s s' \<Longrightarrow> promised es xs s' s'' \<Longrightarrow> promised (ev # es) (x # xs) s s''"

text \<open>The map is kept under the endpoints its forwards show, and no two forwards share an ID: a removal selects at
  most one.\<close>

definition map_ok :: "forward_table \<Rightarrow> bool" where
  "map_ok T \<longleftrightarrow> (\<forall>k f. T k = Some f \<longrightarrow> forward_key (f_Local f) = k) \<and>
     (\<forall>k k' f f'. T k = Some f \<longrightarrow> T k' = Some f' \<longrightarrow> f_ID f = f_ID f' \<longrightarrow> k = k')"

lemma promise_map_ok: "promise ev x s s' \<Longrightarrow> map_ok (fst s) \<Longrightarrow> map_ok (fst s')"
proof (induction rule: promise.induct)
  case (insert i C p f T)
  then have fresh: "\<And>k f'. T k = Some f' \<Longrightarrow> f_ID f' \<noteq> f_ID f" by (metis image_eqI ranI)
  from insert show ?case by (auto simp: map_ok_def dest: fresh)
next
  case (add_active T k f f')
  then show ?case by (auto simp: map_ok_def progress_def)
next
  case (bridge T k f f')
  then show ?case by (auto simp: map_ok_def progress_def)
qed (auto simp: map_ok_def)

lemma promised_map_ok: "promised es xs s s' \<Longrightarrow> map_ok (fst s) \<Longrightarrow> map_ok (fst s')"
  by (induction rule: promised.induct) (auto dest: promise_map_ok)

lemma selects_unique: "map_ok T \<Longrightarrow> T k = Some f \<Longrightarrow> T k' = Some f' \<Longrightarrow> selects p f \<Longrightarrow> selects p f' \<Longrightarrow> k = k'"
  unfolding map_ok_def selects_def by (metis (no_types, lifting))

section \<open>The registry as a map\<close>

definition forwards_of :: "forwardRegistry \<Rightarrow> forward_table" where
  "forwards_of r k =
     (case map_of (fr_byLocal r) k of
        None \<Rightarrow> None
      | Some i \<Rightarrow> map_option (\<lambda>e. fe_forward (fr_entries r ! e)) (map_of (fr_byID r) i))"

fun call_of :: "creating \<Rightarrow> ForwardCreateParams + (error_code + Forward)" where
  "call_of (ListenFor p) = Inl p"
| "call_of (AllocateFor p l) = Inl p"
| "call_of (InsertFor p e) = Inl p"
| "call_of (CreateDone res) = Inr res"

definition registry_abs :: "forwardRegistry \<Rightarrow> forward_table \<times> create_calls" where
  "registry_abs r = (forwards_of r, map call_of (fr_creates r))"

abbreviation forward_at :: "forwardRegistry \<Rightarrow> nat \<Rightarrow> Forward" where
  "forward_at r e \<equiv> fe_forward (fr_entries r ! e)"

lemma forwards_of_Some:
  assumes "fwd_ok r"
  shows "forwards_of r k = Some f \<longleftrightarrow> (\<exists>e. in_table (fr_byID r) e \<and> entry_key r e = k \<and> f = forward_at r e)"
proof
  assume "forwards_of r k = Some f"
  then obtain i e where e: "map_of (fr_byLocal r) k = Some i" "map_of (fr_byID r) i = Some e" "f = forward_at r e"
    by (auto simp: forwards_of_def split: option.splits)
  have t: "table_ok (id_of (skels r)) (key_of (skels r)) (fr_byID r) (fr_byLocal r)" using assms by (simp add: fwd_ok_def)
  from table_lookup(2) [OF t e(1)] e(2) view_nth(1) [OF entry_registered(1) [OF assms e(2)]]
  have "entry_key r e = k" "in_table (fr_byID r) e" by auto
  with e(3) show "\<exists>e. in_table (fr_byID r) e \<and> entry_key r e = k \<and> f = forward_at r e" by blast
next
  assume "\<exists>e. in_table (fr_byID r) e \<and> entry_key r e = k \<and> f = forward_at r e"
  then obtain i e where e: "(i, e) \<in> set (fr_byID r)" "entry_key r e = k" "f = forward_at r e" by (auto simp: in_table_def)
  have "distinct (map fst (fr_byID r))" using assms by (simp add: fwd_ok_def table_ok_def)
  with e(1) have "map_of (fr_byID r) i = Some e" by simp
  with entry_registered(3) [OF assms this] e show "forwards_of r k = Some f" by (simp add: forwards_of_def)
qed

lemma forward_keys_inj:
  assumes "fwd_ok r" "in_table (fr_byID r) e" "in_table (fr_byID r) e'" "entry_key r e = entry_key r e'"
  shows "e = e'"
proof -
  have t: "table_ok (id_of (skels r)) (key_of (skels r)) (fr_byID r) (fr_byLocal r)" using assms(1) by (simp add: fwd_ok_def)
  have "e < length (fr_entries r)" "e' < length (fr_entries r)" using assms(1-3) by (auto simp: fwd_ok_def reg_ok_def)
  then show ?thesis using table_keys_inj [OF t assms(2,3)] assms(4) by (simp add: view_nth)
qed

lemma forwards_of_eqI:
  assumes "fwd_ok r" "\<And>k f. T k = Some f \<longleftrightarrow> (\<exists>e. in_table (fr_byID r) e \<and> entry_key r e = k \<and> f = forward_at r e)"
  shows "forwards_of r = T"
proof
  fix k
  have "forwards_of r k = Some f \<longleftrightarrow> T k = Some f" for f using forwards_of_Some [OF assms(1)] assms(2) by simp
  then show "forwards_of r k = T k" by (metis not_Some_eq)
qed

lemma forwards_of_same:
  "fr_byID r' = fr_byID r \<Longrightarrow> fr_byLocal r' = fr_byLocal r \<Longrightarrow> (\<And>e. forward_at r' e = forward_at r e) \<Longrightarrow>
     forwards_of r' = forwards_of r"
  by (simp add: forwards_of_def fun_eq_iff cong: option.case_cong)

lemma removeLocked_forward_at:
  "e < length (fr_entries r) \<Longrightarrow> forward_at (removeLocked e r) e' =
     (if e' = e then (forward_at r e)\<lparr>f_State := ForwardStateStopped\<rparr> else forward_at r e')"
  by (simp add: removeLocked_def set_forward_def nth_upd)

lemma forwards_of_remove:
  assumes "fwd_ok r" "in_table (fr_byID r) e"
  shows "forwards_of (removeLocked e r) = (forwards_of r)(entry_key r e := None)"
proof (rule forwards_of_eqI [OF remove_ok [OF assms]])
  fix k f
  have e: "e < length (fr_entries r)" using assms by (auto simp: fwd_ok_def reg_ok_def)
  have "(\<exists>x. in_table (fr_byID (removeLocked e r)) x \<and> entry_key (removeLocked e r) x = k \<and> f = forward_at (removeLocked e r) x)
      \<longleftrightarrow> (\<exists>x. in_table (fr_byID r) x \<and> x \<noteq> e \<and> entry_key r x = k \<and> f = forward_at r x)"
    by (auto simp: remove_table [OF assms] removeLocked_forward_at [OF e] simp del: removeLocked_frame)
  also have "\<dots> \<longleftrightarrow> ((forwards_of r)(entry_key r e := None)) k = Some f"
    using forward_keys_inj [OF assms(1) _ assms(2)] by (auto simp: forwards_of_Some [OF assms(1)])
  finally show "((forwards_of r)(entry_key r e := None)) k = Some f \<longleftrightarrow>
      (\<exists>x. in_table (fr_byID (removeLocked e r)) x \<and> entry_key (removeLocked e r) x = k \<and> f = forward_at (removeLocked e r) x)"
    by simp
qed

text \<open>An update of one forward that keeps its ID and its local endpoint.\<close>

lemma forwards_of_update:
  assumes "fwd_ok r" "e < length (fr_entries r)" "fr_byID r' = fr_byID r" "fr_byLocal r' = fr_byLocal r"
    and "\<And>x. forward_at r' x = (if x = e then f else forward_at r x)"
  shows "forwards_of r' = (if in_table (fr_byID r) e then (forwards_of r)(entry_key r e \<mapsto> f) else forwards_of r)"
proof
  fix k
  have t: "table_ok (id_of (skels r)) (key_of (skels r)) (fr_byID r) (fr_byLocal r)" using assms(1) by (simp add: fwd_ok_def)
  show "forwards_of r' k = (if in_table (fr_byID r) e then (forwards_of r)(entry_key r e \<mapsto> f) else forwards_of r) k"
  proof (cases "map_of (fr_byLocal r) k")
    case None
    moreover have "in_table (fr_byID r) e \<Longrightarrow> entry_key r e \<noteq> k"
      using forwards_of_Some [OF assms(1), of k] None by (auto simp: forwards_of_def)
    ultimately show ?thesis by (auto simp: forwards_of_def assms(3,4))
  next
    case (Some i)
    then obtain x where x: "map_of (fr_byID r) i = Some x" "in_table (fr_byID r) x" "key_of (skels r) x = k"
      using table_lookup(2) [OF t Some] by blast
    have "entry_key r x = k" using x(3) view_nth(1) [OF entry_registered(1) [OF assms(1) x(1)]] by simp
    then have "in_table (fr_byID r) e \<Longrightarrow> k = entry_key r e \<longleftrightarrow> x = e" using forward_keys_inj [OF assms(1) x(2)] by metis
    moreover have "\<not> in_table (fr_byID r) e \<Longrightarrow> x \<noteq> e" using x(2) by auto
    ultimately show ?thesis using x(1) Some by (simp add: forwards_of_def assms(3-5))
  qed
qed

section \<open>Forwards that are not registered yet\<close>

definition pending_ok :: "forwardRegistry \<Rightarrow> bool" where
  "pending_ok r \<longleftrightarrow> (\<forall>p e. InsertFor p e \<in> set (fr_creates r) \<longrightarrow> made_for p (forward_at r e))"

lemma pending_idle:
  assumes "fwd_ok r" "InsertFor p e \<in> set (fr_creates r)"
  shows "e < length (fr_entries r)" "\<not> in_table (fr_byID r) e" "\<not> fe_started (fr_entries r ! e)"
proof -
  show e: "e < length (fr_entries r)" by (rule insert_key_free(2) [OF assms])
  show "\<not> in_table (fr_byID r) e" "\<not> fe_started (fr_entries r ! e)"
    using assms view_nth(3) [OF e] by (auto simp: fwd_ok_def unstarted_ok_def)
qed

lemma pending_keep:
  assumes "pending_ok r" "\<And>p e. InsertFor p e \<in> set (fr_creates r') \<Longrightarrow> InsertFor p e \<in> set (fr_creates r)"
    and "\<And>p e. InsertFor p e \<in> set (fr_creates r) \<Longrightarrow> forward_at r' e = forward_at r e"
  shows "pending_ok r'"
  using assms unfolding pending_ok_def by metis

lemma pending_remove:
  assumes "fwd_ok r" "pending_ok r" "in_table (fr_byID r) x"
  shows "pending_ok (removeLocked x r)"
proof (rule pending_keep [OF assms(2)])
  fix p e assume "InsertFor p e \<in> set (fr_creates r)"
  moreover have "x < length (fr_entries r)" using assms(1,3) by (auto simp: fwd_ok_def reg_ok_def)
  ultimately show "forward_at (removeLocked x r) e = forward_at r e"
    using pending_idle(2) [OF assms(1), of p e] assms(3) by (auto simp: removeLocked_forward_at)
qed simp

lemma removeAll_pending:
  assumes "fwd_ok r" "pending_ok r" "forward_removeAll r = (n, r')"
  shows "pending_ok r'"
proof -
  have "fwd_ok r \<Longrightarrow> pending_ok r \<Longrightarrow> distinct (map snd xs) \<Longrightarrow> snd ` set xs \<subseteq> {e. in_table (fr_byID r) e} \<Longrightarrow>
      pending_ok (snd (fold (\<lambda>(_, e) (n, r). (n + 1, removeLocked e r)) xs (k, r)))" for xs k r
  proof (induction xs arbitrary: k r)
    case (Cons y ys)
    obtain i e where y: "y = (i, e)" by (cases y)
    with Cons.prems have e: "in_table (fr_byID r) e" by auto
    have "pending_ok (snd (fold (\<lambda>(_, e) (n, r). (n + 1, removeLocked e r)) ys (k + 1, removeLocked e r)))"
    proof (rule Cons.IH)
      show "snd ` set ys \<subseteq> {x. in_table (fr_byID (removeLocked e r)) x}"
        using Cons.prems(3,4) y by (auto simp: remove_table [OF Cons.prems(1) e] simp del: removeLocked_frame)
    qed (use Cons.prems e y in \<open>auto intro: remove_ok pending_remove\<close>)
    then show ?case by (simp add: y)
  qed simp
  moreover have "distinct (map snd (fr_byID r))"
    using assms(1) registered_list by (auto simp: fwd_ok_def)
  moreover have "snd ` set (fr_byID r) \<subseteq> {e. in_table (fr_byID r) e}" by (auto simp: in_table_def)
  ultimately have "pending_ok (snd (forward_removeAll r))" unfolding forward_removeAll_def using assms(1,2) by blast
  with assms(3) show ?thesis by simp
qed

section \<open>The calls of create\<close>

lemma forwards_of_creates [simp]:
  "forwards_of (r\<lparr>fr_creates := C\<rparr>) = forwards_of r" "forwards_of (set_create i c r) = forwards_of r"
  "forwards_of (r\<lparr>fr_listeners := L\<rparr>) = forwards_of r"
  by (rule forwards_of_same; simp)+

lemma pending_creates:
  "pending_ok r \<Longrightarrow> (\<And>p e. c \<noteq> InsertFor p e) \<Longrightarrow> pending_ok (r\<lparr>fr_creates := fr_creates r @ [c]\<rparr>)"
  "pending_ok r \<Longrightarrow> (\<And>p e. c \<noteq> InsertFor p e) \<Longrightarrow> pending_ok (set_create i c r)"
  using set_update_subset_insert [of "fr_creates r" i c] by (fastforce simp: pending_ok_def)+

lemma displace_promise:
  assumes "fwd_ok r" "pending_ok r" "displace key nb r = (res, r')"
  shows "(nb \<and> forwards_of r key \<noteq> None \<and> res = Inl ErrorRebindDisallowed \<and> r' = r) \<or>
    ((\<not> nb \<or> forwards_of r key = None) \<and> res = Inr () \<and> forwards_of r' = (forwards_of r)(key := None) \<and> pending_ok r' \<and>
     fr_creates r' = fr_creates r)"
proof (cases "map_of (fr_byLocal r) key")
  case None
  then have "forwards_of r key = None" by (simp add: forwards_of_def)
  moreover have "res = Inr ()" "r' = r" using None assms(3) by (simp_all add: displace_def)
  ultimately show ?thesis using assms(2) by auto
next
  case (Some i)
  have t: "table_ok (id_of (skels r)) (key_of (skels r)) (fr_byID r) (fr_byLocal r)" using assms(1) by (simp add: fwd_ok_def)
  from table_lookup(2) [OF t Some] obtain x where
    x: "map_of (fr_byID r) i = Some x" "in_table (fr_byID r) x" "key_of (skels r) x = key" by auto
  have key: "entry_key r x = key" using x(3) view_nth(1) [OF entry_registered(1) [OF assms(1) x(1)]] by simp
  have "forwards_of r key \<noteq> None" using Some x(1) by (simp add: forwards_of_def)
  then show ?thesis
    using assms(3) Some x(1) forwards_of_remove [OF assms(1) x(2)] pending_remove [OF assms(1,2) x(2)]
    by (auto simp: displace_def key split: if_splits)
qed

lemma create_call_promise:
  assumes "fwd_ok r" "pending_ok r" "fwd_step (CreateCall p) r = Some (x, r')"
  shows "pending_ok r' \<and> promise (CreateCall p) x (registry_abs r) (registry_abs r')"
proof (cases "validateForwardCreateParams p")
  case (Some e)
  with assms(3) have "x = None" "r' = r\<lparr>fr_creates := fr_creates r @ [CreateDone (Inl e)]\<rparr>" by (auto simp: create_start_def)
  with Some assms(2) show ?thesis by (simp add: registry_abs_def promise.invalid pending_creates)
next
  case None
  obtain res r1 where d: "displace (forward_key (fc_Local p)) (fc_Norebind p) r = (res, r1)" by (metis surj_pair)
  have r': "x = None" "r' = r1\<lparr>fr_creates := fr_creates r1 @ [case res of Inl e \<Rightarrow> CreateDone (Inl e) | Inr _ \<Rightarrow> ListenFor p]\<rparr>"
    using assms(3) None d by (auto simp: create_start_def split: sum.splits)
  from displace_promise [OF assms(1,2) d] show ?thesis
    using None r' assms(2) by (auto simp: registry_abs_def intro!: promise.norebind promise.start pending_creates)
qed

lemma create_listen_promise:
  assumes "fwd_ok r" "pending_ok r" "fwd_step (CreateListen i res) r = Some (x, r')"
  shows "pending_ok r' \<and> promise (CreateListen i res) x (registry_abs r) (registry_abs r')"
proof -
  from assms(3) obtain p where p: "i < length (fr_creates r)" "fr_creates r ! i = ListenFor p"
    by (auto split: if_splits creating.splits)
  show ?thesis
  proof (cases res)
    case (Inl err)
    with assms(3) p have "x = None" "r' = set_create i (CreateDone (Inl (listenError err))) r" by (auto simp: create_listen_def)
    with p assms(2) Inl show ?thesis
      by (auto simp: registry_abs_def map_update intro!: promise.listen_fails [of _ _ p] pending_creates)
  next
    case (Inr a)
    let ?r = "r\<lparr>fr_listeners := fr_listeners r @ [\<lparr>ln_addr = a, ln_open = True\<rparr>]\<rparr>"
    from assms(3) p Inr have free: "address_free a r" and r': "x = None" "r' = set_create i (AllocateFor p (length (fr_listeners r))) ?r"
      by (auto simp: create_listen_def split: if_splits)
    have "fl_Address (f_Local f) \<noteq> a" if "f \<in> ran (forwards_of r)" for f
    proof -
      from that obtain i e where e: "map_of (fr_byID r) i = Some e" "f = forward_at r e"
        by (auto simp: forwards_of_def ran_def split: option.splits)
      have "fe_listener (fr_entries r ! e) < length (fr_listeners r)"
        using assms(1) view_nth(1) [OF entry_registered(1) [OF assms(1) e(1)]] entry_registered(1) [OF assms(1) e(1)]
        by (auto simp: fwd_ok_def entries_ok_def)
      with free entry_registered(4,5) [OF assms(1) e(1)] e(2) show ?thesis by (auto simp: address_free_def list_all_length)
    qed
    moreover have "map call_of (fr_creates r') = map call_of (fr_creates r)"
      using p r' by (auto simp: list_eq_iff_nth_eq nth_upd)
    moreover have "pending_ok ?r" using assms(2) by (simp add: pending_ok_def)
    ultimately show ?thesis using p r' Inr
      by (auto simp: registry_abs_def intro!: promise.listens [of _ _ p] pending_creates)
  qed
qed

lemma create_entry_promise:
  assumes "fwd_ok r" "pending_ok r" "fwd_step (CreateEntry i now) r = Some (x, r')"
  shows "pending_ok r' \<and> promise (CreateEntry i now) x (registry_abs r) (registry_abs r')"
proof -
  from assms(3) obtain p l where p: "i < length (fr_creates r)" "fr_creates r ! i = AllocateFor p l"
    by (auto split: if_splits creating.splits)
  obtain e r1 where c: "create_entry p l now r = (e, r1)" by (metis surj_pair)
  have r': "x = None" "r' = set_create i (InsertFor p e) r1" using assms(3) p c by auto
  have e: "e = length (fr_entries r)" "made_for p (forward_at r1 e)" "fr_byID r1 = fr_byID r" "fr_byLocal r1 = fr_byLocal r"
    "fr_creates r1 = fr_creates r" "\<And>x. x < length (fr_entries r) \<Longrightarrow> forward_at r1 x = forward_at r x"
    using c by (auto simp: create_entry_def nextForwardID_def Let_def made_for_def nth_append)
  have "forwards_of r1 k = forwards_of r k" for k
    using e(6) entry_registered(1) [OF assms(1)]
    by (auto simp: forwards_of_def e(3,4) split: option.split intro!: map_option_cong)
  then have "forwards_of r1 = forwards_of r" by blast
  moreover have "map call_of (fr_creates r') = map call_of (fr_creates r)"
    using p by (auto simp: r'(2) e(5) list_eq_iff_nth_eq nth_upd)
  moreover have "pending_ok r'"
    unfolding pending_ok_def
  proof (intro allI impI)
    fix q y assume "InsertFor q y \<in> set (fr_creates r')"
    then have "InsertFor q y = InsertFor p e \<or> InsertFor q y \<in> set (fr_creates r)"
      using set_update_subset_insert [of "fr_creates r" i "InsertFor p e"] by (auto simp: r'(2) e(5))
    with e(2,6) assms(2) pending_idle(1) [OF assms(1), of q y] show "made_for q (forward_at r' y)"
      by (auto simp: r'(2) pending_ok_def)
  qed
  ultimately show ?thesis using p r' by (auto simp: registry_abs_def intro!: promise.entry [of _ _ p])
qed

lemma registered_id_fresh:
  assumes "fwd_ok r" "length (fr_entries r) < 2 ^ 64" "InsertFor p e \<in> set (fr_creates r)"
  shows "entry_id r e \<notin> f_ID ` ran (forwards_of r)"
proof
  assume "entry_id r e \<in> f_ID ` ran (forwards_of r)"
  then obtain k f where "forwards_of r k = Some f" "f_ID f = entry_id r e" by (auto simp: ran_def)
  then obtain y where y: "in_table (fr_byID r) y" "entry_id r y = entry_id r e" using forwards_of_Some [OF assms(1)] by auto
  have "y < length (fr_entries r)" using assms(1) y(1) by (auto simp: fwd_ok_def reg_ok_def)
  then have "y = e" using ids_inj [of "skels r" _ y e] assms(1,2) pending_idle(1) [OF assms(1,3)] y(2)
    by (auto simp: fwd_ok_def view_nth)
  with y(1) pending_idle(2) [OF assms(1,3)] show False by simp
qed

lemma create_insert_promise:
  assumes "fwd_ok r" "pending_ok r" "length (fr_entries r) < 2 ^ 64" "fwd_step (CreateInsert i) r = Some (x, r')"
  shows "pending_ok r' \<and> promise (CreateInsert i) x (registry_abs r) (registry_abs r')"
proof -
  from assms(4) obtain p e where p: "i < length (fr_creates r)" "fr_creates r ! i = InsertFor p e"
    by (auto split: if_splits creating.splits)
  then have mem: "InsertFor p e \<in> set (fr_creates r)" by (metis nth_mem)
  let ?f = "forward_at r e"
  note step = assms(4) [unfolded fwd_step.simps p(2) creating.case create_insert_free [OF assms(1) mem]]
  have r': "x = None" "fr_creates r' = (fr_creates r)[i := CreateDone (Inr ?f)]"
    "fr_byID r' = AList.update (entry_id r e) e (fr_byID r)" "fr_byLocal r' = AList.update (entry_key r e) (entry_id r e) (fr_byLocal r)"
    using step p(1) by auto
  have at: "forward_at r' y = forward_at r y" for y
    using step p(1) by (auto simp: nth_upd)
  have made: "made_for p ?f" using assms(2) mem by (simp add: pending_ok_def)
  have free: "forwards_of r (entry_key r e) = None"
    using insert_key_free [OF assms(1) mem] by (simp add: view_nth forwards_of_def)
  have "forwards_of r' = (forwards_of r)(entry_key r e \<mapsto> ?f)"
  proof
    fix k
    have "entry_id r e \<noteq> j" if j: "map_of (fr_byLocal r) k = Some j" for j
    proof -
      have "table_ok (id_of (skels r)) (key_of (skels r)) (fr_byID r) (fr_byLocal r)" using assms(1) by (simp add: fwd_ok_def)
      from table_lookup(2) [OF this j] obtain y where y: "map_of (fr_byID r) j = Some y" by blast
      then have "forwards_of r k = Some (forward_at r y)" using j by (simp add: forwards_of_def)
      then have "j \<in> f_ID ` ran (forwards_of r)"
        using entry_registered(2) [OF assms(1) y] by (metis image_eqI ranI)
      with registered_id_fresh [OF assms(1,3) mem] show ?thesis by auto
    qed
    then show "forwards_of r' k = ((forwards_of r)(entry_key r e \<mapsto> ?f)) k"
      by (auto simp: forwards_of_def r' at update_conv' split: option.split)
  qed
  moreover have "pending_ok r'"
    by (rule pending_keep [OF assms(2)]) (use set_update_subset_insert [of "fr_creates r" i "CreateDone (Inr ?f)"] at in \<open>auto simp: r'(2)\<close>)
  ultimately show ?thesis
    using p made free registered_id_fresh [OF assms(1,3) mem]
    by (auto simp: registry_abs_def r' map_update intro!: promise.insert [of _ _ p])
qed

section \<open>Removing\<close>

lemma forwards_of_lookup:
  assumes "fwd_ok r" "map_of (fr_byID r) i = Some e"
  shows "forwards_of r (entry_key r e) = Some (forward_at r e)"
  using entry_registered(3) [OF assms] assms(2) by (simp add: forwards_of_def)

lemma forwards_of_ran:
  assumes "fwd_ok r" "f \<in> ran (forwards_of r)"
  shows "\<exists>e. map_of (fr_byID r) (f_ID f) = Some e \<and> f = forward_at r e \<and> map_of (fr_byLocal r) (forward_key (f_Local f)) = Some (f_ID f)"
proof -
  from assms(2) obtain i e where e: "map_of (fr_byID r) i = Some e" "f = forward_at r e"
    by (auto simp: forwards_of_def ran_def split: option.splits)
  with entry_registered(2,3) [OF assms(1) e(1)] show ?thesis by auto
qed

text \<open>The ID by which \<open>remove\<close> looks for its forward.\<close>

definition wanted_id :: "ForwardRemoveParams \<Rightarrow> forwardRegistry \<Rightarrow> string" where
  "wanted_id p r = (if fm_ID p \<noteq> [] then fm_ID p
     else case map_of (fr_byLocal r) (forward_key (the (fm_Local p))) of None \<Rightarrow> [] | Some i \<Rightarrow> i)"

lemma forward_remove_wanted:
  "forward_remove p r =
     (case remove_error p of
        Some e \<Rightarrow> (Inl e, r)
      | None \<Rightarrow> (case map_of (fr_byID r) (wanted_id p r) of None \<Rightarrow> (Inl ErrorForwardNotFound, r) | Some e \<Rightarrow> (Inr 1, removeLocked e r)))"
  by (auto simp: forward_remove_def remove_error_def wanted_id_def split: option.split)

lemma selected:
  assumes "fwd_ok r" "remove_error p = None" "map_of (fr_byID r) (wanted_id p r) = Some e"
  shows "selects p (forward_at r e)"
proof (cases "fm_ID p = []")
  case False
  with entry_registered(2) [OF assms(1,3)] show ?thesis by (simp add: selects_def wanted_id_def)
next
  case True
  let ?k = "forward_key (the (fm_Local p))"
  have loc: "fm_Local p \<noteq> None" using True assms(2) by (auto simp: remove_error_def split: if_splits)
  obtain i where i: "map_of (fr_byLocal r) ?k = Some i" "wanted_id p r = i"
    using assms(1,3) True no_empty_id [OF assms(1)] by (auto simp: wanted_id_def split: option.splits)
  then have "forwards_of r ?k = Some (forward_at r e)" using assms(3) by (simp add: forwards_of_def)
  then obtain y where y: "in_table (fr_byID r) y" "entry_key r y = ?k" "forward_at r e = forward_at r y"
    using forwards_of_Some [OF assms(1)] by blast
  then show ?thesis using True loc by (auto simp: selects_def)
qed

lemma none_selected:
  assumes "fwd_ok r" "remove_error p = None" "map_of (fr_byID r) (wanted_id p r) = None" "f \<in> ran (forwards_of r)"
  shows "\<not> selects p f"
proof
  assume "selects p f"
  with forwards_of_ran [OF assms(1,4)] have "wanted_id p r = f_ID f" by (auto simp: selects_def wanted_id_def split: if_splits)
  with forwards_of_ran [OF assms(1,4)] assms(3) show False by auto
qed

lemma remove_promise:
  assumes "fwd_ok r" "pending_ok r" "fwd_step (RemoveCall p) r = Some (x, r')"
  shows "pending_ok r' \<and> promise (RemoveCall p) x (registry_abs r) (registry_abs r')"
proof (cases "remove_error p")
  case (Some e)
  with assms(2,3) show ?thesis by (auto simp: forward_remove_wanted registry_abs_def promise.remove_refused)
next
  case None
  show ?thesis
  proof (cases "map_of (fr_byID r) (wanted_id p r)")
    case missing: None
    with None assms(2,3) none_selected [OF assms(1) None] show ?thesis
      by (auto simp: forward_remove_wanted registry_abs_def intro!: promise.remove_missing)
  next
    case (Some e)
    note t = entry_registered(7) [OF assms(1) Some]
    from Some None assms(3) have "x = Some (Inr 1)" "r' = removeLocked e r" by (auto simp: forward_remove_wanted)
    then show ?thesis
      using pending_remove [OF assms(1,2) t] selected [OF assms(1) None Some] forwards_of_lookup [OF assms(1) Some]
      by (auto simp: registry_abs_def forwards_of_remove [OF assms(1) t] intro!: promise.removes [OF None] simp del: One_nat_def)
  qed
qed

lemma card_forwards:
  assumes "fwd_ok r"
  shows "card (dom (forwards_of r)) = length (fr_byID r)"
proof -
  have t: "table_ok (id_of (skels r)) (key_of (skels r)) (fr_byID r) (fr_byLocal r)" using assms by (simp add: fwd_ok_def)
  have "dom (forwards_of r) = entry_key r ` set (map snd (fr_byID r))"
    using forwards_of_Some [OF assms] by (fastforce simp: in_table_def dom_def)
  moreover have "inj_on (entry_key r) (set (map snd (fr_byID r)))"
    using forward_keys_inj [OF assms] by (auto intro!: inj_onI simp: in_table_def)
  ultimately show ?thesis using registered_list [OF t] by (simp add: card_image distinct_card del: set_map)
qed

lemma remove_all_promise:
  assumes "fwd_ok r" "pending_ok r" "fwd_step RemoveAllCall r = Some (x, r')"
  shows "pending_ok r' \<and> promise RemoveAllCall x (registry_abs r) (registry_abs r')"
proof -
  obtain r1 where r1: "forward_removeAll r = (length (fr_byID r), r1)" "fr_byID r1 = []" "fr_byLocal r1 = []" "fr_creates r1 = fr_creates r"
    using removeAll_effect [OF assms(1)] by blast
  with assms(3) have "x = Some (Inr (card (dom (forwards_of r))))" "r' = r1" by (auto simp: card_forwards [OF assms(1)])
  moreover have "forwards_of r1 = Map.empty" using r1 by (simp add: forwards_of_def fun_eq_iff)
  ultimately show ?thesis
    using removeAll_pending [OF assms(1,2) r1(1)] r1(4) by (simp add: registry_abs_def promise.remove_all)
qed

section \<open>Connections\<close>

lemma progressI:
  assumes "live_state (f_State f)"
  shows "progress f f" "progress f (f\<lparr>f_ActiveConnections := n\<rparr>)" "live_state s \<Longrightarrow> progress f (f\<lparr>f_State := s, f_LastError := m\<rparr>)"
proof -
  have I: "live_state t \<Longrightarrow> f' = f\<lparr>f_State := t, f_ActiveConnections := i, f_LastError := e\<rparr> \<Longrightarrow> progress f f'" for f' t i e
    unfolding progress_def by blast
  show "progress f f" by (rule I [OF assms, where i = "f_ActiveConnections f" and e = "f_LastError f"]) simp
  show "progress f (f\<lparr>f_ActiveConnections := n\<rparr>)" by (rule I [OF assms, where i = n and e = "f_LastError f"]) simp
  show "live_state s \<Longrightarrow> progress f (f\<lparr>f_State := s, f_LastError := m\<rparr>)"
    by (rule I [where t = s and i = "f_ActiveConnections f" and e = m]) simp_all
qed

text \<open>A step of a connection touches no forward but its own, which was registered once.\<close>

lemma conn_promise:
  assumes "fwd_ok r" "pending_ok r" "e < length (fr_entries r)" "fe_started (fr_entries r ! e)"
    and "fr_byID r' = fr_byID r" "fr_byLocal r' = fr_byLocal r" "fr_creates r' = fr_creates r"
    and at: "\<And>x. forward_at r' x = (if x = e then f' else forward_at r x)"
    and "live_state (f_State (forward_at r e)) \<Longrightarrow> progress (forward_at r e) f'"
    and quiet: "promise ev None (registry_abs r) (registry_abs r)"
    and active: "\<And>T C k f f'. T k = Some f \<Longrightarrow> progress f f' \<Longrightarrow> promise ev None (T, C) (T(k \<mapsto> f'), C)"
  shows "pending_ok r' \<and> promise ev None (registry_abs r) (registry_abs r')"
proof
  have "y \<noteq> e" if "InsertFor p y \<in> set (fr_creates r)" for p y using pending_idle(3) [OF assms(1) that] assms(4) by auto
  then show "pending_ok r'" by (intro pending_keep [OF assms(2)]) (auto simp: assms(7) at)
  note upd = forwards_of_update [OF assms(1,3,5,6) at]
  show "promise ev None (registry_abs r) (registry_abs r')"
  proof (cases "in_table (fr_byID r) e")
    case True
    then obtain i where "map_of (fr_byID r) i = Some e"
      using assms(1) by (auto simp: fwd_ok_def table_ok_def in_table_def)
    from entry_registered(6) [OF assms(1) this] forwards_of_lookup [OF assms(1) this] True assms(7,9) show ?thesis
      by (auto simp: registry_abs_def upd intro!: active)
  next
    case False
    with quiet show ?thesis by (simp add: registry_abs_def upd assms(7))
  qed
qed

lemma conn_quiet:
  assumes "pending_ok r" "fr_byID r' = fr_byID r" "fr_byLocal r' = fr_byLocal r" "fr_creates r' = fr_creates r"
    and "\<And>x. forward_at r' x = forward_at r x"
  shows "pending_ok r' \<and> registry_abs r' = registry_abs r"
  using assms forwards_of_same [of r' r] by (simp add: pending_ok_def registry_abs_def)

lemma accept_promise:
  assumes "pending_ok r"
  shows "fwd_step (Accept e) r = Some (x, r') \<Longrightarrow> pending_ok r' \<and> promise (Accept e) x (registry_abs r) (registry_abs r')"
    and "fwd_step (AcceptFails e) r = Some (x, r') \<Longrightarrow> pending_ok r' \<and> promise (AcceptFails e) x (registry_abs r) (registry_abs r')"
proof -
  have "pending_ok (accept_conn e r) \<and> registry_abs (accept_conn e r) = registry_abs r"
    by (rule conn_quiet [OF assms]) (auto simp: accept_conn_def nth_upd)
  then show "fwd_step (Accept e) r = Some (x, r') \<Longrightarrow> pending_ok r' \<and> promise (Accept e) x (registry_abs r) (registry_abs r')"
    by (auto simp: registry_abs_def promise.accept split: if_splits)
  have "pending_ok (accept_fails e r) \<and> registry_abs (accept_fails e r) = registry_abs r"
    by (rule conn_quiet [OF assms]) (auto simp: accept_fails_def nth_upd)
  then show "fwd_step (AcceptFails e) r = Some (x, r') \<Longrightarrow> pending_ok r' \<and> promise (AcceptFails e) x (registry_abs r) (registry_abs r')"
    by (auto simp: registry_abs_def promise.accept_ends split: if_splits)
qed

lemma add_promise:
  assumes "fwd_ok r" "pending_ok r" "fwd_step (AddActive e) r = Some (x, r')"
  shows "pending_ok r' \<and> promise (AddActive e) x (registry_abs r) (registry_abs r')"
proof -
  from assms(3) obtain c where c: "e < length (fr_entries r)" "fe_accepted (fr_entries r ! e) = Some c" "x = None" "r' = accept_add e c r"
    by (auto split: if_splits option.splits)
  have ok: "conns_ok (eview r) (cview r) (sview r)" using assms(1) by (simp add: fwd_ok_def)
  have "c < length (cview r)" "cview r ! c = (e, Accepted)" using conns_at(4) [OF ok, of e c] c(1,2) by (auto simp: view_nth)
  with conns_conn(2) [OF ok, of c] c(1) have st: "fe_started (fr_entries r ! e)" by (simp add: view_nth)
  show ?thesis
    unfolding c(3,4)
    by (rule conn_promise [OF assms(1,2) c(1) st])
      (use c(1) in \<open>auto simp: accept_add_def addActive_def Let_def nth_upd registry_abs_def intro: progressI promise.add_removed promise.add_active\<close>)
qed

lemma bridge_promise:
  assumes "fwd_ok r" "pending_ok r" "fwd_step (Bridge c res) r = Some (x, r')"
  shows "pending_ok r' \<and> promise (Bridge c res) x (registry_abs r) (registry_abs r')"
proof -
  let ?e = "cn_entry (fr_conns r ! c)"
  from assms(3) have c: "c < length (fr_conns r)" "x = None" "r' = bridge_step c res r" by (auto split: if_splits)
  have ok: "conns_ok (eview r) (cview r) (sview r)" using assms(1) by (simp add: fwd_ok_def)
  have e: "?e < length (fr_entries r)" using conns_conn(1) [OF ok, of c] c(1) by (simp add: view_nth)
  then have st: "fe_started (fr_entries r ! ?e)" using conns_conn(2) [OF ok, of c] c(1) by (simp add: view_nth)
  note defs = bridge_step_def Let_def recordForwardError_def recordForwardSuccess_def setClient_def setStream_def set_forward_def removeActive_def
  note rule = conn_promise [OF assms(1,2) e st, where ev = "Bridge c res"]
  show ?thesis
    unfolding c(2,3)
    by (rule rule [where f' = "forward_at (bridge_step c res r) ?e"])
      (use e in \<open>auto simp: defs nth_upd registry_abs_def live_state_def intro!: progressI promise.bridge_quiet promise.bridge split: conn_stage.split option.split\<close>)
qed

section \<open>Refinement\<close>

lemma fwd_step_promise:
  assumes "fwd_step ev r = Some (x, r')" "fwd_ok r" "pending_ok r" "length (fr_entries r) < 2 ^ 64"
  shows "pending_ok r' \<and> promise ev x (registry_abs r) (registry_abs r')"
proof (cases ev)
  case (CreateCall p)
  from assms(1) show ?thesis unfolding CreateCall by (rule create_call_promise [OF assms(2,3)])
next
  case (CreateListen i res)
  from assms(1) show ?thesis unfolding CreateListen by (rule create_listen_promise [OF assms(2,3)])
next
  case (CreateEntry i now)
  from assms(1) show ?thesis unfolding CreateEntry by (rule create_entry_promise [OF assms(2,3)])
next
  case (CreateInsert i)
  from assms(1) show ?thesis unfolding CreateInsert by (rule create_insert_promise [OF assms(2-4)])
next
  case (RemoveCall p)
  from assms(1) show ?thesis unfolding RemoveCall by (rule remove_promise [OF assms(2,3)])
next
  case RemoveAllCall
  from assms(1) show ?thesis unfolding RemoveAllCall by (rule remove_all_promise [OF assms(2,3)])
next
  case (Accept e)
  from assms(1) show ?thesis unfolding Accept by (rule accept_promise(1) [OF assms(3)])
next
  case (AcceptFails e)
  from assms(1) show ?thesis unfolding AcceptFails by (rule accept_promise(2) [OF assms(3)])
next
  case (AddActive e)
  from assms(1) show ?thesis unfolding AddActive by (rule add_promise [OF assms(2,3)])
next
  case (Bridge c res)
  from assms(1) show ?thesis unfolding Bridge by (rule bridge_promise [OF assms(2,3)])
qed

lemma run_grows: "run fwd_step es r = Some (xs, r') \<Longrightarrow> length (fr_entries r) \<le> length (fr_entries r')"
  by (induction es arbitrary: r xs)
    (auto simp: run_Cons_Some simp del: run.simps(2) dest!: fwd_step_grows intro: order_trans)

lemma run_promised:
  assumes "run fwd_step es r = Some (xs, r')" "fwd_ok r" "pending_ok r" "length (fr_entries r') < 2 ^ 64"
  shows "promised es xs (registry_abs r) (registry_abs r')"
  using assms
proof (induction es arbitrary: r xs)
  case Nil
  then show ?case by (simp add: promised.nothing)
next
  case (Cons ev es)
  then obtain x ys r1 where st: "fwd_step ev r = Some (x, r1)" "run fwd_step es r1 = Some (ys, r')" "xs = x # ys"
    by (auto simp: run_Cons_Some simp del: run.simps)
  have len: "length (fr_entries r) < 2 ^ 64"
    using run_grows [OF Cons.prems(1)] Cons.prems(4) by simp
  from fwd_step_promise [OF st(1) Cons.prems(2,3) len] fwd_step_ok [OF st(1) Cons.prems(2) len] Cons.IH [OF st(2)] Cons.prems(4)
  show ?case by (auto simp: st(3) intro: promised.event)
qed

text \<open>C5: Over every interleaving of calls, accept loops and bridges, as long as fewer than \<open>2 ^ 64\<close> forwards were
  created, the registry implements a map from local endpoints to forwards: each event answers and changes the map as
  the promise says. A \<open>create\<close> refuses or clears its endpoint and later adds, under a free endpoint and with a fresh
  ID, the forward it was asked for; \<open>remove\<close> takes out the selected forward and nothing else or answers that there is
  none; \<open>removeAll\<close> empties the map and returns its size; connections change only the state, the counter and the last
  error of one registered forward. The map is kept under the endpoints its forwards show and no ID occurs twice.\<close>

theorem forward_registry_refines_map:
  assumes "run fwd_step es newForwardRegistry = Some (xs, r)" "length (fr_entries r) < 2 ^ 64"
  shows "promised es xs (Map.empty, []) (registry_abs r) \<and> map_ok (forwards_of r)"
proof -
  have "fwd_ok newForwardRegistry" using fwd_inv_new by (simp add: fwd_inv_def newForwardRegistry_def)
  moreover have "pending_ok newForwardRegistry" by (simp add: pending_ok_def newForwardRegistry_def)
  moreover have "registry_abs newForwardRegistry = (Map.empty, [])"
    by (simp add: registry_abs_def forwards_of_def newForwardRegistry_def fun_eq_iff)
  ultimately have "promised es xs (Map.empty, []) (registry_abs r)" using run_promised [OF assms(1) _ _ assms(2)] by simp
  with promised_map_ok [OF this] show ?thesis by (simp add: map_ok_def registry_abs_def)
qed

theorem forward_registry_refines_map_witness:
  "\<exists>xs r. run fwd_step sample_created newForwardRegistry = Some (xs, r) \<and>
     promised sample_created xs (Map.empty, []) (registry_abs r) \<and> forwards_of r ''tcp:127.0.0.1:9000'' \<noteq> None"
proof -
  obtain xs r where r: "run fwd_step sample_created newForwardRegistry = Some (xs, r)" "length (fr_entries r) = 1"
    "fr_byID r = [(counted_id ''fwd_'' 1, 0)]" "fr_byLocal r = [(''tcp:127.0.0.1:9000'', counted_id ''fwd_'' 1)]"
    using sample_created_run by (elim exE conjE)
  have "forwards_of r ''tcp:127.0.0.1:9000'' \<noteq> None" by (simp add: forwards_of_def r(3,4))
  moreover have "promised sample_created xs (Map.empty, []) (registry_abs r)"
    using forward_registry_refines_map [OF r(1)] r(2) by simp
  ultimately show ?thesis using r(1) by blast
qed

end
