(* ===== verification/DeviceList.thy ===== *)
theory DeviceList
  imports ServerTypes "HOL-Library.Multiset"
begin

text \<open>
  The device registry of \<open>internal/server/device.go\<close>: whatever was registered and in whatever order the Go map is iterated, the
  listing has one device for each serial, the one registered last, in the order of the serials.
\<close>

abbreviation serial_less :: "Device \<Rightarrow> Device \<Rightarrow> bool" where
  "serial_less a b \<equiv> str_less (dev_Serial a) (dev_Serial b)"

lemma insert_device_mset: "mset (insert_device d xs) = add_mset d (mset xs)"
  by (induction xs) auto

lemma insert_device_set [simp]: "set (insert_device d xs) = insert d (set xs)"
  by (induction xs) auto

lemma insert_device_sorted:
  assumes "sorted_wrt serial_less xs" "dev_Serial d \<notin> dev_Serial ` set xs"
  shows "sorted_wrt serial_less (insert_device d xs)"
  using assms
proof (induction xs)
  case (Cons x xs)
  then show ?case using str_less_total [of "dev_Serial d" "dev_Serial x"] by (auto dest: str_less_trans)
qed simp

lemma device_list_mset: "mset (device_list r) = mset (map snd r)"
  by (induction r) (simp_all add: device_list_def insert_device_mset)

lemma device_list_set: "set (device_list r) = snd ` set r"
  using arg_cong [OF device_list_mset [of r], of set_mset] by simp

text \<open>Every entry is kept under the serial of its device.\<close>

definition devices_ok :: "deviceRegistry \<Rightarrow> bool" where
  "devices_ok r \<longleftrightarrow> distinct (map fst r) \<and> (\<forall>(s, d) \<in> set r. dev_Serial d = s)"

lemma devices_ok_fst: "devices_ok r \<Longrightarrow> map (dev_Serial \<circ> snd) r = map fst r"
  by (auto simp: devices_ok_def)

lemma device_list_sorted:
  assumes "devices_ok r"
  shows "sorted_wrt serial_less (device_list r)"
  using assms
proof (induction r)
  case (Cons x r)
  have "devices_ok r" using Cons.prems by (simp add: devices_ok_def)
  moreover have "dev_Serial (snd x) \<notin> dev_Serial ` snd ` set r"
  proof
    assume "dev_Serial (snd x) \<in> dev_Serial ` snd ` set r"
    then obtain y where y: "y \<in> set r" "dev_Serial (snd x) = dev_Serial (snd y)" by auto
    with Cons.prems have "fst x = fst y" by (auto simp: devices_ok_def)
    with Cons.prems y(1) show False by (auto simp: devices_ok_def)
  qed
  ultimately show ?case using Cons.IH insert_device_sorted [of "device_list r" "snd x"]
    by (simp add: device_list_def device_list_set [unfolded device_list_def])
qed (simp add: device_list_def)

lemma serial_sorted_unique:
  assumes "sorted_wrt serial_less xs" "sorted_wrt serial_less ys" "set xs = set ys"
  shows "xs = ys"
  using assms
proof (induction xs arbitrary: ys)
  case (Cons x xs)
  then obtain y zs where ys: "ys = y # zs" by (cases ys) auto
  have "x = y"
  proof (rule ccontr)
    assume "x \<noteq> y"
    with Cons.prems ys have "x \<in> set zs" "y \<in> set xs" by auto
    with Cons.prems ys have "serial_less y x" "serial_less x y" by auto
    then show False using str_less_trans str_less_irrefl by blast
  qed
  moreover have "set xs = set zs"
  proof -
    have "x \<notin> set xs" "y \<notin> set zs" using Cons.prems(1,2) ys by auto
    with Cons.prems(3) ys \<open>x = y\<close> show ?thesis by auto
  qed
  ultimately show ?case using Cons.IH [of zs] Cons.prems(1,2) ys by simp
qed simp

lemma device_list_order:
  assumes "devices_ok r" "mset r' = mset r"
  shows "device_list r' = device_list r"
proof -
  have set: "set r' = set r" by (rule mset_eq_setD [OF assms(2)])
  have "mset (map fst r') = mset (map fst r)" using assms(2) by (simp only: mset_map)
  then have "distinct (map fst r') = distinct (map fst r)" by (rule mset_eq_imp_distinct_iff)
  then have "devices_ok r'" using assms(1) by (simp add: devices_ok_def set)
  then show ?thesis
    using serial_sorted_unique device_list_sorted assms(1) by (simp add: device_list_set set)
qed

section \<open>What was registered\<close>

definition register_all :: "DeviceRegisterParams list \<Rightarrow> deviceRegistry \<Rightarrow> deviceRegistry" where
  "register_all ps r = fold (\<lambda>p r. snd (device_register p r)) ps r"

text \<open>The device that was registered last under a serial.\<close>

fun last_registered :: "DeviceRegisterParams list \<Rightarrow> string \<Rightarrow> Device option" where
  "last_registered [] s = None"
| "last_registered (p # ps) s =
     (case last_registered ps s of
        Some d \<Rightarrow> Some d
      | None \<Rightarrow> (case validateDeviceRegisterParams p of Inl _ \<Rightarrow> None | Inr d \<Rightarrow> if dev_Serial d = s then Some d else None))"

lemma update_mem: "x \<in> set (AList.update k v al) \<Longrightarrow> x = (k, v) \<or> x \<in> set al"
  by (induction al) (auto split: if_splits)

lemma register_ok: "devices_ok r \<Longrightarrow> devices_ok (snd (device_register p r))"
  by (auto simp: devices_ok_def device_register_def split: sum.split intro: distinct_update dest!: update_mem)

lemma register_all_ok: "devices_ok r \<Longrightarrow> devices_ok (register_all ps r)"
  by (induction ps arbitrary: r) (simp_all add: register_all_def register_ok)

lemma register_all_lookup:
  "map_of (register_all ps r) s = (case last_registered ps s of Some d \<Rightarrow> Some d | None \<Rightarrow> map_of r s)"
proof (induction ps arbitrary: r)
  case (Cons p ps)
  then show ?case
    by (simp add: register_all_def device_register_def update_conv' split: option.split sum.split)
qed (simp add: register_all_def)

lemma last_registered_serial: "last_registered ps s = Some d \<Longrightarrow> dev_Serial d = s"
  by (induction ps) (auto split: option.splits sum.splits if_splits)

text \<open>Whatever was registered, and in whatever order \<open>list\<close> meets the entries of the map, it returns the devices in the strict order of their
  serials, and these are exactly the devices registered last under their serial.\<close>

theorem device_list_latest:
  assumes "mset r = mset (register_all ps newDeviceRegistry)"
  shows "sorted_wrt serial_less (device_list r) \<and> (\<forall>d. d \<in> set (device_list r) \<longleftrightarrow> last_registered ps (dev_Serial d) = Some d)"
proof -
  let ?r = "register_all ps newDeviceRegistry"
  have ok: "devices_ok ?r" by (rule register_all_ok) (simp add: devices_ok_def newDeviceRegistry_def)
  have mem: "d \<in> snd ` set ?r \<longleftrightarrow> map_of ?r (dev_Serial d) = Some d" for d
    using ok by (force simp: devices_ok_def dest: map_of_SomeD)
  have look: "map_of ?r (dev_Serial d) = last_registered ps (dev_Serial d)" for d
    by (simp add: register_all_lookup newDeviceRegistry_def split: option.split)
  have "d \<in> set (device_list ?r) \<longleftrightarrow> last_registered ps (dev_Serial d) = Some d" for d
    unfolding device_list_set mem look ..
  then show ?thesis using device_list_sorted [OF ok] unfolding device_list_order [OF ok assms] by blast
qed

end
