(* ===== verification/ServerReverse.thy ===== *)
theory ServerReverse
  imports ServerTable ClientForward
begin

text \<open>
  The reverse registry of the server, \<open>internal/server/reverse_registry.go\<close>, over the reverse
  sessions of the client. The registry calls \<open>session.Close\<close> while it holds its lock, and
  \<open>Close\<close> waits for the bridges of the session, whose callbacks take the same lock; so the lock is part of
  the state: it is free, or held by a call that is closing a session. A callback that a bridge has started and
  that waits for the lock is a pending call; the bridge goes on when it has run. Sessions step as
  in \<open>ClientForward\<close>; the answers of a device, also after its client was closed, are scripted in the session's client.
\<close>

section \<open>State\<close>

record reverseEntry =
  re_reverse :: Reverse
  re_client :: bool \<comment> \<open>the client is open\<close>
  re_session :: "reverse option"

datatype rev_creating =
    RevConnecting ReverseCreateParams
  | RevConnected ReverseCreateParams ReverseDeviceEndpoint ReverseHostEndpoint
  | RevRegistering ReverseCreateParams ReverseDeviceEndpoint ReverseHostEndpoint nat
  | RevInserting ReverseCreateParams nat
  | RevCreateDone "error_code + Reverse"

text \<open>What the holder of the lock does when the session is closed: return a number, go on connecting, insert the new
  entry, or reject it.\<close>

datatype rev_after = ThenReturn nat | ThenConnect ReverseCreateParams | ThenInsert nat nat | ThenReject nat nat

record rev_holder =
  rh_current :: nat
  rh_waiting :: bool \<comment> \<open>inside \<open>session.Close\<close>, after the session was marked closed\<close>
  rh_rest :: "nat list"
  rh_after :: rev_after

datatype rev_callback = OnActiveConnections nat | OnBridgeError

record reverseRegistry =
  rg_nextID :: u64
  rg_byID :: "(string \<times> nat) list"
  rg_byRemote :: "(string \<times> string) list"
  rg_entries :: "reverseEntry list"
  rg_creates :: "rev_creating list"
  rg_lock :: "rev_holder option"
  rg_calls :: "(nat \<times> nat \<times> rev_callback) list" \<comment> \<open>entry, bridge and callback that wait for the lock\<close>
  rg_panicked :: bool

definition newReverseRegistry :: reverseRegistry where
  "newReverseRegistry = \<lparr>rg_nextID = 0, rg_byID = [], rg_byRemote = [], rg_entries = [], rg_creates = [], rg_lock = None,
     rg_calls = [], rg_panicked = False\<rparr>"

abbreviation rev_id :: "reverseRegistry \<Rightarrow> nat \<Rightarrow> string" where
  "rev_id r e \<equiv> r_ID (re_reverse (rg_entries r ! e))"

abbreviation rev_key :: "reverseRegistry \<Rightarrow> nat \<Rightarrow> string" where
  "rev_key r e \<equiv> reverse_key (r_Remote (re_reverse (rg_entries r ! e)))"

definition set_rentry :: "nat \<Rightarrow> (reverseEntry \<Rightarrow> reverseEntry) \<Rightarrow> reverseRegistry \<Rightarrow> reverseRegistry" where
  "set_rentry e h r = r\<lparr>rg_entries := (rg_entries r)[e := h (rg_entries r ! e)]\<rparr>"

definition set_reverse :: "nat \<Rightarrow> (Reverse \<Rightarrow> Reverse) \<Rightarrow> reverseRegistry \<Rightarrow> reverseRegistry" where
  "set_reverse e h = set_rentry e (\<lambda>x. x\<lparr>re_reverse := h (re_reverse x)\<rparr>)"

definition set_session :: "nat \<Rightarrow> (reverse \<Rightarrow> reverse) \<Rightarrow> reverseRegistry \<Rightarrow> reverseRegistry" where
  "set_session e h = set_rentry e (\<lambda>x. x\<lparr>re_session := map_option h (re_session x)\<rparr>)"

definition client_close :: "nat \<Rightarrow> reverseRegistry \<Rightarrow> reverseRegistry" where
  "client_close e = set_rentry e (\<lambda>x. x\<lparr>re_client := False\<rparr>)"

definition set_rcreate :: "nat \<Rightarrow> rev_creating \<Rightarrow> reverseRegistry \<Rightarrow> reverseRegistry" where
  "set_rcreate i c r = r\<lparr>rg_creates := (rg_creates r)[i := c]\<rparr>"

definition session_of :: "reverseRegistry \<Rightarrow> nat \<Rightarrow> reverse" where
  "session_of r e = the (re_session (rg_entries r ! e))"

section \<open>Operations\<close>

text \<open>The start of \<open>removeLocked\<close>, up to the call of \<open>session.Close\<close>; cancelling the context makes the session's
  own goroutine call \<open>Close\<close> too.\<close>

definition rev_removeLocked :: "nat \<Rightarrow> reverseRegistry \<Rightarrow> reverseRegistry" where
  "rev_removeLocked e r =
     set_session e (\<lambda>s. s\<lparr>rv_cancelled := True\<rparr>)
       (set_reverse e (\<lambda>v. v\<lparr>r_State := ReverseStateStopped\<rparr>)
         (r\<lparr>rg_byID := AList.delete (rev_id r e) (rg_byID r), rg_byRemote := AList.delete (rev_key r e) (rg_byRemote r)\<rparr>))"

text \<open>The end of \<open>removeLocked\<close>, with the text of the error \<open>session.Close\<close> returned, if any.\<close>

definition rev_removeLocked_end :: "nat \<Rightarrow> string option \<Rightarrow> reverseRegistry \<Rightarrow> reverseRegistry" where
  "rev_removeLocked_end e err r =
     client_close e
       (case err of
          None \<Rightarrow> r
        | Some text \<Rightarrow> set_reverse e (\<lambda>v. v\<lparr>r_State := ReverseStateDegraded, r_LastError := ''cleanup failed: '' @ text\<rparr>) r)"

definition hold :: "nat \<Rightarrow> nat list \<Rightarrow> rev_after \<Rightarrow> reverseRegistry \<Rightarrow> reverseRegistry" where
  "hold e rest next r = r\<lparr>rg_lock := Some \<lparr>rh_current = e, rh_waiting = False, rh_rest = rest, rh_after = next\<rparr>\<rparr>"

definition start_removal :: "nat \<Rightarrow> nat list \<Rightarrow> rev_after \<Rightarrow> reverseRegistry \<Rightarrow> reverseRegistry" where
  "start_removal e rest next r = hold e rest next (rev_removeLocked e r)"

definition rev_insert :: "nat \<Rightarrow> nat \<Rightarrow> reverseRegistry \<Rightarrow> reverseRegistry" where
  "rev_insert i e r =
     set_rcreate i (RevCreateDone (Inr (re_reverse (rg_entries r ! e))))
       (r\<lparr>rg_byID := AList.update (rev_id r e) e (rg_byID r), rg_byRemote := AList.update (rev_key r e) (rev_id r e) (rg_byRemote r)\<rparr>)"

text \<open>\<open>create\<close> up to the connection, from the check of the table on.\<close>

definition rev_create_start :: "ReverseCreateParams \<Rightarrow> reverseRegistry \<Rightarrow> reverseRegistry" where
  "rev_create_start params r =
     (case validateReverseCreateParams params of
        Some e \<Rightarrow> r\<lparr>rg_creates := rg_creates r @ [RevCreateDone (Inl e)]\<rparr>
      | None \<Rightarrow>
          (case map_of (rg_byRemote r) (reverse_key (rc_Remote params)) of
             None \<Rightarrow> r\<lparr>rg_creates := rg_creates r @ [RevConnecting params]\<rparr>
           | Some existingID \<Rightarrow>
               if rc_Norebind params then r\<lparr>rg_creates := rg_creates r @ [RevCreateDone (Inl ErrorRebindDisallowed)]\<rparr>
               else case map_of (rg_byID r) existingID of
                   None \<Rightarrow> r\<lparr>rg_panicked := True\<rparr>
                 | Some existing \<Rightarrow> start_removal existing [] (ThenConnect params) r))"

text \<open>\<open>ok\<close> says whether \<open>ConnectTCP\<close> succeeds; then the endpoints are parsed.\<close>

definition rev_create_connect :: "ReverseCreateParams \<Rightarrow> bool \<Rightarrow> rev_creating" where
  "rev_create_connect params ok =
     (if \<not> ok then RevCreateDone (Inl ErrorRegistrationFailed)
      else case ParseReverseDeviceEndpoint (rr_Service (rc_Remote params)) of
          Inl _ \<Rightarrow> RevCreateDone (Inl ErrorUnsupportedEndpoint)
        | Inr remote \<Rightarrow>
            (case ParseReverseHostEndpoint (rl_Service (rc_Local params)) of
               Inl _ \<Rightarrow> RevCreateDone (Inl ErrorUnsupportedEndpoint)
             | Inr local \<Rightarrow> RevConnected params remote local))"

definition nextReverseID :: "reverseRegistry \<Rightarrow> string \<times> reverseRegistry" where
  "nextReverseID r = (let n = rg_nextID r + 1 in (counted_id ''rev_'' n, r\<lparr>rg_nextID := n\<rparr>))"

definition rev_create_entry :: "ReverseCreateParams \<Rightarrow> string \<Rightarrow> reverseRegistry \<Rightarrow> nat \<times> reverseRegistry" where
  "rev_create_entry params now r0 =
     (case nextReverseID r0 of (ident, r) \<Rightarrow>
        (length (rg_entries r),
         r\<lparr>rg_entries := rg_entries r @
             [\<lparr>re_reverse = \<lparr>r_ID = ident, r_State = ReverseStateListening, r_Remote = rc_Remote params, r_Local = rc_Local params,
                r_Target = rc_Target params, r_Norebind = rc_Norebind params, r_CreatedAt = now,
                r_ActiveConnections = 0, r_LastError = []\<rparr>, re_client = True, re_session = None\<rparr>]\<rparr>))"

text \<open>\<open>c\<close> is the connected client with the device's answers, \<open>handle\<close> the error of \<open>HandleOpen\<close>.\<close>

definition rev_create_register ::
  "nat \<Rightarrow> ReverseCreateParams \<Rightarrow> ReverseDeviceEndpoint \<Rightarrow> ReverseHostEndpoint \<Rightarrow> nat \<Rightarrow> client \<Rightarrow> io_error option \<Rightarrow>
     reverseRegistry \<Rightarrow> reverseRegistry" where
  "rev_create_register i params remote local e c handle r =
     (case ReverseTCPWithOptions c None handle remote local (rc_Norebind params) True of
        (Inl _, _) \<Rightarrow> set_rcreate i (RevCreateDone (Inl ErrorRegistrationFailed)) (client_close e r)
      | (Inr session, _) \<Rightarrow>
          set_rcreate i (RevInserting params e) (set_rentry e (\<lambda>x. x\<lparr>re_session := Some session\<rparr>) r))"

definition rev_create_insert :: "nat \<Rightarrow> ReverseCreateParams \<Rightarrow> nat \<Rightarrow> reverseRegistry \<Rightarrow> reverseRegistry" where
  "rev_create_insert i params e r =
     (case map_of (rg_byRemote r) (reverse_key (rc_Remote params)) of
        None \<Rightarrow> rev_insert i e r
      | Some existingID \<Rightarrow>
          if rc_Norebind params then hold e [] (ThenReject i e) r
          else case map_of (rg_byID r) existingID of
              None \<Rightarrow> r\<lparr>rg_panicked := True\<rparr>
            | Some existing \<Rightarrow> start_removal existing [] (ThenInsert i e) r)"

definition reverse_list :: "reverseRegistry \<Rightarrow> Reverse list" where
  "reverse_list r = map (\<lambda>(_, e). re_reverse (rg_entries r ! e)) (rg_byID r)"

definition rev_diagnose :: "Reverse \<Rightarrow> ReverseDiagnostics \<Rightarrow> ReverseDiagnostics" where
  "rev_diagnose v d =
     (let d = (if r_State v = ReverseStateListening then d\<lparr>rd_Listening := rd_Listening d + 1\<rparr>
               else if r_State v = ReverseStateDegraded then d\<lparr>rd_Degraded := rd_Degraded d + 1\<rparr> else d) in
      d\<lparr>rd_ActiveConnections := rd_ActiveConnections d + r_ActiveConnections v\<rparr>)"

definition reverse_diagnostics :: "reverseRegistry \<Rightarrow> ReverseDiagnostics" where
  "reverse_diagnostics r =
     fold rev_diagnose (reverse_list r)
       \<lparr>rd_Total = length (rg_byID r), rd_Listening = 0, rd_Degraded = 0, rd_ActiveConnections = 0\<rparr>"

definition reverse_remove :: "ReverseRemoveParams \<Rightarrow> reverseRegistry \<Rightarrow> error_code option \<times> reverseRegistry" where
  "reverse_remove params r =
     (if rm_ID params = [] \<and> rm_Remote params = None \<or> rm_ID params \<noteq> [] \<and> rm_Remote params \<noteq> None
      then (Some ErrorBadRequest, r)
      else case (case rm_Remote params of None \<Rightarrow> None | Some remote \<Rightarrow> validateReverseRemote remote) of
          Some e \<Rightarrow> (Some e, r)
        | None \<Rightarrow>
            (let ident = (if rm_ID params \<noteq> [] then rm_ID params
                 else case map_of (rg_byRemote r) (reverse_key (the (rm_Remote params))) of None \<Rightarrow> [] | Some i \<Rightarrow> i) in
             case map_of (rg_byID r) ident of
               None \<Rightarrow> (Some ErrorReverseNotFound, r)
             | Some e \<Rightarrow> (None, start_removal e [] (ThenReturn 1) r)))"

definition reverse_removeAll :: "reverseRegistry \<Rightarrow> reverseRegistry" where
  "reverse_removeAll r =
     (case map snd (rg_byID r) of [] \<Rightarrow> r | e # rest \<Rightarrow> start_removal e rest (ThenReturn (length (rg_byID r))) r)"

definition recordReverseActive :: "nat \<Rightarrow> nat \<Rightarrow> reverseRegistry \<Rightarrow> reverseRegistry" where
  "recordReverseActive e active r =
     (if map_of (rg_byID r) (rev_id r e) = None then r
      else set_reverse e (\<lambda>v0. let v = v0\<lparr>r_ActiveConnections := active\<rparr> in
        if r_State v = ReverseStateDegraded \<and> r_LastError v = [] then v\<lparr>r_State := ReverseStateListening\<rparr> else v) r)"

definition recordReverseError :: "nat \<Rightarrow> string \<Rightarrow> reverseRegistry \<Rightarrow> reverseRegistry" where
  "recordReverseError e message r =
     (if map_of (rg_byID r) (rev_id r e) = None then r
      else set_reverse e (\<lambda>v. v\<lparr>r_State := ReverseStateDegraded, r_LastError := message\<rparr>) r)"

definition run_callback :: "nat \<Rightarrow> rev_callback \<Rightarrow> string \<Rightarrow> reverseRegistry \<Rightarrow> reverseRegistry" where
  "run_callback e cb err r =
     (case cb of
        OnActiveConnections n \<Rightarrow> recordReverseActive e n r
      | OnBridgeError \<Rightarrow> recordReverseError e (''host dial failed: '' @ err) r)"

section \<open>The holder of the lock\<close>

text \<open>The session of the current entry has been closed: end its removal (or rejection), then go on with the next entry, or
  release the lock.\<close>

definition close_returned :: "rev_holder \<Rightarrow> string option \<Rightarrow> reverseRegistry \<Rightarrow> nat option \<times> reverseRegistry" where
  "close_returned h err r0 =
     (let e = rh_current h in
      case rh_after h of
        ThenReject i _ \<Rightarrow>
          (None, set_rcreate i (RevCreateDone (Inl ErrorRebindDisallowed))
             (set_session e (\<lambda>s. s\<lparr>rv_cancelled := True\<rparr>) (client_close e (r0\<lparr>rg_lock := None\<rparr>))))
      | _ \<Rightarrow>
          (let r = rev_removeLocked_end e err r0 in
           case rh_rest h of
             e' # rest \<Rightarrow> (None, start_removal e' rest (rh_after h) r)
           | [] \<Rightarrow>
               (case rh_after h of
                  ThenReturn n \<Rightarrow> (Some n, r\<lparr>rg_lock := None\<rparr>)
                | ThenConnect p \<Rightarrow> (None, r\<lparr>rg_lock := None, rg_creates := rg_creates r @ [RevConnecting p]\<rparr>)
                | ThenInsert i x \<Rightarrow> (None, rev_insert i x (r\<lparr>rg_lock := None\<rparr>))
                | ThenReject i x \<Rightarrow> (None, r))))"

text \<open>The holder calls \<open>session.Close\<close>: when the session's own goroutine was first it returns at once.\<close>

definition close_call :: "rev_holder \<Rightarrow> reverseRegistry \<Rightarrow> nat option \<times> reverseRegistry" where
  "close_call h r =
     (if rv_closed (session_of r (rh_current h)) then close_returned h None r
      else (None, set_session (rh_current h) rv_Close (r\<lparr>rg_lock := Some (h\<lparr>rh_waiting := True\<rparr>)\<rparr>)))"

section \<open>The machine\<close>

datatype rev_event =
    RevCreate ReverseCreateParams
  | RevConnect nat bool
  | RevEntry nat string
  | RevRegister nat client "io_error option"
  | RevInsert nat
  | RevRemove ReverseRemoveParams
  | RevRemoveAll
  | RevCloseCall
  | RevCloseReturn string \<comment> \<open>with the text of the error, if there is one\<close>
  | RevSession nat reverse_event
  | RevCallback nat string

definition new_calls :: "nat \<Rightarrow> reverse_event \<Rightarrow> reverse \<Rightarrow> reverse \<Rightarrow> (nat \<times> nat \<times> rev_callback) list" where
  "new_calls e ev s s' =
     (case ev of
        RvBridge i _ \<Rightarrow>
          map (\<lambda>n. (e, i, OnActiveConnections n)) (drop (length (rv_notes s)) (rv_notes s')) @
          replicate (rv_errors s' - rv_errors s) (e, i, OnBridgeError)
      | _ \<Rightarrow> [])"

text \<open>A bridge whose callback waits for the lock cannot go on, and \<open>Close\<close> cannot end; only the session's own
  goroutine calls \<open>Close\<close> as an event of its own, when its context is cancelled.\<close>

definition session_enabled :: "nat \<Rightarrow> reverse_event \<Rightarrow> reverseRegistry \<Rightarrow> bool" where
  "session_enabled e ev r \<longleftrightarrow> e < length (rg_entries r) \<and> re_session (rg_entries r ! e) \<noteq> None \<and>
     (case ev of
        RvBridge i _ \<Rightarrow> \<not> list_ex (\<lambda>(x, j, _). x = e \<and> j = i) (rg_calls r)
      | RvCloseEnd \<Rightarrow> \<not> list_ex (\<lambda>(x, _). x = e) (rg_calls r)
      | RvCloseEv \<Rightarrow> rv_cancelled (session_of r e)
      | _ \<Rightarrow> True)"

fun rev_step :: "rev_event \<Rightarrow> reverseRegistry \<Rightarrow> ((error_code + nat) option \<times> reverseRegistry) option" where
  "rev_step (RevCreate p) r = (if rg_lock r = None then Some (None, rev_create_start p r) else None)"
| "rev_step (RevConnect i ok) r =
     (if i < length (rg_creates r) then
        case rg_creates r ! i of
          RevConnecting p \<Rightarrow> Some (None, set_rcreate i (rev_create_connect p ok) r)
        | _ \<Rightarrow> None
      else None)"
| "rev_step (RevEntry i now) r =
     (if i < length (rg_creates r) \<and> rg_lock r = None then
        case rg_creates r ! i of
          RevConnected p remote local \<Rightarrow>
            (case rev_create_entry p now r of (e, r) \<Rightarrow> Some (None, set_rcreate i (RevRegistering p remote local e) r))
        | _ \<Rightarrow> None
      else None)"
| "rev_step (RevRegister i c handle) r =
     (if i < length (rg_creates r) then
        case rg_creates r ! i of
          RevRegistering p remote local e \<Rightarrow> Some (None, rev_create_register i p remote local e c handle r)
        | _ \<Rightarrow> None
      else None)"
| "rev_step (RevInsert i) r =
     (if i < length (rg_creates r) \<and> rg_lock r = None then
        case rg_creates r ! i of
          RevInserting p e \<Rightarrow> Some (None, rev_create_insert i p e r)
        | _ \<Rightarrow> None
      else None)"
| "rev_step (RevRemove p) r =
     (if rg_lock r = None then case reverse_remove p r of (err, r) \<Rightarrow> Some (map_option Inl err, r) else None)"
| "rev_step RevRemoveAll r =
     (if rg_lock r = None then Some (if rg_byID r = [] then Some (Inr 0) else None, reverse_removeAll r) else None)"
| "rev_step RevCloseCall r =
     (case rg_lock r of
        None \<Rightarrow> None
      | Some h \<Rightarrow> if rh_waiting h then None else case close_call h r of (n, r) \<Rightarrow> Some (map_option Inr n, r))"
| "rev_step (RevCloseReturn text) r =
     (case rg_lock r of
        None \<Rightarrow> None
      | Some h \<Rightarrow>
          if rh_waiting h then
            case rv_done (session_of r (rh_current h)) of
              [] \<Rightarrow> None
            | err # _ \<Rightarrow> (case close_returned h (map_option (\<lambda>_. text) err) r of (n, r) \<Rightarrow> Some (map_option Inr n, r))
          else None)"
| "rev_step (RevSession e ev) r =
     (if session_enabled e ev r then
        case reverse_step ev (session_of r e) of
          None \<Rightarrow> None
        | Some (_, s) \<Rightarrow>
            Some (None, set_session e (\<lambda>_. s) (r\<lparr>rg_calls := rg_calls r @ new_calls e ev (session_of r e) s\<rparr>))
      else None)"
| "rev_step (RevCallback k err) r =
     (if k < length (rg_calls r) \<and> rg_lock r = None then
        case rg_calls r ! k of (e, _, cb) \<Rightarrow>
          Some (None, run_callback e cb err (r\<lparr>rg_calls := take k (rg_calls r) @ drop (Suc k) (rg_calls r)\<rparr>))
      else None)"

end
