(* ===== verification/ServerReverseProps.thy ===== *)
theory ServerReverseProps
  imports ServerReverse
begin

text \<open>
  The invariant of the reverse registry over every interleaving of calls, session goroutines and callbacks; and two
  behaviours that follow from the locking: a removal can block the registry for ever, and a degraded reverse
  never recovers.
\<close>

section \<open>The invariant\<close>

type_synonym rview = "string \<times> ReverseRemoteEndpoint \<times> string \<times> string \<times> bool"

definition entry_view :: "reverseEntry \<Rightarrow> rview" where
  "entry_view x = (r_ID (re_reverse x), r_Remote (re_reverse x), r_State (re_reverse x), r_LastError (re_reverse x), re_session x \<noteq> None)"

definition rviews :: "reverseRegistry \<Rightarrow> rview list" where
  "rviews r = map entry_view (rg_entries r)"

abbreviation v_id :: "rview list \<Rightarrow> nat \<Rightarrow> string" where "v_id V e \<equiv> fst (V ! e)"
abbreviation v_key :: "rview list \<Rightarrow> nat \<Rightarrow> string" where "v_key V e \<equiv> reverse_key (fst (snd (V ! e)))"

fun live_view :: "rview \<Rightarrow> bool" where
  "live_view (_, _, state, err, s) \<longleftrightarrow> s \<and> (state = ReverseStateListening \<or> state = ReverseStateDegraded \<and> err \<noteq> [])"

definition rev_reg_ok :: "rview list \<Rightarrow> (string \<times> nat) list \<Rightarrow> bool" where
  "rev_reg_ok V B \<longleftrightarrow> (\<forall>e. in_table B e \<longrightarrow> e < length V \<and> live_view (V ! e))"

definition fresh_view :: "rview \<Rightarrow> ReverseCreateParams \<Rightarrow> bool \<Rightarrow> bool" where
  "fresh_view v p s \<longleftrightarrow> snd v = (rc_Remote p, ReverseStateListening, [], s)"

definition rcreate_ok :: "rview list \<Rightarrow> (string \<times> nat) list \<Rightarrow> rev_creating \<Rightarrow> bool" where
  "rcreate_ok V B c =
     (case c of
        RevRegistering p _ _ e \<Rightarrow> e < length V \<and> \<not> in_table B e \<and> fresh_view (V ! e) p False
      | RevInserting p e \<Rightarrow> e < length V \<and> \<not> in_table B e \<and> fresh_view (V ! e) p True
      | _ \<Rightarrow> True)"

definition making :: "rev_creating \<Rightarrow> nat set" where
  "making c = (case c of RevRegistering _ _ _ e \<Rightarrow> {e} | RevInserting _ e \<Rightarrow> {e} | _ \<Rightarrow> {})"

definition rcreates_ok :: "rview list \<Rightarrow> (string \<times> nat) list \<Rightarrow> rev_creating list \<Rightarrow> bool" where
  "rcreates_ok V B C \<longleftrightarrow> (\<forall>i < length C. rcreate_ok V B (C ! i)) \<and>
     (\<forall>i < length C. \<forall>j < length C. i \<noteq> j \<longrightarrow> making (C ! i) \<inter> making (C ! j) = {})"

definition after_ok :: "(string \<times> string) list \<Rightarrow> rev_creating list \<Rightarrow> rev_holder \<Rightarrow> bool" where
  "after_ok K C h =
     (case rh_after h of
        ThenReturn n \<Rightarrow> \<forall>c \<in> set C. rh_current h \<notin> making c
      | ThenConnect p \<Rightarrow> rh_rest h = [] \<and> (\<forall>c \<in> set C. rh_current h \<notin> making c)
      | ThenInsert i x \<Rightarrow> rh_rest h = [] \<and> (\<forall>c \<in> set C. rh_current h \<notin> making c) \<and>
          i < length C \<and> (\<exists>p. C ! i = RevInserting p x \<and> map_of K (reverse_key (rc_Remote p)) = None)
      | ThenReject i x \<Rightarrow> rh_rest h = [] \<and> x = rh_current h \<and> i < length C \<and> (\<exists>p. C ! i = RevInserting p x))"

definition lock_ok :: "rview list \<Rightarrow> (string \<times> nat) list \<Rightarrow> (string \<times> string) list \<Rightarrow> rev_creating list \<Rightarrow> rev_holder option \<Rightarrow> bool" where
  "lock_ok V B K C lock =
     (case lock of
        None \<Rightarrow> True
      | Some h \<Rightarrow> rh_current h < length V \<and> \<not> in_table B (rh_current h) \<and> distinct (rh_rest h) \<and>
          (\<forall>x \<in> set (rh_rest h). in_table B x) \<and> after_ok K C h)"

definition rev_core :: "reverseRegistry \<Rightarrow> bool" where
  "rev_core r \<longleftrightarrow> numbered ''rev_'' (map fst (rviews r)) (rg_nextID r) \<and>
     table_ok (v_id (rviews r)) (v_key (rviews r)) (rg_byID r) (rg_byRemote r) \<and> rev_reg_ok (rviews r) (rg_byID r) \<and>
     rcreates_ok (rviews r) (rg_byID r) (rg_creates r) \<and> \<not> rg_panicked r"

definition rev_ok :: "reverseRegistry \<Rightarrow> bool" where
  "rev_ok r \<longleftrightarrow> rev_core r \<and> lock_ok (rviews r) (rg_byID r) (rg_byRemote r) (rg_creates r) (rg_lock r)"

definition rev_inv :: "reverseRegistry \<Rightarrow> bool" where
  "rev_inv r \<longleftrightarrow> (length (rg_entries r) < 2 ^ 64 \<longrightarrow> rev_ok r)"

section \<open>Views\<close>

lemma rviews_length [simp]: "length (rviews r) = length (rg_entries r)"
  by (simp add: rviews_def)

lemma rviews_nth: "e < length (rg_entries r) \<Longrightarrow> rviews r ! e = entry_view (rg_entries r ! e)"
  by (simp add: rviews_def)

lemma set_rentry_frame [simp]:
  "rg_nextID (set_rentry e h r) = rg_nextID r" "rg_byID (set_rentry e h r) = rg_byID r"
  "rg_byRemote (set_rentry e h r) = rg_byRemote r" "rg_creates (set_rentry e h r) = rg_creates r"
  "rg_lock (set_rentry e h r) = rg_lock r" "rg_calls (set_rentry e h r) = rg_calls r"
  "rg_panicked (set_rentry e h r) = rg_panicked r"
  "rg_entries (set_rentry e h r) = (rg_entries r)[e := h (rg_entries r ! e)]"
  by (simp_all add: set_rentry_def)

lemma set_rcreate_frame [simp]:
  "rg_nextID (set_rcreate i c r) = rg_nextID r" "rg_byID (set_rcreate i c r) = rg_byID r"
  "rg_byRemote (set_rcreate i c r) = rg_byRemote r" "rg_entries (set_rcreate i c r) = rg_entries r"
  "rg_lock (set_rcreate i c r) = rg_lock r" "rg_calls (set_rcreate i c r) = rg_calls r"
  "rg_panicked (set_rcreate i c r) = rg_panicked r" "rg_creates (set_rcreate i c r) = (rg_creates r)[i := c]"
  by (simp_all add: set_rcreate_def)

lemma hold_frame [simp]:
  "rg_nextID (hold e xs n r) = rg_nextID r" "rg_byID (hold e xs n r) = rg_byID r"
  "rg_byRemote (hold e xs n r) = rg_byRemote r" "rg_entries (hold e xs n r) = rg_entries r"
  "rg_creates (hold e xs n r) = rg_creates r" "rg_calls (hold e xs n r) = rg_calls r"
  "rg_panicked (hold e xs n r) = rg_panicked r"
  "rg_lock (hold e xs n r) = Some \<lparr>rh_current = e, rh_waiting = False, rh_rest = xs, rh_after = n\<rparr>"
  by (simp_all add: hold_def)

lemma rviews_cong: "rg_entries r' = rg_entries r \<Longrightarrow> rviews r' = rviews r"
  by (simp add: rviews_def)

lemma rviews_set: "rviews (set_rentry e h r) = (rviews r)[e := entry_view (h (rg_entries r ! e))]"
  by (simp add: rviews_def map_update)

lemma rviews_same: "(\<And>x. entry_view (h x) = entry_view x) \<Longrightarrow> rviews (set_rentry e h r) = rviews r"
  by (simp add: rviews_def map_update_same del: map_update)

lemma rviews_session [simp]: "rviews (set_session e h r) = rviews r"
  unfolding set_session_def by (rule rviews_same) (simp add: entry_view_def)

lemma rviews_client [simp]: "rviews (client_close e r) = rviews r"
  unfolding client_close_def by (rule rviews_same) (simp add: entry_view_def)

lemma session_frame [simp]:
  "rg_nextID (set_session e h r) = rg_nextID r" "rg_byID (set_session e h r) = rg_byID r"
  "rg_byRemote (set_session e h r) = rg_byRemote r" "rg_creates (set_session e h r) = rg_creates r"
  "rg_lock (set_session e h r) = rg_lock r" "rg_calls (set_session e h r) = rg_calls r"
  "rg_panicked (set_session e h r) = rg_panicked r" "length (rg_entries (set_session e h r)) = length (rg_entries r)"
  by (simp_all add: set_session_def)

lemma client_frame [simp]:
  "rg_nextID (client_close e r) = rg_nextID r" "rg_byID (client_close e r) = rg_byID r"
  "rg_byRemote (client_close e r) = rg_byRemote r" "rg_creates (client_close e r) = rg_creates r"
  "rg_lock (client_close e r) = rg_lock r" "rg_calls (client_close e r) = rg_calls r"
  "rg_panicked (client_close e r) = rg_panicked r" "length (rg_entries (client_close e r)) = length (rg_entries r)"
  by (simp_all add: client_close_def)

text \<open>A change of the state and error shown for one entry.\<close>

definition show_state :: "nat \<Rightarrow> string \<Rightarrow> string \<Rightarrow> rview list \<Rightarrow> rview list" where
  "show_state e st err V = V[e := (fst (V ! e), fst (snd (V ! e)), st, err, snd (snd (snd (snd (V ! e)))))]"

lemma show_state_simps [simp]:
  "length (show_state e st err V) = length V" "v_id (show_state e st err V) x = v_id V x"
  "fst (snd (show_state e st err V ! x)) = fst (snd (V ! x))" "x \<noteq> e \<Longrightarrow> show_state e st err V ! x = V ! x"
  "map fst (show_state e st err V) = map fst V"
  by (auto simp: show_state_def nth_upd intro!: nth_equalityI)

lemma rviews_reverse:
  assumes "e < length (rg_entries r)" "\<And>v. r_ID (h v) = r_ID v \<and> r_Remote (h v) = r_Remote v"
  shows "rviews (set_reverse e h r) =
    show_state e (r_State (h (re_reverse (rg_entries r ! e)))) (r_LastError (h (re_reverse (rg_entries r ! e)))) (rviews r)"
  using assms by (simp add: set_reverse_def rviews_set show_state_def entry_view_def rviews_nth)

lemma reverse_frame [simp]:
  "rg_nextID (set_reverse e h r) = rg_nextID r" "rg_byID (set_reverse e h r) = rg_byID r"
  "rg_byRemote (set_reverse e h r) = rg_byRemote r" "rg_creates (set_reverse e h r) = rg_creates r"
  "rg_lock (set_reverse e h r) = rg_lock r" "rg_calls (set_reverse e h r) = rg_calls r"
  "rg_panicked (set_reverse e h r) = rg_panicked r" "length (rg_entries (set_reverse e h r)) = length (rg_entries r)"
  by (simp_all add: set_reverse_def)

section \<open>Lemmas on the parts\<close>

lemma rcreates_at:
  assumes "rcreates_ok V B C" "i < length C"
  shows "rcreate_ok V B (C ! i)" "j < length C \<Longrightarrow> j \<noteq> i \<Longrightarrow> making (C ! i) \<inter> making (C ! j) = {}"
  using assms by (auto simp: rcreates_ok_def)

lemma rcreates_mem: "rcreates_ok V B C \<Longrightarrow> c \<in> set C \<Longrightarrow> rcreate_ok V B c"
  by (metis rcreates_at(1) in_set_conv_nth)

lemma rcreates_append: "rcreates_ok V B C \<Longrightarrow> making c = {} \<Longrightarrow> rcreates_ok V B (C @ [c])"
  by (cases c) (auto simp: rcreates_ok_def rcreate_ok_def making_def nth_append less_Suc_eq)

lemma rcreates_update:
  assumes "rcreates_ok V B C" "\<And>j. j < length C \<Longrightarrow> j \<noteq> i \<Longrightarrow> rcreate_ok V B (C ! j) \<Longrightarrow> rcreate_ok V' B' (C ! j)"
    and "rcreate_ok V' B' c" "\<And>j. j < length C \<Longrightarrow> j \<noteq> i \<Longrightarrow> making c \<inter> making (C ! j) = {}"
  shows "rcreates_ok V' B' (C[i := c])"
  using assms by (fastforce simp: rcreates_ok_def nth_upd)

lemma making_mem: "rcreate_ok V B c \<Longrightarrow> e \<in> making c \<Longrightarrow> e < length V \<and> \<not> in_table B e"
  by (cases c) (auto simp: rcreate_ok_def making_def)

text \<open>Nothing in the invariant depends on the entry of \<open>e\<close> when it is neither registered nor being created.\<close>

lemma rcreates_unused:
  assumes "rcreates_ok V B C" "\<And>c. c \<in> set C \<Longrightarrow> e \<notin> making c" "\<And>x. x \<noteq> e \<Longrightarrow> V' ! x = V ! x" "length V' = length V"
    and "\<And>x. in_table B' x \<Longrightarrow> in_table B x"
  shows "rcreates_ok V' B' C"
proof -
  have "rcreate_ok V' B' c" if "c \<in> set C" for c
    using rcreates_mem [OF assms(1) that] assms(2) [OF that] assms(3-5)
    by (cases c) (auto simp: rcreate_ok_def making_def)
  with assms(1) show ?thesis by (auto simp: rcreates_ok_def)
qed

lemma table_views:
  assumes "table_ok (v_id V) (v_key V) B K" "\<And>e. v_id V' e = v_id V e \<and> v_key V' e = v_key V e"
  shows "table_ok (v_id V') (v_key V') B K"
  using assms(2) by (intro table_cong [OF assms(1)]) simp

section \<open>Removing\<close>

lemma core_lock [simp]: "rev_core (r\<lparr>rg_lock := l\<rparr>) = rev_core r" "rviews (r\<lparr>rg_lock := l\<rparr>) = rviews r"
  by (simp_all add: rev_core_def rviews_def)

lemma core_hold [simp]: "rev_core (hold e xs n r) = rev_core r" "rviews (hold e xs n r) = rviews r"
  by (simp_all add: hold_def)

lemma core_table: "rev_core r \<Longrightarrow> table_ok (v_id (rviews r)) (v_key (rviews r)) (rg_byID r) (rg_byRemote r)"
  by (simp add: rev_core_def)

lemma core_registered: "rev_core r \<Longrightarrow> in_table (rg_byID r) e \<Longrightarrow> e < length (rg_entries r) \<and> live_view (rviews r ! e)"
  by (auto simp: rev_core_def rev_reg_ok_def)

lemma rev_ids:
  assumes "e < length (rg_entries r)"
  shows "rev_id r e = v_id (rviews r) e" "rev_key r e = v_key (rviews r) e"
  using assms by (simp_all add: rviews_nth entry_view_def)

lemma removeLocked_views:
  assumes "e < length (rg_entries r)"
  shows "rviews (rev_removeLocked e r) = show_state e ReverseStateStopped (r_LastError (re_reverse (rg_entries r ! e))) (rviews r)"
    "rg_byID (rev_removeLocked e r) = AList.delete (v_id (rviews r) e) (rg_byID r)"
    "rg_byRemote (rev_removeLocked e r) = AList.delete (v_key (rviews r) e) (rg_byRemote r)"
    "rg_creates (rev_removeLocked e r) = rg_creates r" "rg_nextID (rev_removeLocked e r) = rg_nextID r"
    "rg_panicked (rev_removeLocked e r) = rg_panicked r" "length (rg_entries (rev_removeLocked e r)) = length (rg_entries r)"
  using assms rviews_reverse [of e "r\<lparr>rg_byID := AList.delete (rev_id r e) (rg_byID r),
      rg_byRemote := AList.delete (rev_key r e) (rg_byRemote r)\<rparr>" "\<lambda>v. v\<lparr>r_State := ReverseStateStopped\<rparr>"]
  by (simp_all add: rev_removeLocked_def rev_ids) (simp add: rviews_def)

lemma removeLocked_core:
  assumes "rev_core r" "in_table (rg_byID r) e"
  shows "rev_core (rev_removeLocked e r)"
    "in_table (rg_byID (rev_removeLocked e r)) x \<longleftrightarrow> in_table (rg_byID r) x \<and> x \<noteq> e"
proof -
  let ?V = "rviews r" and ?B = "rg_byID r" and ?K = "rg_byRemote r"
  let ?V' = "show_state e ReverseStateStopped (r_LastError (re_reverse (rg_entries r ! e))) ?V"
  note core = assms(1) [unfolded rev_core_def]
  have e: "e < length (rg_entries r)" using core_registered [OF assms] by simp
  note views = removeLocked_views [OF e]
  note del = table_delete [OF core_table [OF assms(1)] assms(2)]
  show tab: "in_table (rg_byID (rev_removeLocked e r)) x \<longleftrightarrow> in_table ?B x \<and> x \<noteq> e"
    using del(2) by (simp add: views)
  have "e \<notin> making c" if "c \<in> set (rg_creates r)" for c
    using making_mem [OF rcreates_mem [of ?V ?B "rg_creates r" c], of e] core that assms(2) by auto
  then have "rcreates_ok ?V' (AList.delete (v_id ?V e) ?B) (rg_creates r)"
    by (rule rcreates_unused [of ?V ?B, rotated]) (use core del(2) in auto)
  moreover have "table_ok (v_id ?V') (v_key ?V') (AList.delete (v_id ?V e) ?B) (AList.delete (v_key ?V e) ?K)"
    by (rule table_views [OF del(1)]) simp
  moreover have "rev_reg_ok ?V' (AList.delete (v_id ?V e) ?B)"
    using core del(2) by (auto simp: rev_reg_ok_def)
  ultimately show "rev_core (rev_removeLocked e r)" using core by (simp add: rev_core_def views)
qed

lemma start_removal_ok:
  assumes "rev_core r" "in_table (rg_byID r) e" "distinct (e # rest)" "\<forall>x \<in> set rest. in_table (rg_byID r) x"
    and "case next of
        ThenReturn n \<Rightarrow> True
      | ThenConnect p \<Rightarrow> rest = []
      | ThenInsert i x \<Rightarrow> rest = [] \<and> i < length (rg_creates r) \<and>
          (\<exists>p. rg_creates r ! i = RevInserting p x \<and> reverse_key (rc_Remote p) = v_key (rviews r) e)
      | ThenReject i x \<Rightarrow> False"
  shows "rev_ok (start_removal e rest next r)" "length (rg_entries (start_removal e rest next r)) = length (rg_entries r)"
proof -
  let ?r = "rev_removeLocked e r"
  have e: "e < length (rg_entries r)" using core_registered [OF assms(1,2)] by simp
  note views = removeLocked_views [OF e] and core = removeLocked_core [OF assms(1,2)]
  have "e \<notin> making c" if "c \<in> set (rg_creates r)" for c
    using making_mem [OF rcreates_mem [of "rviews r" "rg_byID r" "rg_creates r" c], of e] assms(1,2) that by (auto simp: rev_core_def)
  then have "after_ok (rg_byRemote ?r) (rg_creates ?r) \<lparr>rh_current = e, rh_waiting = False, rh_rest = rest, rh_after = next\<rparr>"
    using assms(5) by (cases "next") (auto simp: after_ok_def views delete_conv')
  then show "rev_ok (start_removal e rest next r)"
    using core assms(3,4) e views(7) by (auto simp: rev_ok_def start_removal_def lock_ok_def)
  show "length (rg_entries (start_removal e rest next r)) = length (rg_entries r)"
    by (simp add: start_removal_def views)
qed

section \<open>Inserting\<close>

lemma rev_insert_ok:
  assumes "rev_core r" "length (rg_entries r) < 2 ^ 64" "i < length (rg_creates r)" "rg_creates r ! i = RevInserting p x"
    and "map_of (rg_byRemote r) (reverse_key (rc_Remote p)) = None"
  shows "rev_core (rev_insert i x r)"
proof -
  let ?V = "rviews r" and ?B = "rg_byID r" and ?K = "rg_byRemote r" and ?C = "rg_creates r"
  note core = assms(1) [unfolded rev_core_def]
  have x: "x < length (rg_entries r)" "\<not> in_table ?B x" "fresh_view (?V ! x) p True"
    using rcreates_at(1) [of ?V ?B ?C i] core assms(3,4) by (auto simp: rcreate_ok_def)
  then have key: "map_of ?K (v_key ?V x) = None" using assms(5) by (simp add: fresh_view_def)
  have id: "map_of ?B (v_id ?V x) = None"
  proof (rule ccontr)
    assume "map_of ?B (v_id ?V x) \<noteq> None"
    then obtain y where "map_of ?B (v_id ?V x) = Some y" by auto
    then have y: "in_table ?B y" "v_id ?V y = v_id ?V x" using table_lookup(1) [OF core_table [OF assms(1)]] by auto
    then have "y < length ?V" using core_registered [OF assms(1)] by simp
    then have "y = x" using numbered_inj [of "''rev_''" "map fst ?V" _ y x] core x y assms(2) by auto
    with x y show False by simp
  qed
  note ins = table_insert [OF core_table [OF assms(1)] id key]
  have "rev_reg_ok ?V (AList.update (v_id ?V x) x ?B)"
    using core ins(2) x by (cases "?V ! x") (auto simp: rev_reg_ok_def fresh_view_def)
  moreover have "rcreates_ok ?V (AList.update (v_id ?V x) x ?B) (?C[i := RevCreateDone (Inr (re_reverse (rg_entries r ! x)))])"
  proof (rule rcreates_update [of ?V ?B])
    show "rcreates_ok ?V ?B ?C" using core by simp
    fix j assume j: "j < length ?C" "j \<noteq> i" "rcreate_ok ?V ?B (?C ! j)"
    then have "x \<notin> making (?C ! j)" using rcreates_at(2) [of ?V ?B ?C i j] core assms(3,4) by (auto simp: making_def)
    with j(3) ins(2) show "rcreate_ok ?V (AList.update (v_id ?V x) x ?B) (?C ! j)"
      by (cases "?C ! j") (auto simp: rcreate_ok_def making_def)
  qed (simp_all add: rcreate_ok_def making_def)
  ultimately show ?thesis
    using core ins(1) x by (simp add: rev_core_def rev_insert_def rev_ids rviews_cong [of "set_rcreate i c _" r for c])
qed

section \<open>The holder of the lock\<close>

lemma removal_end_core:
  assumes "rev_core r" "e < length (rg_entries r)" "\<not> in_table (rg_byID r) e" "\<forall>c \<in> set (rg_creates r). e \<notin> making c"
  shows "rev_core (rev_removeLocked_end e err r)" "rg_byID (rev_removeLocked_end e err r) = rg_byID r"
    "rg_byRemote (rev_removeLocked_end e err r) = rg_byRemote r" "rg_creates (rev_removeLocked_end e err r) = rg_creates r"
    "length (rg_entries (rev_removeLocked_end e err r)) = length (rg_entries r)"
    "x \<noteq> e \<Longrightarrow> rviews (rev_removeLocked_end e err r) ! x = rviews r ! x"
    "v_key (rviews (rev_removeLocked_end e err r)) x = v_key (rviews r) x"
proof -
  note core = assms(1) [unfolded rev_core_def]
  have sh: "rcreates_ok (show_state e st t (rviews r)) (rg_byID r) (rg_creates r)" for st t
    by (rule rcreates_unused [of "rviews r" "rg_byID r" _ e]) (use core assms(4) in auto)
  have tab: "table_ok (v_id (show_state e st t (rviews r))) (v_key (show_state e st t (rviews r))) (rg_byID r) (rg_byRemote r)" for st t
    by (rule table_views [of "rviews r"]) (use core in auto)
  have reg: "rev_reg_ok (show_state e st t (rviews r)) (rg_byID r)" for st t
    unfolding rev_reg_ok_def
  proof (intro allI impI)
    fix y assume "in_table (rg_byID r) y"
    with core assms(3) show "y < length (show_state e st t (rviews r)) \<and> live_view (show_state e st t (rviews r) ! y)"
      by (cases "y = e") (auto simp: rev_reg_ok_def)
  qed
  show "rev_core (rev_removeLocked_end e err r)"
    using core sh tab reg by (cases err) (simp_all add: rev_removeLocked_end_def rev_core_def rviews_reverse assms(2))
  show "rg_byID (rev_removeLocked_end e err r) = rg_byID r"
    "rg_byRemote (rev_removeLocked_end e err r) = rg_byRemote r" "rg_creates (rev_removeLocked_end e err r) = rg_creates r"
    "length (rg_entries (rev_removeLocked_end e err r)) = length (rg_entries r)"
    "x \<noteq> e \<Longrightarrow> rviews (rev_removeLocked_end e err r) ! x = rviews r ! x"
    "v_key (rviews (rev_removeLocked_end e err r)) x = v_key (rviews r) x"
    by (cases err; simp add: rev_removeLocked_end_def rviews_reverse assms(2))+
qed

lemma core_creates:
  assumes "rev_core r" "rcreates_ok (rviews r) (rg_byID r) C"
  shows "rev_core (r\<lparr>rg_creates := C\<rparr>)"
  using assms by (simp add: rev_core_def rviews_def)

lemma core_finish:
  assumes "rev_core r"
  shows "rev_core (set_rcreate i (RevCreateDone y) r)" "rev_core (r\<lparr>rg_creates := rg_creates r @ [RevConnecting p]\<rparr>)"
    "rev_core (r\<lparr>rg_creates := rg_creates r @ [RevCreateDone y]\<rparr>)"
proof -
  have "rcreates_ok (rviews r) (rg_byID r) ((rg_creates r)[i := RevCreateDone y])"
    by (rule rcreates_update [of "rviews r" "rg_byID r"]) (use assms in \<open>auto simp: rev_core_def rcreate_ok_def making_def\<close>)
  with assms show "rev_core (set_rcreate i (RevCreateDone y) r)" by (simp add: set_rcreate_def core_creates)
  have "rcreates_ok (rviews r) (rg_byID r) (rg_creates r @ [c])" if "making c = {}" for c
    by (rule rcreates_append [OF _ that]) (use assms in \<open>simp add: rev_core_def\<close>)
  then show "rev_core (r\<lparr>rg_creates := rg_creates r @ [RevConnecting p]\<rparr>)" "rev_core (r\<lparr>rg_creates := rg_creates r @ [RevCreateDone y]\<rparr>)"
    using assms by (simp_all add: core_creates making_def)
qed

lemma core_session [simp]: "rev_core (set_session e h r) = rev_core r" "rev_core (client_close e r) = rev_core r"
  by (simp_all add: rev_core_def)

lemma close_returned_ok:
  assumes "rev_ok r" "rg_lock r = Some h" "length (rg_entries r) < 2 ^ 64"
  shows "rev_ok (snd (close_returned h err r))" "length (rg_entries (snd (close_returned h err r))) = length (rg_entries r)"
proof -
  let ?e = "rh_current h"
  have core: "rev_core r" and h: "?e < length (rg_entries r)" "\<not> in_table (rg_byID r) ?e" "distinct (rh_rest h)"
    "\<forall>x \<in> set (rh_rest h). in_table (rg_byID r) x" and aft: "after_ok (rg_byRemote r) (rg_creates r) h"
    using assms(1,2) by (auto simp: rev_ok_def lock_ok_def)
  let ?r = "rev_removeLocked_end ?e err r"
  have "rev_ok (snd (close_returned h err r)) \<and> length (rg_entries (snd (close_returned h err r))) = length (rg_entries r)"
  proof (cases "rh_after h")
    case (ThenReject i x)
    with core core_finish(1) show ?thesis by (simp add: close_returned_def Let_def rev_ok_def lock_ok_def)
  next
    case (ThenReturn n)
    then have m: "\<forall>c \<in> set (rg_creates r). ?e \<notin> making c" using aft by (simp add: after_ok_def)
    note fin = removal_end_core [OF core h(1,2) m, where err = err]
    show ?thesis
    proof (cases "rh_rest h")
      case Nil
      with ThenReturn fin show ?thesis by (simp add: close_returned_def Let_def rev_ok_def lock_ok_def)
    next
      case (Cons y ys)
      with h ThenReturn start_removal_ok [OF fin(1), of y ys "ThenReturn n"] fin(2,5) show ?thesis
        by (simp add: close_returned_def Let_def)
    qed
  next
    case (ThenConnect p)
    then have m: "\<forall>c \<in> set (rg_creates r). ?e \<notin> making c" "rh_rest h = []" using aft by (simp_all add: after_ok_def)
    note fin = removal_end_core [OF core h(1,2) m(1), where err = err]
    have "rev_core (?r\<lparr>rg_lock := None, rg_creates := rg_creates ?r @ [RevConnecting p]\<rparr>)"
      using core_finish(2) [of "?r\<lparr>rg_lock := None\<rparr>"] fin(1) by simp
    with ThenConnect m fin(5) show ?thesis by (simp add: close_returned_def Let_def rev_ok_def lock_ok_def)
  next
    case (ThenInsert i x)
    then obtain p where m: "\<forall>c \<in> set (rg_creates r). ?e \<notin> making c" "rh_rest h = []" "i < length (rg_creates r)"
      "rg_creates r ! i = RevInserting p x" "map_of (rg_byRemote r) (reverse_key (rc_Remote p)) = None"
      using aft by (auto simp: after_ok_def)
    note fin = removal_end_core [OF core h(1,2) m(1), where err = err]
    have "rev_core (rev_insert i x (?r\<lparr>rg_lock := None\<rparr>))"
      using fin m assms(3) by (intro rev_insert_ok [of _ _ p]) simp_all
    moreover have "rg_lock (rev_insert i x (?r\<lparr>rg_lock := None\<rparr>)) = None" "length (rg_entries (rev_insert i x (?r\<lparr>rg_lock := None\<rparr>))) = length (rg_entries r)"
      using fin(5) by (simp_all add: rev_insert_def)
    ultimately show ?thesis using ThenInsert m by (simp add: close_returned_def Let_def rev_ok_def lock_ok_def)
  qed
  then show "rev_ok (snd (close_returned h err r))" "length (rg_entries (snd (close_returned h err r))) = length (rg_entries r)" by simp_all
qed

section \<open>Callbacks\<close>

lemma id_in_table:
  assumes "rev_core r" "length (rg_entries r) < 2 ^ 64" "e < length (rg_entries r)" "map_of (rg_byID r) (rev_id r e) \<noteq> None"
  shows "in_table (rg_byID r) e"
proof -
  from assms(4) obtain y where y: "map_of (rg_byID r) (rev_id r e) = Some y" by auto
  from table_lookup(1) [OF core_table [OF assms(1)] y] have t: "v_id (rviews r) y = rev_id r e" "in_table (rg_byID r) y" by auto
  then have "y < length (rg_entries r)" using core_registered [OF assms(1)] by simp
  with t assms numbered_inj [of "''rev_''" "map fst (rviews r)" "rg_nextID r" y e] rev_ids(1) [OF assms(3)] have "y = e"
    by (auto simp: rev_core_def)
  with t show ?thesis by simp
qed

lemma set_reverse_beyond: "\<not> e < length (rg_entries r) \<Longrightarrow> set_reverse e h r = r"
  by (simp add: set_reverse_def set_rentry_def list_update_beyond)

lemma callback_effect:
  assumes "rev_core r" "length (rg_entries r) < 2 ^ 64"
  shows "rviews (recordReverseActive e n r) = rviews r"
    and "rviews (recordReverseError e msg r) = rviews r \<or>
      in_table (rg_byID r) e \<and> rviews (recordReverseError e msg r) = show_state e ReverseStateDegraded msg (rviews r)"
proof -
  show "rviews (recordReverseActive e n r) = rviews r"
  proof (cases "map_of (rg_byID r) (rev_id r e) \<noteq> None \<and> e < length (rg_entries r)")
    case True
    then have "live_view (rviews r ! e)" using id_in_table [OF assms] core_registered [OF assms(1)] by blast
    then have "\<not> (r_State (re_reverse (rg_entries r ! e)) = ReverseStateDegraded \<and> r_LastError (re_reverse (rg_entries r ! e)) = [])"
      using True by (auto simp: rviews_nth entry_view_def)
    then show ?thesis using True
      by (auto simp: recordReverseActive_def set_reverse_def rviews_set Let_def rviews_nth entry_view_def rviews_def
          intro!: nth_equalityI simp: nth_upd)
  qed (auto simp: recordReverseActive_def set_reverse_beyond)
  show "rviews (recordReverseError e msg r) = rviews r \<or>
      in_table (rg_byID r) e \<and> rviews (recordReverseError e msg r) = show_state e ReverseStateDegraded msg (rviews r)"
    using id_in_table [OF assms, of e]
    by (cases "e < length (rg_entries r)") (auto simp: recordReverseError_def set_reverse_beyond rviews_reverse)
qed

lemma callback_frame [simp]:
  "rg_byID (run_callback e cb t r) = rg_byID r" "rg_byRemote (run_callback e cb t r) = rg_byRemote r"
  "rg_creates (run_callback e cb t r) = rg_creates r" "rg_lock (run_callback e cb t r) = rg_lock r"
  "rg_nextID (run_callback e cb t r) = rg_nextID r" "rg_panicked (run_callback e cb t r) = rg_panicked r"
  "length (rg_entries (run_callback e cb t r)) = length (rg_entries r)"
  by (simp_all add: run_callback_def recordReverseActive_def recordReverseError_def split: rev_callback.split)

lemma show_degraded_core:
  assumes "rev_core r" "in_table (rg_byID r) e" "msg \<noteq> []" "rviews r' = show_state e ReverseStateDegraded msg (rviews r)"
    and "rg_byID r' = rg_byID r" "rg_byRemote r' = rg_byRemote r" "rg_creates r' = rg_creates r" "rg_nextID r' = rg_nextID r"
      "rg_panicked r' = rg_panicked r"
  shows "rev_core r'"
proof -
  let ?V = "show_state e ReverseStateDegraded msg (rviews r)"
  note core = assms(1) [unfolded rev_core_def]
  have "e \<notin> making c" if "c \<in> set (rg_creates r)" for c
    using making_mem [OF rcreates_mem [of "rviews r" "rg_byID r" "rg_creates r" c], of e] core that assms(2) by auto
  then have "rcreates_ok ?V (rg_byID r) (rg_creates r)"
    by (rule rcreates_unused [of "rviews r" "rg_byID r", rotated]) (use core in auto)
  moreover have "table_ok (v_id ?V) (v_key ?V) (rg_byID r) (rg_byRemote r)"
    by (rule table_views [of "rviews r"]) (use core in auto)
  moreover have "rev_reg_ok ?V (rg_byID r)"
  proof -
    have "live_view (?V ! y)" if "in_table (rg_byID r) y" for y
      using core_registered [OF assms(1) that] assms(3)
      by (cases "y = e"; cases "rviews r ! y") (auto simp: show_state_def)
    then show ?thesis using core by (auto simp: rev_reg_ok_def)
  qed
  ultimately show ?thesis using core assms(4-) by (simp add: rev_core_def)
qed

lemma callback_ok:
  assumes "rev_ok r" "length (rg_entries r) < 2 ^ 64" "rg_lock r = None"
  shows "rev_ok (run_callback e cb t r)"
proof -
  have core: "rev_core r" using assms(1) by (simp add: rev_ok_def)
  have "rev_core (run_callback e cb t r)"
  proof (cases cb)
    case (OnActiveConnections n)
    then have "rviews (run_callback e cb t r) = rviews r" using callback_effect(1) [OF core assms(2)] by (simp add: run_callback_def)
    with core show ?thesis by (simp add: rev_core_def)
  next
    case OnBridgeError
    let ?msg = "''host dial failed: '' @ t"
    have eq: "run_callback e cb t r = recordReverseError e ?msg r" using OnBridgeError by (simp add: run_callback_def)
    from callback_effect(2) [OF core assms(2), of e ?msg] show ?thesis
    proof
      assume "rviews (recordReverseError e ?msg r) = rviews r"
      with core show ?thesis using callback_frame [of e cb t r] unfolding eq by (simp add: rev_core_def)
    next
      assume v: "in_table (rg_byID r) e \<and> rviews (recordReverseError e ?msg r) = show_state e ReverseStateDegraded ?msg (rviews r)"
      have "?msg \<noteq> []" by simp
      from show_degraded_core [OF core _ this] v callback_frame [of e cb t r] show ?thesis unfolding eq by blast
    qed
  qed
  with assms(3) show ?thesis by (simp add: rev_ok_def lock_ok_def)
qed

section \<open>The machine keeps the invariant\<close>

lemma after_update:
  assumes "after_ok K C h" "i < length C" "\<And>p x. C ! i \<noteq> RevInserting p x" "making c \<subseteq> making (C ! i)"
  shows "after_ok K (C[i := c]) h"
proof -
  have "\<forall>c' \<in> set (C[i := c]). rh_current h \<notin> making c'" if "\<forall>c' \<in> set C. rh_current h \<notin> making c'"
  proof
    fix c' assume "c' \<in> set (C[i := c])"
    then have "c' = c \<or> c' \<in> set C" using set_update_subset_insert [of C i c] by auto
    with that assms(2,4) show "rh_current h \<notin> making c'" by (auto dest: nth_mem)
  qed
  moreover have "(C[i := c]) ! j = RevInserting p x" if "C ! j = RevInserting p x" for j p x
    using that assms(3) [of p x] by (auto simp: nth_upd)
  ultimately show ?thesis using assms(1) by (cases "rh_after h") (auto simp: after_ok_def)
qed

lemma lock_update:
  assumes "lock_ok V B K C lock" "i < length C" "\<And>p x. C ! i \<noteq> RevInserting p x" "making c \<subseteq> making (C ! i)" "length V' = length V"
  shows "lock_ok V' B K (C[i := c]) lock"
  using assms after_update [OF _ assms(2-4)] by (auto simp: lock_ok_def split: option.splits)

lemma rev_lookup:
  assumes "rev_core r"
  shows "map_of (rg_byRemote r) k = Some i \<Longrightarrow> \<exists>e. map_of (rg_byID r) i = Some e \<and> v_key (rviews r) e = k \<and> in_table (rg_byID r) e"
    "map_of (rg_byID r) i = Some e \<Longrightarrow> in_table (rg_byID r) e"
  using table_lookup [OF core_table [OF assms]] by blast+

lemma create_start_rev_ok:
  assumes "rev_ok r" "rg_lock r = None"
  shows "rev_ok (rev_create_start p r)"
proof -
  have core: "rev_core r" using assms(1) by (simp add: rev_ok_def)
  have fin: "rev_ok (r\<lparr>rg_creates := rg_creates r @ [RevCreateDone y]\<rparr>)" "rev_ok (r\<lparr>rg_creates := rg_creates r @ [RevConnecting p]\<rparr>)" for y
    using core_finish(2,3) [OF core] assms(2) by (simp_all add: rev_ok_def lock_ok_def)
  have "rev_ok (start_removal e [] (ThenConnect p) r)" if "map_of (rg_byID r) i = Some e" for i e
    using start_removal_ok(1) [OF core rev_lookup(2) [OF core that]] by simp
  then show ?thesis using fin rev_lookup(1) [OF core, of "reverse_key (rc_Remote p)"]
    by (fastforce simp: rev_create_start_def split: option.splits)
qed

lemma create_connect_ok:
  assumes "rev_ok r" "i < length (rg_creates r)" "rg_creates r ! i = RevConnecting p"
  shows "rev_ok (set_rcreate i (rev_create_connect p b) r)"
proof -
  let ?c = "rev_create_connect p b"
  have m: "making ?c = {}" "rcreate_ok V B ?c" for V B
    by (simp_all add: rev_create_connect_def making_def rcreate_ok_def split: sum.split)
  have "rcreates_ok (rviews r) (rg_byID r) ((rg_creates r)[i := ?c])"
    by (rule rcreates_update [of "rviews r" "rg_byID r"]) (use assms(1) m in \<open>auto simp: rev_ok_def rev_core_def\<close>)
  moreover have "lock_ok (rviews r) (rg_byID r) (rg_byRemote r) ((rg_creates r)[i := ?c]) (rg_lock r)"
    using assms m(1) by (intro lock_update [of "rviews r"]) (auto simp: rev_ok_def)
  moreover have "rviews (set_rcreate i ?c r) = rviews r" by (simp add: rviews_def)
  ultimately show ?thesis using assms(1) by (simp add: rev_ok_def rev_core_def)
qed

lemma create_entry_rev_ok:
  assumes "rev_ok r" "rg_lock r = None" "rev_create_entry p now r = (e, r')"
  shows "rev_ok (set_rcreate i (RevRegistering p remote local e) r')" "length (rg_entries r') = Suc (length (rg_entries r))"
proof -
  let ?V = "rviews r" and ?B = "rg_byID r" and ?C = "rg_creates r"
  let ?v = "(counted_id ''rev_'' (rg_nextID r + 1), rc_Remote p, ReverseStateListening, [], False)"
  let ?c = "RevRegistering p remote local e"
  have core: "rev_core r" using assms(1) by (simp add: rev_ok_def)
  note c = core [unfolded rev_core_def]
  have e: "e = length ?V" using assms(3) by (auto simp: rev_create_entry_def nextReverseID_def Let_def)
  have r': "rg_nextID r' = rg_nextID r + 1" "rg_byID r' = ?B" "rg_byRemote r' = rg_byRemote r" "rg_creates r' = ?C"
    "rg_panicked r' = rg_panicked r" "rg_lock r' = rg_lock r" "rviews (set_rcreate i ?c r') = ?V @ [?v]"
    using assms(3) by (auto simp: rev_create_entry_def nextReverseID_def Let_def rviews_def entry_view_def)
  show "length (rg_entries r') = Suc (length (rg_entries r))"
    using assms(3) by (auto simp: rev_create_entry_def nextReverseID_def Let_def)
  have unreg: "\<not> in_table ?B e" using core_registered [OF core] e by auto
  have num: "numbered ''rev_'' (map fst (?V @ [?v])) (rg_nextID r + 1)"
    using c numbered_append [of "''rev_''" "map fst ?V"] by simp
  have tab: "table_ok (v_id (?V @ [?v])) (v_key (?V @ [?v])) ?B (rg_byRemote r)"
    by (rule table_cong [OF core_table [OF core]]) (use core_registered [OF core] in \<open>auto simp: nth_append\<close>)
  have reg: "rev_reg_ok (?V @ [?v]) ?B" using c by (auto simp: rev_reg_ok_def nth_append)
  have grow: "rcreate_ok (?V @ [?v]) ?B x" if "rcreate_ok ?V ?B x" for x
    using that by (cases x) (auto simp: rcreate_ok_def nth_append)
  have disj: "making ?c \<inter> making x = {}" if "rcreate_ok ?V ?B x" for x
    using that e by (cases x) (auto simp: rcreate_ok_def making_def)
  have "rcreates_ok (?V @ [?v]) ?B (?C[i := ?c])"
  proof (rule rcreates_update [of ?V ?B])
    show "rcreates_ok ?V ?B ?C" using c by simp
    show "rcreate_ok (?V @ [?v]) ?B ?c" using e unreg by (simp add: rcreate_ok_def fresh_view_def nth_append)
    show "making ?c \<inter> making (?C ! j) = {}" if "j < length ?C" "j \<noteq> i" for j
      using c that by (intro disj) (simp add: rcreates_at)
  qed (rule grow)
  with num tab reg c assms(2) r' show "rev_ok (set_rcreate i ?c r')" by (simp add: rev_ok_def rev_core_def lock_ok_def)
qed

lemma create_register_ok:
  assumes "rev_ok r" "i < length (rg_creates r)" "rg_creates r ! i = RevRegistering p remote local e"
  shows "rev_ok (rev_create_register i p remote local e c handle r)"
    "length (rg_entries (rev_create_register i p remote local e c handle r)) = length (rg_entries r)"
proof -
  let ?V = "rviews r" and ?B = "rg_byID r" and ?C = "rg_creates r"
  have core: "rev_core r" and lock: "lock_ok ?V ?B (rg_byRemote r) ?C (rg_lock r)" using assms(1) by (simp_all add: rev_ok_def)
  note k = core [unfolded rev_core_def]
  have e: "e < length ?V" "\<not> in_table ?B e" "fresh_view (?V ! e) p False"
    using rcreates_at(1) [of ?V ?B ?C i] k assms(2,3) by (auto simp: rcreate_ok_def)
  have fail: "rev_ok (set_rcreate i (RevCreateDone y) (client_close e r))" for y
  proof -
    have "rev_core (set_rcreate i (RevCreateDone y) (client_close e r))" using core core_finish(1) by simp
    moreover have "lock_ok ?V ?B (rg_byRemote r) (?C[i := RevCreateDone y]) (rg_lock r)"
      using assms(2,3) by (intro lock_update [OF lock]) (auto simp: making_def)
    moreover have "rviews (set_rcreate i (RevCreateDone y) (client_close e r)) = ?V"
      using rviews_cong [of "set_rcreate i (RevCreateDone y) (client_close e r)" "client_close e r"] by simp
    ultimately show ?thesis by (simp add: rev_ok_def)
  qed
  have succeed: "rev_ok (set_rcreate i (RevInserting p e) (set_rentry e (\<lambda>x. x\<lparr>re_session := Some session\<rparr>) r))" for session
  proof -
    let ?r = "set_rcreate i (RevInserting p e) (set_rentry e (\<lambda>x. x\<lparr>re_session := Some session\<rparr>) r)"
    let ?v = "(fst (?V ! e), fst (snd (?V ! e)), ReverseStateListening, [], True)"
    have v: "rviews ?r = ?V[e := ?v]"
      using rviews_set [of e "\<lambda>x. x\<lparr>re_session := Some session\<rparr>" r] e
      by (simp add: rviews_def) (simp add: entry_view_def fresh_view_def rviews_nth)
    have mem: "e \<notin> making (?C ! j)" if "j < length ?C" "j \<noteq> i" for j
      using rcreates_at(2) [of ?V ?B ?C i j] k assms(2,3) that by (auto simp: making_def)
    have "rcreates_ok (?V[e := ?v]) ?B (?C[i := RevInserting p e])"
    proof (rule rcreates_update [of ?V ?B])
      show "rcreates_ok ?V ?B ?C" using k by simp
      show "rcreate_ok (?V[e := ?v]) ?B (RevInserting p e)" using e by (simp add: rcreate_ok_def fresh_view_def)
      fix j assume j: "j < length ?C" "j \<noteq> i"
      show "making (RevInserting p e) \<inter> making (?C ! j) = {}" using mem [OF j] by (simp add: making_def)
      show "rcreate_ok ?V ?B (?C ! j) \<Longrightarrow> rcreate_ok (?V[e := ?v]) ?B (?C ! j)"
        using mem [OF j] by (cases "?C ! j") (auto simp: rcreate_ok_def making_def)
    qed
    moreover have "table_ok (v_id (?V[e := ?v])) (v_key (?V[e := ?v])) ?B (rg_byRemote r)"
      by (rule table_views [OF core_table [OF core]]) (simp add: nth_upd)
    moreover have "rev_reg_ok (?V[e := ?v]) ?B" using k e by (auto simp: rev_reg_ok_def nth_upd)
    moreover have "map fst (?V[e := ?v]) = map fst ?V" by (auto intro!: nth_equalityI simp: nth_upd)
    moreover have "lock_ok (?V[e := ?v]) ?B (rg_byRemote r) (?C[i := RevInserting p e]) (rg_lock r)"
      using assms(2,3) by (intro lock_update [OF lock]) (auto simp: making_def)
    ultimately show ?thesis using k unfolding rev_ok_def rev_core_def v by simp
  qed
  show "rev_ok (rev_create_register i p remote local e c handle r)"
    using fail succeed by (auto simp: rev_create_register_def split: prod.splits sum.splits)
  show "length (rg_entries (rev_create_register i p remote local e c handle r)) = length (rg_entries r)"
    by (auto simp: rev_create_register_def split: prod.splits sum.splits)
qed

lemma create_insert_rev_ok:
  assumes "rev_ok r" "length (rg_entries r) < 2 ^ 64" "rg_lock r = None" "i < length (rg_creates r)" "rg_creates r ! i = RevInserting p e"
  shows "rev_ok (rev_create_insert i p e r)"
proof -
  have core: "rev_core r" using assms(1) by (simp add: rev_ok_def)
  have e: "e < length (rg_entries r)" "\<not> in_table (rg_byID r) e"
    using rcreates_at(1) [of "rviews r" "rg_byID r" "rg_creates r" i] core assms(4,5) by (auto simp: rcreate_ok_def rev_core_def)
  have ins: "rev_ok (rev_insert i e r)" if "map_of (rg_byRemote r) (reverse_key (rc_Remote p)) = None"
    using rev_insert_ok [OF core assms(2,4,5) that] assms(3) by (simp add: rev_ok_def lock_ok_def rev_insert_def)
  have rej: "rev_ok (hold e [] (ThenReject i e) r)"
    using core assms(4,5) e by (simp add: rev_ok_def lock_ok_def after_ok_def)
  have rem: "rev_ok (start_removal x [] (ThenInsert i e) r)"
    if "map_of (rg_byID r) ident = Some x" "v_key (rviews r) x = reverse_key (rc_Remote p)" for x ident
    using start_removal_ok(1) [OF core rev_lookup(2) [OF core that(1)], of "[]" "ThenInsert i e"] assms(4,5) that(2) by simp
  show ?thesis using ins rej rem rev_lookup(1) [OF core, of "reverse_key (rc_Remote p)"]
    by (fastforce simp: rev_create_insert_def split: option.splits)
qed

lemma rev_grows_helper [simp]:
  "length (rg_entries (rev_removeLocked e r)) = length (rg_entries r)"
  "length (rg_entries (start_removal e xs n r)) = length (rg_entries r)"
  "length (rg_entries (rev_insert i e r)) = length (rg_entries r)"
  "length (rg_entries (rev_removeLocked_end e err r)) = length (rg_entries r)"
  by (simp_all add: rev_removeLocked_def start_removal_def rev_insert_def rev_removeLocked_end_def split: option.split)

lemma close_returned_length [simp]: "length (rg_entries (snd (close_returned h err r))) = length (rg_entries r)"
  by (simp add: close_returned_def Let_def split: rev_after.split list.split)

lemma close_call_snd:
  "snd (close_call h r) =
     (if rv_closed (session_of r (rh_current h)) then snd (close_returned h None r)
      else set_session (rh_current h) rv_Close (r\<lparr>rg_lock := Some (h\<lparr>rh_waiting := True\<rparr>)\<rparr>))"
  by (simp add: close_call_def)

lemma close_return_step:
  assumes "rev_step (RevCloseReturn t) r = Some (x, r')"
  shows "\<exists>h err. rg_lock r = Some h \<and> rh_waiting h \<and> rv_done (session_of r (rh_current h)) \<noteq> [] \<and> r' = snd (close_returned h err r)"
  using assms by (auto simp: case_prod_beta split: option.splits if_splits list.splits)

lemma rev_step_grows:
  assumes "rev_step ev r = Some (x, r')"
  shows "length (rg_entries r) \<le> length (rg_entries r')"
proof (cases ev)
  case (RevCloseReturn t)
  with assms close_return_step [of t r x r'] show ?thesis by auto
next
  case RevCloseCall
  with assms obtain h where "rg_lock r = Some h" "r' = snd (close_call h r)" by (auto split: option.splits if_splits prod.splits)
  then show ?thesis by (simp add: close_call_snd)
qed (use assms in \<open>auto simp: rev_create_start_def rev_create_entry_def nextReverseID_def Let_def rev_create_register_def
    rev_create_insert_def reverse_remove_def reverse_removeAll_def
    split: option.splits if_splits list.splits prod.splits rev_creating.splits sum.splits\<close>)

lemma removeAll_rev_ok:
  assumes "rev_ok r" "rg_lock r = None"
  shows "rev_ok (reverse_removeAll r)"
proof (cases "map snd (rg_byID r)")
  case (Cons e rest)
  have core: "rev_core r" using assms(1) by (simp add: rev_ok_def)
  have "distinct (e # rest)" using registered_list [OF core_table [OF core]] Cons by simp
  moreover have "\<forall>x \<in> set (e # rest). in_table (rg_byID r) x" unfolding Cons [symmetric] by (simp add: in_table_def)
  ultimately show ?thesis using start_removal_ok(1) [OF core, of e rest] Cons by (simp add: reverse_removeAll_def)
qed (use assms in \<open>simp add: reverse_removeAll_def\<close>)

lemma rev_step_ok:
  assumes "rev_step ev r = Some (x, r')" "rev_ok r" "length (rg_entries r) < 2 ^ 64"
  shows "rev_ok r'"
proof -
  have core: "rev_core r" using assms(2) by (simp add: rev_ok_def)
  show ?thesis
  proof (cases ev)
    case (RevCreate p)
    then show ?thesis using assms create_start_rev_ok by (auto split: if_splits)
  next
    case (RevConnect i b)
    then show ?thesis using assms create_connect_ok by (auto split: if_splits rev_creating.splits)
  next
    case (RevEntry i now)
    then show ?thesis using assms create_entry_rev_ok(1) by (auto split: if_splits rev_creating.splits prod.splits)
  next
    case (RevRegister i c handle)
    then show ?thesis using assms create_register_ok(1) by (auto split: if_splits rev_creating.splits)
  next
    case (RevInsert i)
    then show ?thesis using assms create_insert_rev_ok by (auto split: if_splits rev_creating.splits)
  next
    case (RevRemove p)
    moreover have "rev_ok (start_removal e [] (ThenReturn 1) r)" if "map_of (rg_byID r) i = Some e" for i e
      using start_removal_ok(1) [OF core rev_lookup(2) [OF core that]] by simp
    ultimately show ?thesis using assms(1,2)
      by (auto simp: reverse_remove_def Let_def split: if_splits option.splits prod.splits)
  next
    case RevRemoveAll
    then show ?thesis using assms removeAll_rev_ok by (auto split: if_splits)
  next
    case RevCloseCall
    with assms(1) obtain h where h: "rg_lock r = Some h" "r' = snd (close_call h r)" by (auto split: option.splits if_splits prod.splits)
    moreover have "after_ok K C (h\<lparr>rh_waiting := True\<rparr>) = after_ok K C h" for K C
      by (simp add: after_ok_def split: rev_after.split)
    ultimately show ?thesis using close_returned_ok(1) [OF assms(2) h(1) assms(3)] assms(2)
      by (auto simp: close_call_snd rev_ok_def lock_ok_def)
  next
    case (RevCloseReturn t)
    with assms(1) close_return_step [of t r x r'] obtain h err where "rg_lock r = Some h" "r' = snd (close_returned h err r)"
      by auto
    then show ?thesis using close_returned_ok(1) [OF assms(2) _ assms(3)] by simp
  next
    case (RevSession e ev)
    with assms(1) obtain s where "r' = set_session e (\<lambda>_. s) (r\<lparr>rg_calls := rg_calls r @ new_calls e ev (session_of r e) s\<rparr>)"
      by (auto split: if_splits option.splits)
    moreover have "rviews (r\<lparr>rg_calls := y\<rparr>) = rviews r" for y by (simp add: rviews_def)
    ultimately show ?thesis using assms(2) by (simp add: rev_ok_def rev_core_def)
  next
    case (RevCallback k t)
    with assms(1) obtain e cb where "rg_lock r = None" "r' = run_callback e cb t (r\<lparr>rg_calls := take k (rg_calls r) @ drop (Suc k) (rg_calls r)\<rparr>)"
      by (auto split: if_splits prod.splits)
    moreover have "rviews (r\<lparr>rg_calls := y\<rparr>) = rviews r" for y by (simp add: rviews_def)
    then have "rev_ok (r\<lparr>rg_calls := y\<rparr>)" for y using assms(2) by (simp add: rev_ok_def rev_core_def)
    ultimately show ?thesis using assms(3) by (simp add: callback_ok)
  qed
qed

interpretation rev: machine rev_step rev_inv
proof
  fix r ev x r'
  assume "rev_inv r" "rev_step ev r = Some (x, r')"
  with rev_step_ok [of ev r x r'] rev_step_grows [of ev r x r'] show "rev_inv r'" by (auto simp: rev_inv_def)
qed

lemma rev_inv_new: "rev_inv newReverseRegistry"
  by (simp add: rev_inv_def rev_ok_def rev_core_def lock_ok_def rev_reg_ok_def rcreates_ok_def newReverseRegistry_def rviews_def in_table_def)

lemma rev_reachable_ok:
  assumes "run rev_step es newReverseRegistry = Some (xs, r)" "length (rg_entries r) < 2 ^ 64"
  shows "rev_ok r"
  using rev.run_invar [OF rev_inv_new assms(1)] assms(2) by (simp add: rev_inv_def)

lemma rev_diagnose_fold:
  assumes "\<forall>v \<in> set vs. r_State v \<in> {ReverseStateListening, ReverseStateDegraded}"
  shows "rd_Total (fold rev_diagnose vs d) = rd_Total d \<and>
    rd_Listening (fold rev_diagnose vs d) + rd_Degraded (fold rev_diagnose vs d) = rd_Listening d + rd_Degraded d + length vs"
  using assms
proof (induction vs arbitrary: d)
  case (Cons v vs)
  have "rd_Total (rev_diagnose v d) = rd_Total d \<and>
    rd_Listening (rev_diagnose v d) + rd_Degraded (rev_diagnose v d) = Suc (rd_Listening d + rd_Degraded d)"
    using Cons.prems by (auto simp: rev_diagnose_def Let_def)
  with Cons.IH [of "rev_diagnose v d"] Cons.prems show ?case by simp
qed simp

lemma rev_entry:
  assumes "rev_core r" "map_of (rg_byID r) i = Some e"
  shows "e < length (rg_entries r)" "rev_id r e = i" "map_of (rg_byRemote r) (rev_key r e) = Some i"
    "re_session (rg_entries r ! e) \<noteq> None"
    "r_State (re_reverse (rg_entries r ! e)) = ReverseStateListening \<or>
       r_State (re_reverse (rg_entries r ! e)) = ReverseStateDegraded \<and> r_LastError (re_reverse (rg_entries r ! e)) \<noteq> []"
proof -
  note t = table_lookup(1) [OF core_table [OF assms(1)] assms(2)]
  have e: "e < length (rg_entries r)" "live_view (rviews r ! e)" using core_registered [OF assms(1)] t by auto
  show "e < length (rg_entries r)" "rev_id r e = i" "map_of (rg_byRemote r) (rev_key r e) = Some i"
    using e(1) t by (simp_all add: rev_ids)
  show "re_session (rg_entries r ! e) \<noteq> None"
    "r_State (re_reverse (rg_entries r ! e)) = ReverseStateListening \<or>
       r_State (re_reverse (rg_entries r ! e)) = ReverseStateDegraded \<and> r_LastError (re_reverse (rg_entries r ! e)) \<noteq> []"
    using e by (auto simp: rviews_nth entry_view_def)
qed

text \<open>C8: over every interleaving of calls, session goroutines and callbacks, and with fewer than \<open>2 ^ 64\<close> reverses
  created, the registry never dereferences a missing entry, its tables by ID and by device endpoint are inverse to each
  other, every registered reverse has a session and is listening, or degraded with an error text, and the
  diagnostics count every reverse once.\<close>

theorem reverse_registry_invariant:
  assumes "run rev_step es newReverseRegistry = Some (xs, r)" "length (rg_entries r) < 2 ^ 64"
  shows "\<not> rg_panicked r \<and>
    (\<forall>i e. map_of (rg_byID r) i = Some e \<longrightarrow>
       (let v = re_reverse (rg_entries r ! e) in
        r_ID v = i \<and> map_of (rg_byRemote r) (reverse_key (r_Remote v)) = Some i \<and> re_session (rg_entries r ! e) \<noteq> None \<and>
        (r_State v = ReverseStateListening \<or> r_State v = ReverseStateDegraded \<and> r_LastError v \<noteq> []))) \<and>
    (\<forall>k i. map_of (rg_byRemote r) k = Some i \<longrightarrow> (\<exists>e. map_of (rg_byID r) i = Some e \<and> rev_key r e = k)) \<and>
    (let d = reverse_diagnostics r in rd_Total d = length (reverse_list r) \<and> rd_Total d = rd_Listening d + rd_Degraded d)"
proof -
  have core: "rev_core r" using rev_reachable_ok [OF assms] by (simp add: rev_ok_def)
  note reg = rev_entry [OF core]
  have "\<exists>e. map_of (rg_byID r) i = Some e \<and> rev_key r e = k" if "map_of (rg_byRemote r) k = Some i" for k i
  proof -
    from rev_lookup(1) [OF core that] obtain e where e: "map_of (rg_byID r) i = Some e" "v_key (rviews r) e = k" by blast
    with rev_ids(2) [OF reg(1) [OF e(1)]] show ?thesis by simp
  qed
  moreover have "r_State v \<in> {ReverseStateListening, ReverseStateDegraded}" if "v \<in> set (reverse_list r)" for v
  proof -
    from that obtain i e where "(i, e) \<in> set (rg_byID r)" "v = re_reverse (rg_entries r ! e)" by (auto simp: reverse_list_def)
    moreover have "distinct (map fst (rg_byID r))" using core by (simp add: rev_core_def table_ok_def)
    ultimately show ?thesis using reg(5) by (metis insertCI map_of_is_SomeI)
  qed
  then have "let d = reverse_diagnostics r in rd_Total d = length (reverse_list r) \<and> rd_Total d = rd_Listening d + rd_Degraded d"
    using rev_diagnose_fold [of "reverse_list r"] by (simp add: reverse_diagnostics_def Let_def reverse_list_def)
  ultimately show ?thesis using core reg by (auto simp: Let_def rev_core_def)
qed

section \<open>Removal against a callback\<close>

text \<open>The holder of the lock waits in \<open>session.Close\<close> for a bridge whose callback waits for the lock.\<close>

definition deadlocked :: "nat \<Rightarrow> nat \<Rightarrow> reverseRegistry \<Rightarrow> bool" where
  "deadlocked e i r \<longleftrightarrow> (\<exists>h cb. rg_lock r = Some h \<and> rh_waiting h \<and> rh_current h = e \<and> (e, i, cb) \<in> set (rg_calls r)) \<and>
     e < length (rg_entries r) \<and> re_session (rg_entries r ! e) \<noteq> None \<and> rv_done (session_of r e) = []"

lemma session_of_set:
  "e < length (rg_entries r) \<Longrightarrow> re_session (rg_entries r ! e) \<noteq> None \<Longrightarrow>
     session_of (set_session x h r) e = (if x = e then h (session_of r e) else session_of r e)"
  by (auto simp: session_of_def set_session_def nth_upd)

lemma session_step_done: "reverse_step ev s = Some (u, s') \<Longrightarrow> ev \<noteq> RvCloseEnd \<Longrightarrow> rv_done s' = rv_done s"
  by (cases ev) (auto simp: startBridge_def handleStream_step_def set_rstage_def addBridge_def removeBridge_def notifyActive_def
      rv_Close_def rv_Close_cleanup_def Let_def split: if_splits rstage.splits prod.splits)

lemma deadlock_step:
  assumes "deadlocked e i r" "rev_step ev r = Some (x, r')"
  shows "deadlocked e i r'"
proof -
  from assms(1) obtain h cb where h: "rg_lock r = Some h" "rh_waiting h" "rh_current h = e" "(e, i, cb) \<in> set (rg_calls r)"
    and e: "e < length (rg_entries r)" "re_session (rg_entries r ! e) \<noteq> None" "rv_done (session_of r e) = []"
    by (auto simp: deadlocked_def)
  show ?thesis
  proof (cases ev)
    case (RevSession y sev)
    with assms(2) obtain s where s: "session_enabled y sev r" "reverse_step sev (session_of r y) = Some ((), s)"
      "r' = set_session y (\<lambda>_. s) (r\<lparr>rg_calls := rg_calls r @ new_calls y sev (session_of r y) s\<rparr>)"
      by (auto split: if_splits option.splits)
    have "sev \<noteq> RvCloseEnd" if "y = e" using s(1) h(4) that by (auto simp: session_enabled_def list_ex_iff)
    then have "y = e \<Longrightarrow> rv_done s = []" using session_step_done [OF s(2)] e(3) by simp
    moreover have "session_of (r\<lparr>rg_calls := c\<rparr>) e = session_of r e" for c by (simp add: session_of_def)
    moreover have "re_session (rg_entries r' ! e) \<noteq> None" using s(3) e by (simp add: set_session_def nth_upd)
    ultimately show ?thesis using s(3) h e unfolding deadlocked_def by (simp add: session_of_set) blast
  next
    case (RevRegister j c handle)
    with assms(2) obtain p remote local y where "r' = rev_create_register j p remote local y c handle r"
      by (auto split: if_splits rev_creating.splits)
    then show ?thesis using h e
      by (auto simp: deadlocked_def rev_create_register_def ReverseTCPWithOptions_def new_reverse_def session_of_def client_close_def nth_upd
          split: option.splits prod.splits sum.splits if_splits)
  next
    case (RevConnect j b)
    with assms(2) h e show ?thesis by (auto simp: deadlocked_def session_of_def split: if_splits rev_creating.splits)
  next
    case (RevCloseReturn t)
    with assms(2) close_return_step [of t r x r'] h e show ?thesis by auto
  qed (use assms(2) h in \<open>auto split: if_splits\<close>)
qed

interpretation deadlock: machine rev_step "deadlocked e i" for e i
  by unfold_locales (rule deadlock_step)

definition sample_reverse :: ReverseCreateParams where
  "sample_reverse = \<lparr>rc_Remote = \<lparr>rr_Service = ''tcp:1''\<rparr>, rc_Local = \<lparr>rl_Service = ''tcp:2''\<rparr>,
     rc_Target = \<lparr>ft_Transport = ''tcp'', ft_Address = ''h:1''\<rparr>, rc_Norebind = False\<rparr>"

definition sample_device :: device where
  "sample_device = \<lparr>dv_answers = [Inr (\<lparr>rd_data = [], rd_end = EOF\<rparr>, [])], dv_log = []\<rparr>"

text \<open>A reverse is registered.\<close>

definition sample_registered :: "rev_event list" where
  "sample_registered = [RevCreate sample_reverse, RevConnect 0 True, RevEntry 0 [], RevRegister 0 (Some sample_device) None, RevInsert 0]"

lemma sample_reverse_valid: "validateReverseCreateParams sample_reverse = None"
  by code_simp

lemma sample_connect: "rev_create_connect sample_reverse True = RevConnected sample_reverse sample_remote sample_host"
  by code_simp

lemma sample_rc [simp]: "rc_Norebind sample_reverse = False" "reverse_key (rc_Remote sample_reverse) = ''tcp:1''"
  "rr_Service (rc_Remote sample_reverse) = ''tcp:1''"
  by (simp_all add: sample_reverse_def reverse_key_def)

lemma sample_session:
  "\<exists>c. ReverseTCPWithOptions (Some sample_device) None None sample_remote sample_host b True = (Inr (new_reverse sample_remote sample_host True c), c)"
  by (simp add: ReverseTCP_outcome [where r = "\<lparr>rd_data = [], rd_end = EOF\<rparr>" and sc = "[]" and as = "[]"] sample_remote_def
      sample_host_def sample_device_def Let_def)

lemmas rev_run = rev_create_start_def sample_reverse_valid newReverseRegistry_def rev_create_entry_def nextReverseID_def sample_connect
  rev_create_register_def rev_create_insert_def rev_insert_def set_rcreate_def set_rentry_def session_of_def session_enabled_def
  set_session_def set_reverse_def Let_def

lemma sample_registered_run:
  "\<exists>xs r c. run rev_step sample_registered newReverseRegistry = Some (xs, r) \<and> rg_byID r = [(counted_id ''rev_'' 1, 0)] \<and>
     rg_byRemote r = [(''tcp:1'', counted_id ''rev_'' 1)] \<and> rg_lock r = None \<and> rg_calls r = [] \<and> rg_panicked r = False \<and> rg_nextID r = 1 \<and>
     (\<exists>v cl. rg_entries r = [\<lparr>re_reverse = v, re_client = cl, re_session = Some (new_reverse sample_remote sample_host True c)\<rparr>] \<and>
       r_ID v = counted_id ''rev_'' 1 \<and> reverse_key (r_Remote v) = ''tcp:1'')"
proof -
  obtain c where "ReverseTCPWithOptions (Some sample_device) None None sample_remote sample_host False True =
      (Inr (new_reverse sample_remote sample_host True c), c)" using sample_session by blast
  then show ?thesis by (auto simp: sample_registered_def rev_run)
qed

theorem reverse_registry_invariant_witness:
  "\<exists>xs r. run rev_step sample_registered newReverseRegistry = Some (xs, r) \<and> rd_Total (reverse_diagnostics r) = 1 \<and>
     rd_Listening (reverse_diagnostics r) + rd_Degraded (reverse_diagnostics r) = 1"
proof -
  obtain xs r where r: "run rev_step sample_registered newReverseRegistry = Some (xs, r)" "rg_byID r = [(counted_id ''rev_'' 1, 0)]"
    "length (rg_entries r) = 1" using sample_registered_run by (metis length_Cons list.size(3) One_nat_def)
  then have "length (reverse_list r) = 1" by (simp add: reverse_list_def)
  with reverse_registry_invariant [OF r(1)] r show ?thesis by (auto simp: Let_def)
qed



section \<open>A degraded reverse\<close>

definition worn :: "nat \<Rightarrow> reverseRegistry \<Rightarrow> bool" where
  "worn e r \<longleftrightarrow> e < length (rg_entries r) \<and> (\<forall>c \<in> set (rg_creates r). e \<notin> making c) \<and>
     (in_table (rg_byID r) e \<longrightarrow> fst (snd (snd (rviews r ! e))) = ReverseStateDegraded)"

lemma worn_cong:
  assumes "worn e r" "length (rg_entries r') = length (rg_entries r)" "\<And>c. c \<in> set (rg_creates r') \<Longrightarrow> making c = {} \<or> c \<in> set (rg_creates r)"
    and "in_table (rg_byID r') e \<Longrightarrow> in_table (rg_byID r) e \<and> rviews r' ! e = rviews r ! e"
  shows "worn e r'"
  using assms by (auto simp: worn_def)

lemma worn_removal:
  assumes "worn e r" "rev_core r" "in_table (rg_byID r) x"
  shows "worn e (start_removal x rest next r)"
proof -
  have x: "x < length (rg_entries r)" using core_registered [OF assms(2,3)] by simp
  show ?thesis
    using removeLocked_core(2) [OF assms(2,3), of e] removeLocked_views [OF x]
    by (intro worn_cong [OF assms(1)]) (auto simp: start_removal_def)
qed

lemma worn_insert:
  assumes "worn e r" "i < length (rg_creates r)" "rg_creates r ! i = RevInserting p x" "in_table (rg_byID (rev_insert i x r)) e \<Longrightarrow> in_table (rg_byID r) e \<or> e = x"
  shows "worn e (rev_insert i x r)"
proof -
  have "RevInserting p x \<in> set (rg_creates r)" using assms(2,3) by (metis nth_mem)
  then have "e \<noteq> x" using assms(1) by (auto simp: worn_def making_def)
  then show ?thesis using assms(4) set_update_subset_insert [of "rg_creates r" i "RevCreateDone (Inr (re_reverse (rg_entries r ! x)))"]
    by (intro worn_cong [OF assms(1)]) (auto simp: rev_insert_def rviews_def making_def)
qed

lemma insert_table: "in_table (rg_byID (rev_insert i x r)) e \<Longrightarrow> in_table (rg_byID r) e \<or> e = x"
proof -
  have "in_table (AList.update k x B) e \<Longrightarrow> in_table B e \<or> e = x" for k and B :: "(string \<times> nat) list"
    by (induction B) (auto simp: in_table_def split: if_splits)
  then show "in_table (rg_byID (rev_insert i x r)) e \<Longrightarrow> in_table (rg_byID r) e \<or> e = x" by (simp add: rev_insert_def)
qed

lemma worn_returned:
  assumes "worn e r" "rev_ok r" "rg_lock r = Some h"
  shows "worn e (snd (close_returned h err r))"
proof -
  let ?x = "rh_current h" and ?r = "rev_removeLocked_end (rh_current h) err r"
  have core: "rev_core r" and h: "?x < length (rg_entries r)" "\<not> in_table (rg_byID r) ?x" "\<forall>x \<in> set (rh_rest h). in_table (rg_byID r) x"
    and aft: "after_ok (rg_byRemote r) (rg_creates r) h"
    using assms(2,3) by (auto simp: rev_ok_def lock_ok_def)
  have fin: "worn e ?r \<and> rev_core ?r \<and> rg_creates ?r = rg_creates r \<and> rg_byID ?r = rg_byID r" if "\<forall>c \<in> set (rg_creates r). ?x \<notin> making c"
  proof -
    note f = removal_end_core [OF core h(1,2) that]
    have "worn e ?r" using f(2,4,5) f(6) [of e] h(2) by (intro worn_cong [OF assms(1)]) auto
    with f(1,2,4) show ?thesis by simp
  qed
  show ?thesis
  proof (cases "rh_after h")
    case (ThenReject i y)
    have "worn e (set_rcreate i (RevCreateDone z) (set_session ?x f (client_close ?x (r\<lparr>rg_lock := None\<rparr>))))" for z f
      using set_update_subset_insert [of "rg_creates r" i "RevCreateDone z"]
        rviews_cong [of "set_rcreate i (RevCreateDone z) (set_session ?x f (client_close ?x (r\<lparr>rg_lock := None\<rparr>)))"
          "set_session ?x f (client_close ?x (r\<lparr>rg_lock := None\<rparr>))"]
      by (intro worn_cong [OF assms(1)]) (auto simp: making_def)
    with ThenReject show ?thesis by (simp add: close_returned_def Let_def)
  next
    case (ThenReturn n)
    with aft fin have f: "worn e ?r" "rev_core ?r" "rg_byID ?r = rg_byID r" by (auto simp: after_ok_def)
    have "worn e (?r\<lparr>rg_lock := None\<rparr>)" by (rule worn_cong [OF f(1)]) auto
    with ThenReturn f h(3) worn_removal [OF f(1,2)] show ?thesis by (auto simp: close_returned_def Let_def split: list.split)
  next
    case (ThenConnect p)
    with aft fin have f: "worn e ?r" "rh_rest h = []" by (auto simp: after_ok_def)
    have "worn e (?r\<lparr>rg_lock := None, rg_creates := rg_creates ?r @ [RevConnecting p]\<rparr>)"
      by (rule worn_cong [OF f(1)]) (auto simp: rviews_def making_def)
    with ThenConnect f show ?thesis by (simp add: close_returned_def Let_def)
  next
    case (ThenInsert i y)
    with aft fin obtain p where f: "worn e ?r" "rh_rest h = []" "i < length (rg_creates ?r)" "rg_creates ?r ! i = RevInserting p y"
      by (auto simp: after_ok_def)
    have "worn e (?r\<lparr>rg_lock := None\<rparr>)" by (rule worn_cong [OF f(1)]) auto
    from worn_insert [OF this, of i p y, OF _ _ insert_table] f ThenInsert show ?thesis by (simp add: close_returned_def Let_def)
  qed
qed

lemma worn_step:
  assumes "worn e r" "rev_ok r" "length (rg_entries r) < 2 ^ 64" "rev_step ev r = Some (x, r')"
  shows "worn e r'"
proof -
  have core: "rev_core r" using assms(2) by (simp add: rev_ok_def)
  have keep: "worn e (r\<lparr>rg_creates := rg_creates r @ [c]\<rparr>)" if "making c = {}" for c
    by (rule worn_cong [OF assms(1)]) (use that in \<open>auto simp: rviews_def\<close>)
  have set: "worn e (set_rcreate i c r0)" if "worn e r0" "making c = {}" for i c r0
    using that set_update_subset_insert [of "rg_creates r0" i c] rviews_cong [of "set_rcreate i c r0" r0]
    by (intro worn_cong [OF that(1)]) auto
  have rem: "worn e (start_removal y rest n r)" if "map_of (rg_byID r) i = Some y" for y rest n i
    by (rule worn_removal [OF assms(1) core rev_lookup(2) [OF core that]])
  have same: "worn e (r\<lparr>rg_panicked := True\<rparr>)" "worn e (r\<lparr>rg_calls := y\<rparr>)" "worn e (hold z [] n r)" for y z n
    by (rule worn_cong [OF assms(1)]; auto simp: rviews_def hold_def)+
  show ?thesis
  proof (cases ev)
    case (RevCreate p)
    then show ?thesis using assms(4) keep rem same
      by (auto simp: rev_create_start_def making_def split: if_splits option.splits)
  next
    case (RevConnect i b)
    moreover have "making (rev_create_connect p b) = {}" for p
      by (simp add: rev_create_connect_def making_def split: sum.split)
    ultimately show ?thesis using assms(1,4) set by (auto split: if_splits rev_creating.splits)
  next
    case (RevEntry i now)
    with assms(4) obtain p remote local y r1 where s: "rev_create_entry p now r = (y, r1)"
      "r' = set_rcreate i (RevRegistering p remote local y) r1"
      by (auto split: if_splits rev_creating.splits prod.splits)
    have "y = length (rg_entries r)" "rg_creates r' = (rg_creates r)[i := RevRegistering p remote local y]" "rg_byID r' = rg_byID r"
      "\<exists>v. rg_entries r' = rg_entries r @ [v]"
      using s by (auto simp: rev_create_entry_def nextReverseID_def Let_def)
    then show ?thesis using assms(1) set_update_subset_insert [of "rg_creates r" i "RevRegistering p remote local y"]
      by (auto simp: worn_def making_def rviews_def nth_append)
  next
    case (RevRegister i c handle)
    with assms(4) obtain p remote local y where s: "i < length (rg_creates r)" "rg_creates r ! i = RevRegistering p remote local y"
      "r' = rev_create_register i p remote local y c handle r"
      by (auto split: if_splits rev_creating.splits)
    then have "RevRegistering p remote local y \<in> set (rg_creates r)" by (metis nth_mem)
    then have "y \<noteq> e" using assms(1) by (auto simp: worn_def making_def)
    then have "worn e (set_rcreate i (RevInserting p y) (set_rentry y h r))" for h
      using assms(1) set_update_subset_insert [of "rg_creates r" i "RevInserting p y"]
      by (auto simp: worn_def making_def rviews_def nth_upd)
    moreover have "worn e (client_close y r)" by (rule worn_cong [OF assms(1)]) auto
    then have "worn e (set_rcreate i (RevCreateDone z) (client_close y r))" for z by (rule set) (simp add: making_def)
    ultimately show ?thesis using s by (auto simp: rev_create_register_def split: prod.splits sum.splits)
  next
    case (RevInsert i)
    with assms(4) obtain p y where s: "i < length (rg_creates r)" "rg_creates r ! i = RevInserting p y" "r' = rev_create_insert i p y r"
      by (auto split: if_splits rev_creating.splits)
    then show ?thesis using worn_insert [OF assms(1) s(1,2) insert_table] rem same
      by (auto simp: rev_create_insert_def split: option.splits)
  next
    case (RevRemove p)
    then show ?thesis using assms(1,4) rem by (auto simp: reverse_remove_def Let_def split: if_splits option.splits prod.splits)
  next
    case RevRemoveAll
    moreover have "worn e (start_removal y rest n r)" if "map snd (rg_byID r) = y # rest" for y rest n
    proof -
      have "in_table (rg_byID r) y" using that by (cases "rg_byID r") (auto simp: in_table_def)
      then show ?thesis by (rule worn_removal [OF assms(1) core])
    qed
    ultimately show ?thesis using assms(1,4) by (auto simp: reverse_removeAll_def split: if_splits list.splits)
  next
    case RevCloseCall
    with assms(4) obtain h where h: "rg_lock r = Some h" "r' = snd (close_call h r)" by (auto split: option.splits if_splits prod.splits)
    moreover have "worn e (set_session y f (r\<lparr>rg_lock := l\<rparr>))" for y f l by (rule worn_cong [OF assms(1)]) auto
    ultimately show ?thesis using worn_returned [OF assms(1,2) h(1)] by (simp add: close_call_snd)
  next
    case (RevCloseReturn t)
    with assms(4) close_return_step [of t r x r'] worn_returned [OF assms(1,2)] show ?thesis by auto
  next
    case (RevSession y sev)
    with assms(4) obtain s where "r' = set_session y (\<lambda>_. s) (r\<lparr>rg_calls := rg_calls r @ new_calls y sev (session_of r y) s\<rparr>)"
      by (auto split: if_splits option.splits)
    moreover have "worn e (set_session y f r0)" if "worn e r0" for f r0 by (rule worn_cong [OF that]) auto
    ultimately show ?thesis using same(2) by blast
  next
    case (RevCallback k t)
    then obtain y cb calls where s: "r' = run_callback y cb t (r\<lparr>rg_calls := calls\<rparr>)"
      using assms(4) by (auto split: if_splits prod.splits)
    let ?r = "r\<lparr>rg_calls := calls\<rparr>"
    have v: "rev_core ?r" "worn e ?r" "length (rg_entries ?r) < 2 ^ 64" using core same(2) assms(3) by (simp_all add: rev_core_def rviews_def)
    have "rviews r' = rviews ?r \<or> (\<exists>m. rviews r' = show_state y ReverseStateDegraded m (rviews ?r))"
      using callback_effect(1) [OF v(1,3)] callback_effect(2) [OF v(1,3), of y "''host dial failed: '' @ t"]
      unfolding s run_callback_def by (cases cb) auto
    moreover have "e < length (rviews r)" using assms(1) by (simp add: worn_def)
    ultimately show ?thesis using v(2) unfolding worn_def s callback_frame
      by (auto simp: show_state_def nth_upd)
  qed
qed

text \<open>A reverse that was degraded by one failed connection to the host stays degraded as long as it is registered, whatever
  happens later: \<open>recordReverseActive\<close> only resets the state when there is no error text, and the text is
  never cleared.\<close>

theorem reverse_degraded_is_final:
  assumes "run rev_step es newReverseRegistry = Some (xs, r)" "map_of (rg_byID r) i = Some e"
    and "r_State (re_reverse (rg_entries r ! e)) = ReverseStateDegraded"
    and "run rev_step es' r = Some (xs', r')" "length (rg_entries r') < 2 ^ 64" "map_of (rg_byID r') i' = Some e"
  shows "r_State (re_reverse (rg_entries r' ! e)) = ReverseStateDegraded"
proof -
  have mono: "length (rg_entries s) \<le> length (rg_entries s')" if "run rev_step fs s = Some (ys, s')" for fs ys s s'
    using that by (induction fs arbitrary: s ys) (auto simp: run_Cons_Some simp del: run.simps(2) dest!: rev_step_grows intro: order_trans)
  have "length (rg_entries r) < 2 ^ 64" using mono [OF assms(4)] assms(5) by simp
  then have ok: "rev_ok r" by (rule rev_reachable_ok [OF assms(1)])
  then have core: "rev_core r" by (simp add: rev_ok_def)
  note e = rev_entry(1) [OF core assms(2)]
  have "in_table (rg_byID r) e" using rev_lookup(2) [OF core assms(2)] .
  then have "\<forall>c \<in> set (rg_creates r). e \<notin> making c" using making_mem rcreates_mem core by (metis rev_core_def)
  then have "worn e r" using e assms(3) by (simp add: worn_def rviews_nth entry_view_def)
  then have "worn e r' \<and> rev_ok r'" using assms(4,5) ok
  proof (induction es' arbitrary: r xs')
    case (Cons ev fs)
    then obtain y ys s where s: "rev_step ev r = Some (y, s)" "run rev_step fs s = Some (ys, r')"
      by (auto simp: run_Cons_Some simp del: run.simps)
    have "length (rg_entries r) < 2 ^ 64" using mono [OF s(2)] rev_step_grows [OF s(1)] Cons.prems(3) by simp
    with Cons.IH [OF worn_step [OF Cons.prems(1,4) _ s(1)] s(2) Cons.prems(3) rev_step_ok [OF s(1) Cons.prems(4)]] show ?case by simp
  qed simp
  then have "in_table (rg_byID r') e \<longrightarrow> fst (snd (snd (rviews r' ! e))) = ReverseStateDegraded" "e < length (rg_entries r')" "rev_core r'"
    by (auto simp: worn_def rev_ok_def)
  with assms(6) rev_lookup(2) show ?thesis by (simp add: rviews_nth entry_view_def)
qed

theorem reverse_degraded_is_final_witness:
  "\<exists>xs r xs' r'. run rev_step (sample_registered @ [RevSession 0 RvOpen, RevSession 0 (RvBridge 0 False), RevCallback 0 ''x'']) newReverseRegistry
       = Some (xs, r) \<and>
     run rev_step [RevSession 0 RvOpen, RevSession 0 (RvBridge 1 True), RevSession 0 (RvBridge 1 True), RevCallback 0 []] r = Some (xs', r') \<and>
     r_ActiveConnections (re_reverse (rg_entries r' ! 0)) = 1 \<and> r_State (re_reverse (rg_entries r' ! 0)) = ReverseStateDegraded"
proof -
  let ?tl = "[RevSession 0 RvOpen, RevSession 0 (RvBridge 0 False), RevCallback 0 ''x'']"
  let ?es = "[RevSession 0 RvOpen, RevSession 0 (RvBridge 1 True), RevSession 0 (RvBridge 1 True), RevCallback 0 []]"
  obtain ys q c v cl where q: "run rev_step sample_registered newReverseRegistry = Some (ys, q)" "rg_byID q = [(counted_id ''rev_'' 1, 0)]"
    "rg_lock q = None" "rg_calls q = []"
    "rg_entries q = [\<lparr>re_reverse = v, re_client = cl, re_session = Some (new_reverse sample_remote sample_host True c)\<rparr>]"
    "r_ID v = counted_id ''rev_'' 1" using sample_registered_run by blast
  note defs = rev_run startBridge_def handleStream_step_def set_rstage_def addBridge_def notifyActive_def new_reverse_def
        new_calls_def run_callback_def recordReverseError_def recordReverseActive_def
  have "\<exists>zs r. run rev_step ?tl q = Some (zs, r) \<and> rg_byID r = rg_byID q \<and> length (rg_entries r) = 1 \<and>
      r_State (re_reverse (rg_entries r ! 0)) = ReverseStateDegraded \<and>
      (\<exists>xs' r'. run rev_step ?es r = Some (xs', r') \<and> rg_byID r' = rg_byID q \<and> length (rg_entries r') = 1 \<and>
         r_ActiveConnections (re_reverse (rg_entries r' ! 0)) = 1)"
    by (simp add: q defs)
  then obtain zs r xs' r' where r: "run rev_step ?tl q = Some (zs, r)" "rg_byID r = rg_byID q"
      "r_State (re_reverse (rg_entries r ! 0)) = ReverseStateDegraded" "run rev_step ?es r = Some (xs', r')" "rg_byID r' = rg_byID q"
      "length (rg_entries r') = 1" "r_ActiveConnections (re_reverse (rg_entries r' ! 0)) = 1" by blast
  have run: "run rev_step (sample_registered @ ?tl) newReverseRegistry = Some (ys @ zs, r)"
    using q(1) r(1) by (simp add: run_append del: run.simps)
  from reverse_degraded_is_final [OF run _ r(3,4), of "counted_id ''rev_'' 1" "counted_id ''rev_'' 1"] r q
  have "r_State (re_reverse (rg_entries r' ! 0)) = ReverseStateDegraded" by simp
  with run r show ?thesis by blast
qed

end
