(* ===== verification/Server.thy ===== *)
theory Server
  imports ServerForwardProps ServerReverseProps GoPath
begin

text \<open>
  The server: \<open>internal/server/server_unix.go\<close>, \<open>path_unix.go\<close>, \<open>client.go\<close> and \<open>cmd/adb-gos/main.go\<close>.
  A request names a command; its raw parameters are known by what \<open>json.Unmarshal\<close> makes of them for each
  parameter type. What a registry call meets outside the program is an argument: what \<open>net.Listen\<close>
  reports, and what a call of the reverse registry returns when it returns.
\<close>

section \<open>Requests\<close>

definition CommandPing :: string where "CommandPing = ''ping''"
definition CommandStatus :: string where "CommandStatus = ''status''"
definition CommandShutdown :: string where "CommandShutdown = ''shutdown''"
definition CommandDeviceList :: string where "CommandDeviceList = ''device_list''"
definition CommandDeviceRegister :: string where "CommandDeviceRegister = ''device_register''"
definition CommandForwardCreate :: string where "CommandForwardCreate = ''forward_create''"
definition CommandForwardList :: string where "CommandForwardList = ''forward_list''"
definition CommandForwardRemove :: string where "CommandForwardRemove = ''forward_remove''"
definition CommandForwardRemoveAll :: string where "CommandForwardRemoveAll = ''forward_remove_all''"
definition CommandReverseCreate :: string where "CommandReverseCreate = ''reverse_create''"
definition CommandReverseList :: string where "CommandReverseList = ''reverse_list''"
definition CommandReverseRemove :: string where "CommandReverseRemove = ''reverse_remove''"
definition CommandReverseRemoveAll :: string where "CommandReverseRemoveAll = ''reverse_remove_all''"

lemmas command_defs = CommandPing_def CommandStatus_def CommandShutdown_def CommandDeviceList_def CommandDeviceRegister_def
  CommandForwardCreate_def CommandForwardList_def CommandForwardRemove_def CommandForwardRemoveAll_def
  CommandReverseCreate_def CommandReverseList_def CommandReverseRemove_def CommandReverseRemoveAll_def

record raw_message =
  as_device_register :: "DeviceRegisterParams raw_params"
  as_forward_create :: "ForwardCreateParams raw_params"
  as_forward_remove :: "ForwardRemoveParams raw_params"
  as_reverse_create :: "ReverseCreateParams raw_params"
  as_reverse_remove :: "ReverseRemoveParams raw_params"

record Request =
  rq_Version :: int
  rq_ID :: string
  rq_Command :: string
  rq_Params :: raw_message

datatype result =
    ResMessage string
  | ResStatus string ForwardDiagnostics ReverseDiagnostics
  | ResDevices "Device list"
  | ResDevice Device
  | ResForward Forward
  | ResForwards "Forward list"
  | ResReverse Reverse
  | ResReverses "Reverse list"
  | ResRemoved nat

record Response =
  rs_Version :: int
  rs_ID :: string
  rs_OK :: bool
  rs_Result :: "result option"
  rs_Error :: "error_code option"

section \<open>The server\<close>

record Server =
  sv_socketPath :: string
  sv_listener :: "bool option" \<comment> \<open>nil, or whether it is open\<close>
  sv_forwards :: forwardRegistry
  sv_reverses :: reverseRegistry
  sv_devices :: deviceRegistry
  sv_shutdown :: bool \<comment> \<open>\<open>shutdownOnce\<close> has run\<close>
  sv_done :: bool

datatype server_error =
    SocketEnvRelative
  | SocketNotAbsolute
  | MkdirFailed
  | InspectFailed
  | NotASocket
  | AlreadyRunning
  | IncompatibleListener
  | RemoveStaleFailed
  | ListenFailed
  | NotListening
  | AcceptFailed
  | CloseFailed
  | RemoveFailed

definition EnvSocket :: string where "EnvSocket = ''ADB_GO_SERVER_SOCKET''"

text \<open>\<open>getenv\<close> is empty for a variable that is not set.\<close>

definition DefaultSocketPath :: "(string \<Rightarrow> string) \<Rightarrow> string \<Rightarrow> nat \<Rightarrow> server_error + string" where
  "DefaultSocketPath getenv tempDir uid =
     (if getenv EnvSocket \<noteq> [] then
        if \<not> IsAbs (getenv EnvSocket) then Inl SocketEnvRelative else Inr (getenv EnvSocket)
      else if getenv ''XDG_RUNTIME_DIR'' \<noteq> [] \<and> IsAbs (getenv ''XDG_RUNTIME_DIR'')
        then Inr (PathJoin [getenv ''XDG_RUNTIME_DIR'', ''adb-go'', ''adb-gos.sock''])
      else Inr (PathJoin [tempDir, ''adb-go-'' @ FormatUint uid, ''adb-gos.sock'']))"

definition NewServer :: "(string \<Rightarrow> string) \<Rightarrow> string \<Rightarrow> nat \<Rightarrow> string \<Rightarrow> server_error + Server" where
  "NewServer getenv tempDir uid optPath =
     (case (if optPath = [] then DefaultSocketPath getenv tempDir uid else Inr optPath) of
        Inl e \<Rightarrow> Inl e
      | Inr path \<Rightarrow>
          if \<not> IsAbs path then Inl SocketNotAbsolute
          else Inr \<lparr>sv_socketPath = path, sv_listener = None, sv_forwards = newForwardRegistry, sv_reverses = newReverseRegistry,
                    sv_devices = newDeviceRegistry, sv_shutdown = False, sv_done = False\<rparr>)"

text \<open>What is at the socket path; and what dialing, sending the request and reading the response of \<open>Send\<close> give.\<close>

datatype path_state = PathAbsent | PathSocket | PathOther | PathUnreadable

datatype send_error = DialFailed | WriteRequestFailed | ReadResponseFailed

definition Send :: "bool \<Rightarrow> bool \<Rightarrow> Response option \<Rightarrow> send_error + Response" where
  "Send dialed written answer =
     (if \<not> dialed then Inl DialFailed
      else if \<not> written then Inl WriteRequestFailed
      else case answer of None \<Rightarrow> Inl ReadResponseFailed | Some resp \<Rightarrow> Inr resp)"

record socket_env =
  se_path :: path_state
  se_ping :: "send_error + Response" \<comment> \<open>what \<open>Ping\<close> returns within the 200 ms of \<open>probeContext\<close>\<close>
  se_removable :: bool
  se_mkdir :: bool
  se_listen :: bool

definition prepareSocketPath :: "socket_env \<Rightarrow> server_error option \<times> socket_env" where
  "prepareSocketPath env =
     (case se_path env of
        PathAbsent \<Rightarrow> (None, env)
      | PathUnreadable \<Rightarrow> (Some InspectFailed, env)
      | PathOther \<Rightarrow> (Some NotASocket, env)
      | PathSocket \<Rightarrow>
          (case se_ping env of
             Inr resp \<Rightarrow> (Some (if rs_Version resp = ProtocolVersion then AlreadyRunning else IncompatibleListener), env)
           | Inl _ \<Rightarrow>
               if \<not> se_removable env then (Some RemoveStaleFailed, env) else (None, env\<lparr>se_path := PathAbsent\<rparr>)))"

definition Listen :: "socket_env \<Rightarrow> Server \<Rightarrow> server_error option \<times> socket_env \<times> Server" where
  "Listen env s =
     (if \<not> se_mkdir env then (Some MkdirFailed, env, s)
      else case prepareSocketPath env of
          (Some e, env) \<Rightarrow> (Some e, env, s)
        | (None, env) \<Rightarrow>
            if \<not> se_listen env then (Some ListenFailed, env, s)
            else (None, env\<lparr>se_path := PathSocket\<rparr>, s\<lparr>sv_listener := Some True\<rparr>))"

text \<open>An accept error ends \<open>Serve\<close>; \<open>isClosed\<close> is \<open>errors.Is(err, net.ErrClosed)\<close>.\<close>

definition Serve_start :: "Server \<Rightarrow> server_error option" where
  "Serve_start s = (if sv_listener s = None then Some NotListening else None)"

definition Serve_end :: "bool \<Rightarrow> Server \<Rightarrow> server_error option" where
  "Serve_end isClosed s = (if isClosed then None else if sv_done s then None else Some AcceptFailed)"

section \<open>Handling a request\<close>

datatype reverse_call =
    CallReverseCreate ReverseCreateParams
  | CallReverseRemove ReverseRemoveParams
  | CallReverseRemoveAll

datatype reverse_reply = ReplyReverse Reverse | ReplyRemoved nat

record request_env =
  qe_listen :: "listen_err + string"
  qe_now :: string
  qe_reverse :: "reverse_call \<Rightarrow> reverseRegistry \<Rightarrow> (error_code + reverse_reply) \<times> reverseRegistry"

definition ok_with :: "result \<Rightarrow> Response \<Rightarrow> Response" where
  "ok_with res resp = resp\<lparr>rs_OK := True, rs_Result := Some res\<rparr>"

definition fail_with :: "error_code \<Rightarrow> Response \<Rightarrow> Response" where
  "fail_with e resp = resp\<lparr>rs_Error := Some e\<rparr>"

fun result_of :: "reverse_reply \<Rightarrow> result" where
  "result_of (ReplyReverse v) = ResReverse v"
| "result_of (ReplyRemoved n) = ResRemoved n"

definition call_reverse :: "request_env \<Rightarrow> reverse_call \<Rightarrow> Response \<Rightarrow> Server \<Rightarrow> Response \<times> Server" where
  "call_reverse env call resp s =
     (case qe_reverse env call (sv_reverses s) of
        (Inl e, r) \<Rightarrow> (fail_with e resp, s\<lparr>sv_reverses := r\<rparr>)
      | (Inr reply, r) \<Rightarrow> (ok_with (result_of reply) resp, s\<lparr>sv_reverses := r\<rparr>))"

definition handleRequest :: "request_env \<Rightarrow> Request \<Rightarrow> Server \<Rightarrow> Response \<times> Server" where
  "handleRequest env req s =
     (let resp = \<lparr>rs_Version = ProtocolVersion, rs_ID = rq_ID req, rs_OK = False, rs_Result = None, rs_Error = None\<rparr>;
          cmd = rq_Command req in
      if cmd = [] then (fail_with ErrorBadRequest resp, s)
      else if rq_Version req \<noteq> ProtocolVersion then (fail_with ErrorUnsupportedVersion resp, s)
      else if cmd = CommandPing then (ok_with (ResMessage ''pong'') resp, s)
      else if cmd = CommandStatus then
        (ok_with (ResStatus (sv_socketPath s) (forward_diagnostics (sv_forwards s)) (reverse_diagnostics (sv_reverses s))) resp, s)
      else if cmd = CommandShutdown then (ok_with (ResMessage ''shutting_down'') resp, s)
      else if cmd = CommandDeviceList then (ok_with (ResDevices (device_list (sv_devices s))) resp, s)
      else if cmd = CommandDeviceRegister then
        (case decodeDeviceRegisterParams (as_device_register (rq_Params req)) of
           Inl e \<Rightarrow> (fail_with e resp, s)
         | Inr p \<Rightarrow>
             (case device_register p (sv_devices s) of
                (Inl e, d) \<Rightarrow> (fail_with e resp, s\<lparr>sv_devices := d\<rparr>)
              | (Inr dev, d) \<Rightarrow> (ok_with (ResDevice dev) resp, s\<lparr>sv_devices := d\<rparr>)))
      else if cmd = CommandForwardCreate then
        (case decodeForwardCreateParams (as_forward_create (rq_Params req)) of
           Inl e \<Rightarrow> (fail_with e resp, s)
         | Inr p \<Rightarrow>
             (case forward_create (qe_listen env) (qe_now env) p (sv_forwards s) of
                (Inl e, r) \<Rightarrow> (fail_with e resp, s\<lparr>sv_forwards := r\<rparr>)
              | (Inr f, r) \<Rightarrow> (ok_with (ResForward f) resp, s\<lparr>sv_forwards := r\<rparr>)))
      else if cmd = CommandForwardList then (ok_with (ResForwards (forward_list (sv_forwards s))) resp, s)
      else if cmd = CommandForwardRemove then
        (case decodeForwardRemoveParams (as_forward_remove (rq_Params req)) of
           Inl e \<Rightarrow> (fail_with e resp, s)
         | Inr p \<Rightarrow>
             (case forward_remove p (sv_forwards s) of
                (Inl e, r) \<Rightarrow> (fail_with e resp, s\<lparr>sv_forwards := r\<rparr>)
              | (Inr n, r) \<Rightarrow> (ok_with (ResRemoved n) resp, s\<lparr>sv_forwards := r\<rparr>)))
      else if cmd = CommandForwardRemoveAll then
        (case forward_removeAll (sv_forwards s) of (n, r) \<Rightarrow> (ok_with (ResRemoved n) resp, s\<lparr>sv_forwards := r\<rparr>))
      else if cmd = CommandReverseCreate then
        (case decodeReverseCreateParams (as_reverse_create (rq_Params req)) of
           Inl e \<Rightarrow> (fail_with e resp, s)
         | Inr p \<Rightarrow> call_reverse env (CallReverseCreate p) resp s)
      else if cmd = CommandReverseList then (ok_with (ResReverses (reverse_list (sv_reverses s))) resp, s)
      else if cmd = CommandReverseRemove then
        (case decodeReverseRemoveParams (as_reverse_remove (rq_Params req)) of
           Inl e \<Rightarrow> (fail_with e resp, s)
         | Inr p \<Rightarrow> call_reverse env (CallReverseRemove p) resp s)
      else if cmd = CommandReverseRemoveAll then call_reverse env CallReverseRemoveAll resp s
      else (fail_with ErrorUnknownCommand resp, s))"

text \<open>\<open>handleConn\<close>: the response that is sent, and whether a shutdown is started. \<open>None\<close> is a request that is not JSON.\<close>

definition handleConn :: "request_env \<Rightarrow> Request option \<Rightarrow> Server \<Rightarrow> Response \<times> bool \<times> Server" where
  "handleConn env decoded s =
     (case decoded of
        None \<Rightarrow>
          (\<lparr>rs_Version = ProtocolVersion, rs_ID = [], rs_OK = False, rs_Result = None, rs_Error = Some ErrorBadRequest\<rparr>, False, s)
      | Some req \<Rightarrow>
          (case handleRequest env req s of (resp, s') \<Rightarrow>
             (resp, rq_Version req = ProtocolVersion \<and> rq_Command req = CommandShutdown \<and> rs_OK resp, s')))"

text \<open>\<open>Shutdown\<close>; \<open>closeErr\<close> and \<open>removeErr\<close> say whether closing the listener and removing the socket fail,
  \<open>closed\<close> is the reverse registry when its \<open>close\<close> returns. Closing a Unix listener removes its socket file.\<close>

definition Shutdown :: "bool \<Rightarrow> bool \<Rightarrow> path_state \<Rightarrow> reverseRegistry \<Rightarrow> Server \<Rightarrow> server_error option \<times> Server" where
  "Shutdown closeErr removeErr path closed s =
     (if sv_shutdown s then (None, s)
      else
        let err = (case sv_listener s of None \<Rightarrow> None | Some _ \<Rightarrow> if closeErr then Some CloseFailed else None);
            err' = (if path = PathSocket \<and> removeErr \<and> err = None then Some RemoveFailed else err) in
        (err', s\<lparr>sv_listener := map_option (\<lambda>_. False) (sv_listener s), sv_forwards := registry_close (sv_forwards s),
                 sv_reverses := closed, sv_shutdown := True, sv_done := True\<rparr>))"

text \<open>\<open>run\<close> of \<open>cmd/adb-gos\<close>, its exit status: \<open>parsed\<close> is the socket flag and the number of other arguments, if the flags
  parse; \<open>serve\<close> is how \<open>Serve\<close> ended.\<close>

definition gos_run ::
  "(string \<Rightarrow> string) \<Rightarrow> string \<Rightarrow> nat \<Rightarrow> socket_env \<Rightarrow> (string \<times> nat) option \<Rightarrow> server_error option \<Rightarrow> nat" where
  "gos_run getenv tempDir uid env parsed serve =
     (case parsed of
        None \<Rightarrow> 2
      | Some (socketPath, narg) \<Rightarrow>
          if narg \<noteq> 0 then 2
          else case NewServer getenv tempDir uid socketPath of
              Inl _ \<Rightarrow> 1
            | Inr srv \<Rightarrow>
                (case Listen env srv of
                   (Some _, _) \<Rightarrow> 1
                 | (None, _, s) \<Rightarrow>
                     (case Serve_start s of Some _ \<Rightarrow> 1 | None \<Rightarrow> (case serve of Some _ \<Rightarrow> 1 | None \<Rightarrow> 0))))"

section \<open>Responses\<close>

definition well_formed :: "Request \<Rightarrow> Response \<Rightarrow> bool" where
  "well_formed req resp \<longleftrightarrow> rs_Version resp = ProtocolVersion \<and> rs_ID resp = rq_ID req \<and>
     (rs_OK resp \<longleftrightarrow> rs_Error resp = None) \<and> (rs_OK resp \<longleftrightarrow> rs_Result resp \<noteq> None)"

text \<open>Every branch of \<open>handleRequest\<close> ends in a result or in an error.\<close>

definition answers :: "Request \<Rightarrow> Response \<times> Server \<Rightarrow> bool" where
  "answers req x \<longleftrightarrow> well_formed req (fst x)"

abbreviation blank :: "Request \<Rightarrow> Response" where
  "blank req \<equiv> \<lparr>rs_Version = ProtocolVersion, rs_ID = rq_ID req, rs_OK = False, rs_Result = None, rs_Error = None\<rparr>"

lemma answers_intros:
  "answers req (ok_with res (blank req), s)" "answers req (fail_with e (blank req), s)"
  "answers req x \<Longrightarrow> answers req y \<Longrightarrow> answers req (if b then x else y)"
  "(\<And>e. answers req (f e)) \<Longrightarrow> (\<And>v. answers req (g v)) \<Longrightarrow> answers req (case_sum f g z)"
  "(\<And>v w. answers req (k v w)) \<Longrightarrow> answers req (case_prod k p)"
  by (auto simp: answers_def well_formed_def ok_with_def fail_with_def split: sum.split prod.split)

definition changing :: "string set" where
  "changing = {CommandDeviceRegister, CommandForwardCreate, CommandForwardRemove, CommandForwardRemoveAll,
     CommandReverseCreate, CommandReverseRemove, CommandReverseRemoveAll}"

text \<open>C26: every response has the protocol version, the ID of its request, and either a result or an error, with \<open>OK\<close> saying
  which; a request of another version gets an error, and it and every request that only reads leave the server as it
  was.\<close>

theorem handleRequest_responses:
  "well_formed req (fst (handleRequest env req s)) \<and>
   (rq_Version req \<noteq> ProtocolVersion \<or> rq_Command req = [] \<longrightarrow> \<not> rs_OK (fst (handleRequest env req s))) \<and>
   (rq_Version req \<noteq> ProtocolVersion \<or> rq_Command req \<notin> changing \<longrightarrow> snd (handleRequest env req s) = s)"
proof -
  have "answers req (handleRequest env req s)"
    unfolding handleRequest_def Let_def call_reverse_def by (intro answers_intros)
  then have "well_formed req (fst (handleRequest env req s))" by (simp add: answers_def)
  moreover have "rq_Version req \<noteq> ProtocolVersion \<or> rq_Command req = [] \<Longrightarrow> \<not> rs_OK (fst (handleRequest env req s))"
    by (auto simp: handleRequest_def Let_def fail_with_def)
  moreover have "rq_Version req \<noteq> ProtocolVersion \<or> rq_Command req \<notin> changing \<Longrightarrow> snd (handleRequest env req s) = s"
    unfolding handleRequest_def Let_def changing_def by (elim disjE) simp_all
  ultimately show ?thesis by blast
qed

definition sample_request :: Request where
  "sample_request = \<lparr>rq_Version = 2, rq_ID = ''a'', rq_Command = ''forward_remove_all'',
     rq_Params = \<lparr>as_device_register = RawMissing, as_forward_create = RawMissing, as_forward_remove = RawMissing,
       as_reverse_create = RawMissing, as_reverse_remove = RawMissing\<rparr>\<rparr>"

definition sample_env :: request_env where
  "sample_env = \<lparr>qe_listen = Inl ListenOther, qe_now = [], qe_reverse = (\<lambda>_ r. (Inl ErrorReverseNotFound, r))\<rparr>"

theorem handleRequest_responses_witness:
  "snd (handleRequest sample_env sample_request \<lparr>sv_socketPath = [], sv_listener = None, sv_forwards = newForwardRegistry,
      sv_reverses = newReverseRegistry, sv_devices = [], sv_shutdown = False, sv_done = False\<rparr>) =
     \<lparr>sv_socketPath = [], sv_listener = None, sv_forwards = newForwardRegistry,
      sv_reverses = newReverseRegistry, sv_devices = [], sv_shutdown = False, sv_done = False\<rparr>"
  using handleRequest_responses [of sample_request sample_env "\<lparr>sv_socketPath = [], sv_listener = None, sv_forwards = newForwardRegistry,
      sv_reverses = newReverseRegistry, sv_devices = [], sv_shutdown = False, sv_done = False\<rparr>"]
  by (simp add: sample_request_def ProtocolVersion_def)

section \<open>The socket\<close>

text \<open>The server starts exactly when the socket directory can be made and either nothing is at the path or a socket is there
  on which no ping is answered in time and which can be removed: it takes over the path of a server that is only
  slow, but never that of one that answers, nor a path that is not a socket.\<close>

theorem Listen_takes_over_iff:
  "fst (Listen env s) = None \<longleftrightarrow> se_mkdir env \<and> se_listen env \<and>
     (se_path env = PathAbsent \<or> se_path env = PathSocket \<and> se_removable env \<and> (\<exists>e. se_ping env = Inl e))"
  by (cases "se_path env"; cases "se_ping env") (auto simp: Listen_def prepareSocketPath_def)

lemma DefaultSocketPath_absolute:
  assumes "DefaultSocketPath getenv tempDir uid = Inr path" "IsAbs tempDir"
  shows "IsAbs path"
  using assms by (auto simp: DefaultSocketPath_def PathJoin_abs split: if_splits)

section \<open>Shutdown\<close>

lemma registry_close_effect:
  assumes "fwd_ok r"
  shows "fr_byID (registry_close r) = []" "fr_byLocal (registry_close r) = []"
    "map_of (fr_byID r) i = Some e \<Longrightarrow> \<not> ln_open (fr_listeners (registry_close r) ! fe_listener (fr_entries r ! e))"
proof -
  from removeAll_effect [OF assms] obtain r' where r': "registry_close r = r'" "fr_byID r' = []" "fr_byLocal r' = []"
    "\<forall>e. in_table (fr_byID r) e \<longrightarrow> \<not> ln_open (fr_listeners r' ! lst (skels r) e)" by (auto simp: registry_close_def)
  then show "fr_byID (registry_close r) = []" "fr_byLocal (registry_close r) = []" by simp_all
  show "map_of (fr_byID r) i = Some e \<Longrightarrow> \<not> ln_open (fr_listeners (registry_close r) ! fe_listener (fr_entries r ! e))"
    using r'(1,4) entry_registered(1,7) [OF assms] view_nth(1) by force
qed



end
