(* ===== verification/ServerLife.thy ===== *)
theory ServerLife
  imports Server
begin

text \<open>
  The server process over time: \<open>Serve\<close> with its accept loop, a goroutine of \<open>handleConn\<close> for each client, the goroutines
  that call \<open>Shutdown\<close> after an interrupt or a shutdown request, the parts of \<open>Shutdown\<close>, and the accept loops and bridges of
  the forwards, in every interleaving.
\<close>

section \<open>A call of create and its parts\<close>

text \<open>\<open>forward_create\<close>, the call with nothing interleaved, is a run of the parts of \<open>create\<close>; the system gives
  out an address only when no open listener has it.\<close>

definition listen_possible :: "listen_err + string \<Rightarrow> ForwardCreateParams \<Rightarrow> forwardRegistry \<Rightarrow> bool" where
  "listen_possible res p r =
     (case res of Inl _ \<Rightarrow> True | Inr addr \<Rightarrow> address_free addr (snd (create_start p r)))"

definition create_parts :: "listen_err + string \<Rightarrow> string \<Rightarrow> ForwardCreateParams \<Rightarrow> forwardRegistry \<Rightarrow> fwd_event list" where
  "create_parts res now p r =
     (let i = length (fr_creates r) in
      if (case create_start p r of (Inl _, _) \<Rightarrow> True | _ \<Rightarrow> False) then [CreateCall p]
      else case res of
          Inl _ \<Rightarrow> [CreateCall p, CreateListen i res]
        | Inr _ \<Rightarrow> [CreateCall p, CreateListen i res, CreateEntry i now, CreateInsert i])"

definition with_call :: "(error_code + Forward) \<Rightarrow> forwardRegistry \<Rightarrow> forwardRegistry" where
  "with_call x r = r\<lparr>fr_creates := fr_creates r @ [CreateDone x]\<rparr>"

text \<open>No part of a call looks at the calls in progress.\<close>

abbreviation calls :: "creating list \<Rightarrow> forwardRegistry \<Rightarrow> forwardRegistry" where
  "calls C r \<equiv> r\<lparr>fr_creates := C\<rparr>"

lemma updates_calls:
  "set_entry e h (calls C r) = calls C (set_entry e h r)" "set_conn c g (calls C r) = calls C (set_conn c g r)"
  "listener_close l (calls C r) = calls C (listener_close l r)"
  by (simp_all add: set_entry_def set_conn_def listener_close_def)

lemma close_active_calls: "close_active cs (calls C r) = calls C (close_active cs r)"
  by (induction cs arbitrary: r) (simp_all add: close_active_def updates_calls)

lemma calls_frame:
  "fr_entries (calls C r) = fr_entries r" "fr_byID (calls C r) = fr_byID r" "fr_byLocal (calls C r) = fr_byLocal r"
  "(calls C r)\<lparr>fr_byID := B, fr_byLocal := K\<rparr> = calls C (r\<lparr>fr_byID := B, fr_byLocal := K\<rparr>)"
  by simp_all

lemma removeLocked_calls: "removeLocked e (calls C r) = calls C (removeLocked e r)"
  unfolding removeLocked_def set_forward_def calls_frame updates_calls close_active_calls ..

lemma displace_calls: "displace k nb (calls C r) = apsnd (calls C) (displace k nb r)"
  by (simp add: displace_def removeLocked_calls split: option.split)

lemma create_entry_calls: "create_entry p l now (calls C r) = apsnd (calls C) (create_entry p l now r)"
  by (simp add: create_entry_def nextForwardID_def Let_def)

lemma create_insert_calls: "create_insert p e (calls C r) = apsnd (calls C) (create_insert p e r)"
proof -
  let ?r = "if map_of (fr_byLocal r) (entry_key r e) = None then r else listener_close (fe_listener (fr_entries r ! e)) r"
  let ?ins = "\<lambda>r. set_entry e (\<lambda>x. x\<lparr>fe_started := True\<rparr>) (r\<lparr>fr_byID := AList.update (entry_id r e) e (fr_byID r),
      fr_byLocal := AList.update (entry_key r e) (entry_id r e) (fr_byLocal r)\<rparr>)"
  obtain x r1 where d: "displace (entry_key r e) (fc_Norebind p) ?r = (x, r1)" by (metis surj_pair)
  have "(if map_of (fr_byLocal r) (entry_key r e) = None then calls C r
      else listener_close (fe_listener (fr_entries r ! e)) (calls C r)) = calls C ?r" by (simp add: updates_calls)
  moreover have "displace (entry_key r e) (fc_Norebind p) (calls C ?r) = (x, calls C r1)" by (simp only: displace_calls d apsnd_conv)
  moreover have "?ins (calls C r1) = calls C (?ins r1)" unfolding calls_frame updates_calls ..
  ultimately show ?thesis
    unfolding create_insert_def Let_def calls_frame by (simp only: d prod.case) (cases x; simp)
qed

lemma displace_keeps_calls: "fr_creates (snd (displace k nb r)) = fr_creates r"
  by (simp add: displace_def split: option.split)

lemma create_start_keeps_calls: "fr_creates (snd (create_start p r)) = fr_creates r"
  by (simp add: create_start_def displace_keeps_calls split: option.split)

lemma create_entry_keeps_calls: "fr_creates (snd (create_entry p l now r)) = fr_creates r"
  by (simp add: create_entry_def nextForwardID_def Let_def)

lemma create_insert_keeps_calls: "fr_creates (snd (create_insert p e r)) = fr_creates r"
proof -
  let ?r = "if map_of (fr_byLocal r) (entry_key r e) = None then r else listener_close (fe_listener (fr_entries r ! e)) r"
  obtain x r1 where d: "displace (entry_key r e) (fc_Norebind p) ?r = (x, r1)" by (metis surj_pair)
  then have "fr_creates r1 = fr_creates r" using displace_keeps_calls [of "entry_key r e" "fc_Norebind p" ?r] by (simp split: if_splits)
  with d show ?thesis by (cases x) (simp_all add: create_insert_def Let_def)
qed

text \<open>A call of \<open>create\<close> that nothing interrupts is the run of its parts, its locked sections, the call of
  \<open>net.Listen\<close> between them and the start of the accept loop: the parts return what the call returns and leave the
  registry as the call leaves it, with one more call that has returned.\<close>

lemma run_create_parts:
  assumes "listen_possible res p r"
  shows "\<exists>xs. run fwd_step (create_parts res now p r) r =
    Some (xs, with_call (fst (forward_create res now p r)) (snd (forward_create res now p r)))"
proof -
  obtain x r1 where st: "create_start p r = (x, r1)" by (metis surj_pair)
  have C: "fr_creates r1 = fr_creates r" using create_start_keeps_calls [of p r] st by simp
  let ?i = "length (fr_creates r)"
  show ?thesis
  proof (cases x)
    case (Inl e)
    with st C show ?thesis by (simp add: create_parts_def forward_create_def with_call_def)
  next
    case (Inr u)
    note st = st [unfolded Inr]
    show ?thesis
    proof (cases res)
      case (Inl err)
      with st C show ?thesis
        by (simp add: create_parts_def forward_create_def create_listen_def with_call_def set_create_def nth_append)
    next
      case (Inr addr)
      let ?l = "length (fr_listeners r1)" and ?r2 = "r1\<lparr>fr_listeners := fr_listeners r1 @ [\<lparr>ln_addr = addr, ln_open = True\<rparr>]\<rparr>"
      obtain e r3 where en: "create_entry p ?l now ?r2 = (e, r3)" by (metis surj_pair)
      obtain y r4 where ins: "create_insert p e r3 = (y, r4)" by (metis surj_pair)
      have C3: "fr_creates r3 = fr_creates r" using create_entry_keeps_calls [of p ?l now ?r2] en C by simp
      have C4: "fr_creates r4 = fr_creates r" using create_insert_keeps_calls [of p e r3] ins C3 by simp
      have free: "address_free addr (calls D r1)" for D using assms st Inr by (simp add: listen_possible_def address_free_def)
      have s1: "fwd_step (CreateCall p) r = Some (None, calls (fr_creates r @ [ListenFor p]) r1)" using st C by simp
      have s2: "fwd_step (CreateListen ?i res) (calls (fr_creates r @ [ListenFor p]) r1)
          = Some (None, calls (fr_creates r @ [AllocateFor p ?l]) ?r2)"
        using free by (simp add: Inr create_listen_def nth_append set_create_def)
      have s3: "fwd_step (CreateEntry ?i now) (calls (fr_creates r @ [AllocateFor p ?l]) ?r2)
          = Some (None, calls (fr_creates r @ [InsertFor p e]) r3)"
        by (simp add: nth_append create_entry_calls en set_create_def)
      have s4: "fwd_step (CreateInsert ?i) (calls (fr_creates r @ [InsertFor p e]) r3)
          = Some (None, calls (fr_creates r @ [CreateDone y]) r4)"
        by (simp add: nth_append create_insert_calls ins set_create_def)
      have "forward_create res now p r = (y, r4)"
        using st en ins by (simp add: forward_create_def create_listen_def Inr)
      moreover have "create_parts res now p r = [CreateCall p, CreateListen ?i res, CreateEntry ?i now, CreateInsert ?i]"
        using st by (simp add: create_parts_def Inr Let_def)
      ultimately show ?thesis using s1 s2 s3 s4 C4 by (simp add: with_call_def del: fwd_step.simps)
    qed
  qed
qed

lemma creates_butlast: "creates_ok S L (C @ [c]) \<Longrightarrow> creates_ok S L C"
proof -
  have n: "i < length C \<Longrightarrow> (C @ [c]) ! i = C ! i \<and> i < length (C @ [c])" for i by (simp add: nth_append)
  show "creates_ok S L (C @ [c]) \<Longrightarrow> creates_ok S L C" unfolding creates_ok_def using n by metis
qed

lemma fwd_ok_without_call: "fwd_ok (with_call x r) \<Longrightarrow> fwd_ok r"
proof -
  assume ok: "fwd_ok (with_call x r)"
  have v: "skels (with_call x r) = skels r" "eview (with_call x r) = eview r" "cview (with_call x r) = cview r" "sview (with_call x r) = sview r"
    by (simp_all add: with_call_def skels_def eview_def cview_def sview_def)
  have "creates_ok (skels r) (fr_listeners r) (fr_creates r)" "unstarted_ok (sview r) (fr_creates r) (fr_byID r)"
    using ok creates_butlast [of "skels r" "fr_listeners r"] unfolding fwd_ok_def v by (auto simp: with_call_def unstarted_ok_def)
  then show ?thesis using ok unfolding fwd_ok_def v by (simp add: with_call_def)
qed

section \<open>The process\<close>

datatype serving = Accepting | Returned "server_error option"

datatype client_life = Waiting | Answered "Request option" Response

text \<open>Where the call that runs the body of \<open>shutdownOnce.Do\<close> is; the error is the one it will return.\<close>

datatype shut_stage = ShutIdle | AtListener | AtForwards "server_error option" | AtReverses "server_error option"
  | AtSocket "server_error option" | ShutOver "server_error option"

record server_life =
  lf_server :: Server
  lf_serve :: serving
  lf_clients :: "client_life list"
  lf_cancelled :: bool
  lf_calls :: nat \<comment> \<open>goroutines about to call \<open>Shutdown\<close>\<close>
  lf_shut :: shut_stage

definition serving_life :: "Server \<Rightarrow> server_life" where
  "serving_life s = \<lparr>lf_server = s, lf_serve = Accepting, lf_clients = [], lf_cancelled = False, lf_calls = 0, lf_shut = ShutIdle\<rparr>"

datatype life_event =
    ClientConnects
  | AcceptClosed
  | AcceptError
  | HandleClient nat request_env "Request option"
  | Interrupt
  | CallShutdown
  | ShutdownPart bool bool path_state reverseRegistry
  | ForwardStep fwd_event

text \<open>A request to create a forward meets a system that gives out no address twice.\<close>

definition request_possible :: "request_env \<Rightarrow> Request option \<Rightarrow> Server \<Rightarrow> bool" where
  "request_possible env decoded s =
     (case decoded of
        None \<Rightarrow> True
      | Some req \<Rightarrow>
          (case decodeForwardCreateParams (as_forward_create (rq_Params req)) of
             Inl _ \<Rightarrow> True
           | Inr p \<Rightarrow> listen_possible (qe_listen env) p (sv_forwards s)))"

text \<open>The parts of the body of \<open>Shutdown\<close>, in the order of the code; the last one closes \<open>done\<close>.\<close>

definition shutdown_part :: "bool \<Rightarrow> bool \<Rightarrow> path_state \<Rightarrow> reverseRegistry \<Rightarrow> server_life \<Rightarrow> server_life option" where
  "shutdown_part closeErr removeErr path closed l =
     (let s = lf_server l in
      case lf_shut l of
        ShutIdle \<Rightarrow> None
      | AtListener \<Rightarrow>
          Some (l\<lparr>lf_server := s\<lparr>sv_listener := map_option (\<lambda>_. False) (sv_listener s)\<rparr>,
                  lf_shut := AtForwards (case sv_listener s of None \<Rightarrow> None | Some _ \<Rightarrow> if closeErr then Some CloseFailed else None)\<rparr>)
      | AtForwards e \<Rightarrow> Some (l\<lparr>lf_server := s\<lparr>sv_forwards := registry_close (sv_forwards s)\<rparr>, lf_shut := AtReverses e\<rparr>)
      | AtReverses e \<Rightarrow> Some (l\<lparr>lf_server := s\<lparr>sv_reverses := closed\<rparr>, lf_shut := AtSocket e\<rparr>)
      | AtSocket e \<Rightarrow>
          Some (l\<lparr>lf_server := s\<lparr>sv_done := True\<rparr>,
                  lf_shut := ShutOver (if path = PathSocket \<and> removeErr \<and> e = None then Some RemoveFailed else e)\<rparr>)
      | ShutOver e \<Rightarrow> None)"

definition call_shutdown :: "server_life \<Rightarrow> server_life" where
  "call_shutdown l =
     (if sv_shutdown (lf_server l) then l\<lparr>lf_calls := lf_calls l - 1\<rparr>
      else l\<lparr>lf_calls := lf_calls l - 1, lf_server := (lf_server l)\<lparr>sv_shutdown := True\<rparr>, lf_shut := AtListener\<rparr>)"

definition handle_client :: "nat \<Rightarrow> request_env \<Rightarrow> Request option \<Rightarrow> server_life \<Rightarrow> server_life" where
  "handle_client c env decoded l =
     (case handleConn env decoded (lf_server l) of (resp, stop, s) \<Rightarrow>
        l\<lparr>lf_server := s, lf_clients := (lf_clients l)[c := Answered decoded resp], lf_calls := (if stop then lf_calls l + 1 else lf_calls l)\<rparr>)"

definition Serve_accept :: "life_event \<Rightarrow> server_life \<Rightarrow> server_life option" where
  "Serve_accept ev l =
     (if lf_serve l \<noteq> Accepting then None
      else case ev of
          ClientConnects \<Rightarrow> if sv_listener (lf_server l) = Some True then Some (l\<lparr>lf_clients := lf_clients l @ [Waiting]\<rparr>) else None
        | AcceptClosed \<Rightarrow>
            if sv_listener (lf_server l) = Some False then Some (l\<lparr>lf_serve := Returned (Serve_end True (lf_server l))\<rparr>) else None
        | AcceptError \<Rightarrow> Some (l\<lparr>lf_serve := Returned (Serve_end False (lf_server l))\<rparr>)
        | _ \<Rightarrow> None)"

fun life_step :: "life_event \<Rightarrow> server_life \<Rightarrow> (unit \<times> server_life) option" where
  "life_step (HandleClient c env decoded) l =
     (if c < length (lf_clients l) \<and> lf_clients l ! c = Waiting \<and> request_possible env decoded (lf_server l)
      then Some ((), handle_client c env decoded l) else None)"
| "life_step Interrupt l = (if lf_cancelled l then None else Some ((), l\<lparr>lf_cancelled := True, lf_calls := lf_calls l + 1\<rparr>))"
| "life_step CallShutdown l = (if lf_calls l = 0 then None else Some ((), call_shutdown l))"
| "life_step (ShutdownPart closeErr removeErr path closed) l = map_option (Pair ()) (shutdown_part closeErr removeErr path closed l)"
| "life_step (ForwardStep ev) l =
     (case fwd_step ev (sv_forwards (lf_server l)) of
        None \<Rightarrow> None
      | Some (_, r) \<Rightarrow> Some ((), l\<lparr>lf_server := (lf_server l)\<lparr>sv_forwards := r\<rparr>\<rparr>))"
| "life_step ev l = map_option (Pair ()) (Serve_accept ev l)"

section \<open>Why the server stops\<close>

definition shutdown_request :: "Request \<Rightarrow> bool" where
  "shutdown_request req \<longleftrightarrow> rq_Version req = ProtocolVersion \<and> rq_Command req = CommandShutdown"

definition asked :: "server_life \<Rightarrow> bool" where
  "asked l \<longleftrightarrow> lf_cancelled l \<or> (\<exists>req resp. Answered (Some req) resp \<in> set (lf_clients l) \<and> shutdown_request req)"

definition life_ok :: "server_life \<Rightarrow> bool" where
  "life_ok l \<longleftrightarrow> (sv_listener (lf_server l) = Some False \<or> sv_done (lf_server l) \<longrightarrow> sv_shutdown (lf_server l)) \<and>
     (lf_shut l \<noteq> ShutIdle \<longrightarrow> sv_shutdown (lf_server l)) \<and>
     (sv_shutdown (lf_server l) \<or> 0 < lf_calls l \<or> lf_serve l = Returned None \<longrightarrow> asked l) \<and>
     (\<forall>req resp. Answered (Some req) resp \<in> set (lf_clients l) \<longrightarrow> well_formed req resp) \<and>
     fwd_inv (sv_forwards (lf_server l))"

lemma forward_create_inv:
  assumes "fwd_inv r" "listen_possible res p r"
  shows "fwd_inv (snd (forward_create res now p r))"
proof -
  obtain x r' where c: "forward_create res now p r = (x, r')" by (metis surj_pair)
  have "fwd_inv (with_call x r')"
    using run_create_parts [OF assms(2), of now] by (elim exE) (drule fwd.run_invar [OF assms(1)], simp add: c)
  then show ?thesis using c fwd_ok_without_call [of x r'] by (simp add: fwd_inv_def) (simp add: with_call_def)
qed

lemma forward_remove_inv: "fwd_inv r \<Longrightarrow> fwd_inv (snd (forward_remove p r))" "fwd_inv r \<Longrightarrow> fwd_inv (snd (forward_removeAll r))"
  using fwd.step_invar [of r "RemoveCall p" "Some (fst (forward_remove p r))" "snd (forward_remove p r)"]
    fwd.step_invar [of r RemoveAllCall "Some (Inr (fst (forward_removeAll r)))" "snd (forward_removeAll r)"]
  by (simp_all add: case_prod_beta)

text \<open>What handling a request leaves alone.\<close>

definition kept :: "Server \<Rightarrow> Response \<times> Server \<Rightarrow> bool" where
  "kept s x \<longleftrightarrow> sv_listener (snd x) = sv_listener s \<and> sv_shutdown (snd x) = sv_shutdown s \<and> sv_done (snd x) = sv_done s \<and>
     fwd_inv (sv_forwards (snd x))"

lemma kept_if: "(b \<Longrightarrow> kept s x) \<Longrightarrow> (\<not> b \<Longrightarrow> kept s y) \<Longrightarrow> kept s (if b then x else y)"
  by simp

lemma handleRequest_keeps:
  assumes "fwd_inv (sv_forwards s)" "request_possible env (Some req) s"
  shows "kept s (handleRequest env req s)"
proof -
  have "fwd_inv r" if "decodeForwardCreateParams (as_forward_create (rq_Params req)) = Inr p"
      "forward_create (qe_listen env) (qe_now env) p (sv_forwards s) = (x, r)" for p x r
    using assms that forward_create_inv [of "sv_forwards s" "qe_listen env" p "qe_now env"] by (simp add: request_possible_def)
  moreover have "fwd_inv r" if "forward_remove p (sv_forwards s) = (x, r)" for p x r
    using forward_remove_inv(1) [OF assms(1), of p] that by simp
  moreover have "fwd_inv r" if "forward_removeAll (sv_forwards s) = (x, r)" for x r
    using forward_remove_inv(2) [OF assms(1)] that by simp
  ultimately show ?thesis
    unfolding handleRequest_def Let_def call_reverse_def
    by (intro kept_if) (auto simp: kept_def assms(1) split: sum.split prod.split)
qed

lemma handleRequest_responds: "well_formed req (fst (handleRequest env req s))"
proof -
  have "answers req (handleRequest env req s)"
    unfolding handleRequest_def Let_def call_reverse_def by (intro answers_intros)
  then show ?thesis by (simp add: answers_def)
qed

lemma handleConn_keeps:
  assumes "fwd_inv (sv_forwards s)" "request_possible env decoded s" "handleConn env decoded s = (resp, stop, s')"
  shows "sv_listener s' = sv_listener s" "sv_shutdown s' = sv_shutdown s" "sv_done s' = sv_done s" "fwd_inv (sv_forwards s')"
    "stop \<Longrightarrow> \<exists>req. decoded = Some req \<and> shutdown_request req" "decoded = Some req \<Longrightarrow> well_formed req resp"
proof -
  have "decoded = Some req \<Longrightarrow> well_formed req resp" for req
    using assms(3) handleRequest_responds [of req env s] by (auto simp: handleConn_def split: prod.splits)
  moreover have "sv_listener s' = sv_listener s \<and> sv_shutdown s' = sv_shutdown s \<and> sv_done s' = sv_done s \<and> fwd_inv (sv_forwards s') \<and>
     (stop \<longrightarrow> (\<exists>req. decoded = Some req \<and> shutdown_request req))"
  proof (cases decoded)
    case None
    with assms(1,3) show ?thesis by (auto simp: handleConn_def)
  next
    case (Some req)
    with assms(2) have "kept s (handleRequest env req s)" using handleRequest_keeps [OF assms(1)] by simp
    with Some assms(3) show ?thesis by (auto simp: handleConn_def kept_def shutdown_request_def split: prod.splits)
  qed
  ultimately show "sv_listener s' = sv_listener s" "sv_shutdown s' = sv_shutdown s" "sv_done s' = sv_done s" "fwd_inv (sv_forwards s')"
    "stop \<Longrightarrow> \<exists>req. decoded = Some req \<and> shutdown_request req" "decoded = Some req \<Longrightarrow> well_formed req resp"
    by simp_all
qed

lemma asked_grows:
  assumes "asked l" "lf_cancelled l \<Longrightarrow> lf_cancelled l'" "set (lf_clients l) - {Waiting} \<subseteq> set (lf_clients l')"
  shows "asked l'"
  using assms unfolding asked_def by blast

lemma asked_cong: "lf_cancelled l' = lf_cancelled l \<Longrightarrow> lf_clients l' = lf_clients l \<Longrightarrow> asked l' = asked l"
  by (simp add: asked_def)

lemma answered_keep:
  assumes "lf_clients l ! c = Waiting"
  shows "set (lf_clients l) - {Waiting} \<subseteq> set ((lf_clients l)[c := x])"
proof
  fix y assume "y \<in> set (lf_clients l) - {Waiting}"
  then obtain i where "i < length (lf_clients l)" "lf_clients l ! i = y" "y \<noteq> Waiting" by (auto simp: in_set_conv_nth)
  with assms have "(lf_clients l)[c := x] ! i = y" by (cases "i = c") simp_all
  with \<open>i < length (lf_clients l)\<close> show "y \<in> set ((lf_clients l)[c := x])" by (metis length_list_update nth_mem)
qed

lemma handle_client_ok:
  assumes "life_ok l" "c < length (lf_clients l)" "lf_clients l ! c = Waiting" "request_possible env decoded (lf_server l)"
  shows "life_ok (handle_client c env decoded l)"
proof -
  obtain resp stop s where h: "handleConn env decoded (lf_server l) = (resp, stop, s)" by (metis prod_cases3)
  note k = handleConn_keeps [OF _ assms(4) h]
  have inv: "fwd_inv (sv_forwards (lf_server l))" using assms(1) by (simp add: life_ok_def)
  let ?l = "handle_client c env decoded l"
  have l': "?l = l\<lparr>lf_server := s, lf_clients := (lf_clients l)[c := Answered decoded resp], lf_calls := (if stop then lf_calls l + 1 else lf_calls l)\<rparr>"
    by (simp add: handle_client_def h)
  have grow: "asked l \<Longrightarrow> asked ?l" by (rule asked_grows) (use answered_keep [OF assms(3)] in \<open>auto simp: l'\<close>)
  have new: "stop \<Longrightarrow> asked ?l"
    using k(5) [OF inv] set_update_memI [OF assms(2), of "Answered decoded resp"] by (auto simp: asked_def l')
  have "well_formed req r" if "Answered (Some req) r \<in> set (lf_clients ?l)" for req r
    using that set_update_subset_insert [of "lf_clients l" c "Answered decoded resp"] assms(1) k(6) [OF inv, of req]
    by (auto simp: l' life_ok_def)
  then show ?thesis using assms(1) k(1-4) [OF inv] grow new by (auto simp: life_ok_def l' split: if_splits)
qed

lemma call_shutdown_ok:
  assumes "life_ok l" "lf_calls l \<noteq> 0"
  shows "life_ok (call_shutdown l)"
proof -
  have "asked l" using assms by (simp add: life_ok_def)
  moreover have "asked (call_shutdown l) = asked l" by (simp add: asked_def call_shutdown_def)
  ultimately show ?thesis using assms by (simp add: life_ok_def call_shutdown_def split: if_splits)
qed

lemma shutdown_part_ok:
  assumes "life_ok l" "shutdown_part b1 b2 path closed l = Some l'"
  shows "life_ok l'"
proof -
  have sh: "sv_shutdown (lf_server l)" using assms by (auto simp: life_ok_def shutdown_part_def Let_def split: shut_stage.splits)
  have "asked l' = asked l"
    by (rule asked_cong) (use assms(2) in \<open>auto simp: shutdown_part_def Let_def split: shut_stage.splits\<close>)
  then show ?thesis
    using assms sh forward_remove_inv(2) [of "sv_forwards (lf_server l)"]
    by (auto simp: life_ok_def shutdown_part_def Let_def registry_close_def split: shut_stage.splits)
qed

lemma Serve_accept_ok:
  assumes "life_ok l" "Serve_accept ev l = Some l'"
  shows "life_ok l'"
proof -
  have same: "lf_cancelled l' = lf_cancelled l" "lf_server l' = lf_server l" "lf_shut l' = lf_shut l" "lf_calls l' = lf_calls l"
    "set (lf_clients l) \<subseteq> set (lf_clients l')" "set (lf_clients l') \<subseteq> insert Waiting (set (lf_clients l))"
    "lf_serve l' = Returned None \<Longrightarrow> sv_listener (lf_server l) = Some False \<or> sv_done (lf_server l)"
    using assms(2) by (auto simp: Serve_accept_def Serve_end_def split: if_splits life_event.splits)
  then have "asked l \<Longrightarrow> asked l'" by (elim asked_grows) auto
  moreover have "sv_shutdown (lf_server l) \<Longrightarrow> asked l" "0 < lf_calls l \<Longrightarrow> asked l"
    "lf_serve l' = Returned None \<Longrightarrow> sv_shutdown (lf_server l)"
    using assms(1) same(7) unfolding life_ok_def by blast+
  ultimately have "sv_shutdown (lf_server l) \<or> 0 < lf_calls l \<or> lf_serve l' = Returned None \<longrightarrow> asked l'" by blast
  moreover have "\<forall>req resp. Answered (Some req) resp \<in> set (lf_clients l') \<longrightarrow> well_formed req resp"
    using assms(1) same(6) by (auto simp: life_ok_def)
  ultimately show ?thesis using assms(1) unfolding life_ok_def same by blast
qed

lemma life_step_ok:
  assumes "life_ok l" "life_step ev l = Some (x, l')"
  shows "life_ok l'"
proof (cases ev)
  case (HandleClient c env decoded)
  with assms show ?thesis by (auto intro: handle_client_ok split: if_splits)
next
  case Interrupt
  with assms show ?thesis by (auto simp: life_ok_def asked_def split: if_splits)
next
  case (ForwardStep e)
  with assms(2) obtain y r where r: "fwd_step e (sv_forwards (lf_server l)) = Some (y, r)"
    "l' = l\<lparr>lf_server := (lf_server l)\<lparr>sv_forwards := r\<rparr>\<rparr>"
    by (auto simp del: fwd_step.simps split: option.splits)
  have "asked l' = asked l" by (simp add: r(2) asked_def)
  moreover have "fwd_inv r" using fwd.step_invar [OF _ r(1)] assms(1) by (simp add: life_ok_def)
  ultimately show ?thesis using assms(1) by (simp add: life_ok_def r(2))
qed (use assms in \<open>auto intro: call_shutdown_ok shutdown_part_ok Serve_accept_ok split: if_splits\<close>)

interpretation life: machine life_step life_ok
  by unfold_locales (rule life_step_ok)

lemma serving_life_ok:
  assumes "NewServer getenv tempDir uid optPath = Inr s0" "Listen env s0 = (None, env', s)"
  shows "life_ok (serving_life s)"
  using assms
  by (auto simp: life_ok_def serving_life_def NewServer_def Listen_def fwd_inv_new split: sum.splits if_splits prod.splits option.splits)

text \<open>C27: Over every schedule of clients, requests, interrupts, shutdown calls, accept loops and bridges, \<open>Serve\<close> returns
  without an error only after the process was interrupted or a client of the right version asked for a shutdown; every
  client that was answered got the well-formed answer to its request; and the forward registry keeps its invariant.\<close>

theorem server_stops_only_when_asked:
  assumes "NewServer getenv tempDir uid optPath = Inr s0" "Listen env s0 = (None, env', s)"
    and "run life_step es (serving_life s) = Some (xs, l)"
  shows "(lf_serve l = Returned None \<longrightarrow> lf_cancelled l \<or>
      (\<exists>req resp. Answered (Some req) resp \<in> set (lf_clients l) \<and> shutdown_request req)) \<and>
    (\<forall>req resp. Answered (Some req) resp \<in> set (lf_clients l) \<longrightarrow> well_formed req resp) \<and>
    (length (fr_entries (sv_forwards (lf_server l))) < 2 ^ 64 \<longrightarrow> fwd_ok (sv_forwards (lf_server l)))"
  using life.run_invar [OF serving_life_ok [OF assms(1,2)] assms(3)]
  by (simp add: life_ok_def asked_def fwd_inv_def)

text \<open>The process that is interrupted while it serves.\<close>

definition sample_socket :: socket_env where
  "sample_socket = \<lparr>se_path = PathAbsent, se_ping = Inl DialFailed, se_removable = True, se_mkdir = True, se_listen = True\<rparr>"

definition interrupted :: "life_event list" where
  "interrupted = [Interrupt, CallShutdown, ShutdownPart False False PathAbsent newReverseRegistry, AcceptClosed]"

lemma interrupted_run:
  assumes "lf_serve l = Accepting" "\<not> lf_cancelled l" "\<not> sv_shutdown (lf_server l)" "sv_listener (lf_server l) = Some True"
  shows "run life_step interrupted l = Some ([(), (), (), ()],
    l\<lparr>lf_cancelled := True, lf_calls := lf_calls l, lf_serve := Returned None, lf_shut := AtForwards None,
      lf_server := (lf_server l)\<lparr>sv_shutdown := True, sv_listener := Some False\<rparr>\<rparr>)"
  using assms by (simp add: interrupted_def call_shutdown_def shutdown_part_def Serve_accept_def Serve_end_def)

lemma sample_server:
  "\<exists>s0 env' s. NewServer (\<lambda>_. []) ''/tmp'' 0 ''/s'' = Inr s0 \<and> Listen sample_socket s0 = (None, env', s) \<and>
     sv_listener s = Some True \<and> \<not> sv_shutdown s \<and> \<not> sv_done s"
  by (simp add: NewServer_def IsAbs_def HasPrefix_def Listen_def prepareSocketPath_def sample_socket_def)

theorem server_stops_only_when_asked_witness:
  "\<exists>s xs l. run life_step interrupted (serving_life s) = Some (xs, l) \<and> lf_serve l = Returned None \<and>
     (lf_cancelled l \<or> (\<exists>req resp. Answered (Some req) resp \<in> set (lf_clients l) \<and> shutdown_request req))"
proof -
  obtain s0 env' s where s: "NewServer (\<lambda>_. []) ''/tmp'' 0 ''/s'' = Inr s0" "Listen sample_socket s0 = (None, env', s)"
    "sv_listener s = Some True" "\<not> sv_shutdown s" using sample_server by blast
  obtain xs l where l: "run life_step interrupted (serving_life s) = Some (xs, l)" "lf_serve l = Returned None"
    using interrupted_run [of "serving_life s"] s(3,4) by (simp add: serving_life_def)
  with server_stops_only_when_asked [OF s(1,2) l(1)] show ?thesis by blast
qed

text \<open>C29: Whatever the server holds, an interrupt can make \<open>Serve\<close> return without an error, so that \<open>adb-gos\<close> exits with status 0,
  before \<open>Shutdown\<close> has closed a forward or removed a reverse: it closes the listener first, which ends \<open>Serve\<close>, and
  nobody waits for \<open>Done\<close>.\<close>

theorem exit_before_cleanup:
  assumes "lf_serve l = Accepting" "\<not> lf_cancelled l" "\<not> sv_shutdown (lf_server l)" "sv_listener (lf_server l) = Some True"
    and "\<not> sv_done (lf_server l)"
  shows "\<exists>xs l'. run life_step interrupted l = Some (xs, l') \<and> lf_serve l' = Returned None \<and>
    sv_forwards (lf_server l') = sv_forwards (lf_server l) \<and> sv_reverses (lf_server l') = sv_reverses (lf_server l) \<and>
    \<not> sv_done (lf_server l')"
  using interrupted_run [OF assms(1-4)] assms(5) by simp

theorem exit_before_cleanup_witness:
  "\<exists>s xs l'. sv_listener s = Some True \<and> run life_step interrupted (serving_life s) = Some (xs, l') \<and> lf_serve l' = Returned None \<and>
     \<not> sv_done (lf_server l')"
proof -
  obtain s0 env' s where s: "NewServer (\<lambda>_. []) ''/tmp'' 0 ''/s'' = Inr s0" "Listen sample_socket s0 = (None, env', s)"
    "sv_listener s = Some True" "\<not> sv_shutdown s" "\<not> sv_done s" using sample_server by blast
  with exit_before_cleanup [of "serving_life s"] have "\<exists>xs l'. run life_step interrupted (serving_life s) = Some (xs, l') \<and>
      lf_serve l' = Returned None \<and> \<not> sv_done (lf_server l')" by (simp add: serving_life_def) blast
  with s(3) show ?thesis by blast
qed

text \<open>The parts of \<open>Shutdown\<close>, with nothing between them, are \<open>Shutdown\<close>.\<close>

theorem shutdown_parts_are_Shutdown:
  assumes "\<not> sv_shutdown (lf_server l)" "0 < lf_calls l"
  shows "\<exists>xs l'. run life_step (CallShutdown # replicate 4 (ShutdownPart closeErr removeErr path closed)) l = Some (xs, l') \<and>
    (lf_shut l' = ShutOver (fst (Shutdown closeErr removeErr path closed (lf_server l)))) \<and>
    lf_server l' = snd (Shutdown closeErr removeErr path closed (lf_server l))"
  using assms
  by (cases "sv_listener (lf_server l)")
    (simp_all add: numeral_eq_Suc call_shutdown_def shutdown_part_def Shutdown_def Let_def)

end
