(* ===== verification/Platform.thy ===== *)
theory Platform
  imports ClientConnect Server
begin

text \<open>
  The programs on other platforms: \<open>internal/usb/discovery_unsupported.go\<close> and \<open>bulk_unsupported.go\<close>, which stand for
  USB everywhere but on Linux, and \<open>internal/server/server_windows.go\<close> and \<open>path_windows.go\<close>. What uses them is the same code
  as on Linux.
\<close>

section \<open>USB\<close>

definition unsupported_DiscoverADB :: "discover_error + candidate list" where
  "unsupported_DiscoverADB = Inl UsbUnsupported"

definition unsupported_DiscoverADBInRoot :: "string \<Rightarrow> discover_error + candidate list" where
  "unsupported_DiscoverADBInRoot root = Inl UsbUnsupported"

definition unsupported_OpenBulkTransport :: "ctx_err option \<Rightarrow> candidate \<Rightarrow> usb_world \<Rightarrow> (transport_error + linuxBulkTransport) \<times> usb_world" where
  "unsupported_OpenBulkTransport ctx c w = (Inl TransportUnsupported, w)"

text \<open>Options that are wrong on every platform are reported as on Linux; otherwise the error is the one that matches \<open>ErrUnsupported\<close>, and
  nothing is opened.\<close>

lemma ConnectUSB_unsupported:
  assumes "cc_entry ctx = None"
  shows "ConnectUSB ctx dctx unsupported_DiscoverADB carry opts w =
    (Inl (connect_error.DialFailed DescUsb (DialSelect (case validateUSBOptions opts of Some e \<Rightarrow> e | None \<Rightarrow> DiscoverUnsupported))), w)"
  using assms
  by (simp add: ConnectUSB_def connectWithTransportOptions_def usbTransportDialer_def usb_DialTransport_def selectUSBCandidate_def
      unsupported_DiscoverADB_def Let_def split: option.split)

lemma ListUSBDevices_unsupported: "ListUSBDevices None unsupported_DiscoverADB = Inl DiscoverUnsupported"
  by (simp add: ListUSBDevices_def unsupported_DiscoverADB_def)

section \<open>The server on Windows\<close>

datatype windows_error = UnixSocketUnsupported

definition windows_DefaultSocketPath :: "windows_error + string" where
  "windows_DefaultSocketPath = Inl UnixSocketUnsupported"

definition windows_NewServer :: "string \<Rightarrow> windows_error + unit" where
  "windows_NewServer optPath = Inl UnixSocketUnsupported"

definition windows_Listen :: "windows_error option" where
  "windows_Listen = Some UnixSocketUnsupported"

definition windows_Serve :: "windows_error option" where
  "windows_Serve = Some UnixSocketUnsupported"

definition windows_Shutdown :: "windows_error option" where
  "windows_Shutdown = None"

text \<open>\<open>run\<close> of \<open>cmd/adb-gos\<close> there.\<close>

definition windows_gos_run :: "(string \<times> nat) option \<Rightarrow> nat" where
  "windows_gos_run parsed =
     (case parsed of
        None \<Rightarrow> 2
      | Some (socketPath, narg) \<Rightarrow>
          if narg \<noteq> 0 then 2
          else case windows_NewServer socketPath of
              Inl _ \<Rightarrow> 1
            | Inr _ \<Rightarrow> (case windows_Listen of Some _ \<Rightarrow> 1 | None \<Rightarrow> (case windows_Serve of Some _ \<Rightarrow> 1 | None \<Rightarrow> 0)))"

text \<open>The arguments are judged as on the other platforms, and with good ones the program never serves.\<close>

lemma windows_gos_run_status:
  "windows_gos_run parsed = 2 \<longleftrightarrow> gos_run getenv tempDir uid env parsed serve = 2"
  "windows_gos_run parsed \<noteq> 0"
  by (auto simp: windows_gos_run_def windows_NewServer_def gos_run_def split: option.splits sum.splits prod.splits)

end
