(* ===== verification/CompatCli.thy ===== *)
theory CompatCli
  imports Server ClientConnect
begin

text \<open>
  The adb-compatible command line, \<open>cmd/adb-go/router.go\<close> and \<open>cmd/adb-go/internal/compat\<close>: choice of the mode, global
  options, target selection, and the commands that talk to the server. A command gives its exit status and the lines it
  prints; diagnostics on the standard error are not modelled. The link to the server is an argument: \<open>ce_send\<close> carries a
  request to a server state and brings back the response or an error.
\<close>

section \<open>Mode\<close>

datatype cliMode = CliModeCustom | CliModeCompat

definition selectCLIMode :: "string \<Rightarrow> string \<Rightarrow> cliMode option" where
  "selectCLIMode executablePath envMode =
     (if envMode = ''custom'' then Some CliModeCustom
      else if envMode = ''compat'' then Some CliModeCompat
      else if envMode \<noteq> [] then None
      else if Base executablePath = ''adb'' \<or> Base executablePath = ''adb.exe'' then Some CliModeCompat
      else Some CliModeCustom)"

definition runCLI :: "string \<Rightarrow> string \<Rightarrow> (string list \<Rightarrow> nat) \<Rightarrow> (string list \<Rightarrow> nat) \<Rightarrow> string list \<Rightarrow> nat" where
  "runCLI executablePath envMode customRun compatRun args =
     (case selectCLIMode executablePath envMode of
        None \<Rightarrow> 2
      | Some CliModeCompat \<Rightarrow> compatRun args
      | Some CliModeCustom \<Rightarrow> customRun args)"

section \<open>Global options\<close>

datatype targetSelectorKind = TargetSelectorNone | TargetSelectorSerial | TargetSelectorUSB | TargetSelectorEmulator

record compatTargetSelector =
  ts_kind :: targetSelectorKind
  ts_serial :: string

record globalOptions =
  go_host :: string
  go_port :: string
  go_selector :: compatTargetSelector

datatype option_error = OptionRequiresArgument string | TwoSelectors | UnknownOption string

definition setSelector :: "targetSelectorKind \<Rightarrow> string \<Rightarrow> globalOptions \<Rightarrow> option_error + globalOptions" where
  "setSelector kind serial opts =
     (if ts_kind (go_selector opts) \<noteq> TargetSelectorNone then Inl TwoSelectors
      else Inr (opts\<lparr>go_selector := \<lparr>ts_kind = kind, ts_serial = serial\<rparr>\<rparr>))"

definition applyAndroidSerialDefault :: "string \<Rightarrow> globalOptions \<Rightarrow> globalOptions" where
  "applyAndroidSerialDefault serial opts =
     (if ts_kind (go_selector opts) \<noteq> TargetSelectorNone then opts
      else if serial \<noteq> [] then opts\<lparr>go_selector := \<lparr>ts_kind = TargetSelectorSerial, ts_serial = serial\<rparr>\<rparr>
      else opts)"

text \<open>The value of an option that takes the next argument.\<close>

definition next_arg :: "string \<Rightarrow> string list \<Rightarrow> option_error + string" where
  "next_arg name rest =
     (case rest of [] \<Rightarrow> Inl (OptionRequiresArgument name) | v # _ \<Rightarrow> if v = [] then Inl (OptionRequiresArgument name) else Inr v)"

fun parse_options :: "string \<Rightarrow> globalOptions \<Rightarrow> string list \<Rightarrow> option_error + globalOptions \<times> string \<times> string list" where
  "parse_options serial opts [] = Inr (applyAndroidSerialDefault serial opts, [], [])"
| "parse_options serial opts (arg # rest) =
     (if arg = ''-H'' then
        (case next_arg arg rest of Inl e \<Rightarrow> Inl e | Inr v \<Rightarrow> parse_options serial (opts\<lparr>go_host := v\<rparr>) (drop 1 rest))
      else if HasPrefix arg ''-H'' then parse_options serial (opts\<lparr>go_host := TrimPrefix arg ''-H''\<rparr>) rest
      else if arg = ''-P'' then
        (case next_arg arg rest of Inl e \<Rightarrow> Inl e | Inr v \<Rightarrow> parse_options serial (opts\<lparr>go_port := v\<rparr>) (drop 1 rest))
      else if HasPrefix arg ''-P'' then parse_options serial (opts\<lparr>go_port := TrimPrefix arg ''-P''\<rparr>) rest
      else if arg = ''--help'' \<or> arg = ''-h'' then Inr (applyAndroidSerialDefault serial opts, arg, rest)
      else if arg = ''-s'' then
        (case next_arg arg rest of
           Inl e \<Rightarrow> Inl e
         | Inr v \<Rightarrow>
             (case setSelector TargetSelectorSerial v opts of
                Inl e \<Rightarrow> Inl e | Inr opts' \<Rightarrow> parse_options serial opts' (drop 1 rest)))
      else if HasPrefix arg ''-s'' then
        (case setSelector TargetSelectorSerial (TrimPrefix arg ''-s'') opts of
           Inl e \<Rightarrow> Inl e | Inr opts' \<Rightarrow> parse_options serial opts' rest)
      else if arg = ''-d'' then
        (case setSelector TargetSelectorUSB [] opts of Inl e \<Rightarrow> Inl e | Inr opts' \<Rightarrow> parse_options serial opts' rest)
      else if arg = ''-e'' then
        (case setSelector TargetSelectorEmulator [] opts of Inl e \<Rightarrow> Inl e | Inr opts' \<Rightarrow> parse_options serial opts' rest)
      else if HasPrefix arg ''-'' then Inl (UnknownOption arg)
      else Inr (applyAndroidSerialDefault serial opts, arg, rest))"

declare parse_options.simps(2) [simp del]

definition parseGlobalOptions :: "string \<Rightarrow> string list \<Rightarrow> option_error + globalOptions \<times> string \<times> string list" where
  "parseGlobalOptions serial args =
     parse_options serial \<lparr>go_host = ''localhost'', go_port = ''5037'', go_selector = \<lparr>ts_kind = TargetSelectorNone, ts_serial = []\<rparr>\<rparr> args"

section \<open>The server link\<close>

datatype usb_listing = UsbUnsupported | UsbFailed | UsbListed "USBDevice list"

record 's compat_env =
  ce_path :: "server_error + string"
  ce_send :: "Request \<Rightarrow> 's \<Rightarrow> (send_error + Response) \<times> 's"
  ce_start :: "'s \<Rightarrow> bool \<times> 's" \<comment> \<open>\<open>startServerProcess\<close>\<close>
  ce_polls :: nat \<comment> \<open>the probes that fit before the deadline\<close>
  ce_usb :: usb_listing

definition no_params :: raw_message where
  "no_params = \<lparr>as_device_register = RawMissing, as_forward_create = RawMissing, as_forward_remove = RawMissing,
     as_reverse_create = RawMissing, as_reverse_remove = RawMissing\<rparr>"

definition cli_Send :: "'s compat_env \<Rightarrow> string \<Rightarrow> raw_message \<Rightarrow> 's \<Rightarrow> (send_error + Response) \<times> 's" where
  "cli_Send env command params s =
     ce_send env \<lparr>rq_Version = ProtocolVersion, rq_ID = [], rq_Command = command, rq_Params = params\<rparr> s"

datatype compat_error =
    NoSocketPath server_error
  | StartFailed
  | NotReady
  | QueryFailed send_error
  | ServerError "error_code option"
  | UsbListFailed
  | DeviceNotFound string
  | NoTarget
  | ManyTargets
  | TargetOffline
  | UsbReverseUnsupported
  | BadEndpoint endpoint_error
  | ListenerNotFound

definition ping_ok :: "send_error + Response \<Rightarrow> bool" where
  "ping_ok res = (case res of Inl _ \<Rightarrow> False | Inr resp \<Rightarrow> rs_OK resp)"

fun poll_server :: "'s compat_env \<Rightarrow> nat \<Rightarrow> 's \<Rightarrow> bool \<times> 's" where
  "poll_server env 0 s = (False, s)"
| "poll_server env (Suc n) s =
     (case cli_Send env CommandPing no_params s of
        (res, s') \<Rightarrow> if ping_ok res then (True, s') else poll_server env n s')"

definition ensureServer :: "'s compat_env \<Rightarrow> 's \<Rightarrow> (compat_error + bool) \<times> 's" where
  "ensureServer env s =
     (case ce_path env of
        Inl e \<Rightarrow> (Inl (NoSocketPath e), s)
      | Inr _ \<Rightarrow>
          (case cli_Send env CommandPing no_params s of
             (res, s1) \<Rightarrow>
               if ping_ok res then (Inr False, s1)
               else case ce_start env s1 of
                   (False, s2) \<Rightarrow> (Inl StartFailed, s2)
                 | (True, s2) \<Rightarrow>
                     (case poll_server env (ce_polls env) s2 of
                        (True, s3) \<Rightarrow> (Inr True, s3)
                      | (False, s3) \<Rightarrow> (Inl NotReady, s3))))"

text \<open>A request that needs an OK response.\<close>

definition query :: "'s compat_env \<Rightarrow> string \<Rightarrow> raw_message \<Rightarrow> 's \<Rightarrow> (compat_error + result option) \<times> 's" where
  "query env command params s =
     (case cli_Send env command params s of
        (Inl e, s') \<Rightarrow> (Inl (QueryFailed e), s')
      | (Inr resp, s') \<Rightarrow> if rs_OK resp then (Inr (rs_Result resp), s') else (Inl (ServerError (rs_Error resp)), s'))"

definition with_server :: "'s compat_env \<Rightarrow> string \<Rightarrow> raw_message \<Rightarrow> 's \<Rightarrow> (compat_error + result option) \<times> 's" where
  "with_server env command params s =
     (case ensureServer env s of
        (Inl e, s') \<Rightarrow> (Inl e, s')
      | (Inr _, s') \<Rightarrow> query env command params s')"

text \<open>Decoding: an object without the field is an empty list.\<close>

fun decodeServerDevices :: "result option \<Rightarrow> Device list" where
  "decodeServerDevices (Some (ResDevices ds)) = ds"
| "decodeServerDevices _ = []"

fun decode_reverses :: "result option \<Rightarrow> Reverse list" where
  "decode_reverses (Some (ResReverses vs)) = vs"
| "decode_reverses _ = []"

section \<open>Targets\<close>

record compatTarget =
  ct_Serial :: string
  ct_State :: string
  ct_Transport :: string
  ct_TCPAddress :: string
  ct_USBOptions :: USBOptions

definition no_usb :: USBOptions where
  "no_usb = \<lparr>uo_DevicePath = [], uo_BusNumber = 0, uo_DeviceNumber = 0, uo_VendorID = 0, uo_ProductID = 0, uo_Serial = [],
     uo_AuthCredentials = []\<rparr>"

definition compatTargetFromServerDevice :: "Device \<Rightarrow> compatTarget" where
  "compatTargetFromServerDevice d = \<lparr>ct_Serial = dev_Serial d, ct_State = dev_State d, ct_Transport = dev_Transport d,
     ct_TCPAddress = dev_Address d, ct_USBOptions = no_usb\<rparr>"

text \<open>\<open>%03d\<close>\<close>

definition pad3 :: "int \<Rightarrow> string" where
  "pad3 i =
     (let s = Itoa i; zeros = replicate (3 - length s) (CHR ''0'') in if i < 0 then CHR ''-'' # zeros @ tl s else zeros @ s)"

definition usb_serial :: "USBDevice \<Rightarrow> string" where
  "usb_serial d = ''usb:'' @ pad3 (ud_BusNumber d) @ '':'' @ pad3 (ud_DeviceNumber d)"

definition compatTargetFromUSBDevice :: "USBDevice \<Rightarrow> compatTarget" where
  "compatTargetFromUSBDevice d = \<lparr>ct_Serial = usb_serial d, ct_State = DeviceStateDevice, ct_Transport = ''usb'', ct_TCPAddress = [],
     ct_USBOptions = no_usb\<lparr>uo_DevicePath := ud_DevicePath d, uo_BusNumber := ud_BusNumber d, uo_DeviceNumber := ud_DeviceNumber d,
       uo_VendorID := ud_VendorID d, uo_ProductID := ud_ProductID d\<rparr>\<rparr>"

definition usb_targets :: "usb_listing \<Rightarrow> compat_error + USBDevice list" where
  "usb_targets u = (case u of UsbUnsupported \<Rightarrow> Inr [] | UsbFailed \<Rightarrow> Inl UsbListFailed | UsbListed ds \<Rightarrow> Inr ds)"

definition listCompatTargets :: "'s compat_env \<Rightarrow> 's \<Rightarrow> (compat_error + compatTarget list) \<times> 's" where
  "listCompatTargets env s =
     (case with_server env CommandDeviceList no_params s of
        (Inl e, s') \<Rightarrow> (Inl e, s')
      | (Inr res, s') \<Rightarrow>
          (case usb_targets (ce_usb env) of
             Inl e \<Rightarrow> (Inl e, s')
           | Inr us \<Rightarrow>
               (Inr (map compatTargetFromServerDevice (decodeServerDevices res) @ map compatTargetFromUSBDevice us), s')))"

definition selectOnlyTarget :: "compatTarget list \<Rightarrow> (compatTarget \<Rightarrow> bool) \<Rightarrow> compat_error + compatTarget" where
  "selectOnlyTarget targets keep =
     (case filter keep targets of [] \<Rightarrow> Inl NoTarget | [t] \<Rightarrow> Inr t | _ \<Rightarrow> Inl ManyTargets)"

definition select_target :: "compatTargetSelector \<Rightarrow> compatTarget list \<Rightarrow> compat_error + compatTarget" where
  "select_target sel targets =
     (case ts_kind sel of
        TargetSelectorSerial \<Rightarrow>
          (case find (\<lambda>t. ct_Serial t = ts_serial sel) targets of None \<Rightarrow> Inl (DeviceNotFound (ts_serial sel)) | Some t \<Rightarrow> Inr t)
      | TargetSelectorUSB \<Rightarrow> selectOnlyTarget targets (\<lambda>t. ct_Transport t = ''usb'')
      | TargetSelectorEmulator \<Rightarrow> selectOnlyTarget targets (\<lambda>t. ct_Transport t = ''tcp'')
      | TargetSelectorNone \<Rightarrow> selectOnlyTarget targets (\<lambda>_. True))"

definition resolveCompatTarget :: "'s compat_env \<Rightarrow> globalOptions \<Rightarrow> 's \<Rightarrow> (compat_error + compatTarget) \<times> 's" where
  "resolveCompatTarget env opts s =
     (case listCompatTargets env s of
        (Inl e, s') \<Rightarrow> (Inl e, s')
      | (Inr targets, s') \<Rightarrow> (select_target (go_selector opts) targets, s'))"

section \<open>Commands\<close>

type_synonym 's outcome = "(nat \<times> string list) \<times> 's"

definition failed :: "'s \<Rightarrow> 's outcome" where "failed s = ((1, []), s)"

definition succeeded :: "string list \<Rightarrow> 's \<Rightarrow> 's outcome" where "succeeded printed s = ((0, printed), s)"

definition runStartServer :: "'s compat_env \<Rightarrow> string list \<Rightarrow> 's \<Rightarrow> 's outcome" where
  "runStartServer env args s =
     (if args \<noteq> [] then failed s
      else case ensureServer env s of
          (Inl _, s') \<Rightarrow> failed s'
        | (Inr started, s') \<Rightarrow> succeeded (if started then [''* server started successfully''] else []) s')"

text \<open>Killing a server that cannot be reached is a success.\<close>

definition runKillServer :: "'s compat_env \<Rightarrow> string list \<Rightarrow> 's \<Rightarrow> 's outcome" where
  "runKillServer env args s =
     (if args \<noteq> [] then failed s
      else case ce_path env of
          Inl _ \<Rightarrow> failed s
        | Inr _ \<Rightarrow>
            (case cli_Send env CommandShutdown no_params s of
               (Inl _, s') \<Rightarrow> succeeded [] s'
             | (Inr resp, s') \<Rightarrow> if rs_OK resp then succeeded [] s' else failed s'))"

definition runDevices :: "'s compat_env \<Rightarrow> string list \<Rightarrow> 's \<Rightarrow> 's outcome" where
  "runDevices env args s =
     (if args \<noteq> [] then failed s
      else case with_server env CommandDeviceList no_params s of
          (Inl _, s') \<Rightarrow> failed s'
        | (Inr res, s') \<Rightarrow>
            (case usb_targets (ce_usb env) of
               Inl _ \<Rightarrow> failed s'
             | Inr us \<Rightarrow>
                 succeeded ([''List of devices attached''] @
                   map (\<lambda>d. dev_Serial d @ [CHR 0x09] @ dev_State d) (decodeServerDevices res) @
                   map (\<lambda>d. usb_serial d @ [CHR 0x09] @ ''device'') us @ [[]]) s'))"

definition runGetState :: "'s compat_env \<Rightarrow> globalOptions \<Rightarrow> string list \<Rightarrow> 's \<Rightarrow> 's outcome" where
  "runGetState env opts args s =
     (if args \<noteq> [] then failed s
      else case resolveCompatTarget env opts s of
          (Inl _, s') \<Rightarrow> failed s'
        | (Inr t, s') \<Rightarrow> succeeded [ct_State t] s')"

definition resolveReverseTarget :: "'s compat_env \<Rightarrow> globalOptions \<Rightarrow> 's \<Rightarrow> (compat_error + compatTarget) \<times> 's" where
  "resolveReverseTarget env opts s =
     (case resolveCompatTarget env opts s of
        (Inl e, s') \<Rightarrow> (Inl e, s')
      | (Inr t, s') \<Rightarrow>
          if ct_State t \<noteq> DeviceStateDevice then (Inl TargetOffline, s')
          else if ct_Transport t \<noteq> ''tcp'' \<or> TrimSpace (ct_TCPAddress t) = [] then (Inl UsbReverseUnsupported, s')
          else (Inr t, s'))"

definition runReverseCreate :: "'s compat_env \<Rightarrow> globalOptions \<Rightarrow> string \<Rightarrow> string \<Rightarrow> bool \<Rightarrow> 's \<Rightarrow> 's outcome" where
  "runReverseCreate env opts remoteService localService norebind s =
     (case ParseReverseDeviceEndpoint remoteService of
        Inl _ \<Rightarrow> failed s
      | Inr _ \<Rightarrow>
          (case ParseReverseHostEndpoint localService of
             Inl _ \<Rightarrow> failed s
           | Inr _ \<Rightarrow>
               (case resolveReverseTarget env opts s of
                  (Inl _, s1) \<Rightarrow> failed s1
                | (Inr t, s1) \<Rightarrow>
                    (case with_server env CommandReverseCreate (no_params\<lparr>as_reverse_create := RawParams
                         \<lparr>rc_Remote = \<lparr>rr_Service = TrimSpace remoteService\<rparr>, rc_Local = \<lparr>rl_Service = TrimSpace localService\<rparr>,
                          rc_Target = \<lparr>ft_Transport = ''tcp'', ft_Address = ct_TCPAddress t\<rparr>, rc_Norebind = norebind\<rparr>\<rparr>) s1 of
                       (Inl _, s2) \<Rightarrow> failed s2
                     | (Inr _, s2) \<Rightarrow> succeeded [] s2))))"

definition reverseCompatSerial :: "ForwardTarget \<Rightarrow> string" where
  "reverseCompatSerial t = (if ft_Transport t = ''tcp'' then ft_Address t else ft_Transport t @ '':'' @ ft_Address t)"

definition reverse_line :: "Reverse \<Rightarrow> string" where
  "reverse_line v = reverseCompatSerial (r_Target v) @ '' '' @ rr_Service (r_Remote v) @ '' '' @ rl_Service (r_Local v)"

definition runReverseList :: "'s compat_env \<Rightarrow> globalOptions \<Rightarrow> 's \<Rightarrow> 's outcome" where
  "runReverseList env opts s =
     (case with_server env CommandReverseList no_params s of
        (Inl _, s1) \<Rightarrow> failed s1
      | (Inr res, s1) \<Rightarrow>
          if ts_kind (go_selector opts) = TargetSelectorNone
          then succeeded (map reverse_line (decode_reverses res)) s1
          else case resolveReverseTarget env opts s1 of
              (Inl _, s2) \<Rightarrow> failed s2
            | (Inr t, s2) \<Rightarrow>
                succeeded (map reverse_line (filter (\<lambda>v. ct_TCPAddress t = [] \<or> ft_Address (r_Target v) = ct_TCPAddress t) (decode_reverses res))) s2)"

definition findReverseID :: "'s compat_env \<Rightarrow> string \<Rightarrow> string \<Rightarrow> 's \<Rightarrow> (compat_error + string) \<times> 's" where
  "findReverseID env targetAddress remoteService s =
     (case with_server env CommandReverseList no_params s of
        (Inl e, s') \<Rightarrow> (Inl e, s')
      | (Inr res, s') \<Rightarrow>
          (case find (\<lambda>v. ft_Address (r_Target v) = targetAddress \<and> rr_Service (r_Remote v) = remoteService) (decode_reverses res) of
             None \<Rightarrow> (Inl ListenerNotFound, s')
           | Some v \<Rightarrow> (Inr (r_ID v), s')))"

definition remove_reverse :: "'s compat_env \<Rightarrow> string \<Rightarrow> 's \<Rightarrow> (compat_error + result option) \<times> 's" where
  "remove_reverse env ident s =
     with_server env CommandReverseRemove (no_params\<lparr>as_reverse_remove := RawParams \<lparr>rm_ID = ident, rm_Remote = None\<rparr>\<rparr>) s"

definition runReverseRemove :: "'s compat_env \<Rightarrow> globalOptions \<Rightarrow> string \<Rightarrow> 's \<Rightarrow> 's outcome" where
  "runReverseRemove env opts remoteService s =
     (case ParseReverseDeviceEndpoint remoteService of
        Inl _ \<Rightarrow> failed s
      | Inr _ \<Rightarrow>
          (case resolveReverseTarget env opts s of
             (Inl _, s1) \<Rightarrow> failed s1
           | (Inr t, s1) \<Rightarrow>
               (case findReverseID env (ct_TCPAddress t) (TrimSpace remoteService) s1 of
                  (Inl _, s2) \<Rightarrow> failed s2
                | (Inr ident, s2) \<Rightarrow>
                    (case remove_reverse env ident s2 of
                       (Inl _, s3) \<Rightarrow> failed s3
                     | (Inr _, s3) \<Rightarrow> succeeded [] s3))))"

fun remove_each :: "'s compat_env \<Rightarrow> string list \<Rightarrow> 's \<Rightarrow> 's outcome" where
  "remove_each env [] s = succeeded [] s"
| "remove_each env (ident # idents) s =
     (case remove_reverse env ident s of
        (Inl _, s') \<Rightarrow> failed s'
      | (Inr _, s') \<Rightarrow> remove_each env idents s')"

definition runReverseRemoveAll :: "'s compat_env \<Rightarrow> globalOptions \<Rightarrow> 's \<Rightarrow> 's outcome" where
  "runReverseRemoveAll env opts s =
     (case resolveReverseTarget env opts s of
        (Inl _, s1) \<Rightarrow> failed s1
      | (Inr t, s1) \<Rightarrow>
          (case with_server env CommandReverseList no_params s1 of
             (Inl _, s2) \<Rightarrow> failed s2
           | (Inr res, s2) \<Rightarrow>
               remove_each env (map r_ID (filter (\<lambda>v. ft_Address (r_Target v) = ct_TCPAddress t) (decode_reverses res))) s2))"

definition runReverse :: "'s compat_env \<Rightarrow> globalOptions \<Rightarrow> string list \<Rightarrow> 's \<Rightarrow> 's outcome" where
  "runReverse env opts args0 s =
     (let norebind = (args0 \<noteq> [] \<and> hd args0 = ''--no-rebind''); args = (if norebind then tl args0 else args0) in
      case args of
        [] \<Rightarrow> failed s
      | a # rest \<Rightarrow>
          if a = ''--list'' then (if norebind \<or> rest \<noteq> [] then failed s else runReverseList env opts s)
          else if a = ''--remove'' then
            (if norebind then failed s else case rest of [r] \<Rightarrow> runReverseRemove env opts r s | _ \<Rightarrow> failed s)
          else if a = ''--remove-all'' then (if norebind \<or> rest \<noteq> [] then failed s else runReverseRemoveAll env opts s)
          else case rest of [l] \<Rightarrow> runReverseCreate env opts a l norebind s | _ \<Rightarrow> failed s)"

text \<open>\<open>help\<close> and \<open>version\<close> are the texts that are printed.\<close>

definition compat_Run :: "'s compat_env \<Rightarrow> string \<Rightarrow> string list \<Rightarrow> (globalOptions \<Rightarrow> string list) \<Rightarrow> string list \<Rightarrow> 's \<Rightarrow> 's outcome" where
  "compat_Run env serial help version args s =
     (case parseGlobalOptions serial args of
        Inl _ \<Rightarrow> failed s
      | Inr (opts, command, commandArgs) \<Rightarrow>
          if command \<in> {[], ''help'', ''--help'', ''-h''} then (if commandArgs \<noteq> [] then failed s else succeeded help s)
          else if command = ''version'' then (if commandArgs \<noteq> [] then failed s else succeeded (version opts) s)
          else if command = ''start-server'' then runStartServer env commandArgs s
          else if command = ''kill-server'' then runKillServer env commandArgs s
          else if command = ''devices'' then runDevices env commandArgs s
          else if command = ''get-state'' then runGetState env opts commandArgs s
          else if command = ''reverse'' then runReverse env opts commandArgs s
          else failed s)"

section \<open>Selecting a target\<close>

lemma selectOnlyTarget_unique: "selectOnlyTarget targets keep = Inr t \<longleftrightarrow> filter keep targets = [t]"
  by (auto simp: selectOnlyTarget_def split: list.split)

lemma select_target_mem: "select_target sel targets = Inr t \<Longrightarrow> t \<in> set targets"
  by (auto simp: select_target_def selectOnlyTarget_unique find_Some_iff split: targetSelectorKind.splits option.splits)
    (metis filter_is_subset list.set_intros(1) subsetD)+

lemma find_first:
  "find P xs = Some x \<Longrightarrow> \<exists>ys zs. xs = ys @ x # zs \<and> P x \<and> (\<forall>y \<in> set ys. \<not> P y)"
proof (induction xs)
  case (Cons a xs)
  show ?case
  proof (cases "P a")
    case True
    with Cons.prems show ?thesis by (intro exI [of _ "[]"] exI [of _ xs]) simp
  next
    case False
    with Cons obtain ys zs where "xs = ys @ x # zs" "P x" "\<forall>y \<in> set ys. \<not> P y" by auto
    with False show ?thesis by (intro exI [of _ "a # ys"] exI [of _ zs]) simp
  qed
qed simp

text \<open>Without a serial the command works on a device only when it is the single candidate; with a serial it takes the first with
  that name, server devices before USB devices.\<close>

lemma resolveCompatTarget_single:
  assumes "resolveCompatTarget env opts s = (Inr t, s')" "ts_kind (go_selector opts) = TargetSelectorNone"
  shows "\<exists>s1. listCompatTargets env s = (Inr [t], s1)"
  using assms by (auto simp: resolveCompatTarget_def select_target_def selectOnlyTarget_unique split: prod.splits sum.splits)

lemma resolveCompatTarget_serial:
  assumes "resolveCompatTarget env opts s = (Inr t, s')" "ts_kind (go_selector opts) = TargetSelectorSerial"
  shows "\<exists>before after s1. listCompatTargets env s = (Inr (before @ t # after), s1) \<and> ct_Serial t = ts_serial (go_selector opts) \<and>
    (\<forall>x \<in> set before. ct_Serial x \<noteq> ts_serial (go_selector opts))"
  using assms
  by (auto simp: resolveCompatTarget_def select_target_def split: prod.splits sum.splits option.splits dest!: find_first)

section \<open>Starting the server\<close>

text \<open>A command that needs the server starts a process only when the first ping is not answered, and then goes on only after a
  ping was answered.\<close>

lemma poll_server_ready:
  "poll_server env n s = (True, s') \<Longrightarrow> \<exists>s0 res. cli_Send env CommandPing no_params s0 = (res, s') \<and> ping_ok res"
  by (induction n arbitrary: s) (auto split: prod.splits if_splits)

lemma ensureServer_ready:
  assumes "ensureServer env s = (Inr started, s')"
  shows "\<exists>s0 res. cli_Send env CommandPing no_params s0 = (res, s') \<and> ping_ok res"
  using assms by (auto simp: ensureServer_def split: sum.splits prod.splits if_splits bool.splits dest: poll_server_ready)

lemma ensureServer_running:
  assumes "ce_path env = Inr p" "cli_Send env CommandPing no_params s = (res, s')" "ping_ok res"
  shows "ensureServer env s = (Inr False, s')"
  using assms by (simp add: ensureServer_def)

lemma compat_usage_errors:
  "parseGlobalOptions serial args = Inl e \<Longrightarrow> compat_Run env serial help version args s = ((1, []), s)"
  by (simp add: compat_Run_def failed_def)

end
