(* ===== verification/GoFlag.thy ===== *)
theory GoFlag
  imports GoNet "HOL-Library.AList"
begin

text \<open>
  What the command lines use of \<open>strconv\<close> and \<open>flag\<close>: \<open>ParseBool\<close>, \<open>ParseUint\<close> and \<open>ParseInt\<close> with the
  base taken from the text, and a \<open>FlagSet\<close> with Boolean, string and integer flags. \<open>Parse\<close> reads flags up to the first
  argument that is none and keeps the rest.
\<close>

section \<open>Numbers\<close>

definition ParseBool :: "string \<Rightarrow> bool option" where
  "ParseBool s =
     (if s \<in> {''1'', ''t'', ''T'', ''TRUE'', ''true'', ''True''} then Some True
      else if s \<in> {''0'', ''f'', ''F'', ''FALSE'', ''false'', ''False''} then Some False
      else None)"

definition lower :: "char \<Rightarrow> char" where
  "lower c = (let n = (of_char c :: nat) in if 65 \<le> n \<and> n \<le> 90 then char_of (n + 32) else c)"

definition letter_value :: "char \<Rightarrow> nat option" where
  "letter_value c =
     (case digit_value c of
        Some d \<Rightarrow> Some d
      | None \<Rightarrow> (let n = (of_char (lower c) :: nat) in if 97 \<le> n \<and> n \<le> 122 then Some (n - 97 + 10) else None))"

text \<open>The digits of \<open>ParseUint\<close>; with \<open>base0\<close> an underscore is skipped. The result also says whether there was one.\<close>

fun uint_loop :: "bool \<Rightarrow> nat \<Rightarrow> nat \<Rightarrow> nat \<Rightarrow> bool \<Rightarrow> string \<Rightarrow> num_error + nat \<times> bool" where
  "uint_loop base0 base maxVal n us [] = Inr (n, us)"
| "uint_loop base0 base maxVal n us (c # s) =
     (if c = CHR ''_'' \<and> base0 then uint_loop base0 base maxVal n True s
      else case letter_value c of
          None \<Rightarrow> Inl ErrSyntax
        | Some d \<Rightarrow>
            if base \<le> d then Inl ErrSyntax
            else if maxVal < n * base + d then Inl ErrRange
            else uint_loop base0 base maxVal (n * base + d) us s)"

text \<open>\<open>underscoreOK\<close>: the last character seen was the start, a digit, an underscore, or anything else.\<close>

datatype seen = SawStart | SawDigit | SawUnderscore | SawOther

fun underscore_loop :: "bool \<Rightarrow> seen \<Rightarrow> string \<Rightarrow> bool" where
  "underscore_loop hex i [] = (i \<noteq> SawUnderscore)"
| "underscore_loop hex i (c # s) =
     (if digit_value c \<noteq> None \<or> hex \<and> 97 \<le> (of_char (lower c) :: nat) \<and> of_char (lower c) \<le> (102 :: nat)
      then underscore_loop hex SawDigit s
      else if c = CHR ''_'' then (if i \<noteq> SawDigit then False else underscore_loop hex SawUnderscore s)
      else if i = SawUnderscore then False
      else underscore_loop hex SawOther s)"

definition underscoreOK :: "string \<Rightarrow> bool" where
  "underscoreOK s0 =
     (let s = (if s0 \<noteq> [] \<and> hd s0 \<in> {CHR ''-'', CHR ''+''} then tl s0 else s0) in
      if 2 \<le> length s \<and> s ! 0 = CHR ''0'' \<and> lower (s ! 1) \<in> {CHR ''b'', CHR ''o'', CHR ''x''}
      then underscore_loop (lower (s ! 1) = CHR ''x'') SawDigit (drop 2 s)
      else underscore_loop False SawStart s)"

text \<open>The base and the digits of a number that names its base.\<close>

definition detect_base :: "string \<Rightarrow> nat \<times> string" where
  "detect_base s =
     (if hd s = CHR ''0'' then
        if 3 \<le> length s \<and> lower (s ! 1) = CHR ''b'' then (2, drop 2 s)
        else if 3 \<le> length s \<and> lower (s ! 1) = CHR ''o'' then (8, drop 2 s)
        else if 3 \<le> length s \<and> lower (s ! 1) = CHR ''x'' then (16, drop 2 s)
        else (8, tl s)
      else (10, s))"

definition ParseUint :: "string \<Rightarrow> nat \<Rightarrow> nat \<Rightarrow> num_error + nat" where
  "ParseUint s base bitSize =
     (if s = [] then Inl ErrSyntax
      else case (if base = 0 then detect_base s else (base, s)) of
          (b, digits) \<Rightarrow>
            (case uint_loop (base = 0) b (2 ^ bitSize - 1) 0 False digits of
               Inl e \<Rightarrow> Inl e
             | Inr (n, us) \<Rightarrow> if us \<and> \<not> underscoreOK s then Inl ErrSyntax else Inr n))"

definition ParseInt64 :: "string \<Rightarrow> nat \<Rightarrow> num_error + int" where
  "ParseInt64 s base =
     (if s = [] then Inl ErrSyntax
      else
        let neg = (hd s = CHR ''-''); digits = (if hd s \<in> {CHR ''-'', CHR ''+''} then tl s else s) in
        case ParseUint digits base 64 of
          Inl e \<Rightarrow> Inl e
        | Inr un \<Rightarrow>
            if \<not> neg \<and> 2 ^ 63 \<le> un \<or> neg \<and> 2 ^ 63 < un then Inl ErrRange
            else Inr (if neg then - int un else int un))"

section \<open>Flag sets\<close>

datatype flag_value = BoolV bool | StringV string | IntV int

record flag_set =
  fs_values :: "(string \<times> flag_value) list" \<comment> \<open>\<open>formal\<close> with the values the pointers hold\<close>
  fs_actual :: "string list"
  fs_args :: "string list"

datatype flag_error =
    BadFlagSyntax string
  | FlagHelp
  | FlagNotDefined string
  | InvalidBoolValue string string
  | FlagNeedsArgument string
  | InvalidFlagValue string string num_error

datatype flag_token = TokArg | TokEnd | TokBad | TokFlag string "string option"

text \<open>A name with the value after the first \<open>=\<close> that is not its first character.\<close>

definition split_flag :: "string \<Rightarrow> string \<times> string option" where
  "split_flag name =
     (case IndexByte (tl name) (CHR ''='') of
        None \<Rightarrow> (name, None)
      | Some i \<Rightarrow> (take (Suc i) name, Some (drop (Suc (Suc i)) name)))"

definition flag_token :: "string \<Rightarrow> flag_token" where
  "flag_token s =
     (if length s < 2 \<or> hd s \<noteq> CHR ''-'' then TokArg
      else if s = ''--'' then TokEnd
      else
        let name = (if s ! 1 = CHR ''-'' then drop 2 s else drop 1 s) in
        if name = [] \<or> hd name = CHR ''-'' \<or> hd name = CHR ''='' then TokBad
        else (case split_flag name of (n, v) \<Rightarrow> TokFlag n v))"

fun set_flag :: "flag_value \<Rightarrow> string \<Rightarrow> string \<Rightarrow> flag_error + flag_value" where
  "set_flag (BoolV _) name v = (case ParseBool v of None \<Rightarrow> Inl (InvalidBoolValue v name) | Some b \<Rightarrow> Inr (BoolV b))"
| "set_flag (StringV _) name v = Inr (StringV v)"
| "set_flag (IntV _) name v = (case ParseInt64 v 0 of Inl e \<Rightarrow> Inl (InvalidFlagValue v name e) | Inr i \<Rightarrow> Inr (IntV i))"

text \<open>The text a flag is set to and the arguments that remain: a Boolean flag takes no argument of its own.\<close>

definition flag_text :: "flag_value \<Rightarrow> string \<Rightarrow> string option \<Rightarrow> string list \<Rightarrow> flag_error + string \<times> string list" where
  "flag_text old name v rest =
     (case v of
        Some t \<Rightarrow> Inr (t, rest)
      | None \<Rightarrow>
          (case old of
             BoolV _ \<Rightarrow> Inr (''true'', rest)
           | _ \<Rightarrow> (case rest of [] \<Rightarrow> Inl (FlagNeedsArgument name) | t # rest' \<Rightarrow> Inr (t, rest'))))"

lemma flag_text_shorter: "flag_text old name v rest = Inr (t, rest') \<Longrightarrow> length rest' \<le> length rest"
  by (auto simp: flag_text_def split: option.splits flag_value.splits list.splits)

function parse_args :: "(string \<times> flag_value) list \<Rightarrow> string list \<Rightarrow> string list \<Rightarrow> flag_error + flag_set" where
  "parse_args fl actual [] = Inr \<lparr>fs_values = fl, fs_actual = actual, fs_args = []\<rparr>"
| "parse_args fl actual (s # rest) =
     (case flag_token s of
        TokArg \<Rightarrow> Inr \<lparr>fs_values = fl, fs_actual = actual, fs_args = s # rest\<rparr>
      | TokEnd \<Rightarrow> Inr \<lparr>fs_values = fl, fs_actual = actual, fs_args = rest\<rparr>
      | TokBad \<Rightarrow> Inl (BadFlagSyntax s)
      | TokFlag name v \<Rightarrow>
          (case map_of fl name of
             None \<Rightarrow> Inl (if name = ''help'' \<or> name = ''h'' then FlagHelp else FlagNotDefined name)
           | Some old \<Rightarrow>
               (case flag_text old name v rest of
                  Inl e \<Rightarrow> Inl e
                | Inr (t, rest') \<Rightarrow>
                    (case set_flag old name t of
                       Inl e \<Rightarrow> Inl e
                     | Inr new \<Rightarrow> parse_args (AList.update name new fl) (List.insert name actual) rest'))))"
  by pat_completeness auto
termination
  by (relation "measure (\<lambda>(fl, actual, args). length args)") (auto dest!: flag_text_shorter)

declare parse_args.simps(2) [simp del]

definition Parse :: "(string \<times> flag_value) list \<Rightarrow> string list \<Rightarrow> flag_error + flag_set" where
  "Parse formal args = parse_args formal [] args"

definition flag_bool :: "flag_set \<Rightarrow> string \<Rightarrow> bool" where
  "flag_bool fs name = (case map_of (fs_values fs) name of Some (BoolV b) \<Rightarrow> b | _ \<Rightarrow> False)"

definition flag_string :: "flag_set \<Rightarrow> string \<Rightarrow> string" where
  "flag_string fs name = (case map_of (fs_values fs) name of Some (StringV s) \<Rightarrow> s | _ \<Rightarrow> [])"

definition flag_int :: "flag_set \<Rightarrow> string \<Rightarrow> int" where
  "flag_int fs name = (case map_of (fs_values fs) name of Some (IntV i) \<Rightarrow> i | _ \<Rightarrow> 0)"

text \<open>\<open>strconv.FormatUint(n, 16)\<close>\<close>

definition hex_char :: "nat \<Rightarrow> char" where
  "hex_char d = (if d < 10 then digit_char d else char_of (87 + d))"

fun FormatHex :: "nat \<Rightarrow> string" where
  "FormatHex n = (if n < 16 then [hex_char n] else FormatHex (n div 16) @ [hex_char (n mod 16)])"

declare FormatHex.simps [simp del]

section \<open>Reading numbers back\<close>

lemma letter_value_digit_char [simp]: "d < 10 \<Longrightarrow> letter_value (digit_char d) = Some d"
  by (simp add: letter_value_def)

lemma letter_value_hex_char [simp]: "d < 16 \<Longrightarrow> letter_value (hex_char d) = Some d"
  by (cases "d < 10") (simp_all add: hex_char_def, simp add: letter_value_def digit_value_def lower_def)

lemma letter_value_underscore [simp]: "letter_value (CHR ''_'') = None"
  by (simp add: letter_value_def digit_value_def lower_def)

lemma uint_loop_append:
  "uint_loop b0 b m n us (x @ y) =
     (case uint_loop b0 b m n us x of Inl e \<Rightarrow> Inl e | Inr (n', us') \<Rightarrow> uint_loop b0 b m n' us' y)"
  by (induction b0 b m n us x rule: uint_loop.induct) (auto split: option.split)

lemma uint_loop_digit:
  "letter_value c = Some d \<Longrightarrow> d < b \<Longrightarrow> n * b + d \<le> m \<Longrightarrow> uint_loop b0 b m n us [c] = Inr (n * b + d, us)"
  by (cases "c = CHR ''_''") auto

lemma uint_loop_FormatUint: "n \<le> m \<Longrightarrow> uint_loop b0 10 m 0 us (FormatUint n) = Inr (n, us)"
proof (induction n rule: FormatUint.induct)
  case (1 n)
  show ?case
  proof (cases "n < 10")
    case True
    then show ?thesis using 1 uint_loop_digit [of "digit_char n" n 10 0 m b0 us] by (simp add: FormatUint.simps)
  next
    case False
    have "n div 10 \<le> m" using 1 by linarith
    then have "uint_loop b0 10 m 0 us (FormatUint (n div 10)) = Inr (n div 10, us)" using 1 False by simp
    moreover have "uint_loop b0 10 m (n div 10) us [digit_char (n mod 10)] = Inr (n, us)"
      using 1 uint_loop_digit [of "digit_char (n mod 10)" "n mod 10" 10 "n div 10" m b0 us] by simp
    ultimately show ?thesis using False by (simp add: FormatUint.simps [of n] uint_loop_append)
  qed
qed

lemma uint_loop_FormatHex: "n \<le> m \<Longrightarrow> uint_loop b0 16 m 0 us (FormatHex n) = Inr (n, us)"
proof (induction n rule: FormatHex.induct)
  case (1 n)
  show ?case
  proof (cases "n < 16")
    case True
    then show ?thesis using 1 uint_loop_digit [of "hex_char n" n 16 0 m b0 us] by (simp add: FormatHex.simps)
  next
    case False
    have "n div 16 \<le> m" using 1 by linarith
    then have "uint_loop b0 16 m 0 us (FormatHex (n div 16)) = Inr (n div 16, us)" using 1 False by simp
    moreover have "uint_loop b0 16 m (n div 16) us [hex_char (n mod 16)] = Inr (n, us)"
      using 1 uint_loop_digit [of "hex_char (n mod 16)" "n mod 16" 16 "n div 16" m b0 us] by simp
    ultimately show ?thesis using False by (simp add: FormatHex.simps [of n] uint_loop_append)
  qed
qed

lemma uint_loop_zeros: "0 < b \<Longrightarrow> uint_loop b0 b m 0 us (replicate k (CHR ''0'')) = Inr (0, us)"
  by (induction k) (auto simp: letter_value_def digit_value_def)

lemma FormatUint_leading: "0 < n \<Longrightarrow> hd (FormatUint n) \<noteq> CHR ''0''"
proof (induction n rule: FormatUint.induct)
  case (1 n)
  show ?case
  proof (cases "n < 10")
    case True
    then have "digit_value (hd (FormatUint n)) = Some n" by (simp add: FormatUint.simps)
    then show ?thesis using 1 by (auto simp: digit_value_def)
  next
    case False
    then show ?thesis using 1 by (simp add: FormatUint.simps [of n])
  qed
qed

lemma FormatUint_0: "FormatUint 0 = ''0''"
  by code_simp

lemma ParseUint_FormatUint: "n < 2 ^ k \<Longrightarrow> ParseUint (FormatUint n) 0 k = Inr n"
proof (cases "n = 0")
  case True
  then show "n < 2 ^ k \<Longrightarrow> ?thesis"
    by (simp add: ParseUint_def detect_base_def FormatUint_0)
next
  case False
  then have "detect_base (FormatUint n) = (10, FormatUint n)" using FormatUint_leading [of n] by (simp add: detect_base_def)
  then show "n < 2 ^ k \<Longrightarrow> ?thesis" by (simp add: ParseUint_def uint_loop_FormatUint)
qed

lemma ParseInt64_Itoa: "- (2 ^ 63) \<le> i \<Longrightarrow> i < 2 ^ 63 \<Longrightarrow> ParseInt64 (Itoa i) 0 = Inr i"
  using hd_FormatUint [of "CHR ''-''" "nat i"] hd_FormatUint [of "CHR ''+''" "nat i"]
  by (auto simp: ParseInt64_def Itoa_def ParseUint_FormatUint Let_def nat_less_iff)

section \<open>Writing flags\<close>

fun show_value :: "flag_value \<Rightarrow> string" where
  "show_value (BoolV b) = (if b then ''true'' else ''false'')"
| "show_value (StringV s) = s"
| "show_value (IntV i) = Itoa i"

fun same_kind :: "flag_value \<Rightarrow> flag_value \<Rightarrow> bool" where
  "same_kind (BoolV _) (BoolV _) = True"
| "same_kind (StringV _) (StringV _) = True"
| "same_kind (IntV _) (IntV i) = (- (2 ^ 63) \<le> i \<and> i < 2 ^ 63)"
| "same_kind _ _ = False"

definition flag_name :: "string \<Rightarrow> bool" where
  "flag_name n \<longleftrightarrow> n \<noteq> [] \<and> CHR ''='' \<notin> set n \<and> hd n \<noteq> CHR ''-''"

definition show_flag :: "string \<times> flag_value \<Rightarrow> string" where
  "show_flag a = ''--'' @ fst a @ ''='' @ show_value (snd a)"

lemma flag_token_show: "flag_name n \<Longrightarrow> flag_token (show_flag (n, v)) = TokFlag n (Some (show_value v))"
proof -
  assume n: "flag_name n"
  then obtain c m where nm: "n = c # m" "c \<noteq> CHR ''-''" "c \<noteq> CHR ''=''" "CHR ''='' \<notin> set m"
    by (cases n) (auto simp: flag_name_def)
  then have "split_flag (n @ ''='' @ show_value v) = (n, Some (show_value v))"
    using IndexByte_append [of "CHR ''=''" m "show_value v"] by (simp add: split_flag_def)
  with nm show ?thesis by (simp add: flag_token_def show_flag_def)
qed

lemma set_flag_show: "same_kind old v \<Longrightarrow> set_flag old name (show_value v) = Inr v"
  by (cases "(old, v)" rule: same_kind.cases) (auto simp: ParseBool_def ParseInt64_Itoa)

lemma same_kind_refl_trans:
  "same_kind a b \<Longrightarrow> same_kind b c \<longleftrightarrow> same_kind a c"
  by (cases a; cases b; cases c) auto

lemma map_of_update_kind:
  "map_of fl n = Some old \<Longrightarrow> same_kind old v \<Longrightarrow>
     (\<exists>o'. map_of (AList.update n v fl) m = Some o' \<and> same_kind o' w) \<longleftrightarrow> (\<exists>o'. map_of fl m = Some o' \<and> same_kind o' w)"
  using same_kind_refl_trans [of old v w] by (auto simp: update_conv')

text \<open>Every assignment to defined flags can be written on the command line, and what follows \<open>--\<close> is left as it is.\<close>

lemma parse_args_show:
  assumes "\<forall>(n, v) \<in> set asg. flag_name n \<and> (\<exists>old. map_of fl n = Some old \<and> same_kind old v)"
  shows "parse_args fl actual (map show_flag asg @ ''--'' # rest) =
    Inr \<lparr>fs_values = fold (\<lambda>(n, v). AList.update n v) asg fl, fs_actual = fold (\<lambda>(n, v). List.insert n) asg actual, fs_args = rest\<rparr>"
  using assms
proof (induction asg arbitrary: fl actual)
  case Nil
  then show ?case by (simp add: parse_args.simps flag_token_def)
next
  case (Cons a asg)
  obtain n v where a: "a = (n, v)" by (cases a)
  with Cons.prems obtain old where old: "flag_name n" "map_of fl n = Some old" "same_kind old v" by auto
  have "\<forall>(m, w) \<in> set asg. flag_name m \<and> (\<exists>o'. map_of (AList.update n v fl) m = Some o' \<and> same_kind o' w)"
    using Cons.prems by (auto simp: map_of_update_kind [OF old(2,3)])
  then show ?case using old
    by (simp add: a parse_args.simps flag_token_show flag_text_def set_flag_show Cons.IH)
qed

section \<open>What parsing keeps\<close>

fun kind_eq :: "flag_value \<Rightarrow> flag_value \<Rightarrow> bool" where
  "kind_eq (BoolV _) (BoolV _) = True"
| "kind_eq (StringV _) (StringV _) = True"
| "kind_eq (IntV _) (IntV _) = True"
| "kind_eq _ _ = False"

lemma kind_eq_refl [simp]: "kind_eq v v"
  by (cases v) auto

lemma kind_eq_trans: "kind_eq a b \<Longrightarrow> kind_eq b c \<Longrightarrow> kind_eq a c"
  by (cases a; cases b; cases c) auto

lemma set_flag_kind: "set_flag old name t = Inr new \<Longrightarrow> kind_eq old new"
  by (cases old) (auto split: option.splits sum.splits)

text \<open>A flag that was not given keeps its default, a flag that was given keeps its type, and the arguments left are a suffix
  of the command line.\<close>

lemma parse_args_frame:
  assumes "parse_args fl actual args = Inr fs"
  shows "(\<forall>n. n \<notin> set (fs_actual fs) \<longrightarrow> map_of (fs_values fs) n = map_of fl n) \<and>
    (\<forall>n old. map_of fl n = Some old \<longrightarrow> (\<exists>new. map_of (fs_values fs) n = Some new \<and> kind_eq old new)) \<and>
    set actual \<subseteq> set (fs_actual fs) \<and> (\<exists>used. args = used @ fs_args fs)"
  using assms
proof (induction fl actual args rule: parse_args.induct)
  case (2 fl actual s rest)
  show ?case
  proof (cases "flag_token s")
    case (TokFlag name v)
    with "2.prems" obtain old t rest' new where step:
      "map_of fl name = Some old" "flag_text old name v rest = Inr (t, rest')" "set_flag old name t = Inr new"
      "parse_args (AList.update name new fl) (List.insert name actual) rest' = Inr fs"
      by (auto simp: parse_args.simps split: option.splits sum.splits prod.splits)
    have "\<exists>used. rest = used @ rest'"
      using step(2) by (auto simp: flag_text_def split: option.splits flag_value.splits list.splits)
    then obtain used where "rest = used @ rest'" by blast
    moreover note IH = "2.IH" [OF TokFlag step(1,2) refl step(3,4)]
    moreover have "kind_eq old new" using step(3) by (rule set_flag_kind)
    ultimately show ?thesis using step(1)
      by (auto simp: update_conv' intro: kind_eq_trans)
        (metis kind_eq_trans option.inject)+
  qed (use "2.prems" in \<open>auto simp: parse_args.simps intro: exI [of _ "[s]"]\<close>)
qed auto

end
