(* ===== verification/CliOutput.thy ===== *)
theory CliOutput
  imports GoFlag ServerTypes
begin

text \<open>
  The output side of \<open>cmd/adb-go/internal/custom\<close>: \<open>output.go\<close>, \<open>args.go\<close> and the error texts of \<open>custom.go\<close>. A command
  is a function from a console state to an exit status and a console state. The console keeps what was printed on the two
  streams, how the next writes on the standard output end, and the state of the outside world. A usage text is named by its
  command, and a JSON document is kept as a value.
\<close>

section \<open>Runes\<close>

text \<open>\<open>utf8.DecodeRuneInString\<close>: the length of the first rune and its value, or \<open>None\<close> for a byte that starts no valid encoding.\<close>

definition cont :: "nat \<Rightarrow> nat \<Rightarrow> char \<Rightarrow> bool" where
  "cont lo hi c \<longleftrightarrow> lo \<le> (of_char c :: nat) \<and> (of_char c :: nat) \<le> hi"

definition second_range :: "nat \<Rightarrow> nat \<times> nat" where
  "second_range b = (if b = 0xE0 then (0xA0, 0xBF) else if b = 0xED then (0x80, 0x9F)
     else if b = 0xF0 then (0x90, 0xBF) else if b = 0xF4 then (0x80, 0x8F) else (0x80, 0xBF))"

definition low6 :: "char \<Rightarrow> nat" where "low6 c = of_char c mod 64"

definition DecodeRune :: "string \<Rightarrow> (nat \<times> nat) option" where
  "DecodeRune s =
     (let b = (of_char (hd s) :: nat); (lo, hi) = second_range b in
      if b < 0x80 then Some (1, b)
      else if 0xC2 \<le> b \<and> b \<le> 0xDF \<and> 2 \<le> length s \<and> cont lo hi (s ! 1) then Some (2, (b mod 32) * 64 + low6 (s ! 1))
      else if 0xE0 \<le> b \<and> b \<le> 0xEF \<and> 3 \<le> length s \<and> cont lo hi (s ! 1) \<and> cont 0x80 0xBF (s ! 2)
        then Some (3, (b mod 16) * 4096 + low6 (s ! 1) * 64 + low6 (s ! 2))
      else if 0xF0 \<le> b \<and> b \<le> 0xF4 \<and> 4 \<le> length s \<and> cont lo hi (s ! 1) \<and> cont 0x80 0xBF (s ! 2) \<and> cont 0x80 0xBF (s ! 3)
        then Some (4, (b mod 8) * 262144 + low6 (s ! 1) * 4096 + low6 (s ! 2) * 64 + low6 (s ! 3))
      else None)"

definition rune_len :: "string \<Rightarrow> nat" where
  "rune_len s = (case DecodeRune s of None \<Rightarrow> 1 | Some (k, _) \<Rightarrow> k)"

lemma rune_len_positive [simp]: "0 < rune_len s"
  by (auto simp: rune_len_def DecodeRune_def Let_def split: prod.splits)

lemma rune_len_le: "s \<noteq> [] \<Longrightarrow> rune_len s \<le> length s"
  by (cases s) (auto simp: rune_len_def DecodeRune_def Let_def split: prod.splits)

function RuneCount :: "string \<Rightarrow> nat" where
  "RuneCount s = (if s = [] then 0 else Suc (RuneCount (drop (rune_len s) s)))"
  by pat_completeness auto
termination
  by (relation "measure length") (auto simp: rune_len_le)

declare RuneCount.simps [simp del]

section \<open>The console\<close>

text \<open>\<open>JResult\<close> and \<open>JResultField\<close> are the result of a response of the server and one of its fields, as they were received.\<close>

datatype json =
    JNull
  | JBool bool
  | JInt int
  | JString string
  | JText "chunk list"
  | JArray "json list"
  | JObject "(string \<times> json) list"
  | JServerErr error_code
  | JResult
  | JResultField string
and chunk =
    Txt string
  | Quoted string \<comment> \<open>\<open>%q\<close>\<close>
  | QuotedList "string list" \<comment> \<open>\<open>%q\<close> of a slice\<close>
  | UsageOf string
  | JsonDoc json
  | ServerErr error_code \<comment> \<open>code and message of an error of the server\<close>
  | ResultField string \<comment> \<open>\<open>%v\<close> of a field of the result of a response\<close>

text \<open>An error as the commands see it: its text, the sentinel errors it wraps, and whether it reports a timeout.\<close>

datatype sentinel = AuthRequired | DestinationExists | Unsupported | ConnRefused | DeadlinePassed | NotExist | Exists

record go_error =
  ge_text :: "chunk list"
  ge_is :: "sentinel list"
  ge_timeout :: bool

text \<open>\<open>fmt.Errorf\<close> with and without \<open>%w\<close> at its end.\<close>

definition error_text :: "chunk list \<Rightarrow> go_error" where
  "error_text t = \<lparr>ge_text = t, ge_is = [], ge_timeout = False\<rparr>"

definition wrap :: "chunk list \<Rightarrow> go_error \<Rightarrow> go_error" where
  "wrap t e = e\<lparr>ge_text := t @ ge_text e\<rparr>"

record 's io =
  c_out :: "chunk list"
  c_err :: "chunk list"
  c_faults :: "go_error option list" \<comment> \<open>how the next writes on the standard output end; after that they succeed\<close>
  c_sys :: 's

definition oprint :: "chunk list \<Rightarrow> 's io \<Rightarrow> go_error option \<times> 's io" where
  "oprint cs io =
     (case c_faults io of
        [] \<Rightarrow> (None, io\<lparr>c_out := c_out io @ cs\<rparr>)
      | None # fs \<Rightarrow> (None, io\<lparr>c_out := c_out io @ cs, c_faults := fs\<rparr>)
      | Some e # fs \<Rightarrow> (Some e, io\<lparr>c_faults := fs\<rparr>))"

definition outln :: "string \<Rightarrow> 's io \<Rightarrow> 's io" where
  "outln s io = snd (oprint [Txt (s @ [CHR 0x0A])] io)"

definition out_chunks :: "chunk list \<Rightarrow> 's io \<Rightarrow> 's io" where
  "out_chunks cs io = snd (oprint cs io)"

definition eprint :: "chunk list \<Rightarrow> 's io \<Rightarrow> 's io" where
  "eprint cs io = io\<lparr>c_err := c_err io @ cs\<rparr>"

definition eprintln :: "chunk list \<Rightarrow> 's io \<Rightarrow> 's io" where
  "eprintln cs io = eprint (cs @ [Txt [CHR 0x0A]]) io"

definition nl2 :: string where "nl2 = [CHR 0x0A, CHR 0x0A]"

text \<open>A message, an empty line and the usage text, with exit status 2.\<close>

definition usage_error :: "string \<Rightarrow> chunk list \<Rightarrow> 's io \<Rightarrow> nat \<times> 's io" where
  "usage_error command cs io = (2, eprint [UsageOf command] (eprint (cs @ [Txt nl2]) io))"

text \<open>What \<open>FlagSet.Parse\<close> prints before it returns an error: the message and the usage text, for \<open>-h\<close> only the latter.\<close>

fun flag_message :: "flag_error \<Rightarrow> chunk list" where
  "flag_message FlagHelp = []"
| "flag_message (BadFlagSyntax s) = [Txt (''bad flag syntax: '' @ s @ [CHR 0x0A])]"
| "flag_message (FlagNotDefined n) = [Txt (''flag provided but not defined: -'' @ n @ [CHR 0x0A])]"
| "flag_message (FlagNeedsArgument n) = [Txt (''flag needs an argument: -'' @ n @ [CHR 0x0A])]"
| "flag_message (InvalidBoolValue v n) =
     [Txt ''invalid boolean value '', Quoted v, Txt ('' for -'' @ n @ '': parse error'' @ [CHR 0x0A])]"
| "flag_message (InvalidFlagValue v n e) =
     [Txt ''invalid value '', Quoted v,
      Txt ('' for flag -'' @ n @ '': '' @ (case e of ErrSyntax \<Rightarrow> ''parse error'' | ErrRange \<Rightarrow> ''value out of range'') @ [CHR 0x0A])]"

definition flag_failure :: "string \<Rightarrow> flag_error \<Rightarrow> 's io \<Rightarrow> nat \<times> 's io" where
  "flag_failure command e io = (2, eprint [UsageOf command] (eprint (flag_message e) io))"

section \<open>Subcommands\<close>

definition splitFlagSetCommand :: "flag_set \<Rightarrow> (string \<times> string list) option" where
  "splitFlagSetCommand fs = (case fs_args fs of [] \<Rightarrow> None | command # commandArgs \<Rightarrow> Some (command, commandArgs))"

section \<open>JSON and tables\<close>

fun insert_string :: "string \<Rightarrow> string list \<Rightarrow> string list" where
  "insert_string x [] = [x]"
| "insert_string x (y # ys) = (if str_less y x then y # insert_string x ys else x # y # ys)"

definition sort_Strings :: "string list \<Rightarrow> string list" where
  "sort_Strings xs = foldr insert_string xs []"

text \<open>A map in JSON has its keys in order.\<close>

definition json_map :: "(string \<times> json) list \<Rightarrow> json" where
  "json_map m = JObject (map (\<lambda>k. (k, case map_of m k of None \<Rightarrow> JNull | Some v \<Rightarrow> v)) (sort_Strings (remdups (map fst m))))"

definition writeJSON :: "json \<Rightarrow> 's io \<Rightarrow> go_error option \<times> 's io" where
  "writeJSON value io = oprint [JsonDoc value] io"

text \<open>\<open>if err != nil { return err }\<close>\<close>

definition unless_err :: "go_error option \<times> 's io \<Rightarrow> ('s io \<Rightarrow> go_error option \<times> 's io) \<Rightarrow> go_error option \<times> 's io" where
  "unless_err r f = (case r of (Some e, io) \<Rightarrow> (Some e, io) | (None, io) \<Rightarrow> f io)"

type_synonym tableRow = "string list"

definition tableCells :: "tableRow \<Rightarrow> nat \<Rightarrow> string list" where
  "tableCells row width = map (\<lambda>i. if i < length row then row ! i else []) [0..<width]"

definition tableWidths :: "string list \<Rightarrow> tableRow list \<Rightarrow> nat list" where
  "tableWidths headers rows =
     fold (\<lambda>row widths. map2 (\<lambda>w cell. max w (RuneCount cell)) widths (tableCells row (length headers))) rows (map RuneCount headers)"

text \<open>\<open>%-*s\<close>\<close>

definition pad_right :: "nat \<Rightarrow> string \<Rightarrow> string" where
  "pad_right width s = s @ replicate (width - RuneCount s) (CHR '' '')"

fun write_cells :: "bool \<Rightarrow> string list \<Rightarrow> nat list \<Rightarrow> 's io \<Rightarrow> go_error option \<times> 's io" where
  "write_cells later [] ws io = (None, io)"
| "write_cells later (cell # cells) ws io =
     unless_err (if later then oprint [Txt ''  ''] io else (None, io)) (\<lambda>io.
       unless_err (oprint [Txt (if cells = [] then cell else pad_right (hd ws) cell)] io) (\<lambda>io.
         write_cells True cells (tl ws) io))"

definition writeAlignedTableRow :: "string list \<Rightarrow> nat list \<Rightarrow> 's io \<Rightarrow> go_error option \<times> 's io" where
  "writeAlignedTableRow cells widths io = unless_err (write_cells False cells widths io) (oprint [Txt [CHR 0x0A]])"

fun write_each :: "('a \<Rightarrow> 's io \<Rightarrow> go_error option \<times> 's io) \<Rightarrow> 'a list \<Rightarrow> 's io \<Rightarrow> go_error option \<times> 's io" where
  "write_each f [] io = (None, io)"
| "write_each f (x # xs) io = unless_err (f x io) (write_each f xs)"

definition writeAlignedTable :: "string list \<Rightarrow> tableRow list \<Rightarrow> 's io \<Rightarrow> go_error option \<times> 's io" where
  "writeAlignedTable headers rows io =
     (if headers = [] then (None, io)
      else let widths = tableWidths headers rows in
        unless_err (writeAlignedTableRow headers widths io)
          (write_each (\<lambda>row. writeAlignedTableRow (tableCells row (length headers)) widths) rows))"

definition writePlainTable :: "string list \<Rightarrow> tableRow list \<Rightarrow> 's io \<Rightarrow> go_error option \<times> 's io" where
  "writePlainTable headers rows io =
     (if headers = [] then (None, io)
      else unless_err (oprint [Txt (Join headers [CHR 0x09] @ [CHR 0x0A])] io)
        (write_each (\<lambda>row. oprint [Txt (Join (tableCells row (length headers)) [CHR 0x09] @ [CHR 0x0A])]) rows))"

section \<open>Options and policy\<close>

record cliOptions =
  co_JSON :: bool
  co_Quiet :: bool
  co_Verbose :: bool

record outputPolicy =
  op_quiet :: bool
  op_verbose :: bool

definition newOutputPolicy :: "cliOptions \<Rightarrow> outputPolicy" where
  "newOutputPolicy opts = \<lparr>op_quiet = co_Quiet opts, op_verbose = co_Verbose opts\<rparr>"

definition Infof :: "outputPolicy \<Rightarrow> chunk list \<Rightarrow> 's io \<Rightarrow> 's io" where
  "Infof p cs io = (if op_quiet p then io else out_chunks cs io)"

definition Infoln :: "outputPolicy \<Rightarrow> string \<Rightarrow> 's io \<Rightarrow> 's io" where
  "Infoln p s io = (if op_quiet p then io else outln s io)"

definition Verbosef :: "outputPolicy \<Rightarrow> chunk list \<Rightarrow> 's io \<Rightarrow> 's io" where
  "Verbosef p cs io = (if \<not> op_verbose p then io else eprint cs (eprint [Txt ''adb-go: ''] io))"

section \<open>Errors\<close>

definition isConnectionRefused :: "go_error \<Rightarrow> bool" where
  "isConnectionRefused e \<longleftrightarrow> ConnRefused \<in> set (ge_is e)"

definition isTimeout :: "go_error \<Rightarrow> bool" where
  "isTimeout e \<longleftrightarrow> DeadlinePassed \<in> set (ge_is e) \<or> ge_timeout e"

definition formatCLIError :: "go_error \<Rightarrow> chunk list" where
  "formatCLIError e =
     (if AuthRequired \<in> set (ge_is e)
        then Txt ''device requires authentication; pass --auth-key PATH for an existing ADB private key: '' # ge_text e
      else if DestinationExists \<in> set (ge_is e)
        then Txt ''destination already exists; pass --overwrite to replace it deliberately: '' # ge_text e
      else if Unsupported \<in> set (ge_is e)
        then Txt ''operation unsupported in this adb-go build; check whether the requested transport or selector is implemented for this platform: '' # ge_text e
      else if isConnectionRefused e
        then Txt ''connection refused; check that the device/emulator is running ADB TCP at this address, or run `adb-go targets --scan` for local emulators: '' # ge_text e
      else if isTimeout e
        then Txt ''operation timed out; check that the target address is reachable, the device is online, and USB permissions are sufficient: '' # ge_text e
      else if NotExist \<in> set (ge_is e)
        then Txt ''local file or directory not found; check the path and parent directory: '' # ge_text e
      else ge_text e)"

definition printConnectError :: "string \<Rightarrow> string \<Rightarrow> go_error \<Rightarrow> 's io \<Rightarrow> 's io" where
  "printConnectError command description e io =
     eprintln (Txt (''adb-go '' @ command @ '': connect to '' @ description @ '': '') # formatCLIError e) io"

definition printCommandError :: "string \<Rightarrow> go_error \<Rightarrow> 's io \<Rightarrow> 's io" where
  "printCommandError command e io = eprintln (Txt (''adb-go '' @ command @ '': '') # formatCLIError e) io"

text \<open>The end of a command whose last action reported an error or not.\<close>

definition finish :: "go_error option \<times> 's io \<Rightarrow> (go_error \<Rightarrow> 's io \<Rightarrow> 's io) \<Rightarrow> nat \<times> 's io" where
  "finish r report = (case r of (None, io) \<Rightarrow> (0, io) | (Some e, io) \<Rightarrow> (1, report e io))"

end
