(* ===== verification/CliTarget.thy ===== *)
theory CliTarget
  imports CliOutput ClientConnect Server
begin

text \<open>
  Choosing and connecting a device: \<open>cmd/adb-go/internal/custom/target.go\<close>. The outside world of the commands is an argument,
  a record of functions on a state: the environment variables, the device client behind the interface \<open>deviceClient\<close>, the
  sessions of \<open>forward.go\<close>, the local file a screenshot is written to, the control socket of the server, and the programs
  that are run.
\<close>

section \<open>Targets\<close>

record connectionTarget =
  tg_description :: string
  tg_tcpAddr :: string
  tg_usb :: bool
  tg_usbOptions :: USBOptions
  tg_auth :: credentials

definition zero_usb :: USBOptions where
  "zero_usb = \<lparr>uo_DevicePath = [], uo_BusNumber = 0, uo_DeviceNumber = 0, uo_VendorID = 0, uo_ProductID = 0, uo_Serial = [],
     uo_AuthCredentials = []\<rparr>"

definition tcp_target :: "string \<Rightarrow> credentials \<Rightarrow> connectionTarget" where
  "tcp_target addr auth = \<lparr>tg_description = addr, tg_tcpAddr = addr, tg_usb = False, tg_usbOptions = zero_usb, tg_auth = auth\<rparr>"

definition transportName :: "connectionTarget \<Rightarrow> string" where
  "transportName t = (if tg_usb t then ''USB'' else ''TCP'')"

definition authSummary :: "connectionTarget \<Rightarrow> string" where
  "authSummary t =
     (if tg_auth t = [] then [] else '' using '' @ FormatUint (length (tg_auth t)) @ '' auth credential(s)'')"

section \<open>The world\<close>

datatype socket_stat = StatSocket | StatOther string | StatMissing | StatFailed go_error

datatype usb_list = UsbDevices "USBDevice list" | UsbError go_error

record ('s, 'c) cli_env =
  cx_getenv :: "string \<Rightarrow> string"
  cx_tmp :: string
  cx_uid :: nat
  cx_linux :: bool
  cx_versionInfo :: "string \<times> string \<times> string \<times> string"
  cx_now :: "string \<times> nat" \<comment> \<open>the time as \<open>20060102-150405\<close> and its nanoseconds\<close>
  cx_loadKey :: "string \<Rightarrow> go_error + credential"
  cx_connect :: "connectionTarget \<Rightarrow> 's \<Rightarrow> (go_error + 'c) \<times> 's"
  cx_closeClient :: "'c \<Rightarrow> 's \<Rightarrow> 's"
  cx_shellStream :: "'c \<Rightarrow> string \<Rightarrow> go_error option list \<Rightarrow> 's \<Rightarrow> (go_error option \<times> string) \<times> 's" \<comment> \<open>with what reached the writer\<close>
  cx_logcat :: "'c \<Rightarrow> bool \<Rightarrow> go_error option list \<Rightarrow> 's \<Rightarrow> (go_error option \<times> string) \<times> 's"
  cx_getProp :: "'c \<Rightarrow> string \<Rightarrow> 's \<Rightarrow> (go_error + string) \<times> 's"
  cx_properties :: "'c \<Rightarrow> 's \<Rightarrow> (go_error + (string \<times> string) list) \<times> 's" \<comment> \<open>in the iteration order of the map\<close>
  cx_screencap :: "'c \<Rightarrow> 's \<Rightarrow> (go_error + bytes) \<times> 's"
  cx_reboot :: "'c \<Rightarrow> string \<Rightarrow> 's \<Rightarrow> go_error option \<times> 's"
  cx_pushFile :: "'c \<Rightarrow> string \<Rightarrow> string \<Rightarrow> 's \<Rightarrow> go_error option \<times> 's"
  cx_pullFile :: "'c \<Rightarrow> bool \<Rightarrow> string \<Rightarrow> string \<Rightarrow> 's \<Rightarrow> go_error option \<times> 's"
  cx_installAPK :: "'c \<Rightarrow> bool \<Rightarrow> string \<Rightarrow> 's \<Rightarrow> go_error option \<times> 's"
  cx_startForward :: "'c \<Rightarrow> string \<Rightarrow> string \<Rightarrow> 's \<Rightarrow> (go_error + string) \<times> 's" \<comment> \<open>the address of the listener\<close>
  cx_startReverse :: "'c \<Rightarrow> string \<Rightarrow> string \<Rightarrow> 's \<Rightarrow> go_error option \<times> 's"
  cx_waitSession :: "'s \<Rightarrow> go_error option \<times> 's"
  cx_closeSession :: "'s \<Rightarrow> go_error option \<times> 's"
  cx_openFile :: "string \<Rightarrow> bool \<Rightarrow> 's \<Rightarrow> go_error option \<times> 's" \<comment> \<open>\<open>O_TRUNC\<close> or \<open>O_EXCL\<close>\<close>
  cx_writeFile :: "string \<Rightarrow> bytes \<Rightarrow> 's \<Rightarrow> go_error option \<times> 's"
  cx_closeFile :: "string \<Rightarrow> 's \<Rightarrow> go_error option \<times> 's"
  cx_removeFile :: "string \<Rightarrow> 's \<Rightarrow> go_error option \<times> 's"
  cx_WriteFile :: "string \<Rightarrow> string \<Rightarrow> 's \<Rightarrow> go_error option \<times> 's" \<comment> \<open>\<open>os.WriteFile\<close>\<close>
  cx_mkdirAll :: "string \<Rightarrow> 's \<Rightarrow> go_error option \<times> 's"
  cx_stat :: "string \<Rightarrow> 's \<Rightarrow> (go_error + bool)" \<comment> \<open>whether it is a directory\<close>
  cx_lstat :: "string \<Rightarrow> 's \<Rightarrow> socket_stat"
  cx_send :: "string \<Rightarrow> Request \<Rightarrow> 's \<Rightarrow> (go_error + Response) \<times> 's"
  cx_listUSB :: "'s \<Rightarrow> usb_list"
  cx_scanTCP :: "'s \<Rightarrow> go_error + (string \<times> bool) list" \<comment> \<open>address, authentication required\<close>
  cx_exec :: "string \<Rightarrow> string list \<Rightarrow> 's \<Rightarrow> (go_error option \<times> string) \<times> 's" \<comment> \<open>\<open>CombinedOutput\<close>\<close>
  cx_execStreams :: "string \<Rightarrow> string list \<Rightarrow> 's \<Rightarrow> (go_error option \<times> string \<times> string) \<times> 's"
  cx_lookPath :: "string \<Rightarrow> go_error + string"
  cx_executable :: "string option"
  cx_home :: "go_error + string"
  cx_cwd :: "go_error + string"

text \<open>Running an operation of the world from a command.\<close>

definition on_sys :: "('s \<Rightarrow> 'r \<times> 's) \<Rightarrow> 's io \<Rightarrow> 'r \<times> 's io" where
  "on_sys f io = (case f (c_sys io) of (r, s) \<Rightarrow> (r, io\<lparr>c_sys := s\<rparr>))"

definition close_client :: "('s, 'c) cli_env \<Rightarrow> 'c \<Rightarrow> nat \<times> 's io \<Rightarrow> nat \<times> 's io" where
  "close_client env c r = (case r of (code, io) \<Rightarrow> (code, io\<lparr>c_sys := cx_closeClient env c (c_sys io)\<rparr>))"

definition socket_error_text :: "server_error \<Rightarrow> string" where
  "socket_error_text e = EnvSocket @ '' must be an absolute path''"

definition default_socket :: "('s, 'c) cli_env \<Rightarrow> server_error + string" where
  "default_socket env = DefaultSocketPath (cx_getenv env) (cx_tmp env) (cx_uid env)"

text \<open>A world in which everything succeeds and nothing happens.\<close>

definition idle_cli :: "('s, unit) cli_env" where
  "idle_cli = \<lparr>cx_getenv = (\<lambda>_. []), cx_tmp = ''/tmp'', cx_uid = 1000, cx_linux = True, cx_versionInfo = ([], [], [], []),
     cx_now = ([], 0), cx_loadKey = (\<lambda>_. Inl (error_text [])), cx_connect = (\<lambda>_ n. (Inr (), n)), cx_closeClient = (\<lambda>_ n. n),
     cx_shellStream = (\<lambda>_ _ _ n. ((None, []), n)), cx_logcat = (\<lambda>_ _ _ n. ((None, []), n)), cx_getProp = (\<lambda>_ _ n. (Inr [], n)),
     cx_properties = (\<lambda>_ n. (Inr [], n)), cx_screencap = (\<lambda>_ n. (Inr [], n)), cx_reboot = (\<lambda>_ _ n. (None, n)),
     cx_pushFile = (\<lambda>_ _ _ n. (None, n)), cx_pullFile = (\<lambda>_ _ _ _ n. (None, n)), cx_installAPK = (\<lambda>_ _ _ n. (None, n)),
     cx_startForward = (\<lambda>_ _ _ n. (Inr [], n)), cx_startReverse = (\<lambda>_ _ _ n. (None, n)), cx_waitSession = (\<lambda>n. (None, n)),
     cx_closeSession = (\<lambda>n. (None, n)), cx_openFile = (\<lambda>_ _ n. (None, n)), cx_writeFile = (\<lambda>_ _ n. (None, n)),
     cx_closeFile = (\<lambda>_ n. (None, n)), cx_removeFile = (\<lambda>_ n. (None, n)), cx_WriteFile = (\<lambda>_ _ n. (None, n)),
     cx_mkdirAll = (\<lambda>_ n. (None, n)), cx_stat = (\<lambda>_ _. Inr False), cx_lstat = (\<lambda>_ _. StatMissing),
     cx_send = (\<lambda>_ _ n. (Inl (error_text []), n)), cx_listUSB = (\<lambda>_. UsbDevices []), cx_scanTCP = (\<lambda>_. Inr []),
     cx_exec = (\<lambda>_ _ n. ((None, []), n)), cx_execStreams = (\<lambda>_ _ n. ((None, [], []), n)), cx_lookPath = (\<lambda>_. Inr ''/usr/bin/adb-gos''),
     cx_executable = None, cx_home = Inr ''/home/a'', cx_cwd = Inr ''/''\<rparr>"

section \<open>Connection flags\<close>

definition addConnectionFlags :: "(string \<times> flag_value) list" where
  "addConnectionFlags =
     [(''addr'', StringV []), (''usb'', BoolV False), (''serial'', StringV []), (''usb-path'', StringV []), (''usb-bus'', IntV 0),
      (''usb-device'', IntV 0), (''usb-vid'', StringV []), (''usb-pid'', StringV []), (''auth-key'', StringV [])]"

definition flagWasProvided :: "flag_set \<Rightarrow> string \<Rightarrow> bool" where
  "flagWasProvided fs name \<longleftrightarrow> name \<in> set (fs_actual fs)"

definition parseUSBID :: "string \<Rightarrow> string \<Rightarrow> chunk list + u16" where
  "parseUSBID name value0 =
     (let value = TrimSpace value0 in
      if value = [] then Inr 0
      else
        let base = (if \<not> HasPrefix value ''0x'' \<and> \<not> HasPrefix value ''0X'' then 16 else 0) in
        case ParseUint value base 16 of
          Inl _ \<Rightarrow> Inl [Txt (''invalid '' @ name @ '' ''), Quoted value]
        | Inr n \<Rightarrow> Inr (word_of_nat n))"

definition authCredentials :: "('s, 'c) cli_env \<Rightarrow> flag_set \<Rightarrow> chunk list + credentials" where
  "authCredentials env fs =
     (let path = TrimSpace (flag_string fs ''auth-key'') in
      if path = [] then Inr []
      else case cx_loadKey env path of
          Inl e \<Rightarrow> Inl (Txt ''load --auth-key: '' # ge_text e)
        | Inr credential \<Rightarrow> Inr [Some credential])"

definition usb_requested :: "flag_set \<Rightarrow> bool" where
  "usb_requested fs \<longleftrightarrow> flag_bool fs ''usb'' \<or> flagWasProvided fs ''usb-path'' \<or> flagWasProvided fs ''serial'' \<or>
     flagWasProvided fs ''usb-bus'' \<or> flagWasProvided fs ''usb-device'' \<or> flagWasProvided fs ''usb-vid'' \<or> flagWasProvided fs ''usb-pid''"

definition conn_target :: "('s, 'c) cli_env \<Rightarrow> flag_set \<Rightarrow> chunk list + connectionTarget" where
  "conn_target env fs =
     (case authCredentials env fs of
        Inl e \<Rightarrow> Inl e
      | Inr auth \<Rightarrow>
          if flagWasProvided fs ''addr'' \<and> usb_requested fs then Inl [Txt ''cannot combine TCP --addr with USB selection flags'']
          else if usb_requested fs then
            (case parseUSBID ''--usb-vid'' (flag_string fs ''usb-vid'') of
               Inl e \<Rightarrow> Inl e
             | Inr vid \<Rightarrow>
                 (case parseUSBID ''--usb-pid'' (flag_string fs ''usb-pid'') of
                    Inl e \<Rightarrow> Inl e
                  | Inr pid \<Rightarrow>
                      Inr \<lparr>tg_description = ''USB device'', tg_tcpAddr = [], tg_usb = True,
                        tg_usbOptions = \<lparr>uo_DevicePath = TrimSpace (flag_string fs ''usb-path''), uo_BusNumber = flag_int fs ''usb-bus'',
                          uo_DeviceNumber = flag_int fs ''usb-device'', uo_VendorID = vid, uo_ProductID = pid,
                          uo_Serial = TrimSpace (flag_string fs ''serial''), uo_AuthCredentials = auth\<rparr>,
                        tg_auth = auth\<rparr>))
          else if flagWasProvided fs ''addr'' then
            (let addr = TrimSpace (flag_string fs ''addr'') in
             if addr = [] then Inl [Txt ''missing required --addr value''] else Inr (tcp_target addr auth))
          else
            (let addr = TrimSpace (cx_getenv env ''ADB_GO_ADDR'') in
             if addr \<noteq> [] then Inr (tcp_target addr auth)
             else Inl [Txt ''missing required --addr, ADB_GO_ADDR, or USB selection'']))"

section \<open>Connecting\<close>

definition connectTarget :: "('s, 'c) cli_env \<Rightarrow> string \<Rightarrow> connectionTarget \<Rightarrow> outputPolicy \<Rightarrow> 's io \<Rightarrow> (go_error + 'c) \<times> 's io" where
  "connectTarget env command target p io0 =
     (let io1 = Verbosef p [Txt (command @ '' selected '' @ transportName target @ '' target '' @ tg_description target @ authSummary target
                  @ [CHR 0x0A])] io0;
          io2 = Verbosef p [Txt (command @ '' connecting to '' @ tg_description target @ [CHR 0x0A])] io1 in
      case on_sys (cx_connect env target) io2 of
        (Inl e, io) \<Rightarrow> (Inl e, io)
      | (Inr c, io) \<Rightarrow> (Inr c, Verbosef p [Txt (command @ '' connected to '' @ tg_description target @ [CHR 0x0A])] io))"

text \<open>Connecting with the error report of a command, running its body, and closing the client when it returns.\<close>

definition with_client ::
  "('s, 'c) cli_env \<Rightarrow> string \<Rightarrow> connectionTarget \<Rightarrow> outputPolicy \<Rightarrow> ('c \<Rightarrow> 's io \<Rightarrow> nat \<times> 's io) \<Rightarrow> 's io \<Rightarrow> nat \<times> 's io" where
  "with_client env command target p body io0 =
     (case connectTarget env command target p io0 of
        (Inl e, io) \<Rightarrow> (1, printConnectError command (tg_description target) e io)
      | (Inr c, io) \<Rightarrow> close_client env c (body c io))"

section \<open>Arguments without white space\<close>

definition solid :: "char \<Rightarrow> bool" where
  "solid c \<longleftrightarrow> 33 \<le> (of_char c :: nat) \<and> (of_char c :: nat) \<le> 126"

lemma solid_no_space:
  assumes "solid c"
  shows "\<forall>p \<in> set space_runes. \<not> HasPrefix (c # s) p" "\<forall>p \<in> set (map rev space_runes). \<not> HasPrefix (c # s) p"
  using assms by (auto simp: space_runes_def HasPrefix_iff solid_def)

lemma TrimSpace_solid: "s \<noteq> [] \<Longrightarrow> solid (hd s) \<Longrightarrow> solid (last s) \<Longrightarrow> TrimSpace s = s"
proof -
  assume s: "s \<noteq> []" "solid (hd s)" "solid (last s)"
  then obtain c t where "s = c # t" "solid c" by (cases s) auto
  then have left: "trim_left space_runes s = s" using solid_no_space(1) trim_left_id by metis
  obtain d u where "rev s = d # u" "solid d" using s by (metis hd_rev list.exhaust_sel rev_is_Nil_conv)
  then have "trim_left (map rev space_runes) (rev s) = rev s" using solid_no_space(2) trim_left_id by metis
  then show ?thesis by (simp add: TrimSpace_def left)
qed

lemma TrimSpace_Nil [simp]: "TrimSpace [] = []"
  by code_simp

lemma solid_hex_char: "d < 16 \<Longrightarrow> solid (hex_char d)"
  by (auto simp: solid_def hex_char_def digit_char_def)

lemma solid_digit_char: "d < 10 \<Longrightarrow> solid (digit_char d)"
  by (auto simp: solid_def digit_char_def)

lemma FormatHex_digits: "c \<in> set (FormatHex n) \<Longrightarrow> \<exists>d < 16. c = hex_char d"
proof (induction n rule: FormatHex.induct)
  case (1 n)
  show ?case
  proof (cases "n < 16")
    case True
    then show ?thesis using 1 FormatHex.simps [of n] by auto
  next
    case False
    then show ?thesis using 1 FormatHex.simps [of n] by (auto intro: exI [of _ "n mod 16"])
  qed
qed

lemma FormatHex_not_Nil [simp]: "FormatHex n \<noteq> []"
  by (simp add: FormatHex.simps [of n])

lemma hex_char_not_x:
  assumes "d < 16" shows "hex_char d \<noteq> CHR ''x''" "hex_char d \<noteq> CHR ''X''"
proof -
  have x: "letter_value (CHR ''x'') = Some 33" "letter_value (CHR ''X'') = Some 33" by code_simp+
  have "letter_value (hex_char d) \<noteq> Some 33" using assms letter_value_hex_char [OF assms] by simp
  then show "hex_char d \<noteq> CHR ''x''" "hex_char d \<noteq> CHR ''X''" using x by metis+
qed

text \<open>A four-digit hexadecimal number is read back by \<open>parseUSBID\<close>.\<close>

lemma parseUSBID_hex:
  assumes "s = replicate k (CHR ''0'') @ FormatHex (unat (w :: u16))"
  shows "parseUSBID name s = Inr w"
proof -
  have zero: "hex_char 0 = CHR ''0''" by code_simp
  have chars: "\<forall>c \<in> set s. \<exists>d < 16. c = hex_char d"
    using FormatHex_digits assms zero by (metis Un_iff in_set_replicate set_append zero_less_numeral)
  have ne: "s \<noteq> []" using assms by simp
  then have "solid (hd s)" "solid (last s)" using chars solid_hex_char by (metis hd_in_set, metis last_in_set)
  then have trim: "TrimSpace s = s" using ne by (intro TrimSpace_solid)
  have "CHR ''x'' \<notin> set s" "CHR ''X'' \<notin> set s" using chars hex_char_not_x by metis+
  then have "\<not> HasPrefix s ''0x''" "\<not> HasPrefix s ''0X''" unfolding HasPrefix_iff
    by (metis in_set_conv_decomp append.assoc append_Cons append_Nil)+
  moreover have "uint_loop False 16 65535 0 False s = Inr (unat w, False)"
    using unsigned_less [where w = w and ?'a = nat] by (simp add: assms uint_loop_append uint_loop_zeros uint_loop_FormatHex)
  ultimately show ?thesis using ne trim by (simp add: parseUSBID_def ParseUint_def Let_def)
qed

end
