(* ===== verification/CliDevice.thy ===== *)
theory CliDevice
  imports CliTarget ClientForward
begin

text \<open>
  The commands of \<open>adb-go\<close> that work on one device: \<open>shell.go\<close> and \<open>sync.go\<close> of \<open>cmd/adb-go/internal/custom\<close>. Each parses
  its flags, chooses the target, checks its arguments, connects, and closes the client when it returns.
\<close>

section \<open>Parsing\<close>

text \<open>The common start of the device commands: flags, then the target.\<close>

definition with_target ::
  "('s, 'c) cli_env \<Rightarrow> string \<Rightarrow> (string \<times> flag_value) list \<Rightarrow> string list \<Rightarrow>
     (flag_set \<Rightarrow> connectionTarget \<Rightarrow> 's io \<Rightarrow> nat \<times> 's io) \<Rightarrow> 's io \<Rightarrow> nat \<times> 's io" where
  "with_target env command flags args body io =
     (case Parse (addConnectionFlags @ flags) args of
        Inl e \<Rightarrow> flag_failure command e io
      | Inr fs \<Rightarrow>
          (case conn_target env fs of
             Inl e \<Rightarrow> usage_error command (Txt (''adb-go '' @ command @ '': '') # e) io
           | Inr target \<Rightarrow> body fs target io))"

definition show_bool :: "bool \<Rightarrow> string" where "show_bool b = (if b then ''true'' else ''false'')"

text \<open>An operation that writes to the standard output while it runs.\<close>

definition stream_to_stdout ::
  "(go_error option list \<Rightarrow> 's \<Rightarrow> (go_error option \<times> string) \<times> 's) \<Rightarrow> 's io \<Rightarrow> go_error option \<times> 's io" where
  "stream_to_stdout f io =
     (case f (c_faults io) (c_sys io) of
        ((fault, written), s) \<Rightarrow> (fault, io\<lparr>c_out := c_out io @ [Txt written], c_sys := s\<rparr>))"

section \<open>shell, logcat\<close>

definition runShellWithOptions :: "('s, 'c) cli_env \<Rightarrow> string list \<Rightarrow> cliOptions \<Rightarrow> 's io \<Rightarrow> nat \<times> 's io" where
  "runShellWithOptions env args opts =
     (let p = newOutputPolicy opts in
      with_target env ''shell'' [] args (\<lambda>fs target io.
        if fs_args fs = [] then usage_error ''shell'' [Txt ''adb-go shell: missing shell command''] io
        else
          let cmd = Join (fs_args fs) '' '' in
          with_client env ''shell'' target p (\<lambda>c io.
            finish (stream_to_stdout (cx_shellStream env c cmd) io) (printCommandError ''shell''))
            (Verbosef p [Txt (''shell opening service shell:'' @ cmd @ [CHR 0x0A])] io)))"

definition runLogcatWithOptions :: "('s, 'c) cli_env \<Rightarrow> string list \<Rightarrow> cliOptions \<Rightarrow> 's io \<Rightarrow> nat \<times> 's io" where
  "runLogcatWithOptions env args opts =
     (let p = newOutputPolicy opts in
      with_target env ''logcat'' [(''dump'', BoolV False)] args (\<lambda>fs target io.
        if fs_args fs \<noteq> [] then usage_error ''logcat'' [Txt ''adb-go logcat: unexpected arguments''] io
        else
          let dump = flag_bool fs ''dump'' in
          with_client env ''logcat'' target p (\<lambda>c io.
            finish (stream_to_stdout (cx_logcat env c dump) io) (printCommandError ''logcat''))
            (Verbosef p [Txt (''logcat starting stream (dump='' @ show_bool dump @ '')'' @ [CHR 0x0A])] io)))"

section \<open>getprop\<close>

definition prop_line :: "(string \<times> string) list \<Rightarrow> string \<Rightarrow> string" where
  "prop_line props name = ''['' @ name @ '']: ['' @ (case map_of props name of None \<Rightarrow> [] | Some v \<Rightarrow> v) @ '']'' @ [CHR 0x0A]"

definition json_props :: "(string \<times> string) list \<Rightarrow> json" where
  "json_props props = json_map (map (\<lambda>(n, v). (n, JString v)) props)"

definition encode_error :: "string \<Rightarrow> go_error \<Rightarrow> 's io \<Rightarrow> 's io" where
  "encode_error command e = eprintln (Txt (''adb-go '' @ command @ '': encode JSON: '') # ge_text e)"

definition print_one_prop :: "bool \<Rightarrow> string \<Rightarrow> string \<Rightarrow> 's io \<Rightarrow> nat \<times> 's io" where
  "print_one_prop json name value io =
     (if json then finish (writeJSON (JObject [(''name'', JString name), (''value'', JString value)]) io) (encode_error ''getprop'')
      else (0, outln value io))"

definition getprop_one :: "('s, 'c) cli_env \<Rightarrow> 'c \<Rightarrow> bool \<Rightarrow> string \<Rightarrow> 's io \<Rightarrow> nat \<times> 's io" where
  "getprop_one env c json name io =
     (case on_sys (cx_getProp env c name) io of
        (Inl e, io) \<Rightarrow> (1, printCommandError ''getprop'' e io)
      | (Inr value, io) \<Rightarrow>
          if value = [] then
            (case on_sys (cx_properties env c) io of
               (Inl e, io) \<Rightarrow> (1, printCommandError ''getprop'' e io)
             | (Inr props, io) \<Rightarrow>
                 if map_of props name = None then (1, eprintln [Txt (''adb-go getprop: property not found: '' @ name)] io)
                 else print_one_prop json name value io)
          else print_one_prop json name value io)"

definition getprop_all :: "('s, 'c) cli_env \<Rightarrow> 'c \<Rightarrow> bool \<Rightarrow> 's io \<Rightarrow> nat \<times> 's io" where
  "getprop_all env c json io =
     (case on_sys (cx_properties env c) io of
        (Inl e, io) \<Rightarrow> (1, printCommandError ''getprop'' e io)
      | (Inr props, io) \<Rightarrow>
          if json then finish (writeJSON (json_props props) io) (encode_error ''getprop'')
          else (0, fold (\<lambda>name. out_chunks [Txt (prop_line props name)]) (sort_Strings (map fst props)) io))"

definition runGetPropWithOptions :: "('s, 'c) cli_env \<Rightarrow> string list \<Rightarrow> cliOptions \<Rightarrow> 's io \<Rightarrow> nat \<times> 's io" where
  "runGetPropWithOptions env args opts =
     (let p = newOutputPolicy opts in
      with_target env ''getprop'' [(''json'', BoolV (co_JSON opts))] args (\<lambda>fs target io.
        if 1 < length (fs_args fs) then usage_error ''getprop'' [Txt ''adb-go getprop: accepts at most one PROPERTY argument''] io
        else
          let json = flag_bool fs ''json'' in
          with_client env ''getprop'' target p (\<lambda>c io.
            case fs_args fs of [] \<Rightarrow> getprop_all env c json io | name # _ \<Rightarrow> getprop_one env c json name io)
            (Verbosef p [Txt ((case fs_args fs of [] \<Rightarrow> ''getprop reading all properties'' | name # _ \<Rightarrow> ''getprop reading property '' @ name)
               @ [CHR 0x0A])] io)))"

section \<open>screencap\<close>

text \<open>\<open>%03d\<close> of the milliseconds.\<close>

definition defaultScreencapPath :: "string \<times> nat \<Rightarrow> string" where
  "defaultScreencapPath t =
     (let ms = FormatUint (snd t div 1000000) in
      ''screen-'' @ fst t @ replicate (3 - length ms) (CHR ''0'') @ ms @ ''.png'')"

definition destination_exists :: go_error where
  "destination_exists = \<lparr>ge_text = [Txt ''adb destination exists''], ge_is = [DestinationExists], ge_timeout = False\<rparr>"

definition writeScreencapFile ::
  "('s, 'c) cli_env \<Rightarrow> string \<Rightarrow> bytes \<Rightarrow> bool \<Rightarrow> 's \<Rightarrow> go_error option \<times> 's" where
  "writeScreencapFile env localPath png overwrite s0 =
     (let cleanup = (\<lambda>s. if overwrite then s else snd (cx_removeFile env localPath s));
          about = (\<lambda>what e. wrap [Txt what, Quoted localPath, Txt '': ''] e) in
      case cx_openFile env localPath overwrite s0 of
        (Some e, s) \<Rightarrow> (Some (about ''destination '' (if Exists \<in> set (ge_is e) then destination_exists else e)), s)
      | (None, s) \<Rightarrow>
          (case cx_writeFile env localPath png s of
             (Some e, s) \<Rightarrow> (Some (about ''write destination '' e), cleanup (snd (cx_closeFile env localPath s)))
           | (None, s) \<Rightarrow>
               (case cx_closeFile env localPath s of
                  (Some e, s) \<Rightarrow> (Some (about ''close destination '' e), cleanup s)
                | (None, s) \<Rightarrow> (None, s))))"

definition screencap_body :: "('s, 'c) cli_env \<Rightarrow> string \<Rightarrow> bool \<Rightarrow> 'c \<Rightarrow> 's io \<Rightarrow> nat \<times> 's io" where
  "screencap_body env localPath overwrite c io =
     (case on_sys (cx_screencap env c) io of
        (Inl e, io) \<Rightarrow> (1, printCommandError ''screencap'' e io)
      | (Inr png, io) \<Rightarrow>
          (case on_sys (writeScreencapFile env localPath png overwrite) io of
             (Some e, io) \<Rightarrow> (1, printCommandError ''screencap'' e io)
           | (None, io) \<Rightarrow> (0, outln localPath io)))"

definition runScreencapWithOptions :: "('s, 'c) cli_env \<Rightarrow> string list \<Rightarrow> cliOptions \<Rightarrow> 's io \<Rightarrow> nat \<times> 's io" where
  "runScreencapWithOptions env args opts =
     (let p = newOutputPolicy opts in
      with_target env ''screencap'' [(''overwrite'', BoolV False)] args (\<lambda>fs target io.
        if 1 < length (fs_args fs) then usage_error ''screencap'' [Txt ''adb-go screencap: accepts at most one LOCAL_PNG argument''] io
        else
          let overwrite = flag_bool fs ''overwrite'';
              localPath = (case fs_args fs of [] \<Rightarrow> defaultScreencapPath (cx_now env) | path # _ \<Rightarrow> path) in
          with_client env ''screencap'' target p (screencap_body env localPath overwrite)
            (Verbosef p [Txt (''screencap capturing PNG to '' @ localPath @ '' (overwrite='' @ show_bool overwrite @ '')'' @ [CHR 0x0A])] io)))"

section \<open>reboot\<close>

definition parseRebootMode :: "string \<Rightarrow> chunk list + string" where
  "parseRebootMode value =
     (if value = [] \<or> value = ''normal'' then Inr RebootNormal
      else if value = RebootBootloader then Inr RebootBootloader
      else if value = RebootRecovery then Inr RebootRecovery
      else Inl [Txt ''unsupported reboot mode '', Quoted value, Txt ''; supported modes are normal, bootloader, recovery''])"

definition runRebootWithOptions :: "('s, 'c) cli_env \<Rightarrow> string list \<Rightarrow> cliOptions \<Rightarrow> 's io \<Rightarrow> nat \<times> 's io" where
  "runRebootWithOptions env args opts =
     (let p = newOutputPolicy opts in
      with_target env ''reboot'' [] args (\<lambda>fs target io.
        if 1 < length (fs_args fs) then usage_error ''reboot'' [Txt ''adb-go reboot: accepts at most one MODE argument''] io
        else case (case fs_args fs of [] \<Rightarrow> Inr RebootNormal | m # _ \<Rightarrow> parseRebootMode m) of
            Inl e \<Rightarrow> usage_error ''reboot'' (Txt ''adb-go reboot: '' # e) io
          | Inr mode \<Rightarrow>
              with_client env ''reboot'' target p (\<lambda>c io.
                finish (on_sys (cx_reboot env c mode) io) (printCommandError ''reboot''))
                (Verbosef p [Txt (''reboot requesting mode '' @ mode @ [CHR 0x0A])] io)))"

section \<open>push, pull, install-apk\<close>

definition runPushWithOptions :: "('s, 'c) cli_env \<Rightarrow> string list \<Rightarrow> cliOptions \<Rightarrow> 's io \<Rightarrow> nat \<times> 's io" where
  "runPushWithOptions env args opts =
     (let p = newOutputPolicy opts in
      with_target env ''push'' [] args (\<lambda>fs target io.
        case fs_args fs of
          [localPath, remotePath] \<Rightarrow>
            with_client env ''push'' target p (\<lambda>c io.
              finish (on_sys (cx_pushFile env c localPath remotePath) io) (printCommandError ''push''))
              (Verbosef p [Txt (''push transferring '' @ localPath @ '' to '' @ remotePath @ [CHR 0x0A])] io)
        | _ \<Rightarrow> usage_error ''push'' [Txt ''adb-go push: requires exactly LOCAL_PATH and REMOTE_PATH''] io))"

definition runPullWithOptions :: "('s, 'c) cli_env \<Rightarrow> string list \<Rightarrow> cliOptions \<Rightarrow> 's io \<Rightarrow> nat \<times> 's io" where
  "runPullWithOptions env args opts =
     (let p = newOutputPolicy opts in
      with_target env ''pull'' [(''overwrite'', BoolV False)] args (\<lambda>fs target io.
        case fs_args fs of
          [remotePath, localPath] \<Rightarrow>
            (let overwrite = flag_bool fs ''overwrite'' in
             with_client env ''pull'' target p (\<lambda>c io.
               finish (on_sys (cx_pullFile env c overwrite remotePath localPath) io) (printCommandError ''pull''))
               (Verbosef p [Txt (''pull transferring '' @ remotePath @ '' to '' @ localPath @ '' (overwrite='' @ show_bool overwrite @ '')''
                  @ [CHR 0x0A])] io))
        | _ \<Rightarrow> usage_error ''pull'' [Txt ''adb-go pull: requires exactly REMOTE_PATH and LOCAL_PATH''] io))"

definition runInstallAPKWithOptions :: "('s, 'c) cli_env \<Rightarrow> string list \<Rightarrow> cliOptions \<Rightarrow> 's io \<Rightarrow> nat \<times> 's io" where
  "runInstallAPKWithOptions env args opts =
     (let p = newOutputPolicy opts in
      with_target env ''install-apk'' [(''replace'', BoolV False)] args (\<lambda>fs target io.
        case fs_args fs of
          [localPath] \<Rightarrow>
            (let replace = flag_bool fs ''replace'' in
             with_client env ''install-apk'' target p (\<lambda>c io.
               finish (on_sys (cx_installAPK env c replace localPath) io) (printCommandError ''install-apk''))
               (Verbosef p [Txt (''install-apk installing '' @ localPath @ '' (replace='' @ show_bool replace @ '')'' @ [CHR 0x0A])] io))
        | _ \<Rightarrow> usage_error ''install-apk'' [Txt ''adb-go install-apk: requires exactly LOCAL_APK''] io))"

end
