(* ===== verification/CliForward.thy ===== *)
theory CliForward
  imports CliDevice
begin

text \<open>
  The commands \<open>forward\<close> and \<open>reverse\<close> of \<open>adb-go\<close>: \<open>forward.go\<close> and \<open>reverse.go\<close> of \<open>cmd/adb-go/internal/custom\<close>. In the
  foreground they hold a session of the client; with \<open>--background\<close>, \<open>--list\<close>, \<open>--remove\<close>, \<open>--remove-id\<close> and
  \<open>--remove-all\<close> they send one request to the server. A result of the server has one of the forms of \<^typ>\<open>result\<close>; decoding a
  form the command does not expect gives the zero value.
\<close>

section \<open>JSON\<close>

definition omit_string :: "string \<Rightarrow> string \<Rightarrow> (string \<times> json) list" where
  "omit_string key s = (if s = [] then [] else [(key, JString s)])"

definition omit_false :: "string \<Rightarrow> bool \<Rightarrow> (string \<times> json) list" where
  "omit_false key b = (if b then [(key, JBool True)] else [])"

definition json_target :: "ForwardTarget \<Rightarrow> json" where
  "json_target t = JObject [(''transport'', JString (ft_Transport t)), (''address'', JString (ft_Address t))]"

definition json_forward :: "Forward \<Rightarrow> json" where
  "json_forward f = JObject (omit_string ''id'' (f_ID f) @
     [(''state'', JString (f_State f)),
      (''local'', JObject [(''network'', JString (fl_Network (f_Local f))), (''address'', JString (fl_Address (f_Local f)))]),
      (''remote'', JObject [(''service'', JString (fr_Service (f_Remote f)))]),
      (''target'', json_target (f_Target f))] @
     omit_false ''norebind'' (f_Norebind f) @ omit_string ''createdAt'' (f_CreatedAt f) @
     [(''activeConnections'', JInt (int (f_ActiveConnections f)))] @ omit_string ''lastError'' (f_LastError f))"

definition json_reverse :: "Reverse \<Rightarrow> json" where
  "json_reverse v = JObject (omit_string ''id'' (r_ID v) @
     [(''state'', JString (r_State v)),
      (''remote'', JObject [(''service'', JString (rr_Service (r_Remote v)))]),
      (''local'', JObject [(''service'', JString (rl_Service (r_Local v)))]),
      (''target'', json_target (r_Target v))] @
     omit_false ''norebind'' (r_Norebind v) @ omit_string ''createdAt'' (r_CreatedAt v) @
     [(''activeConnections'', JInt (int (r_ActiveConnections v)))] @ omit_string ''lastError'' (r_LastError v))"

text \<open>A slice, \<open>None\<close> being nil.\<close>

definition json_slice :: "('a \<Rightarrow> json) \<Rightarrow> 'a list option \<Rightarrow> json" where
  "json_slice f xs = (case xs of None \<Rightarrow> JNull | Some ys \<Rightarrow> JArray (map f ys))"

definition json_removed :: "nat \<Rightarrow> json" where
  "json_removed n = JObject [(''removed'', JInt (int n))]"

section \<open>Decoding results\<close>

definition zero_forward :: Forward where
  "zero_forward = \<lparr>f_ID = [], f_State = [], f_Local = \<lparr>fl_Network = [], fl_Address = []\<rparr>, f_Remote = \<lparr>fr_Service = []\<rparr>,
     f_Target = \<lparr>ft_Transport = [], ft_Address = []\<rparr>, f_Norebind = False, f_CreatedAt = [], f_ActiveConnections = 0, f_LastError = []\<rparr>"

definition zero_reverse :: Reverse where
  "zero_reverse = \<lparr>r_ID = [], r_State = [], r_Remote = \<lparr>rr_Service = []\<rparr>, r_Local = \<lparr>rl_Service = []\<rparr>,
     r_Target = \<lparr>ft_Transport = [], ft_Address = []\<rparr>, r_Norebind = False, r_CreatedAt = [], r_ActiveConnections = 0, r_LastError = []\<rparr>"

fun decode_forward :: "result option \<Rightarrow> Forward" where
  "decode_forward (Some (ResForward f)) = f"
| "decode_forward _ = zero_forward"

fun decode_forwards :: "result option \<Rightarrow> Forward list option" where
  "decode_forwards (Some (ResForwards fs)) = Some fs"
| "decode_forwards _ = None"

fun decode_reverse :: "result option \<Rightarrow> Reverse" where
  "decode_reverse (Some (ResReverse v)) = v"
| "decode_reverse _ = zero_reverse"

fun decode_reverse_list :: "result option \<Rightarrow> Reverse list option" where
  "decode_reverse_list (Some (ResReverses vs)) = Some vs"
| "decode_reverse_list _ = None"

fun decode_removed :: "result option \<Rightarrow> nat" where
  "decode_removed (Some (ResRemoved n)) = n"
| "decode_removed _ = 0"

section \<open>Requests\<close>

definition nil_params :: raw_message where
  "nil_params = \<lparr>as_device_register = RawMissing, as_forward_create = RawMissing, as_forward_remove = RawMissing,
     as_reverse_create = RawMissing, as_reverse_remove = RawMissing\<rparr>"

definition sendForwardServerRequest ::
  "('s, 'c) cli_env \<Rightarrow> string \<Rightarrow> string \<Rightarrow> raw_message \<Rightarrow> 's io \<Rightarrow> (go_error + Response) \<times> 's io" where
  "sendForwardServerRequest env socketPath command params =
     on_sys (cx_send env socketPath \<lparr>rq_Version = ProtocolVersion, rq_ID = [], rq_Command = command, rq_Params = params\<rparr>)"

definition forwardServerSocketPath :: "('s, 'c) cli_env \<Rightarrow> string \<Rightarrow> server_error + string" where
  "forwardServerSocketPath env configured = (if configured \<noteq> [] then Inr configured else default_socket env)"

definition start_hint :: "chunk list" where
  "start_hint = [Txt ''Hint: start the server process with `adb-go server service start` or inspect it with `adb-go server doctor`.'']"

text \<open>\<open>what\<close> names the feature an old server lacks.\<close>

definition print_server_error ::
  "string \<Rightarrow> string \<Rightarrow> string \<Rightarrow> string \<Rightarrow> go_error + Response \<Rightarrow> 's io \<Rightarrow> 's io" where
  "print_server_error command what action socketPath res io =
     (let cannot = ''adb-go '' @ command @ '': cannot '' @ action in
      case res of
        Inl e \<Rightarrow>
          eprintln start_hint
            (eprintln (Txt (cannot @ '': adb-gos is not running or socket is unavailable at '' @ socketPath @ '': '') # ge_text e) io)
      | Inr resp \<Rightarrow>
          (case rs_Error resp of
             Some code \<Rightarrow>
               (let io1 = eprintln [Txt (cannot @ '': server error ''), ServerErr code] io in
                if code = ErrorUnknownCommand
                then eprintln [Txt (''Hint: adb-gos is too old for persistent '' @ what
                       @ ''; upgrade adb-gos or inspect it with `adb-go server doctor`.'')] io1
                else io1)
           | None \<Rightarrow> eprintln [Txt (cannot @ '': server returned an unsuccessful response'')] io))"

definition printForwardServerError :: "string \<Rightarrow> string \<Rightarrow> go_error + Response \<Rightarrow> 's io \<Rightarrow> 's io" where
  "printForwardServerError = print_server_error ''forward'' ''forwarding''"

definition printReverseServerError :: "string \<Rightarrow> string \<Rightarrow> go_error + Response \<Rightarrow> 's io \<Rightarrow> 's io" where
  "printReverseServerError = print_server_error ''reverse'' ''reverse forwarding''"

text \<open>Sending a request; a transport error and an unsuccessful response end the command with status 1.\<close>

definition with_response ::
  "('s, 'c) cli_env \<Rightarrow> (go_error + Response \<Rightarrow> 's io \<Rightarrow> 's io) \<Rightarrow> string \<Rightarrow> string \<Rightarrow> raw_message \<Rightarrow>
     (result option \<Rightarrow> 's io \<Rightarrow> nat \<times> 's io) \<Rightarrow> 's io \<Rightarrow> nat \<times> 's io" where
  "with_response env report socketPath command params body io0 =
     (case sendForwardServerRequest env socketPath command params io0 of
        (res, io) \<Rightarrow>
          (case res of
             Inl _ \<Rightarrow> (1, report res io)
           | Inr resp \<Rightarrow> if rs_OK resp then body (rs_Result resp) io else (1, report res io)))"

section \<open>Endpoints\<close>

definition parseForwardTCPPort :: "string \<Rightarrow> string \<Rightarrow> chunk list + int" where
  "parseForwardTCPPort kind value =
     (if \<not> HasPrefix value ''tcp:'' then
        Inl [Txt (''unsupported '' @ kind @ '' forward target ''), Quoted value, Txt ''; only tcp:PORT is supported'']
      else
        let portText = TrimSpace (TrimPrefix value ''tcp:'') in
        if portText = [] then Inl [Txt (''missing '' @ kind @ '' tcp port in ''), Quoted value]
        else case Atoi portText of
            Inl _ \<Rightarrow> Inl [Txt (''invalid '' @ kind @ '' tcp port in ''), Quoted value]
          | Inr port \<Rightarrow>
              if port < 0 \<or> 65535 < port \<or> kind = ''remote'' \<and> port = 0
              then Inl [Txt (kind @ '' tcp port '' @ Itoa port @ '' out of range'')]
              else Inr port)"

definition parseForwardLocalTCP :: "string \<Rightarrow> chunk list + string" where
  "parseForwardLocalTCP value =
     (case parseForwardTCPPort ''local'' value of Inl e \<Rightarrow> Inl e | Inr port \<Rightarrow> Inr (''127.0.0.1:'' @ Itoa port))"

text \<open>The service of the \<open>ForwardTarget\<close>.\<close>

definition parseForwardRemoteTCP :: "string \<Rightarrow> chunk list + string" where
  "parseForwardRemoteTCP value =
     (case parseForwardTCPPort ''remote'' value of
        Inl e \<Rightarrow> Inl e
      | Inr port \<Rightarrow>
          (case ForwardTCP port of
             Inl _ \<Rightarrow> Inl [Txt (''adb forward tcp port '' @ Itoa port @ '' out of range'')]
           | Inr remote \<Rightarrow> Inr remote))"

definition normalizeForwardTargetTCPAddr :: "string \<Rightarrow> chunk list + string" where
  "normalizeForwardTargetTCPAddr addr0 =
     (let addr = TrimSpace addr0 in
      if addr = [] then Inl [Txt ''background forward TCP target address is empty'']
      else case SplitHostPort addr of
          Inr (host, port) \<Rightarrow> Inr (JoinHostPort host (if port = [] then ''5555'' else port))
        | Inl _ \<Rightarrow>
            if Count addr (CHR '':'') > 1 \<and> \<not> HasPrefix addr ''['' then Inr (JoinHostPort addr ''5555'')
            else if Count addr (CHR '':'') = 1 then
              (case Cut addr '':'' of
                 Some (a, b) \<Rightarrow> if b \<noteq> [] then Inr addr else Inr (JoinHostPort a ''5555'')
               | None \<Rightarrow> Inr addr)
            else Inr (JoinHostPort addr ''5555''))"

text \<open>The text of an endpoint error of \<open>client/reverse.go\<close>; \<open>side\<close> is \<open>device\<close> or \<open>host\<close>.\<close>

fun endpoint_text :: "string \<Rightarrow> endpoint_error \<Rightarrow> chunk list" where
  "endpoint_text side (PortRange p) = [Txt (''adb reverse '' @ side @ '' tcp port '' @ Itoa p @ '' out of range'')]"
| "endpoint_text side (UnsupportedEndpoint e) =
     [Txt (''adb reverse unsupported '' @ side @ '' endpoint ''), Quoted e, Txt '': only tcp:PORT is supported'']"
| "endpoint_text side (BadPort v e) =
     [Txt (''adb reverse invalid '' @ side @ '' tcp port ''), Quoted v, Txt '': strconv.Atoi: parsing '', Quoted v,
      Txt (case e of ErrSyntax \<Rightarrow> '': invalid syntax'' | ErrRange \<Rightarrow> '': value out of range'')]"

section \<open>Server-owned forwards\<close>

definition lifecycle_line :: "string \<Rightarrow> string" where
  "lifecycle_line kind =
     ''Lifecycle: in-memory server-owned '' @ kind @ ''; it is removed by --remove/--remove-all or adb-gos shutdown.''"

definition runForwardServerCreate ::
  "('s, 'c) cli_env \<Rightarrow> string \<Rightarrow> string \<Rightarrow> string \<Rightarrow> string \<Rightarrow> bool \<Rightarrow> bool \<Rightarrow> outputPolicy \<Rightarrow> 's io \<Rightarrow> nat \<times> 's io" where
  "runForwardServerCreate env socketPath localAddr remoteService targetAddr norebind json p io =
     with_response env (printForwardServerError ''create background forward'' socketPath) socketPath CommandForwardCreate
       (nil_params\<lparr>as_forward_create := RawParams \<lparr>fc_Local = \<lparr>fl_Network = ''tcp'', fl_Address = localAddr\<rparr>,
          fc_Remote = \<lparr>fr_Service = remoteService\<rparr>, fc_Target = \<lparr>ft_Transport = ''tcp'', ft_Address = targetAddr\<rparr>,
          fc_Norebind = norebind\<rparr>\<rparr>)
       (\<lambda>res io.
          let f = decode_forward res in
          if json then finish (writeJSON (JObject [(''forward'', json_forward f)]) io) (encode_error ''forward'')
          else (0, Infoln p (lifecycle_line ''forward'')
                     (Infof p [Txt (''Forward '' @ f_ID f @ '' listening on '' @ fl_Address (f_Local f) @ '' -> '' @ fr_Service (f_Remote f)
                        @ '' via tcp:'' @ ft_Address (f_Target f) @ [CHR 0x0A])] io)))
       (Verbosef p [Txt (''forward sending server create request to '' @ socketPath @ '' for '' @ localAddr @ '' -> '' @ remoteService
          @ '' via tcp:'' @ targetAddr @ '' (norebind='' @ show_bool norebind @ '')'' @ [CHR 0x0A])] io)"

definition dash_if_empty :: "string \<Rightarrow> string" where
  "dash_if_empty s = (if s = [] then ''-'' else s)"

definition forward_row :: "Forward \<Rightarrow> tableRow" where
  "forward_row f =
     [f_ID f, f_State f, fl_Address (f_Local f), fr_Service (f_Remote f), ft_Transport (f_Target f) @ '':'' @ ft_Address (f_Target f),
      Itoa (int (f_ActiveConnections f)), dash_if_empty (f_LastError f)]"

definition table_error :: "string \<Rightarrow> go_error \<Rightarrow> 's io \<Rightarrow> 's io" where
  "table_error command e = eprintln (Txt (''adb-go '' @ command @ '': write table: '') # ge_text e)"

definition write_table :: "string \<Rightarrow> bool \<Rightarrow> string list \<Rightarrow> tableRow list \<Rightarrow> 's io \<Rightarrow> nat \<times> 's io" where
  "write_table command plain headers rows io =
     finish (if plain then writePlainTable headers rows io else writeAlignedTable headers rows io) (table_error command)"

definition runForwardServerList :: "('s, 'c) cli_env \<Rightarrow> string \<Rightarrow> bool \<Rightarrow> bool \<Rightarrow> 's io \<Rightarrow> nat \<times> 's io" where
  "runForwardServerList env socketPath json plain =
     with_response env (printForwardServerError ''list background forwards'' socketPath) socketPath CommandForwardList nil_params
       (\<lambda>res io.
          let fs = decode_forwards res in
          if json then finish (writeJSON (JObject [(''forwards'', json_slice json_forward fs)]) io) (encode_error ''forward'')
          else if fs = None \<or> fs = Some [] then
            (0, outln ''Create one with: adb-go forward --background --addr HOST[:PORT] tcp:LOCAL_PORT tcp:REMOTE_PORT''
                  (outln ''No server-owned forwards.'' io))
          else write_table ''forward'' plain [''ID'', ''STATE'', ''LOCAL'', ''REMOTE'', ''TARGET'', ''ACTIVE'', ''LAST_ERROR'']
                 (map forward_row (the fs)) io)"

definition print_removed :: "string \<Rightarrow> bool \<Rightarrow> outputPolicy \<Rightarrow> result option \<Rightarrow> 's io \<Rightarrow> nat \<times> 's io" where
  "print_removed command json p res io =
     (let n = decode_removed res in
      if json then finish (writeJSON (json_removed n) io) (encode_error command)
      else (0, Infof p [Txt (''Removed '' @ FormatUint n @ '' server-owned '' @ command @ ''(s).'' @ [CHR 0x0A])] io))"

definition runForwardServerRemove ::
  "('s, 'c) cli_env \<Rightarrow> string \<Rightarrow> ForwardRemoveParams \<Rightarrow> bool \<Rightarrow> outputPolicy \<Rightarrow> 's io \<Rightarrow> nat \<times> 's io" where
  "runForwardServerRemove env socketPath params json p =
     with_response env (printForwardServerError ''remove background forward'' socketPath) socketPath CommandForwardRemove
       (nil_params\<lparr>as_forward_remove := RawParams params\<rparr>) (print_removed ''forward'' json p)"

definition runForwardServerRemoveAll :: "('s, 'c) cli_env \<Rightarrow> string \<Rightarrow> bool \<Rightarrow> outputPolicy \<Rightarrow> 's io \<Rightarrow> nat \<times> 's io" where
  "runForwardServerRemoveAll env socketPath json p =
     with_response env (printForwardServerError ''remove all background forwards'' socketPath) socketPath CommandForwardRemoveAll
       nil_params (print_removed ''forward'' json p)"

section \<open>Server-owned reverses\<close>

definition runReverseServerCreate ::
  "('s, 'c) cli_env \<Rightarrow> string \<Rightarrow> string \<Rightarrow> string \<Rightarrow> string \<Rightarrow> bool \<Rightarrow> bool \<Rightarrow> outputPolicy \<Rightarrow> 's io \<Rightarrow> nat \<times> 's io" where
  "runReverseServerCreate env socketPath remoteService localService targetAddr norebind json p io =
     with_response env (printReverseServerError ''create background reverse'' socketPath) socketPath CommandReverseCreate
       (nil_params\<lparr>as_reverse_create := RawParams \<lparr>rc_Remote = \<lparr>rr_Service = remoteService\<rparr>, rc_Local = \<lparr>rl_Service = localService\<rparr>,
          rc_Target = \<lparr>ft_Transport = ''tcp'', ft_Address = targetAddr\<rparr>, rc_Norebind = norebind\<rparr>\<rparr>)
       (\<lambda>res io.
          let v = decode_reverse res in
          if json then finish (writeJSON (JObject [(''reverse'', json_reverse v)]) io) (encode_error ''reverse'')
          else (0, Infoln p (lifecycle_line ''reverse'')
                     (Infof p [Txt (''Reverse '' @ r_ID v @ '' listening on device '' @ rr_Service (r_Remote v) @ '' -> host ''
                        @ rl_Service (r_Local v) @ '' via tcp:'' @ ft_Address (r_Target v) @ [CHR 0x0A])] io)))
       (Verbosef p [Txt (''reverse sending server create request to '' @ socketPath @ '' for '' @ remoteService @ '' -> '' @ localService
          @ '' via tcp:'' @ targetAddr @ '' (norebind='' @ show_bool norebind @ '')'' @ [CHR 0x0A])] io)"

definition reverse_row :: "Reverse \<Rightarrow> tableRow" where
  "reverse_row v =
     [r_ID v, r_State v, rr_Service (r_Remote v), rl_Service (r_Local v), ft_Transport (r_Target v) @ '':'' @ ft_Address (r_Target v),
      Itoa (int (r_ActiveConnections v)), dash_if_empty (r_LastError v)]"

definition runReverseServerList :: "('s, 'c) cli_env \<Rightarrow> string \<Rightarrow> bool \<Rightarrow> bool \<Rightarrow> 's io \<Rightarrow> nat \<times> 's io" where
  "runReverseServerList env socketPath json plain =
     with_response env (printReverseServerError ''list background reverses'' socketPath) socketPath CommandReverseList nil_params
       (\<lambda>res io.
          let vs = decode_reverse_list res in
          if json then finish (writeJSON (JObject [(''reverses'', json_slice json_reverse vs)]) io) (encode_error ''reverse'')
          else if vs = None \<or> vs = Some [] then
            (0, outln ''Create one with: adb-go reverse --background --addr HOST[:PORT] tcp:REMOTE_PORT tcp:LOCAL_PORT''
                  (outln ''No server-owned reverse forwards.'' io))
          else write_table ''reverse'' plain [''ID'', ''STATE'', ''REMOTE'', ''LOCAL'', ''TARGET'', ''ACTIVE'', ''LAST_ERROR'']
                 (map reverse_row (the vs)) io)"

definition runReverseServerRemove ::
  "('s, 'c) cli_env \<Rightarrow> string \<Rightarrow> ReverseRemoveParams \<Rightarrow> bool \<Rightarrow> outputPolicy \<Rightarrow> 's io \<Rightarrow> nat \<times> 's io" where
  "runReverseServerRemove env socketPath params json p =
     with_response env (printReverseServerError ''remove background reverse'' socketPath) socketPath CommandReverseRemove
       (nil_params\<lparr>as_reverse_remove := RawParams params\<rparr>) (print_removed ''reverse'' json p)"

definition runReverseServerRemoveAll :: "('s, 'c) cli_env \<Rightarrow> string \<Rightarrow> bool \<Rightarrow> outputPolicy \<Rightarrow> 's io \<Rightarrow> nat \<times> 's io" where
  "runReverseServerRemoveAll env socketPath json p =
     with_response env (printReverseServerError ''remove all background reverses'' socketPath) socketPath CommandReverseRemoveAll
       nil_params (print_removed ''reverse'' json p)"

section \<open>The commands\<close>

definition forward_flags :: "bool \<Rightarrow> (string \<times> flag_value) list" where
  "forward_flags json = addConnectionFlags @
     [(''socket'', StringV []), (''background'', BoolV False), (''norebind'', BoolV False), (''list'', BoolV False), (''remove'', StringV []),
      (''remove-id'', StringV []), (''remove-all'', BoolV False), (''json'', BoolV json), (''plain'', BoolV False)]"

definition server_ops :: "flag_set \<Rightarrow> nat" where
  "server_ops fs = length (filter (\<lambda>b. b) [flag_bool fs ''background'', flag_bool fs ''list'', TrimSpace (flag_string fs ''remove'') \<noteq> [],
     TrimSpace (flag_string fs ''remove-id'') \<noteq> [], flag_bool fs ''remove-all''])"

definition no_arguments :: "string \<Rightarrow> string \<Rightarrow> flag_set \<Rightarrow> ('s io \<Rightarrow> nat \<times> 's io) \<Rightarrow> 's io \<Rightarrow> nat \<times> 's io" where
  "no_arguments usage label fs body io =
     (if fs_args fs \<noteq> [] then usage_error usage [Txt (''adb-go '' @ label @ '': unexpected arguments ''), QuotedList (fs_args fs)] io
      else body io)"

text \<open>The checks both commands make after parsing.\<close>

definition checked_flags :: "string \<Rightarrow> flag_set \<Rightarrow> ('s io \<Rightarrow> nat \<times> 's io) \<Rightarrow> 's io \<Rightarrow> nat \<times> 's io" where
  "checked_flags command fs body io =
     (let name = ''adb-go '' @ command in
      if flag_bool fs ''json'' \<and> flag_bool fs ''plain'' then
        usage_error command [Txt (name @ '': choose only one output mode: --json or --plain'')] io
      else if 1 < server_ops fs then
        usage_error command [Txt (name @ '': choose only one server operation: --background, --list, --remove, --remove-id, or --remove-all'')] io
      else if flag_bool fs ''norebind'' \<and> \<not> flag_bool fs ''background'' then
        usage_error command [Txt (name @ '': --norebind is only meaningful with --background'')] io
      else body io)"

definition background_refused :: "string \<Rightarrow> 's io \<Rightarrow> nat \<times> 's io" where
  "background_refused command io =
     (2, eprintln [Txt (''adb-go '' @ command @ '': --background currently supports explicit unauthenticated TCP targets only; USB targets and --auth-key persistence are not implemented'')] io)"

definition foreground_forward ::
  "('s, 'c) cli_env \<Rightarrow> connectionTarget \<Rightarrow> string \<Rightarrow> string \<Rightarrow> string \<Rightarrow> outputPolicy \<Rightarrow> 's io \<Rightarrow> nat \<times> 's io" where
  "foreground_forward env target localAddr remoteText remote p io =
     with_client env ''forward'' target p (\<lambda>c io.
       case on_sys (cx_startForward env c localAddr remote)
              (Verbosef p [Txt (''forward starting foreground listener and ADB service bridge'' @ [CHR 0x0A])] io) of
         (Inl e, io) \<Rightarrow> (1, printCommandError ''forward'' e io)
       | (Inr addr, io) \<Rightarrow>
           (case finish (on_sys (cx_waitSession env)
                  (Infof p [Txt (''Forwarding '' @ addr @ '' -> '' @ remoteText @ ''. Press Ctrl+C to stop.'' @ [CHR 0x0A])] io))
                  (printCommandError ''forward'') of
              (code, io) \<Rightarrow> (code, snd (on_sys (cx_closeSession env) io))))
       (Verbosef p [Txt (''forward parsed local listener '' @ localAddr @ '' and remote service '' @ remoteText @ [CHR 0x0A])] io)"

text \<open>The arguments \<open>LOCAL\<close> and \<open>REMOTE\<close> of a forward that is created.\<close>

definition create_forward ::
  "('s, 'c) cli_env \<Rightarrow> flag_set \<Rightarrow> string \<Rightarrow> outputPolicy \<Rightarrow> 's io \<Rightarrow> nat \<times> 's io" where
  "create_forward env fs socketPath p io =
     (let bad = (\<lambda>e. usage_error ''forward'' (Txt ''adb-go forward: '' # e) io) in
      case conn_target env fs of
        Inl e \<Rightarrow> bad e
      | Inr target \<Rightarrow>
          (case fs_args fs of
             [a, b] \<Rightarrow>
               (case parseForwardLocalTCP a of
                  Inl e \<Rightarrow> bad e
                | Inr localAddr \<Rightarrow>
                    (case parseForwardRemoteTCP b of
                       Inl e \<Rightarrow> bad e
                     | Inr remote \<Rightarrow>
                         if flag_bool fs ''background'' then
                           if tg_usb target \<or> tg_auth target \<noteq> [] then background_refused ''forward'' io
                           else case normalizeForwardTargetTCPAddr (tg_tcpAddr target) of
                               Inl e \<Rightarrow> bad e
                             | Inr targetAddr \<Rightarrow>
                                 runForwardServerCreate env socketPath localAddr b targetAddr (flag_bool fs ''norebind'') (flag_bool fs ''json'') p io
                         else foreground_forward env target localAddr b remote p io))
           | _ \<Rightarrow> usage_error ''forward'' [Txt ''adb-go forward: requires exactly LOCAL and REMOTE targets''] io))"

definition socket_for :: "('s, 'c) cli_env \<Rightarrow> flag_set \<Rightarrow> server_error + string" where
  "socket_for env fs =
     (if 0 < server_ops fs then forwardServerSocketPath env (TrimSpace (flag_string fs ''socket'')) else Inr [])"

definition runForwardWithOptions :: "('s, 'c) cli_env \<Rightarrow> string list \<Rightarrow> cliOptions \<Rightarrow> 's io \<Rightarrow> nat \<times> 's io" where
  "runForwardWithOptions env args opts io =
     (let p = newOutputPolicy opts in
      case Parse (forward_flags (co_JSON opts)) args of
        Inl e \<Rightarrow> flag_failure ''forward'' e io
      | Inr fs \<Rightarrow>
          let json = flag_bool fs ''json'' in
          checked_flags ''forward'' fs (\<lambda>io.
            case socket_for env fs of
              Inl e \<Rightarrow> (1, eprintln [Txt (''adb-go forward: '' @ socket_error_text e)] io)
            | Inr socketPath \<Rightarrow>
                if flag_bool fs ''list'' then
                  no_arguments ''forward'' ''forward --list'' fs (runForwardServerList env socketPath json (flag_bool fs ''plain'')) io
                else if TrimSpace (flag_string fs ''remove'') \<noteq> [] then
                  no_arguments ''forward'' ''forward --remove'' fs (\<lambda>io.
                    case parseForwardLocalTCP (flag_string fs ''remove'') of
                      Inl e \<Rightarrow> usage_error ''forward'' (Txt ''adb-go forward: '' # e) io
                    | Inr localAddr \<Rightarrow>
                        runForwardServerRemove env socketPath \<lparr>fm_ID = [], fm_Local = Some \<lparr>fl_Network = ''tcp'', fl_Address = localAddr\<rparr>\<rparr> json p io) io
                else if TrimSpace (flag_string fs ''remove-id'') \<noteq> [] then
                  no_arguments ''forward'' ''forward --remove-id'' fs
                    (runForwardServerRemove env socketPath \<lparr>fm_ID = TrimSpace (flag_string fs ''remove-id''), fm_Local = None\<rparr> json p) io
                else if flag_bool fs ''remove-all'' then
                  no_arguments ''forward'' ''forward --remove-all'' fs (runForwardServerRemoveAll env socketPath json p) io
                else create_forward env fs socketPath p io) io)"

definition foreground_reverse ::
  "('s, 'c) cli_env \<Rightarrow> connectionTarget \<Rightarrow> string \<Rightarrow> string \<Rightarrow> ReverseDeviceEndpoint \<Rightarrow> ReverseHostEndpoint \<Rightarrow> outputPolicy \<Rightarrow> 's io \<Rightarrow>
     nat \<times> 's io" where
  "foreground_reverse env target remoteText localText remote local p io =
     with_client env ''reverse'' target p (\<lambda>c io.
       case on_sys (cx_startReverse env c (rd_service remote) (rh_service local))
              (Verbosef p [Txt (''reverse registering device-side listener and host bridge'' @ [CHR 0x0A])] io) of
         (Some e, io) \<Rightarrow> (1, printCommandError ''reverse'' e io)
       | (None, io) \<Rightarrow>
           (case on_sys (cx_waitSession env)
                  (Infof p [Txt (''Reverse forwarding '' @ remoteText @ '' -> host '' @ localText
                     @ ''. Press Ctrl+C to stop and remove the device-side listener.'' @ [CHR 0x0A])] io) of
              (Some e, io) \<Rightarrow> (1, snd (on_sys (cx_closeSession env) (printCommandError ''reverse'' e io)))
            | (None, io) \<Rightarrow> finish (on_sys (cx_closeSession env) io) (printCommandError ''reverse'')))
       (Verbosef p [Txt (''reverse parsed device listener '' @ remoteText @ '' and host target '' @ localText @ [CHR 0x0A])] io)"

definition create_reverse :: "('s, 'c) cli_env \<Rightarrow> flag_set \<Rightarrow> outputPolicy \<Rightarrow> 's io \<Rightarrow> nat \<times> 's io" where
  "create_reverse env fs p io =
     (let bad = (\<lambda>e. usage_error ''reverse'' (Txt ''adb-go reverse: '' # e) io) in
      case fs_args fs of
        [a, b] \<Rightarrow>
          (case conn_target env fs of
             Inl e \<Rightarrow> bad e
           | Inr target \<Rightarrow>
               (case ParseReverseDeviceEndpoint a of
                  Inl e \<Rightarrow> bad (endpoint_text ''device'' e)
                | Inr remote \<Rightarrow>
                    (case ParseReverseHostEndpoint b of
                       Inl e \<Rightarrow> bad (endpoint_text ''host'' e)
                     | Inr local \<Rightarrow>
                         if flag_bool fs ''background'' then
                           if tg_usb target \<or> tg_auth target \<noteq> [] then background_refused ''reverse'' io
                           else case normalizeForwardTargetTCPAddr (tg_tcpAddr target) of
                               Inl e \<Rightarrow> bad e
                             | Inr targetAddr \<Rightarrow>
                                 (case forwardServerSocketPath env (TrimSpace (flag_string fs ''socket'')) of
                                    Inl e \<Rightarrow> (1, eprintln [Txt (''adb-go reverse: '' @ socket_error_text e)] io)
                                  | Inr socketPath \<Rightarrow>
                                      runReverseServerCreate env socketPath a b targetAddr (flag_bool fs ''norebind'') (flag_bool fs ''json'') p io)
                         else foreground_reverse env target a b remote local p io)))
      | _ \<Rightarrow> usage_error ''reverse'' [Txt ''adb-go reverse: requires exactly REMOTE and LOCAL targets''] io)"

definition runReverseWithOptions :: "('s, 'c) cli_env \<Rightarrow> string list \<Rightarrow> cliOptions \<Rightarrow> 's io \<Rightarrow> nat \<times> 's io" where
  "runReverseWithOptions env args opts io =
     (let p = newOutputPolicy opts in
      case Parse (forward_flags (co_JSON opts)) args of
        Inl e \<Rightarrow> flag_failure ''reverse'' e io
      | Inr fs \<Rightarrow>
          let json = flag_bool fs ''json'' in
          checked_flags ''reverse'' fs (\<lambda>io.
            case socket_for env fs of
              Inl e \<Rightarrow> (1, eprintln [Txt (''adb-go reverse: '' @ socket_error_text e)] io)
            | Inr socketPath \<Rightarrow>
                if flag_bool fs ''list'' then
                  no_arguments ''reverse'' ''reverse --list'' fs (runReverseServerList env socketPath json (flag_bool fs ''plain'')) io
                else if TrimSpace (flag_string fs ''remove'') \<noteq> [] then
                  no_arguments ''reverse'' ''reverse --remove'' fs (\<lambda>io.
                    case ParseReverseDeviceEndpoint (flag_string fs ''remove'') of
                      Inl e \<Rightarrow> usage_error ''reverse'' (Txt ''adb-go reverse: '' # endpoint_text ''device'' e) io
                    | Inr _ \<Rightarrow>
                        runReverseServerRemove env socketPath
                          \<lparr>rm_ID = [], rm_Remote = Some \<lparr>rr_Service = TrimSpace (flag_string fs ''remove'')\<rparr>\<rparr> json p io) io
                else if TrimSpace (flag_string fs ''remove-id'') \<noteq> [] then
                  no_arguments ''reverse'' ''reverse --remove-id'' fs
                    (runReverseServerRemove env socketPath \<lparr>rm_ID = TrimSpace (flag_string fs ''remove-id''), rm_Remote = None\<rparr> json p) io
                else if flag_bool fs ''remove-all'' then
                  no_arguments ''reverse'' ''reverse --remove-all'' fs (runReverseServerRemoveAll env socketPath json p) io
                else create_reverse env fs p io) io)"

end
