(* ===== verification/CliSystemd.thy ===== *)
theory CliSystemd
  imports CliTarget
begin

text \<open>
  The systemd user service: \<open>cmd/adb-go/internal/custom/systemd.go\<close>. The unit quotes its two paths with \<open>strconv.Quote\<close>,
  which is modelled with the table of printable runes beyond ASCII as an argument; the programs that are run are operations
  of the world.
\<close>

section \<open>strconv.Quote\<close>

definition fixed_hex :: "nat \<Rightarrow> nat \<Rightarrow> string" where
  "fixed_hex k n = map (\<lambda>i. hex_char (n div 16 ^ i mod 16)) (rev [0..<k])"

definition simple_escape :: "nat \<Rightarrow> char option" where
  "simple_escape r = map_of [(7, CHR ''a''), (8, CHR ''b''), (12, CHR ''f''), (10, CHR ''n''), (13, CHR ''r''), (9, CHR ''t''), (11, CHR ''v'')] r"

text \<open>A rune \<open>r\<close> with its bytes \<open>bs\<close>; writing a rune that was decoded gives its bytes back.\<close>

definition escaped_rune :: "(nat \<Rightarrow> bool) \<Rightarrow> nat \<Rightarrow> string \<Rightarrow> string" where
  "escaped_rune isPrint r bs =
     (if r = 34 \<or> r = 92 then CHR 0x5C # bs
      else if (if r < 128 then 32 \<le> r \<and> r < 127 else isPrint r) then bs
      else case simple_escape r of
          Some c \<Rightarrow> [CHR 0x5C, c]
        | None \<Rightarrow>
            if r < 32 \<or> r = 127 then [CHR 0x5C, CHR ''x''] @ fixed_hex 2 r
            else if r < 65536 then [CHR 0x5C, CHR ''u''] @ fixed_hex 4 r
            else [CHR 0x5C, CHR ''U''] @ fixed_hex 8 r)"

function quote_body :: "(nat \<Rightarrow> bool) \<Rightarrow> string \<Rightarrow> string" where
  "quote_body isPrint s =
     (if s = [] then []
      else (case DecodeRune s of
              None \<Rightarrow> [CHR 0x5C, CHR ''x''] @ fixed_hex 2 (of_char (hd s))
            | Some (k, r) \<Rightarrow> escaped_rune isPrint r (take k s))
           @ quote_body isPrint (drop (rune_len s) s))"
  by pat_completeness auto
termination
  by (relation "measure (\<lambda>(isPrint, s). length s)") (auto simp: rune_len_le)

declare quote_body.simps [simp del]

definition Quote :: "(nat \<Rightarrow> bool) \<Rightarrow> string \<Rightarrow> string" where
  "Quote isPrint s = [CHR 0x22] @ quote_body isPrint s @ [CHR 0x22]"

section \<open>Paths\<close>

definition Dir :: "string \<Rightarrow> string" where
  "Dir path = Clean (case LastIndexByte path (CHR ''/'') of None \<Rightarrow> [] | Some i \<Rightarrow> take (Suc i) path)"

definition Abs :: "('s, 'c) cli_env \<Rightarrow> string \<Rightarrow> go_error + string" where
  "Abs env path =
     (if IsAbs path then Inr (Clean path)
      else case cx_cwd env of Inl e \<Rightarrow> Inl e | Inr wd \<Rightarrow> Inr (PathJoin [wd, path]))"

section \<open>The unit\<close>

definition systemdQuote :: "(nat \<Rightarrow> bool) \<Rightarrow> string \<Rightarrow> string" where
  "systemdQuote isPrint s = Quote isPrint s"

definition unit_lines :: "(nat \<Rightarrow> bool) \<Rightarrow> string \<Rightarrow> string \<Rightarrow> string list" where
  "unit_lines isPrint adbGosPath socketPath =
     [''[Unit]'', ''Description=adb-go server'', '''', ''[Service]'', ''Type=simple'',
      ''ExecStart='' @ systemdQuote isPrint adbGosPath @ '' -socket '' @ systemdQuote isPrint socketPath,
      ''Restart=on-failure'', ''RestartSec=2s'', '''', ''[Install]'', ''WantedBy=default.target'', '''']"

definition adbGosSystemdUnit :: "(nat \<Rightarrow> bool) \<Rightarrow> string \<Rightarrow> string \<Rightarrow> string" where
  "adbGosSystemdUnit isPrint adbGosPath socketPath = Join (unit_lines isPrint adbGosPath socketPath) [CHR 0x0A]"

definition resolveADBGosPath :: "('s, 'c) cli_env \<Rightarrow> string \<Rightarrow> 's \<Rightarrow> go_error + string" where
  "resolveADBGosPath env configured s =
     (if configured \<noteq> [] then
        (case Abs env configured of Inl e \<Rightarrow> Inl (wrap [Txt ''resolve adb-gos path: ''] e) | Inr p \<Rightarrow> Inr p)
      else case cx_lookPath env ''adb-gos'' of
          Inr found \<Rightarrow> Abs env found
        | Inl _ \<Rightarrow>
            (case cx_executable env of
               None \<Rightarrow> Inl (error_text [Txt ''locate adb-gos: adb-gos is not on PATH and current executable path is unavailable''])
             | Some exe \<Rightarrow>
                 let candidate = PathJoin [Dir exe, ''adb-gos''] in
                 (case cx_stat env candidate s of
                    Inr _ \<Rightarrow> Inr candidate
                  | Inl _ \<Rightarrow> Inl (error_text [Txt ''locate adb-gos: pass --adb-gos PATH or install adb-gos next to adb-go'']))))"

definition systemdUserUnitDir :: "('s, 'c) cli_env \<Rightarrow> string \<Rightarrow> go_error + string" where
  "systemdUserUnitDir env configured =
     (if configured \<noteq> [] then Abs env configured
      else case (if cx_getenv env ''XDG_CONFIG_HOME'' \<noteq> [] then Inr (cx_getenv env ''XDG_CONFIG_HOME'')
                 else case cx_home env of
                     Inl e \<Rightarrow> Inl (wrap [Txt ''locate systemd user unit directory: ''] e)
                   | Inr home \<Rightarrow> Inr (PathJoin [home, ''.config''])) of
          Inl e \<Rightarrow> Inl e
        | Inr configHome \<Rightarrow> Inr (PathJoin [configHome, ''systemd'', ''user'']))"

definition unit_path :: "string \<Rightarrow> string" where
  "unit_path unitDir = PathJoin [unitDir, ''adb-gos.service'']"

definition writeServerServiceUnit ::
  "('s, 'c) cli_env \<Rightarrow> (nat \<Rightarrow> bool) \<Rightarrow> string \<Rightarrow> string \<Rightarrow> string \<Rightarrow> 's \<Rightarrow> (go_error + string) \<times> 's" where
  "writeServerServiceUnit env isPrint unitDir adbGosPath socketPath s =
     (let unitPath = unit_path unitDir in
      case cx_mkdirAll env unitDir s of
        (Some e, s) \<Rightarrow> (Inl (wrap [Txt ''create systemd user unit directory: ''] e), s)
      | (None, s) \<Rightarrow>
          (case cx_WriteFile env unitPath (adbGosSystemdUnit isPrint adbGosPath socketPath) s of
             (Some e, s) \<Rightarrow> (Inl (wrap [Txt (''write '' @ unitPath @ '': '')] e), s)
           | (None, s) \<Rightarrow> (Inr unitPath, s)))"

section \<open>systemctl\<close>

definition runSystemctlUser :: "('s, 'c) cli_env \<Rightarrow> string \<Rightarrow> string list \<Rightarrow> 's io \<Rightarrow> nat \<times> 's io" where
  "runSystemctlUser env systemctl args io0 =
     (let cmdArgs = ''--user'' # args in
      case on_sys (cx_exec env systemctl cmdArgs) io0 of
        ((None, _), io) \<Rightarrow> (0, io)
      | ((Some e, printed), io) \<Rightarrow>
          (1, eprintln (Txt (''adb-go server service install: '' @ systemctl @ '' '' @ Join cmdArgs '' '' @ '' failed: '') # ge_text e @
                (if printed \<noteq> [] then [Txt ('': '' @ TrimSpace printed)] else [])) io))"

definition systemctlUserOutput :: "('s, 'c) cli_env \<Rightarrow> string \<Rightarrow> string list \<Rightarrow> 's \<Rightarrow> (go_error + string) \<times> 's" where
  "systemctlUserOutput env systemctl args s0 =
     (let cmdArgs = ''--user'' # args in
      case cx_exec env systemctl cmdArgs s0 of
        ((fault, printed), s) \<Rightarrow>
          let status = TrimSpace printed in
          if status \<noteq> [] then (Inr status, s)
          else case fault of
              Some e \<Rightarrow> (Inl (wrap [Txt (systemctl @ '' '' @ Join cmdArgs '' '' @ '' failed: '')] e), s)
            | None \<Rightarrow> (Inr [], s))"

text \<open>\<open>if code := ...; code != 0 { return code }\<close>\<close>

definition if_ok :: "nat \<times> 's io \<Rightarrow> ('s io \<Rightarrow> nat \<times> 's io) \<Rightarrow> nat \<times> 's io" where
  "if_ok r f = (case r of (code, io) \<Rightarrow> if code \<noteq> 0 then (code, io) else f io)"

section \<open>The commands\<close>

text \<open>Linux only; then the flags, and no arguments.\<close>

definition service_flags ::
  "('s, 'c) cli_env \<Rightarrow> string \<Rightarrow> string \<Rightarrow> string \<Rightarrow> (string \<times> flag_value) list \<Rightarrow> string list \<Rightarrow>
     (flag_set \<Rightarrow> 's io \<Rightarrow> nat \<times> 's io) \<Rightarrow> 's io \<Rightarrow> nat \<times> 's io" where
  "service_flags env usage command what flags args body io =
     (if \<not> cx_linux env then
        (1, eprintln [Txt (''adb-go server service '' @ command @ '': systemd user '' @ what @ '' are supported on Linux only'')] io)
      else case Parse flags args of
          Inl e \<Rightarrow> flag_failure usage e io
        | Inr fs \<Rightarrow>
            if fs_args fs \<noteq> [] then
              usage_error usage [Txt (''adb-go server service '' @ command @ '': unexpected arguments ''), QuotedList (fs_args fs)] io
            else body fs io)"

definition service_failed :: "string \<Rightarrow> chunk list \<Rightarrow> 's io \<Rightarrow> nat \<times> 's io" where
  "service_failed command t io = (1, eprintln (Txt (''adb-go server service '' @ command @ '': '') # t) io)"

text \<open>The part \<open>install\<close> and \<open>reinstall\<close> share: resolving the paths and writing the unit.\<close>

definition with_unit ::
  "('s, 'c) cli_env \<Rightarrow> (nat \<Rightarrow> bool) \<Rightarrow> string \<Rightarrow> flag_set \<Rightarrow> string \<Rightarrow> (string \<Rightarrow> 's io \<Rightarrow> nat \<times> 's io) \<Rightarrow> 's io \<Rightarrow> nat \<times> 's io" where
  "with_unit env isPrint command fs socketPath body io =
     (case resolveADBGosPath env (TrimSpace (flag_string fs ''adb-gos'')) (c_sys io) of
        Inl e \<Rightarrow> service_failed command (ge_text e) io
      | Inr adbGosPath \<Rightarrow>
          (case systemdUserUnitDir env (TrimSpace (flag_string fs ''unit-dir'')) of
             Inl e \<Rightarrow> service_failed command (ge_text e) io
           | Inr unitDir \<Rightarrow>
               (case on_sys (writeServerServiceUnit env isPrint unitDir adbGosPath socketPath) io of
                  (Inl e, io) \<Rightarrow> service_failed command (ge_text e) io
                | (Inr unitPath, io) \<Rightarrow> body unitPath io)))"

definition runServerServiceInstall ::
  "('s, 'c) cli_env \<Rightarrow> (nat \<Rightarrow> bool) \<Rightarrow> string list \<Rightarrow> string \<Rightarrow> 's io \<Rightarrow> nat \<times> 's io" where
  "runServerServiceInstall env isPrint args socketPath =
     service_flags env ''server service install'' ''install'' ''services''
       [(''adb-gos'', StringV []), (''unit-dir'', StringV []), (''systemctl'', StringV ''systemctl''), (''no-enable'', BoolV False)] args
       (\<lambda>fs. with_unit env isPrint ''install'' fs socketPath (\<lambda>unitPath io.
          let systemctl = flag_string fs ''systemctl''; noEnable = flag_bool fs ''no-enable'' in
          if_ok (if noEnable then (0, io)
                 else if_ok (runSystemctlUser env systemctl [''daemon-reload''] io)
                   (runSystemctlUser env systemctl [''enable'', ''--now'', ''adb-gos.service'']))
            (\<lambda>io. (0, outln (if noEnable then ''systemctl enable/start skipped'' else ''adb-gos.service enabled and started for the current user'')
                        (outln (''installed '' @ unitPath) io)))))"

definition runServerServiceReinstall ::
  "('s, 'c) cli_env \<Rightarrow> (nat \<Rightarrow> bool) \<Rightarrow> string list \<Rightarrow> string \<Rightarrow> 's io \<Rightarrow> nat \<times> 's io" where
  "runServerServiceReinstall env isPrint args socketPath =
     service_flags env ''server service reinstall'' ''reinstall'' ''services''
       [(''adb-gos'', StringV []), (''unit-dir'', StringV []), (''systemctl'', StringV ''systemctl'')] args
       (\<lambda>fs. with_unit env isPrint ''reinstall'' fs socketPath (\<lambda>unitPath io.
          let systemctl = flag_string fs ''systemctl'' in
          if_ok (runSystemctlUser env systemctl [''daemon-reload''] io) (\<lambda>io.
            if_ok (runSystemctlUser env systemctl [''enable'', ''adb-gos.service''] io) (\<lambda>io.
              if_ok (runSystemctlUser env systemctl [''restart'', ''adb-gos.service''] io) (\<lambda>io.
                (0, outln ''adb-gos.service enabled and restarted for the current user'' (outln (''reinstalled '' @ unitPath) io)))))))"

definition serviceLifecyclePastTense :: "string \<Rightarrow> string" where
  "serviceLifecyclePastTense command =
     (if command = ''start'' then ''started'' else if command = ''stop'' then ''stopped'' else if command = ''restart'' then ''restarted''
      else command)"

definition runServerServiceLifecycle :: "('s, 'c) cli_env \<Rightarrow> string \<Rightarrow> string list \<Rightarrow> 's io \<Rightarrow> nat \<times> 's io" where
  "runServerServiceLifecycle env command args =
     service_flags env ''server service lifecycle'' command ''services'' [(''systemctl'', StringV ''systemctl'')] args (\<lambda>fs io.
       if_ok (runSystemctlUser env (flag_string fs ''systemctl'') [command, ''adb-gos.service''] io)
         (\<lambda>io. (0, outln (''adb-gos.service '' @ serviceLifecyclePastTense command) io)))"

definition runServerServiceStatus :: "('s, 'c) cli_env \<Rightarrow> string list \<Rightarrow> 's io \<Rightarrow> nat \<times> 's io" where
  "runServerServiceStatus env args =
     service_flags env ''server service status'' ''status'' ''services'' [(''systemctl'', StringV ''systemctl'')] args (\<lambda>fs io.
       let systemctl = flag_string fs ''systemctl'' in
       case on_sys (systemctlUserOutput env systemctl [''is-active'', ''adb-gos.service'']) io of
         (Inl e, io) \<Rightarrow> service_failed ''status'' (ge_text e) io
       | (Inr active, io) \<Rightarrow>
           (case on_sys (systemctlUserOutput env systemctl [''is-enabled'', ''adb-gos.service'']) io of
              (Inl e, io) \<Rightarrow> service_failed ''status'' (ge_text e) io
            | (Inr enabled, io) \<Rightarrow> (0, outln (''enabled: '' @ enabled) (outln (''active: '' @ active) io))))"

definition runServerServiceLogs :: "('s, 'c) cli_env \<Rightarrow> string list \<Rightarrow> 's io \<Rightarrow> nat \<times> 's io" where
  "runServerServiceLogs env args =
     service_flags env ''server service logs'' ''logs'' ''service logs''
       [(''journalctl'', StringV ''journalctl''), (''lines'', IntV 100), (''follow'', BoolV False)] args (\<lambda>fs io.
       if flag_int fs ''lines'' < 0 then (2, eprintln [Txt ''adb-go server service logs: --lines must be zero or greater''] io)
       else
         let cmdArgs = [''--user'', ''-u'', ''adb-gos.service'', ''-n'', Itoa (flag_int fs ''lines''), ''--no-pager''] @
               (if flag_bool fs ''follow'' then [''-f''] else []) in
         case on_sys (cx_execStreams env (TrimSpace (flag_string fs ''journalctl'')) cmdArgs) io of
           ((fault, o1, e1), io) \<Rightarrow>
             let io = eprint [Txt e1] (out_chunks [Txt o1] io) in
             (case fault of
                None \<Rightarrow> (0, io)
              | Some e \<Rightarrow> service_failed ''logs'' (Txt (flag_string fs ''journalctl'' @ '' '' @ Join cmdArgs '' '' @ '' failed: '') # ge_text e) io))"

text \<open>The end of \<open>uninstall\<close>, after the unit file.\<close>

definition uninstalled :: "('s, 'c) cli_env \<Rightarrow> string \<Rightarrow> bool \<Rightarrow> string \<Rightarrow> 's io \<Rightarrow> nat \<times> 's io" where
  "uninstalled env systemctl keep unitPath io =
     if_ok (runSystemctlUser env systemctl [''daemon-reload''] io) (\<lambda>io.
       (0, outln (if keep then ''adb-gos.service disabled and stopped; unit file kept''
                  else ''adb-gos.service disabled and stopped; removed '' @ unitPath) io))"

definition runServerServiceUninstall :: "('s, 'c) cli_env \<Rightarrow> string list \<Rightarrow> 's io \<Rightarrow> nat \<times> 's io" where
  "runServerServiceUninstall env args =
     service_flags env ''server service uninstall'' ''uninstall'' ''services''
       [(''unit-dir'', StringV []), (''systemctl'', StringV ''systemctl''), (''keep-unit'', BoolV False)] args (\<lambda>fs io.
       let systemctl = flag_string fs ''systemctl''; keep = flag_bool fs ''keep-unit'' in
       if_ok (runSystemctlUser env systemctl [''disable'', ''--now'', ''adb-gos.service''] io) (\<lambda>io.
         case systemdUserUnitDir env (TrimSpace (flag_string fs ''unit-dir'')) of
           Inl e \<Rightarrow> service_failed ''uninstall'' (ge_text e) io
         | Inr unitDir \<Rightarrow>
             (let unitPath = unit_path unitDir in
              case (if keep then (None, io) else on_sys (cx_removeFile env unitPath) io) of
                (removed, io) \<Rightarrow>
                  (case removed of
                     Some e \<Rightarrow>
                       if NotExist \<in> set (ge_is e) then uninstalled env systemctl keep unitPath io
                       else service_failed ''uninstall'' (Txt (''remove '' @ unitPath @ '': '') # ge_text e) io
                   | None \<Rightarrow> uninstalled env systemctl keep unitPath io))))"

definition runServerService :: "('s, 'c) cli_env \<Rightarrow> (nat \<Rightarrow> bool) \<Rightarrow> string list \<Rightarrow> string \<Rightarrow> 's io \<Rightarrow> nat \<times> 's io" where
  "runServerService env isPrint args socketPath io =
     (case Parse [] args of
        Inl e \<Rightarrow> flag_failure ''server service'' e io
      | Inr fs \<Rightarrow>
          (case splitFlagSetCommand fs of
             None \<Rightarrow> usage_error ''server service'' [Txt ''adb-go server service: requires COMMAND''] io
           | Some (command, commandArgs) \<Rightarrow>
               if command = ''install'' then runServerServiceInstall env isPrint commandArgs socketPath io
               else if command = ''reinstall'' then runServerServiceReinstall env isPrint commandArgs socketPath io
               else if command \<in> {''start'', ''stop'', ''restart''} then runServerServiceLifecycle env command commandArgs io
               else if command = ''status'' then runServerServiceStatus env commandArgs io
               else if command = ''logs'' then runServerServiceLogs env commandArgs io
               else if command = ''uninstall'' then runServerServiceUninstall env commandArgs io
               else usage_error ''server service'' [Txt ''adb-go server service: unknown service command '', Quoted command] io))"

end
