(* ===== verification/CliServer.thy ===== *)
theory CliServer
  imports CliForward CliSystemd
begin

text \<open>
  The commands \<open>targets\<close>, \<open>devices\<close> and \<open>server\<close> of \<open>adb-go\<close>: \<open>targets.go\<close>, \<open>devices.go\<close> and \<open>server.go\<close> of
  \<open>cmd/adb-go/internal/custom\<close>.
\<close>

section \<open>targets\<close>

record targetOutput =
  to_Transport :: string
  to_Selector :: string
  to_Details :: string

definition json_targetOutput :: "targetOutput \<Rightarrow> json" where
  "json_targetOutput t =
     JObject [(''transport'', JString (to_Transport t)), (''selector'', JString (to_Selector t)), (''details'', JString (to_Details t))]"

text \<open>\<open>%03d\<close>, \<open>%04x\<close> and \<open>%#02x\<close>\<close>

definition zero_pad :: "nat \<Rightarrow> string \<Rightarrow> string" where
  "zero_pad k s = replicate (k - length s) (CHR ''0'') @ s"

definition fmt_03d :: "int \<Rightarrow> string" where
  "fmt_03d i = (if i < 0 then CHR ''-'' # zero_pad 2 (FormatUint (nat (- i))) else zero_pad 3 (FormatUint (nat i)))"

definition fmt_04x :: "u16 \<Rightarrow> string" where
  "fmt_04x w = zero_pad 4 (FormatHex (unat w))"

definition fmt_alt_02x :: "byte \<Rightarrow> string" where
  "fmt_alt_02x b = ''0x'' @ zero_pad 2 (FormatHex (unat b))"

definition usb_details :: "USBDevice \<Rightarrow> string" where
  "usb_details d = ''bus='' @ fmt_03d (ud_BusNumber d) @ '' device='' @ fmt_03d (ud_DeviceNumber d) @ '' vid:pid='' @ fmt_04x (ud_VendorID d)
     @ '':'' @ fmt_04x (ud_ProductID d) @ '' interface='' @ FormatUint (unat (ud_InterfaceNumber d))
     @ '' endpoints=in:'' @ fmt_alt_02x (ud_BulkInEndpoint d) @ '',out:'' @ fmt_alt_02x (ud_BulkOutEndpoint d)"

definition env_rows :: "('s, 'c) cli_env \<Rightarrow> targetOutput list" where
  "env_rows env =
     (let addr = TrimSpace (cx_getenv env ''ADB_GO_ADDR'') in
      if addr \<noteq> [] then [\<lparr>to_Transport = ''tcp'', to_Selector = ''--addr '' @ addr, to_Details = ''from ADB_GO_ADDR''\<rparr>] else [])"

definition scan_row :: "string \<times> bool \<Rightarrow> targetOutput" where
  "scan_row t = \<lparr>to_Transport = ''tcp'', to_Selector = ''--addr '' @ fst t,
     to_Details = ''scanned localhost emulator port'' @ (if snd t then '', auth required'' else [])\<rparr>"

definition usb_row :: "USBDevice \<Rightarrow> targetOutput" where
  "usb_row d = \<lparr>to_Transport = ''usb'', to_Selector = ''--usb-path '' @ ud_DevicePath d, to_Details = usb_details d\<rparr>"

definition target_row :: "targetOutput \<Rightarrow> tableRow" where
  "target_row t = [to_Transport t, to_Selector t, to_Details t]"

definition print_targets :: "bool \<Rightarrow> bool \<Rightarrow> targetOutput list \<Rightarrow> bool \<Rightarrow> 's io \<Rightarrow> nat \<times> 's io" where
  "print_targets json plain rows usbUnsupported io =
     (if json then
        finish (writeJSON (JObject ([(''targets'', JArray (map json_targetOutput rows))] @ omit_false ''usbUnsupported'' usbUnsupported)) io)
          (encode_error ''targets'')
      else if rows = [] then
        (0, outln (if usbUnsupported then ''USB target discovery is Linux-only in this version.''
                   else ''USB target discovery requires an ADB-capable device visible under /dev/bus/usb and sufficient permissions.'')
              (outln ''TCP targets are explicit: pass --addr HOST[:PORT], set ADB_GO_ADDR, or use targets --scan for local emulators.''
                (outln ''No adb-go connection targets found.'' io)))
      else write_table ''targets'' plain [''TRANSPORT'', ''SELECTOR'', ''DETAILS''] (map target_row rows) io)"

definition runTargetsWithJSON :: "('s, 'c) cli_env \<Rightarrow> string list \<Rightarrow> bool \<Rightarrow> 's io \<Rightarrow> nat \<times> 's io" where
  "runTargetsWithJSON env args jsonOutput io =
     (case Parse [(''scan'', BoolV False), (''json'', BoolV jsonOutput), (''plain'', BoolV False)] args of
        Inl e \<Rightarrow> flag_failure ''targets'' e io
      | Inr fs \<Rightarrow>
          let json = flag_bool fs ''json''; plain = flag_bool fs ''plain'' in
          if fs_args fs \<noteq> [] then usage_error ''targets'' [Txt ''adb-go targets: unexpected arguments''] io
          else if json \<and> plain then usage_error ''targets'' [Txt ''adb-go targets: choose only one output mode: --json or --plain''] io
          else case (if flag_bool fs ''scan'' then cx_scanTCP env (c_sys io) else Inr []) of
              Inl e \<Rightarrow> (1, eprintln (Txt ''adb-go targets: scan TCP targets: '' # ge_text e) io)
            | Inr scanned \<Rightarrow>
                let rows = env_rows env @ map scan_row scanned in
                (case cx_listUSB env (c_sys io) of
                   UsbDevices ds \<Rightarrow> print_targets json plain (rows @ map usb_row ds) False io
                 | UsbError e \<Rightarrow>
                     if Unsupported \<in> set (ge_is e) then print_targets json plain rows True io
                     else if NotExist \<in> set (ge_is e) then print_targets json plain rows False io
                     else (1, eprintln (Txt ''adb-go targets: list USB devices: '' # ge_text e) io)))"

section \<open>devices\<close>

definition deviceTableRows :: "Device list \<Rightarrow> tableRow list" where
  "deviceTableRows ds = map (\<lambda>d. [dev_Serial d, dev_State d, dev_Transport d, dash_if_empty (dev_Address d)]) ds"

definition json_device :: "Device \<Rightarrow> json" where
  "json_device d = JObject ([(''serial'', JString (dev_Serial d)), (''state'', JString (dev_State d)), (''transport'', JString (dev_Transport d))]
     @ omit_string ''address'' (dev_Address d))"

fun decode_devices :: "result option \<Rightarrow> Device list option" where
  "decode_devices (Some (ResDevices ds)) = Some ds"
| "decode_devices _ = None"

definition devicesServerSocketPath :: "('s, 'c) cli_env \<Rightarrow> string \<Rightarrow> server_error + string" where
  "devicesServerSocketPath env configured = (if configured \<noteq> [] then Inr configured else default_socket env)"

definition printDevicesServerError :: "string \<Rightarrow> go_error + Response \<Rightarrow> 's io \<Rightarrow> 's io" where
  "printDevicesServerError socketPath res io =
     (let cannot = ''adb-go devices: cannot list server-known devices: '' in
      case res of
        Inl e \<Rightarrow>
          eprintln start_hint
            (eprintln (Txt (cannot @ ''adb-gos is not running or socket is unavailable at '' @ socketPath @ '': '') # ge_text e) io)
      | Inr resp \<Rightarrow>
          (case rs_Error resp of
             Some code \<Rightarrow> eprintln [Txt (cannot @ ''server error ''), ServerErr code] io
           | None \<Rightarrow> eprintln [Txt (cannot @ ''server returned an unsuccessful response'')] io))"

definition runDevicesWithJSON :: "('s, 'c) cli_env \<Rightarrow> string list \<Rightarrow> bool \<Rightarrow> 's io \<Rightarrow> nat \<times> 's io" where
  "runDevicesWithJSON env args jsonOutput io =
     (case Parse [(''socket'', StringV []), (''json'', BoolV jsonOutput), (''plain'', BoolV False)] args of
        Inl e \<Rightarrow> flag_failure ''devices'' e io
      | Inr fs \<Rightarrow>
          let json = flag_bool fs ''json''; plain = flag_bool fs ''plain'' in
          if fs_args fs \<noteq> [] then usage_error ''devices'' [Txt ''adb-go devices: unexpected arguments '', QuotedList (fs_args fs)] io
          else if json \<and> plain then usage_error ''devices'' [Txt ''adb-go devices: choose only one output mode: --json or --plain''] io
          else case devicesServerSocketPath env (TrimSpace (flag_string fs ''socket'')) of
              Inl e \<Rightarrow> (1, eprintln [Txt (''adb-go devices: '' @ socket_error_text e)] io)
            | Inr socketPath \<Rightarrow>
                with_response env (printDevicesServerError socketPath) socketPath CommandDeviceList nil_params (\<lambda>res io.
                  let ds = decode_devices res; rows = deviceTableRows (case ds of None \<Rightarrow> [] | Some xs \<Rightarrow> xs) in
                  if json then finish (writeJSON (JObject [(''devices'', json_slice json_device ds)]) io) (encode_error ''devices'')
                  else if rows = [] \<and> \<not> plain then
                    (0, outln ''The server is reachable, but it has no registered devices. Use `adb-go targets` to see local connection targets.''
                          (outln ''No server-known devices.'' io))
                  else write_table ''devices'' plain [''SERIAL'', ''STATE'', ''TRANSPORT'', ''ADDRESS''] rows io) io)"

section \<open>server status\<close>

fun serverForwardDiagnostics :: "result option \<Rightarrow> ForwardDiagnostics option" where
  "serverForwardDiagnostics (Some (ResStatus _ d _)) = Some d"
| "serverForwardDiagnostics _ = None"

fun serverReverseDiagnostics :: "result option \<Rightarrow> ReverseDiagnostics option" where
  "serverReverseDiagnostics (Some (ResStatus _ _ d)) = Some d"
| "serverReverseDiagnostics _ = None"

definition count_line :: "string \<Rightarrow> nat \<Rightarrow> chunk list" where
  "count_line name n = [Txt (name @ '': '' @ FormatUint n)]"

definition forward_counts :: "ForwardDiagnostics option \<Rightarrow> chunk list list" where
  "forward_counts d =
     (case d of
        None \<Rightarrow> []
      | Some d \<Rightarrow> [count_line ''forwardTotal'' (fd_Total d), count_line ''forwardListening'' (fd_Listening d),
                  count_line ''forwardDegraded'' (fd_Degraded d), count_line ''forwardActiveConnections'' (fd_ActiveConnections d)])"

definition reverse_counts :: "ReverseDiagnostics option \<Rightarrow> chunk list list" where
  "reverse_counts d =
     (case d of
        None \<Rightarrow> []
      | Some d \<Rightarrow> [count_line ''reverseTotal'' (rd_Total d), count_line ''reverseListening'' (rd_Listening d),
                  count_line ''reverseDegraded'' (rd_Degraded d), count_line ''reverseActiveConnections'' (rd_ActiveConnections d)])"

definition print_lines :: "chunk list list \<Rightarrow> 's io \<Rightarrow> 's io" where
  "print_lines ls io = fold (\<lambda>l. out_chunks (l @ [Txt [CHR 0x0A]])) ls io"

definition printServerStatus :: "result option \<Rightarrow> 's io \<Rightarrow> 's io" where
  "printServerStatus res =
     print_lines (map (\<lambda>key. [Txt (key @ '': ''), ResultField key]) [''state'', ''pid'', ''socketPath'', ''protocolVersion'', ''uptimeMillis''] @
       forward_counts (serverForwardDiagnostics res) @ reverse_counts (serverReverseDiagnostics res))"

section \<open>server doctor\<close>

text \<open>What the command has found: the fields of the JSON form, the lines of the text form, and the hints.\<close>

record doctor =
  dx_fields :: "(string \<times> json) list"
  dx_lines :: "chunk list list"
  dx_hints :: "chunk list list"

definition doctor_socket :: "('s, 'c) cli_env \<Rightarrow> string \<Rightarrow> 's \<Rightarrow> doctor" where
  "doctor_socket env socketPath s =
     (let start = (''socketPath'', JString socketPath); line = [Txt (''socketPath: '' @ socketPath)] in
      case cx_lstat env socketPath s of
        StatSocket \<Rightarrow>
          \<lparr>dx_fields = [start, (''socketExists'', JBool True), (''socketType'', JString ''unix'')],
           dx_lines = [line, [Txt ''socketExists: true''], [Txt ''socketType: unix'']], dx_hints = []\<rparr>
      | StatOther t \<Rightarrow>
          \<lparr>dx_fields = [start, (''socketExists'', JBool True), (''socketType'', JString t)],
           dx_lines = [line, [Txt ''socketExists: true''], [Txt (''socketType: '' @ t)]],
           dx_hints = [[Txt ''The socket path exists but is not a Unix socket; inspect it before starting adb-gos with this path.'']]\<rparr>
      | StatMissing \<Rightarrow>
          \<lparr>dx_fields = [start, (''socketExists'', JBool False)], dx_lines = [line, [Txt ''socketExists: false'']],
           dx_hints = [[Txt ''No server socket exists at this path; start adb-gos with a matching -socket path, or run adb-go server service install then adb-go server service start on supported platforms.'']]\<rparr>
      | StatFailed e \<Rightarrow>
          \<lparr>dx_fields = [start, (''socketExists'', JString ''unknown''), (''socketError'', JText (ge_text e))],
           dx_lines = [line, [Txt ''socketExists: unknown (''] @ ge_text e @ [Txt '')'']],
           dx_hints = [[Txt ''adb-go could not inspect the socket path; check parent directory permissions.'']]\<rparr>)"

definition json_forwardDiagnostics :: "ForwardDiagnostics \<Rightarrow> json" where
  "json_forwardDiagnostics d = JObject [(''total'', JInt (int (fd_Total d))), (''listening'', JInt (int (fd_Listening d))),
     (''degraded'', JInt (int (fd_Degraded d))), (''activeConnections'', JInt (int (fd_ActiveConnections d)))]"

definition json_reverseDiagnostics :: "ReverseDiagnostics \<Rightarrow> json" where
  "json_reverseDiagnostics d = JObject [(''total'', JInt (int (rd_Total d))), (''listening'', JInt (int (rd_Listening d))),
     (''degraded'', JInt (int (rd_Degraded d))), (''activeConnections'', JInt (int (rd_ActiveConnections d)))]"

definition json_field :: "string \<Rightarrow> ('a \<Rightarrow> json) \<Rightarrow> 'a option \<Rightarrow> (string \<times> json) list" where
  "json_field key f x = (case x of None \<Rightarrow> [] | Some v \<Rightarrow> [(key, f v)])"

definition degraded_hint :: "string \<Rightarrow> string \<Rightarrow> nat option \<Rightarrow> chunk list list" where
  "degraded_hint kinds command n =
     (if n \<noteq> None \<and> n \<noteq> Some 0 then [[Txt (''One or more server-owned '' @ kinds @ '' are degraded; run adb-go '' @ command
        @ '' --list to see the mapping IDs, targets, and last setup errors.'')]] else [])"

definition doctor_status :: "result option \<Rightarrow> doctor" where
  "doctor_status res =
     (let fd = serverForwardDiagnostics res; rd = serverReverseDiagnostics res in
      \<lparr>dx_fields = [(''serverProtocol'', JString ''responding''), (''serverState'', JResultField ''state''),
                    (''serverProtocolVersion'', JResultField ''protocolVersion'')] @
                   json_field ''forwardDiagnostics'' json_forwardDiagnostics fd @ json_field ''reverseDiagnostics'' json_reverseDiagnostics rd,
       dx_lines = [[Txt ''serverProtocol: responding''], [Txt ''serverState: '', ResultField ''state''],
                   [Txt ''serverProtocolVersion: '', ResultField ''protocolVersion'']] @ forward_counts fd @ reverse_counts rd,
       dx_hints = degraded_hint ''forwards'' ''forward'' (map_option fd_Degraded fd) @ degraded_hint ''reverses'' ''reverse'' (map_option rd_Degraded rd)\<rparr>)"

definition doctor_protocol :: "go_error + Response \<Rightarrow> doctor" where
  "doctor_protocol res =
     (case res of
        Inl e \<Rightarrow>
          \<lparr>dx_fields = [(''serverProtocol'', JString ''not_responding''), (''serverProtocolError'', JText (ge_text e))],
           dx_lines = [[Txt ''serverProtocol: not responding (''] @ ge_text e @ [Txt '')'']],
           dx_hints = [[Txt ''No compatible adb-gos server answered the control protocol; verify the server process and socket path match.'']]\<rparr>
      | Inr resp \<Rightarrow>
          if \<not> rs_OK resp then
            \<lparr>dx_fields = [(''serverProtocol'', JString ''error'')] @ json_field ''serverError'' JServerErr (rs_Error resp),
             dx_lines = [Txt ''serverProtocol: error''] # (case rs_Error resp of None \<Rightarrow> [] | Some c \<Rightarrow> [[Txt ''serverError: '', ServerErr c]]),
             dx_hints = [[Txt ''The server socket answered but returned an error; check that adb-go and adb-gos are compatible builds.'']]\<rparr>
          else doctor_status (rs_Result resp))"

definition systemctlAvailable :: "('s, 'c) cli_env \<Rightarrow> string \<Rightarrow> 's \<Rightarrow> bool" where
  "systemctlAvailable env systemctl s =
     (if CHR ''/'' \<in> set systemctl then (case cx_stat env systemctl s of Inl _ \<Rightarrow> False | Inr isDir \<Rightarrow> \<not> isDir)
      else (case cx_lookPath env systemctl of Inl _ \<Rightarrow> False | Inr _ \<Rightarrow> True))"

text \<open>\<open>Inl\<close> is the hint of a state that could not be read.\<close>

definition serverDoctorSystemdStatus :: "('s, 'c) cli_env \<Rightarrow> string \<Rightarrow> 's \<Rightarrow> (chunk list + string \<times> string) \<times> 's" where
  "serverDoctorSystemdStatus env systemctl0 s0 =
     (let systemctl = (if systemctl0 = [] then ''systemctl'' else systemctl0);
          unreadable = (\<lambda>what e. Inl (Txt (''systemctl could not read adb-gos.service '' @ what @ '' state: '') # ge_text e)) in
      if \<not> systemctlAvailable env systemctl s0 then
        (Inl [Txt ''systemctl is not available on PATH; install systemd tools or pass --systemctl PATH to inspect adb-gos.service.''], s0)
      else case systemctlUserOutput env systemctl [''is-active'', ''adb-gos.service''] s0 of
          (active, s1) \<Rightarrow>
            (case systemctlUserOutput env systemctl [''is-enabled'', ''adb-gos.service''] s1 of
               (enabled, s2) \<Rightarrow>
                 (case active of
                    Inl e \<Rightarrow> (unreadable ''active'' e, s2)
                  | Inr a \<Rightarrow> (case enabled of Inl e \<Rightarrow> (unreadable ''enabled'' e, s2) | Inr b \<Rightarrow> (Inr (a, b), s2)))))"

definition doctor_systemd :: "chunk list + string \<times> string \<Rightarrow> doctor" where
  "doctor_systemd r =
     (case r of
        Inr (active, enabled) \<Rightarrow>
          \<lparr>dx_fields = [(''systemdActive'', JString active), (''systemdEnabled'', JString enabled)],
           dx_lines = [[Txt (''systemdActive: '' @ active)], [Txt (''systemdEnabled: '' @ enabled)]],
           dx_hints =
             (if active \<noteq> ''active'' then [[Txt ''adb-gos.service is not active; run adb-go server service start to start the installed user service.'']] else []) @
             (if enabled \<noteq> ''enabled'' then [[Txt ''adb-gos.service is not enabled; run adb-go server service install or systemctl --user enable adb-gos.service to start it automatically.'']] else [])\<rparr>
      | Inl hint \<Rightarrow>
          \<lparr>dx_fields = [(''systemdUserService'', JString ''unavailable'')], dx_lines = [[Txt ''systemdUserService: unavailable'']],
           dx_hints = [hint]\<rparr>)"

definition doctor_unsupported :: doctor where
  "doctor_unsupported = \<lparr>dx_fields = [(''systemdUserService'', JString ''unsupported'')],
     dx_lines = [[Txt ''systemdUserService: unsupported on this platform'']], dx_hints = []\<rparr>"

definition join_doctor :: "doctor list \<Rightarrow> doctor" where
  "join_doctor ds = \<lparr>dx_fields = concat (map dx_fields ds), dx_lines = concat (map dx_lines ds), dx_hints = concat (map dx_hints ds)\<rparr>"

definition print_doctor :: "bool \<Rightarrow> doctor \<Rightarrow> 's io \<Rightarrow> nat \<times> 's io" where
  "print_doctor json d io =
     (if json then
        finish (writeJSON (json_map (dx_fields d @ [(''hints'', JArray (map JText (dx_hints d)))])) io) (encode_error ''server doctor'')
      else
        let io = print_lines (dx_lines d) io in
        (0, if dx_hints d = [] then outln ''hints: none'' io
            else print_lines (map (\<lambda>h. Txt ''  - '' # h) (dx_hints d)) (outln ''hints:'' io)))"

definition runServerDoctorWithJSON :: "('s, 'c) cli_env \<Rightarrow> string list \<Rightarrow> string \<Rightarrow> bool \<Rightarrow> 's io \<Rightarrow> nat \<times> 's io" where
  "runServerDoctorWithJSON env args socketPath jsonOutput io =
     (case Parse [(''systemctl'', StringV ''systemctl''), (''json'', BoolV jsonOutput)] args of
        Inl e \<Rightarrow> flag_failure ''server doctor'' e io
      | Inr fs \<Rightarrow>
          if fs_args fs \<noteq> [] then
            usage_error ''server doctor'' [Txt ''adb-go server doctor: unexpected arguments '', QuotedList (fs_args fs)] io
          else
            let socket = doctor_socket env socketPath (c_sys io) in
            case sendForwardServerRequest env socketPath CommandStatus nil_params io of
              (res, io) \<Rightarrow>
                if cx_linux env then
                  (case on_sys (serverDoctorSystemdStatus env (TrimSpace (flag_string fs ''systemctl''))) io of
                     (st, io) \<Rightarrow> print_doctor (flag_bool fs ''json'') (join_doctor [socket, doctor_protocol res, doctor_systemd st]) io)
                else print_doctor (flag_bool fs ''json'') (join_doctor [socket, doctor_protocol res, doctor_unsupported]) io)"

section \<open>server\<close>

definition server_answer :: "string \<Rightarrow> bool \<Rightarrow> result option \<Rightarrow> 's io \<Rightarrow> nat \<times> 's io" where
  "server_answer command json res io =
     (let encode = encode_error (''server '' @ command) in
      if command = CommandPing then
        if json then finish (writeJSON (JObject [(''result'', JString ''pong'')]) io) encode else (0, outln ''pong'' io)
      else if command = CommandStatus then
        if json then finish (writeJSON JResult io) encode else (0, printServerStatus res io)
      else
        if json then finish (writeJSON (JObject [(''state'', JString ''shutting_down'')]) io) encode
        else (0, outln ''adb-gos shutting down'' io))"

definition print_control_error :: "string \<Rightarrow> string \<Rightarrow> go_error + Response \<Rightarrow> 's io \<Rightarrow> 's io" where
  "print_control_error command socketPath res io =
     (let name = ''adb-go server '' @ command in
      case res of
        Inl e \<Rightarrow> eprintln (Txt (name @ '': server is not running or socket is unavailable at '' @ socketPath @ '': '') # ge_text e) io
      | Inr resp \<Rightarrow>
          (case rs_Error resp of
             Some code \<Rightarrow> eprintln [Txt (name @ '': server error ''), ServerErr code] io
           | None \<Rightarrow> eprintln [Txt (name @ '': server returned an unsuccessful response'')] io))"

definition runServerWithJSON :: "('s, 'c) cli_env \<Rightarrow> (nat \<Rightarrow> bool) \<Rightarrow> string list \<Rightarrow> bool \<Rightarrow> 's io \<Rightarrow> nat \<times> 's io" where
  "runServerWithJSON env isPrint args jsonOutput io =
     (case Parse [(''socket'', StringV []), (''json'', BoolV jsonOutput)] args of
        Inl e \<Rightarrow> flag_failure ''server'' e io
      | Inr fs \<Rightarrow>
          (case splitFlagSetCommand fs of
             None \<Rightarrow> usage_error ''server'' [Txt ''adb-go server: requires COMMAND''] io
           | Some (command, commandArgs) \<Rightarrow>
               let configured = TrimSpace (flag_string fs ''socket''); json = flag_bool fs ''json'' in
               (case (if configured = [] then default_socket env else Inr configured) of
                  Inl e \<Rightarrow> (1, eprintln [Txt (''adb-go server: '' @ socket_error_text e)] io)
                | Inr socketPath \<Rightarrow>
                    if command = ''service'' then runServerService env isPrint commandArgs socketPath io
                    else if command = ''doctor'' then runServerDoctorWithJSON env commandArgs socketPath json io
                    else if command \<notin> {CommandPing, CommandStatus, ''stop''} then
                      usage_error ''server'' [Txt ''adb-go server: unknown server command '', Quoted command] io
                    else if commandArgs \<noteq> [] then
                      usage_error ''server'' [Txt (''adb-go server '' @ command @ '': unexpected arguments ''), QuotedList commandArgs] io
                    else
                      with_response env (print_control_error command socketPath) socketPath
                        (if command = ''stop'' then CommandShutdown else command) nil_params (server_answer command json) io)))"

section \<open>Selecting what \<open>targets\<close> lists\<close>

definition usb_arguments :: "USBOptions \<Rightarrow> (string \<times> flag_value) list" where
  "usb_arguments u = [(''usb'', BoolV True), (''usb-path'', StringV (uo_DevicePath u)), (''serial'', StringV (uo_Serial u)),
     (''usb-bus'', IntV (uo_BusNumber u)), (''usb-device'', IntV (uo_DeviceNumber u)),
     (''usb-vid'', StringV (fmt_04x (uo_VendorID u))), (''usb-pid'', StringV (fmt_04x (uo_ProductID u)))]"

lemma usb_arguments_defined:
  assumes "- (2 ^ 63) \<le> uo_BusNumber u" "uo_BusNumber u < 2 ^ 63" "- (2 ^ 63) \<le> uo_DeviceNumber u" "uo_DeviceNumber u < 2 ^ 63"
  shows "\<forall>(n, v) \<in> set (usb_arguments u). flag_name n \<and> (\<exists>old. map_of (addConnectionFlags @ flags) n = Some old \<and> same_kind old v)"
  using assms by (simp add: usb_arguments_def addConnectionFlags_def flag_name_def)

lemma usb_arguments_values:
  "fold (\<lambda>(n, v). AList.update n v) (usb_arguments u) (addConnectionFlags @ flags) =
     [(''addr'', StringV []), (''usb'', BoolV True), (''serial'', StringV (uo_Serial u)), (''usb-path'', StringV (uo_DevicePath u)),
      (''usb-bus'', IntV (uo_BusNumber u)), (''usb-device'', IntV (uo_DeviceNumber u)), (''usb-vid'', StringV (fmt_04x (uo_VendorID u))),
      (''usb-pid'', StringV (fmt_04x (uo_ProductID u))), (''auth-key'', StringV [])] @ flags"
  by (simp add: usb_arguments_def addConnectionFlags_def)

lemma usb_arguments_actual: "''addr'' \<notin> set (fold (\<lambda>(n, v). List.insert n) (usb_arguments u) [])"
  by (simp add: usb_arguments_def)

text \<open>Every selection of a USB device can be made on the command line: writing a path, a serial, bus and device numbers and the
  identifiers in the form \<open>targets\<close> prints them as flags, in front of any other arguments, gives a connection target with exactly
  these options and leaves the arguments as they are. Paths and serials must not have white space around them.\<close>

theorem usb_selection_roundtrip:
  assumes "TrimSpace (uo_DevicePath u) = uo_DevicePath u" "TrimSpace (uo_Serial u) = uo_Serial u" "uo_AuthCredentials u = []"
    and "- (2 ^ 63) \<le> uo_BusNumber u" "uo_BusNumber u < 2 ^ 63" "- (2 ^ 63) \<le> uo_DeviceNumber u" "uo_DeviceNumber u < 2 ^ 63"
  shows "\<exists>fs. Parse (addConnectionFlags @ flags) (map show_flag (usb_arguments u) @ ''--'' # rest) = Inr fs \<and> fs_args fs = rest \<and>
    conn_target env fs = Inr \<lparr>tg_description = ''USB device'', tg_tcpAddr = [], tg_usb = True, tg_usbOptions = u, tg_auth = []\<rparr>"
proof -
  have hex: "parseUSBID name (fmt_04x w) = Inr w" for name w
    unfolding fmt_04x_def zero_pad_def by (rule parseUSBID_hex [OF refl])
  define fs where "fs = \<lparr>fs_values = fold (\<lambda>(n, v). AList.update n v) (usb_arguments u) (addConnectionFlags @ flags),
    fs_actual = fold (\<lambda>(n, v). List.insert n) (usb_arguments u) [], fs_args = rest\<rparr>"
  have strings: "flag_string fs ''auth-key'' = []" "flag_string fs ''usb-path'' = uo_DevicePath u" "flag_string fs ''serial'' = uo_Serial u"
    "flag_string fs ''usb-vid'' = fmt_04x (uo_VendorID u)" "flag_string fs ''usb-pid'' = fmt_04x (uo_ProductID u)"
    by (simp_all add: fs_def usb_arguments_values flag_string_def)
  have others: "flag_bool fs ''usb''" "flag_int fs ''usb-bus'' = uo_BusNumber u" "flag_int fs ''usb-device'' = uo_DeviceNumber u"
    "\<not> flagWasProvided fs ''addr''"
    using usb_arguments_actual [of u] by (simp_all add: fs_def usb_arguments_values flag_bool_def flag_int_def flagWasProvided_def)
  have "conn_target env fs = Inr \<lparr>tg_description = ''USB device'', tg_tcpAddr = [], tg_usb = True, tg_usbOptions = u, tg_auth = []\<rparr>"
    using assms(1-3) by (simp add: conn_target_def authCredentials_def usb_requested_def strings others hex)
  moreover have "Parse (addConnectionFlags @ flags) (map show_flag (usb_arguments u) @ ''--'' # rest) = Inr fs"
    unfolding Parse_def fs_def by (rule parse_args_show [OF usb_arguments_defined [OF assms(4-7)]])
  ultimately show ?thesis by (auto simp: fs_def)
qed

definition sample_usb :: USBOptions where
  "sample_usb = zero_usb\<lparr>uo_BusNumber := 1, uo_DeviceNumber := 10, uo_VendorID := 0x18d1, uo_ProductID := 0x4ee7\<rparr>"

theorem usb_selection_roundtrip_witness:
  "\<exists>fs. Parse (addConnectionFlags @ []) (map show_flag (usb_arguments sample_usb) @ [''--'', ''ls'']) = Inr fs \<and> fs_args fs = [''ls''] \<and>
    conn_target (undefined :: (nat, unit) cli_env) fs =
      Inr \<lparr>tg_description = ''USB device'', tg_tcpAddr = [], tg_usb = True, tg_usbOptions = sample_usb, tg_auth = []\<rparr>"
  using usb_selection_roundtrip [of sample_usb "[]" "[''ls'']"] by (simp add: sample_usb_def zero_usb_def)

lemma digit_char_plain:
  assumes "a < 10"
  shows "lower (digit_char a) = digit_char a" "digit_value c = None \<Longrightarrow> digit_char a \<noteq> c"
proof -
  show "lower (digit_char a) = digit_char a" using assms by (simp add: lower_def digit_char_def)
  show "digit_value c = None \<Longrightarrow> digit_char a \<noteq> c" using assms by fastforce
qed

lemma ParseInt64_octal:
  assumes "a < 10" "b < 10"
  shows "ParseInt64 [CHR ''0'', digit_char a, digit_char b] 0 = (if 8 \<le> a \<or> 8 \<le> b then Inl ErrSyntax else Inr (int (a * 8 + b)))"
proof -
  have none: "digit_value (CHR ''_'') = None" "digit_value (CHR ''b'') = None" "digit_value (CHR ''o'') = None" "digit_value (CHR ''x'') = None"
    by code_simp+
  note neq = none [THEN digit_char_plain(2) [OF assms(1)]] none(1) [THEN digit_char_plain(2) [OF assms(2)]]
  have "a * 8 + b \<le> 89" using assms by simp
  then have small: "\<not> 2 ^ 64 - Suc 0 < a * 8 + b" "\<not> 2 ^ 64 - Suc 0 < a" "\<not> 2 ^ 63 \<le> a * 8 + b" using assms(1) by simp_all
  show ?thesis
    using assms neq small by (simp add: ParseInt64_def ParseUint_def detect_base_def digit_char_plain(1) Let_def del: power_numeral)
qed

lemma fmt_03d_small: "n < 100 \<Longrightarrow> fmt_03d (int n) = [CHR ''0'', digit_char (n div 10), digit_char (n mod 10)]"
proof (cases "n < 10")
  case True
  then have "FormatUint n = [digit_char n]" by (subst FormatUint.simps) simp
  moreover have "digit_char 0 = CHR ''0''" by code_simp
  ultimately show ?thesis using True by (simp add: fmt_03d_def zero_pad_def numeral_2_eq_2)
next
  case False
  assume "n < 100"
  have "FormatUint n = FormatUint (n div 10) @ [digit_char (n mod 10)]" using False by (subst FormatUint.simps) simp
  moreover have "FormatUint (n div 10) = [digit_char (n div 10)]" using \<open>n < 100\<close> by (subst FormatUint.simps) simp
  ultimately show ?thesis by (simp add: fmt_03d_def zero_pad_def)
qed

lemma FormatUint_long: "100 \<le> n \<Longrightarrow> 3 \<le> length (FormatUint n)"
proof -
  assume n: "100 \<le> n"
  then have "FormatUint n = FormatUint (n div 10) @ [digit_char (n mod 10)]" by (subst FormatUint.simps) simp
  moreover have "FormatUint (n div 10) = FormatUint (n div 10 div 10) @ [digit_char (n div 10 mod 10)]" using n by (subst FormatUint.simps) simp
  moreover have "1 \<le> length (FormatUint (n div 10 div 10))" by (simp add: Suc_le_eq)
  ultimately show ?thesis by simp
qed

text \<open>The bus number \<open>targets\<close> prints with three digits is read back by \<open>--usb-bus\<close> as the same number only below 8 and from 100
  on: the flag takes a leading zero for octal, so 010 selects bus 8 and 008 is refused.\<close>

theorem printed_bus_number_read_back_iff:
  assumes "n < 2 ^ 63"
  shows "(\<exists>fs. Parse addConnectionFlags [''--usb-bus'', fmt_03d (int n)] = Inr fs \<and> flag_int fs ''usb-bus'' = int n) \<longleftrightarrow> n < 8 \<or> 100 \<le> n"
proof -
  have tok: "flag_token ''--usb-bus'' = TokFlag ''usb-bus'' None" by code_simp
  have parse: "(\<exists>fs. Parse addConnectionFlags [''--usb-bus'', fmt_03d (int n)] = Inr fs \<and> flag_int fs ''usb-bus'' = int n) \<longleftrightarrow>
      ParseInt64 (fmt_03d (int n)) 0 = Inr (int n)"
    by (auto simp: Parse_def parse_args.simps tok addConnectionFlags_def flag_text_def flag_int_def split: sum.splits)
  show ?thesis
  proof (cases "100 \<le> n")
    case True
    then have "fmt_03d (int n) = Itoa (int n)" using FormatUint_long [OF True] by (simp add: fmt_03d_def zero_pad_def)
    then show ?thesis using True parse assms ParseInt64_Itoa [of "int n"] by simp
  next
    case False
    obtain a b where ab: "n = 10 * a + b" "b < 10" "n div 10 = a" "n mod 10 = b"
      using div_mult_mod_eq [of n 10] mod_less_divisor [of 10 n] by (metis mult.commute zero_less_numeral)
    have a: "a < 10" "n < 100" using False ab(1) by simp_all
    have "(ParseInt64 (fmt_03d (int n)) 0 = Inr (int n)) = (n < 8)"
    proof (cases "8 \<le> a \<or> 8 \<le> b")
      case True
      then have "\<not> n < 8" using ab(1) by linarith
      with True show ?thesis by (simp add: fmt_03d_small [OF a(2)] ParseInt64_octal [OF a(1) ab(2)] ab(3,4))
    next
      case False
      then have "(ParseInt64 (fmt_03d (int n)) 0 = Inr (int n)) = (int (a * 8 + b) = int n)"
        by (simp only: fmt_03d_small [OF a(2)] ab(3,4) ParseInt64_octal [OF a(1) ab(2)] if_False sum.inject)
      also have "\<dots> = (a = 0)" unfolding of_nat_eq_iff using ab(1) by linarith
      finally show ?thesis using False ab(1) by linarith
    qed
    with parse a show ?thesis by simp
  qed
qed

theorem printed_bus_number_read_back_iff_witness:
  "\<not> (\<exists>fs. Parse addConnectionFlags [''--usb-bus'', fmt_03d 10] = Inr fs \<and> flag_int fs ''usb-bus'' = 10)"
  using printed_bus_number_read_back_iff [of 10] by simp

end
