(* ===== verification/CliMain.thy ===== *)
theory CliMain
  imports CliServer
begin

text \<open>
  The command line of \<open>adb-go\<close>: \<open>Run\<close> and \<open>version\<close> of \<open>cmd/adb-go/internal/custom/custom.go\<close>, and what holds of every
  command. An exit status of 2 means that nothing was done; \<open>--verbose\<close> and \<open>--quiet\<close> change neither the exit status nor the
  effect of a command.
\<close>

section \<open>Run\<close>

definition formatVersion :: "string \<times> string \<times> string \<times> string \<Rightarrow> string" where
  "formatVersion info =
     (case info of (version, go, os, arch) \<Rightarrow>
        ''adb-go: '' @ version @ [CHR 0x0A] @ ''go: '' @ go @ [CHR 0x0A] @ ''os: '' @ os @ [CHR 0x0A] @ ''arch: '' @ arch @ [CHR 0x0A])"

definition runVersion :: "('s, 'c) cli_env \<Rightarrow> string list \<Rightarrow> 's io \<Rightarrow> nat \<times> 's io" where
  "runVersion env args io =
     (case Parse [] args of
        Inl e \<Rightarrow> flag_failure ''version'' e io
      | Inr fs \<Rightarrow>
          if fs_args fs \<noteq> [] then usage_error ''version'' [Txt ''adb-go version: unexpected arguments''] io
          else (0, out_chunks [Txt (formatVersion (cx_versionInfo env))] io))"

definition commandRunners ::
  "('s, 'c) cli_env \<Rightarrow> (nat \<Rightarrow> bool) \<Rightarrow> (string \<times> (string list \<Rightarrow> cliOptions \<Rightarrow> 's io \<Rightarrow> nat \<times> 's io)) list" where
  "commandRunners env isPrint =
     [(''version'', \<lambda>args opts. runVersion env args),
      (''targets'', \<lambda>args opts. runTargetsWithJSON env args (co_JSON opts)),
      (''devices'', \<lambda>args opts. runDevicesWithJSON env args (co_JSON opts)),
      (''shell'', runShellWithOptions env),
      (''logcat'', runLogcatWithOptions env),
      (''getprop'', runGetPropWithOptions env),
      (''screencap'', runScreencapWithOptions env),
      (''reboot'', runRebootWithOptions env),
      (''forward'', runForwardWithOptions env),
      (''reverse'', runReverseWithOptions env),
      (''server'', \<lambda>args opts. runServerWithJSON env isPrint args (co_JSON opts)),
      (''push'', runPushWithOptions env),
      (''pull'', runPullWithOptions env),
      (''install-apk'', runInstallAPKWithOptions env)]"

definition global_flags :: "(string \<times> flag_value) list" where
  "global_flags = [(''json'', BoolV False), (''quiet'', BoolV False), (''verbose'', BoolV False), (''help'', BoolV False), (''h'', BoolV False)]"

definition cli_options :: "flag_set \<Rightarrow> cliOptions" where
  "cli_options fs = \<lparr>co_JSON = flag_bool fs ''json'', co_Quiet = flag_bool fs ''quiet'', co_Verbose = flag_bool fs ''verbose''\<rparr>"

definition run_command ::
  "('s, 'c) cli_env \<Rightarrow> (nat \<Rightarrow> bool) \<Rightarrow> string \<Rightarrow> string list \<Rightarrow> cliOptions \<Rightarrow> 's io \<Rightarrow> nat \<times> 's io" where
  "run_command env isPrint command commandArgs opts io =
     (case map_of (commandRunners env isPrint) command of
        None \<Rightarrow> usage_error ''adb-go'' [Txt ''adb-go: unknown command '', Quoted command] io
      | Some runner \<Rightarrow> runner commandArgs opts io)"

definition Run :: "('s, 'c) cli_env \<Rightarrow> (nat \<Rightarrow> bool) \<Rightarrow> string list \<Rightarrow> 's io \<Rightarrow> nat \<times> 's io" where
  "Run env isPrint args io =
     (case Parse global_flags args of
        Inl e \<Rightarrow> flag_failure ''adb-go'' e io
      | Inr fs \<Rightarrow>
          if flag_bool fs ''help'' \<or> flag_bool fs ''h'' then (0, out_chunks [UsageOf ''adb-go''] io)
          else if flag_bool fs ''quiet'' \<and> flag_bool fs ''verbose'' then
            usage_error ''adb-go'' [Txt ''adb-go: choose only one output mode: --quiet or --verbose''] io
          else case splitFlagSetCommand fs of
              None \<Rightarrow> (0, out_chunks [UsageOf ''adb-go''] io)
            | Some (command, commandArgs) \<Rightarrow>
                if command \<in> {''help'', ''-h'', ''--help''} then (0, out_chunks [UsageOf ''adb-go''] io)
                else run_command env isPrint command commandArgs (cli_options fs) io)"

section \<open>Exit status 2\<close>

text \<open>A result with exit status 2 has changed nothing but the diagnostics.\<close>

definition usage_clean :: "'s io \<Rightarrow> nat \<times> 's io \<Rightarrow> bool" where
  "usage_clean io r \<longleftrightarrow> (fst r = 2 \<longrightarrow> c_sys (snd r) = c_sys io \<and> c_out (snd r) = c_out io)"

lemma clean_steps:
  "usage_clean io (2, eprintln cs io)"
  "usage_clean io (usage_error command cs io)"
  "usage_clean io (flag_failure command e io)"
  "usage_clean io x \<Longrightarrow> usage_clean io y \<Longrightarrow> usage_clean io (if b then x else y)"
  "(\<And>e. usage_clean io (f e)) \<Longrightarrow> (\<And>v. usage_clean io (g v)) \<Longrightarrow> usage_clean io (case_sum f g z)"
  "(\<And>v w. usage_clean io (k v w)) \<Longrightarrow> usage_clean io (case_prod k q)"
  "usage_clean io x \<Longrightarrow> (\<And>v. usage_clean io (h v)) \<Longrightarrow> usage_clean io (case_option x h o')"
  "usage_clean io x \<Longrightarrow> (\<And>v vs. usage_clean io (m v vs)) \<Longrightarrow> usage_clean io (case_list x m l)"
  by (auto simp: usage_clean_def usage_error_def flag_failure_def eprint_def eprintln_def
      split: sum.split prod.split option.split list.split)

lemma clean_other: "fst r \<noteq> 2 \<Longrightarrow> usage_clean io r"
  by (simp add: usage_clean_def)

text \<open>Everything behind the checks ends with 0 or 1.\<close>

named_theorems runs \<open>a part of a command that does not end with status 2\<close>

lemma runs_control [runs]:
  "fst (finish w f) \<noteq> 2"
  "fst (close_client env c r) = fst r"
  "fst (if_ok r g) \<noteq> 2 \<longleftrightarrow> fst r \<noteq> 2 \<and> (fst r = 0 \<longrightarrow> fst (g (snd r)) \<noteq> 2)"
  "fst (runSystemctlUser env systemctl args io) \<noteq> 2"
  "fst (service_failed command t io) \<noteq> 2"
  by (auto simp: finish_def close_client_def if_ok_def runSystemctlUser_def service_failed_def Let_def split: prod.split option.split)

lemma runs_with_client: "(\<And>c io. fst (body c io) \<noteq> 2) \<Longrightarrow> fst (with_client env command target p body io) \<noteq> 2"
  by (auto simp: with_client_def runs split: prod.split sum.split)

lemma runs_with_response:
  "(\<And>res io. fst (body res io) \<noteq> 2) \<Longrightarrow> fst (with_response env report socketPath command params body io) \<noteq> 2"
  by (auto simp: with_response_def split: prod.split sum.split)

lemma clean_with_target:
  "(\<And>fs t. usage_clean io (body fs t io)) \<Longrightarrow> usage_clean io (with_target env command flags args body io)"
  unfolding with_target_def by (intro clean_steps)

lemma clean_checked_flags: "usage_clean io (body io) \<Longrightarrow> usage_clean io (checked_flags command fs body io)"
  unfolding checked_flags_def Let_def by (intro clean_steps)

lemma clean_no_arguments: "usage_clean io (body io) \<Longrightarrow> usage_clean io (no_arguments usage label fs body io)"
  unfolding no_arguments_def by (intro clean_steps)

lemma clean_service_flags:
  "(\<And>fs. usage_clean io (body fs io)) \<Longrightarrow> usage_clean io (service_flags env usage command what flags args body io)"
  unfolding service_flags_def by (intro clean_steps) (simp_all add: clean_other)

lemma runs_getprop [runs]:
  "fst (print_one_prop json name v io) \<noteq> 2" "fst (getprop_one env c json name io) \<noteq> 2" "fst (getprop_all env c json io) \<noteq> 2"
  "fst (screencap_body env path overwrite c io) \<noteq> 2"
proof -
  show p: "fst (print_one_prop json name v io) \<noteq> 2" for json name v and io :: "'x io"
    by (simp add: print_one_prop_def runs)
  show "fst (getprop_one env c json name io) \<noteq> 2"
    by (auto simp: getprop_one_def p split: prod.split sum.split)
  show "fst (getprop_all env c json io) \<noteq> 2"
    by (auto simp: getprop_all_def runs split: prod.split sum.split)
  show "fst (screencap_body env path overwrite c io) \<noteq> 2"
    by (auto simp: screencap_body_def split: prod.split sum.split option.split)
qed

lemma clean_device_commands:
  "usage_clean io (runShellWithOptions env args opts io)"
  "usage_clean io (runLogcatWithOptions env args opts io)"
  "usage_clean io (runGetPropWithOptions env args opts io)"
  "usage_clean io (runScreencapWithOptions env args opts io)"
  "usage_clean io (runRebootWithOptions env args opts io)"
  "usage_clean io (runPushWithOptions env args opts io)"
  "usage_clean io (runPullWithOptions env args opts io)"
  "usage_clean io (runInstallAPKWithOptions env args opts io)"
  unfolding runShellWithOptions_def runLogcatWithOptions_def runGetPropWithOptions_def runScreencapWithOptions_def
    runRebootWithOptions_def runPushWithOptions_def runPullWithOptions_def runInstallAPKWithOptions_def Let_def
  by (rule clean_with_target, intro clean_steps clean_other [OF runs_with_client]; simp add: runs split: list.split)+

lemma runs_server_requests [runs]:
  "fst (runForwardServerCreate env socketPath l r t norebind json p io) \<noteq> 2"
  "fst (runForwardServerList env socketPath json plain io) \<noteq> 2"
  "fst (runForwardServerRemove env socketPath fparams json p io) \<noteq> 2"
  "fst (runForwardServerRemoveAll env socketPath json p io) \<noteq> 2"
  "fst (runReverseServerCreate env socketPath l r t norebind json p io) \<noteq> 2"
  "fst (runReverseServerList env socketPath json plain io) \<noteq> 2"
  "fst (runReverseServerRemove env socketPath rparams json p io) \<noteq> 2"
  "fst (runReverseServerRemoveAll env socketPath json p io) \<noteq> 2"
  unfolding runForwardServerCreate_def runForwardServerList_def runForwardServerRemove_def runForwardServerRemoveAll_def
    runReverseServerCreate_def runReverseServerList_def runReverseServerRemove_def runReverseServerRemoveAll_def
  by (rule runs_with_response; simp add: Let_def runs write_table_def print_removed_def)+

lemma runs_foreground [runs]:
  "fst (foreground_forward env target localAddr text remote p io) \<noteq> 2"
  "fst (foreground_reverse env target a b rem loc p io) \<noteq> 2"
  unfolding foreground_forward_def foreground_reverse_def
  by (rule runs_with_client; auto simp: runs finish_def split: prod.split sum.split option.split)+

lemma clean_create:
  "usage_clean io (create_forward env fs socketPath p io)" "usage_clean io (create_reverse env fs p io)"
  unfolding create_forward_def create_reverse_def Let_def background_refused_def
  by (intro clean_steps; (rule clean_other; simp add: runs)?)+

lemma clean_forward_commands:
  "usage_clean io (runForwardWithOptions env args opts io)" "usage_clean io (runReverseWithOptions env args opts io)"
  unfolding runForwardWithOptions_def runReverseWithOptions_def Let_def
  by (intro clean_steps clean_checked_flags clean_no_arguments clean_create; (rule clean_other; simp add: runs)?)+

lemma clean_service_commands:
  "usage_clean io (runServerServiceInstall env isPrint args socketPath io)"
  "usage_clean io (runServerServiceReinstall env isPrint args socketPath io)"
  "usage_clean io (runServerServiceLifecycle env command args io)"
  "usage_clean io (runServerServiceStatus env args io)"
  "usage_clean io (runServerServiceLogs env args io)"
  "usage_clean io (runServerServiceUninstall env args io)"
proof -
  have unit: "fst (with_unit env isPrint command fs socketPath body io) \<noteq> 2" if "\<And>u io. fst (body u io) \<noteq> 2"
    for command fs body and io :: "'a io"
    using that by (auto simp: with_unit_def runs split: sum.split prod.split)
  have un: "fst (uninstalled env systemctl keep path io) \<noteq> 2" for systemctl keep path and io :: "'a io"
    by (simp add: uninstalled_def runs)
  show "usage_clean io (runServerServiceInstall env isPrint args socketPath io)"
    unfolding runServerServiceInstall_def Let_def
    by (intro clean_service_flags clean_other unit) (auto simp: runs)
  show "usage_clean io (runServerServiceReinstall env isPrint args socketPath io)"
    unfolding runServerServiceReinstall_def Let_def
    by (intro clean_service_flags clean_other unit) (auto simp: runs)
  show "usage_clean io (runServerServiceLifecycle env command args io)"
    unfolding runServerServiceLifecycle_def
    by (intro clean_service_flags clean_other) (auto simp: runs)
  show "usage_clean io (runServerServiceStatus env args io)"
    unfolding runServerServiceStatus_def Let_def
    by (intro clean_service_flags clean_other) (auto simp: runs split: prod.split sum.split)
  show "usage_clean io (runServerServiceLogs env args io)"
    unfolding runServerServiceLogs_def Let_def
    by (intro clean_service_flags clean_steps(1,4) clean_other) (auto simp: runs split: prod.split option.split)
  show "usage_clean io (runServerServiceUninstall env args io)"
    unfolding runServerServiceUninstall_def Let_def
    by (intro clean_service_flags clean_other) (auto simp: runs un split: prod.split sum.split option.split)
qed

lemma clean_server_commands:
  "usage_clean io (runTargetsWithJSON env args json io)"
  "usage_clean io (runDevicesWithJSON env args json io)"
  "usage_clean io (runServerDoctorWithJSON env args socketPath json io)"
  "usage_clean io (runServerService env isPrint args socketPath io)"
  "usage_clean io (runServerWithJSON env isPrint args json io)"
proof -
  have p: "fst (print_targets j plain rows u io) \<noteq> 2" "fst (print_doctor j d io) \<noteq> 2" "fst (server_answer command j res io) \<noteq> 2"
    for j plain rows u d command res and io :: "'a io"
    by (auto simp: print_targets_def print_doctor_def server_answer_def write_table_def runs Let_def)
  show "usage_clean io (runTargetsWithJSON env args json io)"
    unfolding runTargetsWithJSON_def Let_def
    by (intro clean_steps(2-8); (rule clean_other; auto simp: p split: usb_list.split)?)
  show "usage_clean io (runDevicesWithJSON env args json io)"
    unfolding runDevicesWithJSON_def Let_def
    by (intro clean_steps(2-8) clean_other [OF runs_with_response]; (rule clean_other)?; simp add: runs write_table_def)
  show doctor: "usage_clean io (runServerDoctorWithJSON env args socketPath json io)" for args socketPath json
    unfolding runServerDoctorWithJSON_def Let_def
    by (intro clean_steps(2-8); rule clean_other; simp add: p)
  show service: "usage_clean io (runServerService env isPrint args socketPath io)" for args socketPath
    unfolding runServerService_def by (intro clean_steps(2-8) clean_service_commands)
  show "usage_clean io (runServerWithJSON env isPrint args json io)"
    unfolding runServerWithJSON_def Let_def
    by (intro clean_steps(2-8) doctor service clean_other [OF runs_with_response]; (rule clean_other)?; simp add: p)
qed

lemma clean_run_command: "usage_clean io (run_command env isPrint command commandArgs opts io)"
proof -
  have version: "usage_clean io (runVersion env args io)" for args
    unfolding runVersion_def by (intro clean_steps(2-8); rule clean_other; simp)
  have "\<forall>(n, runner) \<in> set (commandRunners env isPrint). usage_clean io (runner commandArgs opts io)"
    by (simp add: commandRunners_def version clean_device_commands clean_forward_commands clean_server_commands)
  then show ?thesis
    by (auto simp: run_command_def clean_steps split: option.split dest: map_of_SomeD)
qed

text \<open>C31: an exit status of 2 means that the command line was refused and nothing was done: no device was connected, no request
  was sent to the server, no file was written, no program was run, and nothing was printed on the standard output. It holds for
  every command and every argument list.\<close>

theorem usage_errors_have_no_effect:
  assumes "Run env isPrint args io = (2, io')"
  shows "c_sys io' = c_sys io \<and> c_out io' = c_out io"
proof -
  have "usage_clean io (Run env isPrint args io)"
    unfolding Run_def by (intro clean_steps(2-8) clean_run_command; rule clean_other; simp)
  then show ?thesis using assms by (simp add: usage_clean_def)
qed

text \<open>A world that counts what is done to it.\<close>

definition counting_cli :: "(nat, unit) cli_env" where
  "counting_cli = \<lparr>cx_getenv = (\<lambda>_. []), cx_tmp = ''/tmp'', cx_uid = 1000, cx_linux = True, cx_versionInfo = ([], [], [], []),
     cx_now = ([], 0), cx_loadKey = (\<lambda>_. Inl (error_text [])), cx_connect = (\<lambda>_ n. (Inr (), Suc n)), cx_closeClient = (\<lambda>_ n. Suc n),
     cx_shellStream = (\<lambda>_ _ _ n. ((None, ''ok''), Suc n)), cx_logcat = (\<lambda>_ _ _ n. ((None, []), Suc n)),
     cx_getProp = (\<lambda>_ _ n. (Inr [], Suc n)), cx_properties = (\<lambda>_ n. (Inr [], Suc n)), cx_screencap = (\<lambda>_ n. (Inr [], Suc n)),
     cx_reboot = (\<lambda>_ _ n. (None, Suc n)), cx_pushFile = (\<lambda>_ _ _ n. (None, Suc n)), cx_pullFile = (\<lambda>_ _ _ _ n. (None, Suc n)),
     cx_installAPK = (\<lambda>_ _ _ n. (None, Suc n)), cx_startForward = (\<lambda>_ _ _ n. (Inr [], Suc n)), cx_startReverse = (\<lambda>_ _ _ n. (None, Suc n)),
     cx_waitSession = (\<lambda>n. (None, Suc n)), cx_closeSession = (\<lambda>n. (None, Suc n)), cx_openFile = (\<lambda>_ _ n. (None, Suc n)),
     cx_writeFile = (\<lambda>_ _ n. (None, Suc n)), cx_closeFile = (\<lambda>_ n. (None, Suc n)), cx_removeFile = (\<lambda>_ n. (None, Suc n)),
     cx_WriteFile = (\<lambda>_ _ n. (None, Suc n)), cx_mkdirAll = (\<lambda>_ n. (None, Suc n)), cx_stat = (\<lambda>_ _. Inr False),
     cx_lstat = (\<lambda>_ _. StatMissing),
     cx_send = (\<lambda>_ req n. (Inr \<lparr>rs_Version = ProtocolVersion, rs_ID = rq_ID req, rs_OK = True, rs_Result = Some (ResRemoved n), rs_Error = None\<rparr>, Suc n)),
     cx_listUSB = (\<lambda>_. UsbDevices []), cx_scanTCP = (\<lambda>_. Inr []), cx_exec = (\<lambda>_ _ n. ((None, []), Suc n)),
     cx_execStreams = (\<lambda>_ _ n. ((None, [], []), Suc n)), cx_lookPath = (\<lambda>p. Inr p), cx_executable = None,
     cx_home = Inr ''/home/u'', cx_cwd = Inr ''/''\<rparr>"

definition fresh_console :: "nat io" where
  "fresh_console = \<lparr>c_out = [], c_err = [], c_faults = [], c_sys = 0\<rparr>"

theorem usage_errors_have_no_effect_witness:
  "\<exists>io'. Run counting_cli (\<lambda>_. False) [''--json'', ''shell''] fresh_console = (2, io') \<and> c_sys io' = 0 \<and> c_out io' = []"
proof -
  have "fst (Run counting_cli (\<lambda>_. False) [''--json'', ''shell''] fresh_console) = 2" by code_simp
  then obtain io' where run: "Run counting_cli (\<lambda>_. False) [''--json'', ''shell''] fresh_console = (2, io')"
    by (metis prod.collapse)
  have "c_sys fresh_console = 0" "c_out fresh_console = []" by (simp_all add: fresh_console_def)
  then show ?thesis using run usage_errors_have_no_effect [OF run] by metis
qed

end
