(* ===== verification/CliModes.thy ===== *)
theory CliModes
  imports CliMain
begin

text \<open>
  The output modes of \<open>adb-go\<close>. The locale \<open>console_view\<close> relates two consoles that run the same command with different output
  policies; that every command keeps the relation is proved once in it. It is interpreted twice: for \<open>--verbose\<close>, where only
  the diagnostics may differ, and for \<open>--quiet\<close>, where the output of the quiet command is a subsequence of the other.
\<close>

section \<open>Two consoles\<close>

definition same_result :: "('s io \<Rightarrow> 's io \<Rightarrow> bool) \<Rightarrow> 'r \<times> 's io \<Rightarrow> 'r \<times> 's io \<Rightarrow> bool" where
  "same_result R r r' \<longleftrightarrow> fst r = fst r' \<and> R (snd r) (snd r')"

lemma same_Pair: "R io io' \<Longrightarrow> same_result R (v, io) (v, io')"
  by (simp add: same_result_def)

lemma same_bind:
  "same_result R r r' \<Longrightarrow> (\<And>v io io'. R io io' \<Longrightarrow> same_result R (k v io) (k' v io')) \<Longrightarrow> same_result R (case_prod k r) (case_prod k' r')"
  by (cases r; cases r') (simp add: same_result_def)

lemma same_split:
  "same_result R x x' \<Longrightarrow> same_result R y y' \<Longrightarrow> same_result R (if b then x else y) (if b then x' else y')"
  "(\<And>e. same_result R (f e) (f' e)) \<Longrightarrow> (\<And>v. same_result R (g v) (g' v)) \<Longrightarrow> same_result R (case_sum f g z) (case_sum f' g' z)"
  "same_result R x x' \<Longrightarrow> (\<And>v. same_result R (h v) (h' v)) \<Longrightarrow> same_result R (case_option x h w) (case_option x' h' w)"
  "same_result R x x' \<Longrightarrow> (\<And>v vs. same_result R (m v vs) (m' v vs)) \<Longrightarrow> same_result R (case_list x m l) (case_list x' m' l)"
  "(\<And>ds. same_result R (fu ds) (fu' ds)) \<Longrightarrow> (\<And>e. same_result R (ge e) (ge' e)) \<Longrightarrow> same_result R (case_usb_list fu ge u) (case_usb_list fu' ge' u)"
  by (auto split: sum.split option.split list.split usb_list.split)

lemma same_split_pair:
  "(\<And>v w. same_result R (k v w) (k' v w)) \<Longrightarrow> same_result R (case q of (v, w) \<Rightarrow> k v w) (case q of (v, w) \<Rightarrow> k' v w)"
  by (cases q) simp

locale console_view =
  fixes R :: "'s io \<Rightarrow> 's io \<Rightarrow> bool" and P :: "outputPolicy \<Rightarrow> outputPolicy \<Rightarrow> bool"
  assumes R_sys: "R io io' \<Longrightarrow> c_sys io = c_sys io'"
    and R_faults: "R io io' \<Longrightarrow> c_faults io = c_faults io'"
    and R_set: "R io io' \<Longrightarrow> R (io\<lparr>c_sys := s\<rparr>) (io'\<lparr>c_sys := s\<rparr>)"
    and R_err: "R io io' \<Longrightarrow> R (io\<lparr>c_err := x\<rparr>) (io'\<lparr>c_err := y\<rparr>)"
    and R_app: "R io io' \<Longrightarrow> R (io\<lparr>c_out := c_out io @ cs\<rparr>) (io'\<lparr>c_out := c_out io' @ cs\<rparr>)"
    and R_oprint: "R io io' \<Longrightarrow> R (snd (oprint cs io)) (snd (oprint cs io'))"
    and R_Infof: "P p p' \<Longrightarrow> R io io' \<Longrightarrow> R (Infof p cs io) (Infof p' cs io')"
    and R_Infoln: "P p p' \<Longrightarrow> R io io' \<Longrightarrow> R (Infoln p line io) (Infoln p' line io')"
begin

lemma same_oprint: "R io io' \<Longrightarrow> same_result R (oprint cs io) (oprint cs io')"
  using R_oprint [of io io' cs] R_faults [of io io'] by (simp add: same_result_def oprint_def split: list.splits option.splits)

lemma R_eprint: "R io io' \<Longrightarrow> R (eprint cs io) (eprint ds io')"
  by (simp add: eprint_def R_err)

lemma R_eprintln: "R io io' \<Longrightarrow> R (eprintln cs io) (eprintln ds io')"
  by (simp add: eprintln_def R_eprint)

lemma R_out_chunks: "R io io' \<Longrightarrow> R (out_chunks cs io) (out_chunks cs io')"
  by (simp add: out_chunks_def R_oprint)

lemma R_outln: "R io io' \<Longrightarrow> R (outln s io) (outln s io')"
  by (simp add: outln_def R_oprint)

lemma R_Verbosef: "R io io' \<Longrightarrow> R (Verbosef p cs io) (Verbosef p' cs' io')"
proof -
  assume r: "R io io'"
  have same: "j\<lparr>c_err := c_err j\<rparr> = j" for j :: "'s io" by simp
  show ?thesis
    using R_err [OF r, of "c_err (Verbosef p cs io)" "c_err (Verbosef p' cs' io')"]
    by (cases "op_verbose p"; cases "op_verbose p'") (simp_all add: Verbosef_def eprint_def same)
qed

lemma R_print_lines: "R io io' \<Longrightarrow> R (print_lines ls io) (print_lines ls io')"
  unfolding print_lines_def by (induction ls arbitrary: io io') (simp_all add: R_out_chunks)

lemma R_fold_out: "R io io' \<Longrightarrow> R (fold (\<lambda>x. out_chunks (f x)) xs io) (fold (\<lambda>x. out_chunks (f x)) xs io')"
  by (induction xs arbitrary: io io') (simp_all add: R_out_chunks)

lemma R_error_reports:
  assumes "R io io'"
  shows "R (printConnectError command d e io) (printConnectError command d e io')"
    "R (printCommandError command e io) (printCommandError command e io')"
    "R (encode_error command e io) (encode_error command e io')"
    "R (table_error command e io) (table_error command e io')"
    "R (printForwardServerError action sp res io) (printForwardServerError action sp res io')"
    "R (printReverseServerError action sp res io) (printReverseServerError action sp res io')"
    "R (printDevicesServerError sp res io) (printDevicesServerError sp res io')"
    "R (print_control_error command sp res io) (print_control_error command sp res io')"
  using assms
  by (auto simp: printConnectError_def printCommandError_def encode_error_def table_error_def printForwardServerError_def
      printReverseServerError_def print_server_error_def printDevicesServerError_def print_control_error_def Let_def
      split: sum.split option.split intro!: R_eprintln)

lemmas R_prints = R_eprint R_eprintln R_out_chunks R_outln R_Verbosef R_print_lines R_fold_out R_error_reports R_Infof R_Infoln R_set

lemma same_on_sys: "R io io' \<Longrightarrow> same_result R (on_sys f io) (on_sys f io')"
  using R_sys [of io io'] by (simp add: on_sys_def same_result_def R_set split: prod.split)

lemma same_usage:
  "R io io' \<Longrightarrow> same_result R (usage_error command cs io) (usage_error command cs io')"
  "R io io' \<Longrightarrow> same_result R (flag_failure command e io) (flag_failure command e io')"
  "R io io' \<Longrightarrow> same_result R (service_failed command t io) (service_failed command t io')"
  by (simp_all add: usage_error_def flag_failure_def service_failed_def same_result_def R_prints)

lemma same_finish:
  assumes "same_result R r r'" "\<And>e io io'. R io io' \<Longrightarrow> R (report e io) (report e io')"
  shows "same_result R (finish r report) (finish r' report)"
  unfolding finish_def using assms by (intro same_bind same_split same_Pair)

lemma same_if_ok:
  assumes "same_result R r r'" "\<And>io io'. R io io' \<Longrightarrow> same_result R (g io) (g' io')"
  shows "same_result R (if_ok r g) (if_ok r' g')"
  unfolding if_ok_def using assms by (intro same_bind same_split same_Pair)

lemma same_unless_err:
  assumes "same_result R r r'" "\<And>io io'. R io io' \<Longrightarrow> same_result R (g io) (g' io')"
  shows "same_result R (unless_err r g) (unless_err r' g')"
  unfolding unless_err_def using assms by (intro same_bind same_split same_Pair)

lemma same_write_each:
  assumes "\<And>x io io'. R io io' \<Longrightarrow> same_result R (f x io) (f x io')"
  shows "R io io' \<Longrightarrow> same_result R (write_each f xs io) (write_each f xs io')"
  by (induction xs arbitrary: io io') (auto intro!: same_Pair same_unless_err assms)

lemma same_write_cells: "R io io' \<Longrightarrow> same_result R (write_cells later cells ws io) (write_cells later cells ws io')"
proof (induction cells arbitrary: later ws io io')
  case (Cons cell cells)
  show ?case unfolding write_cells.simps
    by (intro same_unless_err same_split same_oprint same_Pair Cons)
qed (simp add: same_Pair)

lemma same_row: "R io io' \<Longrightarrow> same_result R (writeAlignedTableRow cells ws io) (writeAlignedTableRow cells ws io')"
  unfolding writeAlignedTableRow_def by (intro same_unless_err same_write_cells same_oprint)

lemma same_write_table: "R io io' \<Longrightarrow> same_result R (write_table command plain headers rows io) (write_table command plain headers rows io')"
  unfolding write_table_def writePlainTable_def writeAlignedTable_def Let_def
  by (intro same_finish same_split same_unless_err same_write_each same_row same_oprint same_Pair R_error_reports)

lemma same_writeJSON: "R io io' \<Longrightarrow> same_result R (writeJSON v io) (writeJSON v io')"
  unfolding writeJSON_def by (rule same_oprint)

lemma same_close_client: "same_result R r r' \<Longrightarrow> same_result R (close_client env c r) (close_client env c r')"
  using R_sys by (auto simp: close_client_def same_result_def R_set split: prod.split)

lemma same_with_client:
  assumes "R io io'" "\<And>c io io'. R io io' \<Longrightarrow> same_result R (body c io) (body' c io')"
  shows "same_result R (with_client env command target p body io) (with_client env command target p' body' io')"
proof -
  have "same_result R (connectTarget env command target p io) (connectTarget env command target p' io')"
    unfolding connectTarget_def Let_def using assms(1)
    by (intro same_bind same_split same_Pair same_on_sys R_Verbosef)
  then show ?thesis unfolding with_client_def
    by (intro same_bind same_split same_close_client same_Pair assms(2) R_error_reports)
qed

lemma same_with_target:
  assumes "R io io'" "\<And>fs t. same_result R (body fs t io) (body' fs t io')"
  shows "same_result R (with_target env command flags args body io) (with_target env command flags args body' io')"
  unfolding with_target_def using assms by (intro same_split same_usage)

lemma same_with_response:
  assumes "R io io'" "\<And>res io io'. R io io' \<Longrightarrow> same_result R (body res io) (body' res io')"
    "\<And>res io io'. R io io' \<Longrightarrow> R (report res io) (report res io')"
  shows "same_result R (with_response env report sp command params body io) (with_response env report sp command params body' io')"
  unfolding with_response_def sendForwardServerRequest_def
  by (intro same_bind [OF same_on_sys [OF assms(1)]] same_split same_Pair assms(2,3))

lemma same_stream: "R io io' \<Longrightarrow> same_result R (stream_to_stdout f io) (stream_to_stdout f io')"
  using R_sys [of io io'] R_faults [of io io']
  by (auto simp: stream_to_stdout_def same_result_def split: prod.split dest: R_app intro: R_set)

lemmas same_rules = same_finish same_stream same_on_sys same_writeJSON same_write_table same_usage same_split same_split_pair same_Pair R_prints

lemma same_device_commands:
  assumes "R io io'" "P (newOutputPolicy opts) (newOutputPolicy opts')" "co_JSON opts = co_JSON opts'"
  shows "same_result R (runShellWithOptions env args opts io) (runShellWithOptions env args opts' io')"
    "same_result R (runLogcatWithOptions env args opts io) (runLogcatWithOptions env args opts' io')"
    "same_result R (runGetPropWithOptions env args opts io) (runGetPropWithOptions env args opts' io')"
    "same_result R (runScreencapWithOptions env args opts io) (runScreencapWithOptions env args opts' io')"
    "same_result R (runRebootWithOptions env args opts io) (runRebootWithOptions env args opts' io')"
    "same_result R (runPushWithOptions env args opts io) (runPushWithOptions env args opts' io')"
    "same_result R (runPullWithOptions env args opts io) (runPullWithOptions env args opts' io')"
    "same_result R (runInstallAPKWithOptions env args opts io) (runInstallAPKWithOptions env args opts' io')"
  unfolding runShellWithOptions_def runLogcatWithOptions_def runGetPropWithOptions_def runScreencapWithOptions_def
    runRebootWithOptions_def runPushWithOptions_def runPullWithOptions_def runInstallAPKWithOptions_def Let_def assms(3)
    getprop_one_def getprop_all_def print_one_prop_def screencap_body_def
  by (intro same_with_target same_rules same_with_client same_bind assms(1,2); assumption)+

lemma same_server_lists:
  assumes "R io io'"
  shows "same_result R (runForwardServerList env sp json plain io) (runForwardServerList env sp json plain io')"
    "same_result R (runReverseServerList env sp json plain io) (runReverseServerList env sp json plain io')"
  unfolding runForwardServerList_def runReverseServerList_def Let_def
  by (intro same_with_response same_rules assms; assumption)+

lemma same_server_requests:
  assumes "R io io'" "P p p'"
  shows "same_result R (runForwardServerCreate env sp l r t norebind json p io) (runForwardServerCreate env sp l r t norebind json p' io')"
    "same_result R (runForwardServerRemove env sp fparams json p io) (runForwardServerRemove env sp fparams json p' io')"
    "same_result R (runForwardServerRemoveAll env sp json p io) (runForwardServerRemoveAll env sp json p' io')"
    "same_result R (runReverseServerCreate env sp l r t norebind json p io) (runReverseServerCreate env sp l r t norebind json p' io')"
    "same_result R (runReverseServerRemove env sp rparams json p io) (runReverseServerRemove env sp rparams json p' io')"
    "same_result R (runReverseServerRemoveAll env sp json p io) (runReverseServerRemoveAll env sp json p' io')"
  unfolding runForwardServerCreate_def runForwardServerRemove_def runForwardServerRemoveAll_def
    runReverseServerCreate_def runReverseServerRemove_def runReverseServerRemoveAll_def Let_def print_removed_def
  by (intro same_with_response same_rules assms; assumption)+

lemma same_foreground:
  assumes "R io io'" "P p p'"
  shows "same_result R (foreground_forward env target l text remote p io) (foreground_forward env target l text remote p' io')"
    "same_result R (foreground_reverse env target a b rem loc p io) (foreground_reverse env target a b rem loc p' io')"
proof -
  have close: "R io io' \<Longrightarrow> R (snd (on_sys f io)) (snd (on_sys f io'))" for f :: "'s \<Rightarrow> go_error option \<times> 's" and io io'
    using same_on_sys [of io io' f] by (simp add: same_result_def)
  show "same_result R (foreground_forward env target l text remote p io) (foreground_forward env target l text remote p' io')"
    "same_result R (foreground_reverse env target a b rem loc p io) (foreground_reverse env target a b rem loc p' io')"
    unfolding foreground_forward_def foreground_reverse_def
    by (intro same_with_client same_bind same_rules close assms; assumption)+
qed

lemma same_create:
  assumes "R io io'" "P p p'"
  shows "same_result R (create_forward env fs sp p io) (create_forward env fs sp p' io')"
    "same_result R (create_reverse env fs p io) (create_reverse env fs p' io')"
  unfolding create_forward_def create_reverse_def background_refused_def Let_def
  by (intro same_server_requests same_foreground same_rules assms)+

lemma same_checked:
  assumes "R io io'" "\<And>io io'. R io io' \<Longrightarrow> same_result R (body io) (body' io')"
  shows "same_result R (checked_flags command fs body io) (checked_flags command fs body' io')"
    "same_result R (no_arguments usage label fs body io) (no_arguments usage label fs body' io')"
  unfolding checked_flags_def no_arguments_def Let_def by (intro same_split same_usage assms)+

lemma same_forward_commands:
  assumes "R io io'" "P (newOutputPolicy opts) (newOutputPolicy opts')" "co_JSON opts = co_JSON opts'"
  shows "same_result R (runForwardWithOptions env args opts io) (runForwardWithOptions env args opts' io')"
    "same_result R (runReverseWithOptions env args opts io) (runReverseWithOptions env args opts' io')"
  unfolding runForwardWithOptions_def runReverseWithOptions_def Let_def assms(3)
  by (intro same_checked same_create same_server_lists same_server_requests same_usage same_split same_Pair R_prints assms(1,2); assumption)+

lemma same_service_flags:
  assumes "R io io'" "\<And>fs io io'. R io io' \<Longrightarrow> same_result R (body fs io) (body fs io')"
  shows "same_result R (service_flags env usage command what flags args body io) (service_flags env usage command what flags args body io')"
  unfolding service_flags_def using assms by (intro same_split same_usage same_Pair R_prints; assumption?)

lemma same_systemctl: "R io io' \<Longrightarrow> same_result R (runSystemctlUser env systemctl args io) (runSystemctlUser env systemctl args io')"
  unfolding runSystemctlUser_def Let_def by (intro same_bind [OF same_on_sys] same_split_pair same_split same_Pair R_prints; assumption?)

lemma same_with_unit:
  assumes "R io io'" "\<And>u io io'. R io io' \<Longrightarrow> same_result R (body u io) (body u io')"
  shows "same_result R (with_unit env isPrint command fs sp body io) (with_unit env isPrint command fs sp body io')"
  unfolding with_unit_def R_sys [OF assms(1)] using assms by (intro same_split same_usage same_bind same_on_sys; assumption?)

lemma same_service_commands:
  assumes "R io io'"
  shows "same_result R (runServerService env isPrint args sp io) (runServerService env isPrint args sp io')"
  unfolding runServerService_def runServerServiceInstall_def runServerServiceReinstall_def runServerServiceLifecycle_def
    runServerServiceStatus_def runServerServiceLogs_def runServerServiceUninstall_def uninstalled_def Let_def
  using assms
  by (intro same_split same_split_pair same_service_flags same_with_unit same_if_ok same_systemctl same_usage same_bind [OF same_on_sys]
      same_bind [OF same_split(1)] same_on_sys same_Pair R_prints; assumption?)

lemma R_if: "R x x' \<Longrightarrow> R y y' \<Longrightarrow> R (if b then x else y) (if b then x' else y')"
  by simp

lemma same_print_targets: "R io io' \<Longrightarrow> same_result R (print_targets json plain rows u io) (print_targets json plain rows u io')"
  unfolding print_targets_def by (intro same_rules; assumption)

lemma same_print_doctor: "R io io' \<Longrightarrow> same_result R (print_doctor json d io) (print_doctor json d io')"
  unfolding print_doctor_def Let_def
  by (intro R_if same_rules; assumption)

lemma same_server_commands:
  assumes "R io io'"
  shows "same_result R (runTargetsWithJSON env args json io) (runTargetsWithJSON env args json io')"
    "same_result R (runDevicesWithJSON env args json io) (runDevicesWithJSON env args json io')"
    "same_result R (runServerDoctorWithJSON env args sp json io) (runServerDoctorWithJSON env args sp json io')"
    "same_result R (runServerWithJSON env isPrint args json io) (runServerWithJSON env isPrint args json io')"
proof -
  show "same_result R (runTargetsWithJSON env args json io) (runTargetsWithJSON env args json io')"
    unfolding runTargetsWithJSON_def Let_def R_sys [OF assms]
    by (intro same_split same_usage same_Pair same_print_targets R_prints assms)
  show "same_result R (runDevicesWithJSON env args json io) (runDevicesWithJSON env args json io')"
    unfolding runDevicesWithJSON_def Let_def
    by (intro same_with_response same_rules assms; assumption)
  show doctor: "same_result R (runServerDoctorWithJSON env args sp json io) (runServerDoctorWithJSON env args sp json io')" for args sp json
    unfolding runServerDoctorWithJSON_def Let_def R_sys [OF assms] sendForwardServerRequest_def
    by (intro same_split same_usage same_bind [OF same_on_sys] same_print_doctor assms; assumption)
  show "same_result R (runServerWithJSON env isPrint args json io) (runServerWithJSON env isPrint args json io')"
    unfolding runServerWithJSON_def Let_def server_answer_def printServerStatus_def
    by (intro same_split same_split_pair same_usage same_service_commands doctor same_with_response same_finish same_writeJSON same_Pair
        R_prints assms; assumption)
qed

theorem same_run_command:
  assumes "R io io'" "P (newOutputPolicy opts) (newOutputPolicy opts')" "co_JSON opts = co_JSON opts'"
  shows "same_result R (run_command env isPrint command args opts io) (run_command env isPrint command args opts' io')"
proof -
  have version: "same_result R (runVersion env args io) (runVersion env args io')"
    unfolding runVersion_def by (intro same_split same_usage same_Pair R_prints assms(1))
  have "\<forall>(n, runner) \<in> set (commandRunners env isPrint). same_result R (runner args opts io) (runner args opts' io')"
    by (simp add: commandRunners_def version assms(3) same_device_commands [OF assms] same_forward_commands [OF assms]
        same_server_commands [OF assms(1)])
  then show ?thesis unfolding run_command_def
    by (auto simp: same_usage [OF assms(1)] split: option.split dest: map_of_SomeD)
qed

end

section \<open>--verbose\<close>

definition verbose_view :: "'s io \<Rightarrow> 's io \<Rightarrow> bool" where
  "verbose_view io io' \<longleftrightarrow> c_sys io = c_sys io' \<and> c_faults io = c_faults io' \<and> c_out io = c_out io'"

interpretation verbose: console_view verbose_view "\<lambda>p p'. op_quiet p = op_quiet p'"
  by unfold_locales
    (auto simp: verbose_view_def oprint_def Infof_def Infoln_def out_chunks_def outln_def split: list.split option.split)


definition plain_options :: cliOptions where "plain_options = \<lparr>co_JSON = False, co_Quiet = False, co_Verbose = False\<rparr>"


section \<open>--quiet\<close>

definition quiet_view :: "'s io \<Rightarrow> 's io \<Rightarrow> bool" where
  "quiet_view io io' \<longleftrightarrow> c_sys io = c_sys io' \<and> c_faults io = [] \<and> c_faults io' = [] \<and> subseq (c_out io) (c_out io')"

interpretation quiet: console_view quiet_view "\<lambda>p p'. op_quiet p' \<longrightarrow> op_quiet p"
  by unfold_locales
    (auto simp: quiet_view_def oprint_def Infof_def Infoln_def out_chunks_def outln_def intro: list_emb_append_mono subseq_order.trans)

text \<open>\<open>--quiet\<close> drops messages and nothing else: when the standard output can be written, the quiet command ends with the same
  exit status and the same effect, and what it prints is what the command prints without the flag, with some pieces left out.\<close>

theorem quiet_drops_only_messages:
  assumes "c_faults io = []" "co_JSON opts = co_JSON opts'" "co_Quiet opts"
    and "run_command env isPrint command args opts io = (code, io1)" "run_command env isPrint command args opts' io = (code', io2)"
  shows "code = code' \<and> c_sys io1 = c_sys io2 \<and> subseq (c_out io1) (c_out io2)"
proof -
  have "same_result quiet_view (run_command env isPrint command args opts io) (run_command env isPrint command args opts' io)"
    using assms(1-3) by (intro quiet.same_run_command) (simp_all add: quiet_view_def newOutputPolicy_def)
  then show ?thesis using assms(4,5) by (simp add: same_result_def quiet_view_def)
qed

theorem quiet_drops_only_messages_witness:
  "\<exists>code io1 io2. run_command counting_cli (\<lambda>_. False) ''forward'' [''--remove-all''] (plain_options\<lparr>co_Quiet := True\<rparr>) fresh_console = (code, io1) \<and>
     run_command counting_cli (\<lambda>_. False) ''forward'' [''--remove-all''] plain_options fresh_console = (code, io2) \<and>
     c_sys io1 = c_sys io2 \<and> subseq (c_out io1) (c_out io2)"
proof -
  obtain code io1 where a: "run_command counting_cli (\<lambda>_. False) ''forward'' [''--remove-all''] (plain_options\<lparr>co_Quiet := True\<rparr>)
      fresh_console = (code, io1)" by fastforce
  obtain code' io2 where b: "run_command counting_cli (\<lambda>_. False) ''forward'' [''--remove-all''] plain_options fresh_console = (code', io2)"
    by fastforce
  show ?thesis using quiet_drops_only_messages [OF _ _ _ a b] a b by (simp add: fresh_console_def)
qed

end
