(* ===== verification/CliTable.thy ===== *)
theory CliTable
  imports CliOutput GoPath
begin

text \<open>
  What the tables of \<open>output.go\<close> look like: the columns of an aligned table start at the same rune in every line, and a
  plain table can be read back when no cell has a tab or a newline.
\<close>

section \<open>Counting runes\<close>

abbreviation ascii :: "char \<Rightarrow> bool" where "ascii c \<equiv> (of_char c :: nat) < 128"

lemma not_cont: "ascii c \<Longrightarrow> 128 \<le> lo \<Longrightarrow> \<not> cont lo hi c"
  by (simp add: cont_def)

lemma second_range_lo: "second_range b = (lo, hi) \<Longrightarrow> 128 \<le> lo"
  by (auto simp: second_range_def split: if_splits)

lemma DecodeRune_append:
  assumes "a \<noteq> []" "ascii c"
  shows "DecodeRune (a @ c # b) = DecodeRune a"
proof -
  obtain lo hi where sr: "second_range (of_char (hd a)) = (lo, hi)" by fastforce
  note n = not_cont [OF assms(2) second_range_lo [OF sr], of hi] not_cont [OF assms(2), of 128 191]
  obtain x xs where a: "a = x # xs" using assms(1) by (cases a) auto
  show ?thesis
  proof (cases xs)
    case Nil
    then show ?thesis using n sr by (auto simp: a DecodeRune_def Let_def)
  next
    case (Cons y ys)
    note xs = this
    show ?thesis
    proof (cases ys)
      case Nil
      then show ?thesis using n sr by (auto simp: a xs DecodeRune_def Let_def)
    next
      case (Cons z zs)
      then show ?thesis using n sr by (cases zs) (auto simp: a xs DecodeRune_def Let_def)
    qed
  qed
qed

lemma RuneCount_Nil [simp]: "RuneCount [] = 0"
  by (simp add: RuneCount.simps)

lemma RuneCount_ascii [simp]: "ascii c \<Longrightarrow> RuneCount (c # s) = Suc (RuneCount s)"
  by (simp add: RuneCount.simps [of "c # s"] rune_len_def DecodeRune_def Let_def split: prod.split)

lemma RuneCount_append: "ascii c \<Longrightarrow> RuneCount (a @ c # b) = RuneCount a + RuneCount (c # b)"
proof (induction a rule: RuneCount.induct)
  case (1 a)
  show ?case
  proof (cases "a = []")
    case False
    then have len: "rune_len (a @ c # b) = rune_len a" using 1 by (simp add: rune_len_def DecodeRune_append)
    have "drop (rune_len a) (a @ c # b) = drop (rune_len a) a @ c # b" using rune_len_le [OF False] by simp
    moreover have "RuneCount (a @ c # b) = Suc (RuneCount (drop (rune_len a) (a @ c # b)))"
      using len by (subst RuneCount.simps) simp
    moreover have "RuneCount a = Suc (RuneCount (drop (rune_len a) a))" using False by (subst RuneCount.simps) simp
    ultimately show ?thesis using 1 False by simp
  qed simp
qed

lemma RuneCount_spaces [simp]: "RuneCount (replicate k (CHR '' '')) = k"
  by (induction k) simp_all

lemma RuneCount_pad: "RuneCount s \<le> w \<Longrightarrow> RuneCount (pad_right w s) = w"
  using RuneCount_append [of "CHR '' ''" s "replicate (w - RuneCount s - 1) (CHR '' '')"]
  by (cases "w - RuneCount s") (auto simp: pad_right_def)

section \<open>Lines\<close>

fun row_text :: "string list \<Rightarrow> nat list \<Rightarrow> string" where
  "row_text [] ws = []"
| "row_text [cell] ws = cell"
| "row_text (cell # cells) ws = pad_right (hd ws) cell @ ''  '' @ row_text cells (tl ws)"

definition column_start :: "nat list \<Rightarrow> nat \<Rightarrow> nat" where
  "column_start ws k = sum_list (map (\<lambda>w. w + 2) (take k ws))"

lemma row_text_columns:
  assumes "length ws = length cells" "k < length cells" "\<forall>i < length cells. RuneCount (cells ! i) \<le> ws ! i"
  shows "\<exists>a b. row_text cells ws = a @ cells ! k @ b \<and> RuneCount a = column_start ws k"
  using assms
proof (induction cells ws arbitrary: k rule: row_text.induct)
  case (2 cell ws)
  then show ?case by (intro exI [of _ "[]"] exI [of _ "[]"]) (simp add: column_start_def)
next
  case (3 cell c2 cells ws)
  then obtain w ws' where ws: "ws = w # ws'" by (cases ws) auto
  show ?case
  proof (cases k)
    case 0
    then show ?thesis
      by (intro exI [of _ "[]"] exI) (simp add: ws column_start_def pad_right_def)
  next
    case (Suc j)
    have "\<forall>i < length (c2 # cells). RuneCount ((c2 # cells) ! i) \<le> ws' ! i"
      using "3.prems"(3) by (auto simp: ws dest: spec [of _ "Suc _"])
    then obtain a b where ab: "row_text (c2 # cells) ws' = a @ (c2 # cells) ! j @ b" "RuneCount a = column_start ws' j"
      using "3.IH" [of j] "3.prems" Suc by (auto simp: ws)
    have "RuneCount cell \<le> w" using "3.prems"(3) by (auto simp: ws dest: spec [of _ 0])
    then have "RuneCount (pad_right w cell @ ''  '' @ a) = column_start ws k"
      using ab(2) Suc by (simp add: RuneCount_append RuneCount_pad ws column_start_def)
    with ab(1) Suc show ?thesis by (intro exI [of _ "pad_right w cell @ ''  '' @ a"] exI [of _ b]) (simp add: ws)
  qed
qed simp

definition text_of :: "chunk list \<Rightarrow> string" where
  "text_of cs = concat (map (\<lambda>c. case c of Txt s \<Rightarrow> s | _ \<Rightarrow> []) cs)"

lemma text_of_simps [simp]: "text_of [] = []" "text_of (Txt s # cs) = s @ text_of cs" "text_of (cs @ ds) = text_of cs @ text_of ds"
  by (simp_all add: text_of_def)

text \<open>A write on a console whose output works.\<close>

definition wrote :: "string \<Rightarrow> 's io \<Rightarrow> go_error option \<times> 's io \<Rightarrow> bool" where
  "wrote s io r \<longleftrightarrow> (\<exists>cs. r = (None, io\<lparr>c_out := c_out io @ cs\<rparr>) \<and> text_of cs = s)"

lemma wrote_oprint: "c_faults io = [] \<Longrightarrow> wrote s io (oprint [Txt s] io)"
  by (auto simp: wrote_def oprint_def)

lemma wrote_nothing: "wrote [] io (None, io)"
  by (auto simp: wrote_def intro!: exI [of _ "[]"])

lemma unless_err_end: "unless_err r (Pair None) = r"
  by (auto simp: unless_err_def split: prod.split option.split)

lemma wrote_unless_err:
  assumes "wrote s io r" "c_faults io = []" "\<And>io'. c_faults io' = [] \<Longrightarrow> wrote t io' (f io')"
  shows "wrote (s @ t) io (unless_err r f)"
proof -
  obtain cs where r: "r = (None, io\<lparr>c_out := c_out io @ cs\<rparr>)" "text_of cs = s" using assms(1) by (auto simp: wrote_def)
  have "wrote t (io\<lparr>c_out := c_out io @ cs\<rparr>) (f (io\<lparr>c_out := c_out io @ cs\<rparr>))" using assms(2,3) by simp
  then obtain ds where "f (io\<lparr>c_out := c_out io @ cs\<rparr>) = (None, io\<lparr>c_out := c_out io @ cs @ ds\<rparr>)" "text_of ds = t"
    by (auto simp: wrote_def)
  then show ?thesis using r by (auto simp: wrote_def unless_err_def intro!: exI [of _ "cs @ ds"])
qed

lemma wrote_each:
  assumes "\<And>x io'. c_faults io' = [] \<Longrightarrow> wrote (g x) io' (f x io')"
  shows "c_faults io = [] \<Longrightarrow> wrote (concat (map g xs)) io (write_each f xs io)"
proof (induction xs arbitrary: io)
  case Nil
  then show ?case by (simp add: wrote_nothing)
next
  case (Cons x xs)
  then show ?case using wrote_unless_err [OF assms Cons.prems Cons.IH] by simp
qed

lemma wrote_cells:
  "c_faults io = [] \<Longrightarrow> wrote ((if later \<and> cells \<noteq> [] then ''  '' else []) @ row_text cells ws) io (write_cells later cells ws io)"
proof (induction cells ws arbitrary: later io rule: row_text.induct)
  case (1 ws)
  then show ?case by (simp add: wrote_nothing)
next
  case (2 cell ws)
  have "wrote ((if later then ''  '' else []) @ cell) io (write_cells later [cell] ws io)"
    unfolding write_cells.simps
    by (rule wrote_unless_err) (use 2 in \<open>auto simp: wrote_oprint wrote_nothing unless_err_end\<close>)
  then show ?case by simp
next
  case (3 cell c2 cells ws)
  have inner: "wrote (pad_right (hd ws) cell @ ''  '' @ row_text (c2 # cells) (tl ws)) io'
      (unless_err (oprint [Txt (pad_right (hd ws) cell)] io') (write_cells True (c2 # cells) (tl ws)))" if "c_faults io' = []" for io' :: "'a io"
  proof (rule wrote_unless_err)
    fix io'' :: "'a io"
    assume "c_faults io'' = []"
    then show "wrote (''  '' @ row_text (c2 # cells) (tl ws)) io'' (write_cells True (c2 # cells) (tl ws) io'')"
      using 3(1) [of io'' True] by (simp only: if_True simp_thms list.simps)
  qed (use that in \<open>simp_all add: wrote_oprint\<close>)
  have "wrote (if later then ''  '' else []) io (if later then oprint [Txt ''  ''] io else (None, io))"
    using 3 by (auto simp: wrote_oprint wrote_nothing)
  from wrote_unless_err [OF this 3(2) inner] show ?case by simp
qed

definition table_line :: "string list \<Rightarrow> nat list \<Rightarrow> string" where
  "table_line cells ws = row_text cells ws @ [CHR 0x0A]"

lemma wrote_row: "c_faults io = [] \<Longrightarrow> wrote (table_line cells ws) io (writeAlignedTableRow cells ws io)"
  unfolding writeAlignedTableRow_def table_line_def
  by (rule wrote_unless_err) (use wrote_cells [of io False cells ws] in \<open>auto simp: wrote_oprint\<close>)

text \<open>Every cell fits its column.\<close>

lemma tableCells_length [simp]: "length (tableCells row n) = n"
  by (simp add: tableCells_def)

lemma widths_fold:
  assumes "length ws = n"
  defines "W rs \<equiv> fold (\<lambda>row widths. map2 (\<lambda>w cell. max w (RuneCount cell)) widths (tableCells row n)) rs ws"
  shows "length (W rows) = n \<and> (\<forall>i < n. ws ! i \<le> W rows ! i \<and> (\<forall>row \<in> set rows. RuneCount (tableCells row n ! i) \<le> W rows ! i))"
  unfolding W_def using assms(1)
proof (induction rows arbitrary: ws)
  case (Cons row rows)
  let ?ws = "map2 (\<lambda>w cell. max w (RuneCount cell)) ws (tableCells row n)"
  have len: "length ?ws = n" using Cons.prems by simp
  have le: "i < n \<Longrightarrow> ws ! i \<le> ?ws ! i \<and> RuneCount (tableCells row n ! i) \<le> ?ws ! i" for i using Cons.prems by simp
  show ?case using Cons.IH [OF len] le by (auto intro: order.trans)
qed auto

lemma tableWidths_fit:
  "length (tableWidths headers rows) = length headers"
  "i < length headers \<Longrightarrow> RuneCount (headers ! i) \<le> tableWidths headers rows ! i"
  "i < length headers \<Longrightarrow> row \<in> set rows \<Longrightarrow> RuneCount (tableCells row (length headers) ! i) \<le> tableWidths headers rows ! i"
  using widths_fold [of "map RuneCount headers" "length headers" rows] by (auto simp: tableWidths_def)

section \<open>Properties\<close>

definition table_rows :: "string list \<Rightarrow> tableRow list \<Rightarrow> string list list" where
  "table_rows headers rows = headers # map (\<lambda>row. tableCells row (length headers)) rows"

lemma table_rows_fit:
  assumes "cells \<in> set (table_rows headers rows)"
  shows "length cells = length headers \<and> (\<forall>i < length headers. RuneCount (cells ! i) \<le> tableWidths headers rows ! i)"
  using assms tableWidths_fit(2) [of _ headers rows] tableWidths_fit(3) [of _ headers _ rows] by (auto simp: table_rows_def)

text \<open>An aligned table is printed as one line for the headers and one for each row, and in every line the cell of column
  \<open>k\<close> starts after the same number of runes, whatever the cells hold: text that is not UTF-8, or characters of several bytes.\<close>

theorem aligned_table_columns:
  assumes "c_faults io = []" "headers \<noteq> []"
  shows "wrote (concat (map (\<lambda>cells. table_line cells (tableWidths headers rows)) (table_rows headers rows))) io
           (writeAlignedTable headers rows io) \<and>
         (\<forall>cells \<in> set (table_rows headers rows). \<forall>k < length headers.
            \<exists>a b. table_line cells (tableWidths headers rows) = a @ cells ! k @ b \<and>
                  RuneCount a = column_start (tableWidths headers rows) k)"
proof (intro conjI ballI allI impI)
  let ?ws = "tableWidths headers rows"
  have "wrote (table_line headers ?ws @ concat (map (\<lambda>row. table_line (tableCells row (length headers)) ?ws) rows)) io
      (writeAlignedTable headers rows io)"
    using assms by (auto simp: writeAlignedTable_def Let_def intro!: wrote_unless_err wrote_row wrote_each)
  then show "wrote (concat (map (\<lambda>cells. table_line cells ?ws) (table_rows headers rows))) io (writeAlignedTable headers rows io)"
    by (simp add: table_rows_def comp_def)
next
  fix cells k
  assume "cells \<in> set (table_rows headers rows)" "k < length headers"
  then obtain a b where "row_text cells (tableWidths headers rows) = a @ cells ! k @ b"
      "RuneCount a = column_start (tableWidths headers rows) k"
    using row_text_columns [of "tableWidths headers rows" cells k] table_rows_fit [of cells headers rows]
    by (auto simp: tableWidths_fit(1))
  then show "\<exists>a b. table_line cells (tableWidths headers rows) = a @ cells ! k @ b \<and>
      RuneCount a = column_start (tableWidths headers rows) k"
    by (intro exI [of _ a] exI [of _ "b @ [CHR 0x0A]"]) (simp add: table_line_def)
qed

definition quiet_console :: "unit io" where
  "quiet_console = \<lparr>c_out = [], c_err = [], c_faults = [], c_sys = ()\<rparr>"

theorem aligned_table_columns_witness:
  "wrote (concat (map (\<lambda>cells. table_line cells (tableWidths [''A'', ''B''] [[''xyz'', ''q'']])) (table_rows [''A'', ''B''] [[''xyz'', ''q'']])))
     quiet_console (writeAlignedTable [''A'', ''B''] [[''xyz'', ''q'']] quiet_console)"
  using aligned_table_columns [of quiet_console "[''A'', ''B'']" "[[''xyz'', ''q'']]"] by (simp add: quiet_console_def)

text \<open>A plain table can be read back: when no header and no cell has a tab or a newline, splitting the printed text into
  lines and the lines at the tabs gives the headers and the rows, each row as wide as the headers.\<close>

theorem plain_table_roundtrip:
  assumes "c_faults io = []" "headers \<noteq> []"
    "\<forall>cells \<in> set (table_rows headers rows). \<forall>cell \<in> set cells. CHR 0x09 \<notin> set cell \<and> CHR 0x0A \<notin> set cell"
  shows "\<exists>t. wrote t io (writePlainTable headers rows io) \<and>
    map (split_on (CHR 0x09)) (butlast (split_on (CHR 0x0A) t)) = table_rows headers rows"
proof -
  let ?line = "\<lambda>cells. Join cells [CHR 0x09] @ [CHR 0x0A]"
  have w: "wrote (concat (map ?line (table_rows headers rows))) io (writePlainTable headers rows io)"
  proof -
    have "wrote (?line headers @ concat (map (\<lambda>row. ?line (tableCells row (length headers))) rows)) io (writePlainTable headers rows io)"
      unfolding writePlainTable_def using assms(1,2)
      by (simp only: if_False) (intro wrote_unless_err wrote_each wrote_oprint)
    then show ?thesis by (simp add: table_rows_def comp_def)
  qed
  have no_nl: "CHR 0x0A \<notin> set (Join cells [CHR 0x09])" if "\<forall>cell \<in> set cells. CHR 0x0A \<notin> set cell" for cells :: "string list"
    using that by (induction cells "[CHR 0x09]" rule: Join.induct) auto
  have split: "\<forall>cells \<in> set L. \<forall>cell \<in> set cells. CHR 0x0A \<notin> set cell \<Longrightarrow>
      split_on (CHR 0x0A) (concat (map ?line L)) = map (\<lambda>cells. Join cells [CHR 0x09]) L @ [[]]" for L
    by (induction L) (auto simp: split_on_append no_nl split_on_none)
  have cells: "cells \<noteq> []" if "cells \<in> set (table_rows headers rows)" for cells
    using that assms(2) table_rows_fit [of cells headers rows] by auto
  have "map (split_on (CHR 0x09)) (butlast (split_on (CHR 0x0A) (concat (map ?line (table_rows headers rows))))) = table_rows headers rows"
    using assms(3) cells by (subst split) (auto simp: map_idI split_Join comp_def)
  with w show ?thesis by blast
qed

theorem plain_table_roundtrip_witness:
  "\<exists>t. wrote t quiet_console (writePlainTable [''A'', ''B''] [[''x'']] quiet_console) \<and>
    map (split_on (CHR 0x09)) (butlast (split_on (CHR 0x0A) t)) = [[''A'', ''B''], [''x'', '''']]"
proof -
  have r: "table_rows [''A'', ''B''] [[''x'']] = [[''A'', ''B''], [''x'', '''']]" by (simp add: table_rows_def tableCells_def upt_rec)
  show ?thesis using plain_table_roundtrip [of quiet_console "[''A'', ''B'']" "[[''x'']]"] by (simp add: r quiet_console_def)
qed

end
