(* ===== verification/CliUnit.thy ===== *)
theory CliUnit
  imports CliSystemd CliTable
begin

text \<open>
  The unit file of \<open>systemd.go\<close>: whatever the two paths hold, they stay inside their quotes. A reader of Go's quoted strings
  gives the paths back, and the unit has always the same twelve lines.
\<close>

section \<open>Reading a quoted string\<close>

fun unhex :: "nat \<Rightarrow> nat \<Rightarrow> string \<Rightarrow> (nat \<times> string) option" where
  "unhex 0 acc s = Some (acc, s)"
| "unhex (Suc k) acc [] = None"
| "unhex (Suc k) acc (c # s) =
     (case letter_value c of Some d \<Rightarrow> if d < 16 then unhex k (acc * 16 + d) s else None | None \<Rightarrow> None)"

text \<open>\<open>utf8.AppendRune\<close>\<close>

definition encode_rune :: "nat \<Rightarrow> string" where
  "encode_rune r =
     (if r < 128 then [char_of r]
      else if r < 2048 then [char_of (192 + r div 64), char_of (128 + r mod 64)]
      else if r < 65536 then [char_of (224 + r div 4096), char_of (128 + r div 64 mod 64), char_of (128 + r mod 64)]
      else [char_of (240 + r div 262144), char_of (128 + r div 4096 mod 64), char_of (128 + r div 64 mod 64), char_of (128 + r mod 64)])"

definition plain_escapes :: "(char \<times> nat) list" where
  "plain_escapes = [(CHR ''a'', 7), (CHR ''b'', 8), (CHR ''f'', 12), (CHR ''n'', 10), (CHR ''r'', 13), (CHR ''t'', 9), (CHR ''v'', 11),
     (CHR 0x22, 34), (CHR 0x5C, 92)]"

definition read_item :: "string \<Rightarrow> (string \<times> string) option" where
  "read_item s =
     (case s of
        [] \<Rightarrow> None
      | c # t \<Rightarrow>
          if c \<noteq> CHR 0x5C then Some ([c], t)
          else (case t of
              [] \<Rightarrow> None
            | e # u \<Rightarrow>
                if e = CHR ''x'' then map_option (\<lambda>(v, r). ([char_of v], r)) (unhex 2 0 u)
                else if e = CHR ''u'' then map_option (\<lambda>(v, r). (encode_rune v, r)) (unhex 4 0 u)
                else if e = CHR ''U'' then map_option (\<lambda>(v, r). (encode_rune v, r)) (unhex 8 0 u)
                else map_option (\<lambda>v. ([char_of v], u)) (map_of plain_escapes e)))"

function read_body :: "string \<Rightarrow> (string \<times> string) option" where
  "read_body s =
     (if s = [] then None
      else if hd s = CHR 0x22 then Some ([], tl s)
      else case read_item s of
          None \<Rightarrow> None
        | Some (w, r) \<Rightarrow> if length r < length s then map_option (\<lambda>(x, y). (w @ x, y)) (read_body r) else None)"
  by pat_completeness auto
termination
  by (relation "measure length") auto

declare read_body.simps [simp del]

definition read_quoted :: "string \<Rightarrow> (string \<times> string) option" where
  "read_quoted s = (if s \<noteq> [] \<and> hd s = CHR 0x22 then read_body (tl s) else None)"

section \<open>Runes\<close>

lemma fixed_hex_Suc: "fixed_hex (Suc k) n = hex_char (n div 16 ^ k mod 16) # fixed_hex k n"
  by (simp add: fixed_hex_def)

lemma unhex_fixed: "unhex k acc (fixed_hex k n @ s) = Some (acc * 16 ^ k + n mod 16 ^ k, s)"
proof (induction k arbitrary: acc)
  case 0
  then show ?case by (simp add: fixed_hex_def)
next
  case (Suc k)
  have "n mod 16 ^ Suc k = (n div 16 ^ k mod 16) * 16 ^ k + n mod 16 ^ k"
    by (simp add: mod_mult2_eq mult.commute [of 16])
  then show ?case using Suc by (simp add: fixed_hex_Suc algebra_simps)
qed

lemma mod_offset:
  fixes k n d :: nat
  assumes "k \<le> n" "n < k + d" "k mod d = 0"
  shows "k + n mod d = n"
proof -
  from assms obtain j where "n = k + j" "j < d" by (metis le_Suc_ex nat_add_left_cancel_less)
  with assms(3) show ?thesis by (metis add_0 mod_add_left_eq mod_less)
qed

lemma low6_cont: "cont 128 191 c \<Longrightarrow> 128 + low6 c = of_char c"
  using mod_offset [of 128 "of_char c" 64] by (simp add: cont_def low6_def)

lemma char_parts:
  fixes c :: char
  shows "192 \<le> (of_char c :: nat) \<Longrightarrow> (of_char c :: nat) \<le> 223 \<Longrightarrow> char_of (192 + of_char c mod (32 :: nat)) = c"
    "224 \<le> (of_char c :: nat) \<Longrightarrow> (of_char c :: nat) \<le> 239 \<Longrightarrow> char_of (224 + of_char c mod (16 :: nat)) = c"
    "240 \<le> (of_char c :: nat) \<Longrightarrow> (of_char c :: nat) \<le> 247 \<Longrightarrow> char_of (240 + of_char c mod (8 :: nat)) = c"
    "cont 128 191 c \<Longrightarrow> char_of (128 + low6 c) = c"
proof -
  note m = mod_offset
  show "192 \<le> (of_char c :: nat) \<Longrightarrow> (of_char c :: nat) \<le> 223 \<Longrightarrow> char_of (192 + of_char c mod (32 :: nat)) = c"
    using m [of 192 "of_char c" 32] by simp
  show "224 \<le> (of_char c :: nat) \<Longrightarrow> (of_char c :: nat) \<le> 239 \<Longrightarrow> char_of (224 + of_char c mod (16 :: nat)) = c"
    using m [of 224 "of_char c" 16] by simp
  show "240 \<le> (of_char c :: nat) \<Longrightarrow> (of_char c :: nat) \<le> 247 \<Longrightarrow> char_of (240 + of_char c mod (8 :: nat)) = c"
    using m [of 240 "of_char c" 8] by simp
  show "cont 128 191 c \<Longrightarrow> char_of (128 + low6 c) = c"
    using low6_cont [of c] by simp
qed

lemma low6_less [simp]: "low6 c < 64"
  by (simp add: low6_def)

lemma encode_pieces:
  assumes "x < 64" "y < 64" "z < 64"
  shows "128 \<le> a * 64 + x \<Longrightarrow> a < 32 \<Longrightarrow> encode_rune (a * 64 + x) = [char_of (192 + a), char_of (128 + x)]"
    "2048 \<le> a * 4096 + y * 64 + x \<Longrightarrow> a < 16 \<Longrightarrow>
      encode_rune (a * 4096 + y * 64 + x) = [char_of (224 + a), char_of (128 + y), char_of (128 + x)]"
    "65536 \<le> a * 262144 + z * 4096 + y * 64 + x \<Longrightarrow>
      encode_rune (a * 262144 + z * 4096 + y * 64 + x) = [char_of (240 + a), char_of (128 + z), char_of (128 + y), char_of (128 + x)]"
proof -
  have one: "(a * 64 + x) div 64 = a" "(a * 64 + x) mod 64 = x" for a using assms by simp_all
  have two: "(a * 4096 + y * 64 + x) div 4096 = a" "(a * 4096 + y * 64 + x) div 64 mod 64 = y" "(a * 4096 + y * 64 + x) mod 64 = x" for a
  proof -
    have e: "a * 4096 + y * 64 + x = (a * 64 + y) * 64 + x" by simp
    have y: "(a * 64 + y) mod 64 = y" using assms by simp
    show "(a * 4096 + y * 64 + x) div 64 mod 64 = y" "(a * 4096 + y * 64 + x) mod 64 = x" by (simp_all only: e one y)
    show "(a * 4096 + y * 64 + x) div 4096 = a" using assms by (intro div_nat_eqI) simp_all
  qed
  have three: "(a * 262144 + z * 4096 + y * 64 + x) div 262144 = a" "(a * 262144 + z * 4096 + y * 64 + x) div 4096 mod 64 = z"
    "(a * 262144 + z * 4096 + y * 64 + x) div 64 mod 64 = y" "(a * 262144 + z * 4096 + y * 64 + x) mod 64 = x" for a
  proof -
    have e: "a * 262144 + z * 4096 + y * 64 + x = (a * 64 + z) * 4096 + y * 64 + x" by simp
    have z: "(a * 64 + z) mod 64 = z" using assms by simp
    show "(a * 262144 + z * 4096 + y * 64 + x) div 4096 mod 64 = z" "(a * 262144 + z * 4096 + y * 64 + x) div 64 mod 64 = y"
      "(a * 262144 + z * 4096 + y * 64 + x) mod 64 = x" by (simp_all only: e two z)
    show "(a * 262144 + z * 4096 + y * 64 + x) div 262144 = a" using assms by (intro div_nat_eqI) simp_all
  qed
  show "128 \<le> a * 64 + x \<Longrightarrow> a < 32 \<Longrightarrow> encode_rune (a * 64 + x) = [char_of (192 + a), char_of (128 + x)]"
    unfolding encode_rune_def one using assms by simp
  show "2048 \<le> a * 4096 + y * 64 + x \<Longrightarrow> a < 16 \<Longrightarrow>
      encode_rune (a * 4096 + y * 64 + x) = [char_of (224 + a), char_of (128 + y), char_of (128 + x)]"
    unfolding encode_rune_def two using assms by simp
  show "65536 \<le> a * 262144 + z * 4096 + y * 64 + x \<Longrightarrow>
      encode_rune (a * 262144 + z * 4096 + y * 64 + x) = [char_of (240 + a), char_of (128 + z), char_of (128 + y), char_of (128 + x)]"
    unfolding encode_rune_def three by simp
qed

text \<open>A rune that was decoded is encoded as the bytes it was read from.\<close>

definition good_rune :: "string \<Rightarrow> nat \<Rightarrow> nat \<Rightarrow> bool" where
  "good_rune s k r \<longleftrightarrow> encode_rune r = take k s \<and> r < 16 ^ 8 \<and> (128 \<le> r \<longrightarrow> (\<forall>c \<in> set (take k s). 128 \<le> (of_char c :: nat)))"

lemma cont_ge: "cont lo hi c \<Longrightarrow> 128 \<le> lo \<Longrightarrow> 128 \<le> (of_char c :: nat)"
  by (simp add: cont_def)

lemma second_range_hi: "second_range b = (lo, hi) \<Longrightarrow> 128 \<le> lo \<and> hi \<le> 191"
  by (auto simp: second_range_def split: if_splits)

lemma cont_wide: "second_range b = (lo, hi) \<Longrightarrow> cont lo hi c \<Longrightarrow> cont 128 191 c"
  using second_range_hi [of b lo hi] by (simp add: cont_def)

lemma good_one: "(of_char b :: nat) < 128 \<Longrightarrow> good_rune (b # t) (Suc 0) (of_char b)"
  by (simp add: good_rune_def encode_rune_def)

lemma good_two:
  assumes "194 \<le> (of_char b :: nat)" "(of_char b :: nat) \<le> 223" "cont 128 191 c"
  shows "good_rune (b # c # t) 2 (of_char b mod 32 * 64 + low6 c)"
proof -
  have "2 \<le> (of_char b :: nat) mod 32" using assms(1,2) by presburger
  then have "128 \<le> (of_char b :: nat) mod 32 * 64 + low6 c" by simp
  moreover have "(of_char b :: nat) mod 32 * 64 + low6 c < 16 ^ 8"
    using mod_less_divisor [of 32 "of_char b :: nat"] low6_less [of c] by (simp del: low6_less)
  ultimately show ?thesis
    using assms encode_pieces(1) [of "low6 c" 0 0 "of_char b mod 32"] char_parts(1) [of b] char_parts(4) [of c]
    by (simp add: good_rune_def cont_def)
qed

lemma good_three:
  assumes "224 \<le> (of_char b :: nat)" "(of_char b :: nat) \<le> 239" "second_range (of_char b) = (lo, hi)" "cont lo hi c" "cont 128 191 d"
  shows "good_rune (b # c # d # t) 3 (of_char b mod 16 * 4096 + low6 c * 64 + low6 d)"
proof -
  let ?r = "(of_char b :: nat) mod 16 * 4096 + low6 c * 64 + low6 d"
  have c: "cont 128 191 c" using assms(3,4) by (rule cont_wide)
  have ge: "2048 \<le> ?r"
  proof (cases "(of_char b :: nat) = 224")
    case True
    then have "160 \<le> (of_char c :: nat)" using assms(3,4) by (auto simp: second_range_def cont_def)
    then have "32 \<le> low6 c" using low6_cont [OF c] by linarith
    then show ?thesis by simp
  next
    case False
    then have "1 \<le> (of_char b :: nat) mod 16" using assms(1,2) by presburger
    then show ?thesis by simp
  qed
  moreover have "?r < 16 ^ 8"
    using mod_less_divisor [of 16 "of_char b :: nat"] low6_less [of c] low6_less [of d] by (simp del: low6_less)
  ultimately show ?thesis
    using assms c encode_pieces(2) [of "low6 d" "low6 c" 0 "of_char b mod 16"] char_parts(2) [of b] char_parts(4)
    by (simp add: good_rune_def cont_def)
qed

lemma good_four:
  assumes "240 \<le> (of_char b :: nat)" "(of_char b :: nat) \<le> 244" "second_range (of_char b) = (lo, hi)" "cont lo hi c" "cont 128 191 d" "cont 128 191 e"
  shows "good_rune (b # c # d # e # t) 4 (of_char b mod 8 * 262144 + low6 c * 4096 + low6 d * 64 + low6 e)"
proof -
  let ?r = "(of_char b :: nat) mod 8 * 262144 + low6 c * 4096 + low6 d * 64 + low6 e"
  have c: "cont 128 191 c" using assms(3,4) by (rule cont_wide)
  have ge: "65536 \<le> ?r"
  proof (cases "(of_char b :: nat) = 240")
    case True
    then have "144 \<le> (of_char c :: nat)" using assms(3,4) by (auto simp: second_range_def cont_def)
    then have "16 \<le> low6 c" using low6_cont [OF c] by linarith
    then show ?thesis by simp
  next
    case False
    then have "1 \<le> (of_char b :: nat) mod 8" using assms(1,2) by presburger
    then show ?thesis by simp
  qed
  moreover have "?r < 16 ^ 8"
    using mod_less_divisor [of 8 "of_char b :: nat"] low6_less [of c] low6_less [of d] low6_less [of e] by (simp del: low6_less)
  ultimately show ?thesis
    using assms c encode_pieces(3) [of "low6 e" "low6 d" "low6 c" "of_char b mod 8"] char_parts(3) [of b] char_parts(4)
    by (simp add: good_rune_def cont_def)
qed

lemma DecodeRune_good:
  assumes "DecodeRune s = Some (k, r)" "s \<noteq> []"
  shows "good_rune s k r"
proof -
  obtain b t where s: "s = b # t" using assms(2) by (cases s) auto
  obtain lo hi where sr: "second_range (of_char b) = (lo, hi)" by fastforce
  consider (one) "(of_char b :: nat) < 128" "k = 1" "r = of_char b"
    | (two) "194 \<le> (of_char b :: nat)" "(of_char b :: nat) \<le> 223" "2 \<le> length s" "cont lo hi (s ! 1)" "k = 2" "r = of_char b mod 32 * 64 + low6 (s ! 1)"
    | (three) "224 \<le> (of_char b :: nat)" "(of_char b :: nat) \<le> 239" "3 \<le> length s" "cont lo hi (s ! 1)" "cont 128 191 (s ! 2)" "k = 3"
        "r = of_char b mod 16 * 4096 + low6 (s ! 1) * 64 + low6 (s ! 2)"
    | (four) "240 \<le> (of_char b :: nat)" "(of_char b :: nat) \<le> 244" "4 \<le> length s" "cont lo hi (s ! 1)" "cont 128 191 (s ! 2)" "cont 128 191 (s ! 3)"
        "k = 4" "r = of_char b mod 8 * 262144 + low6 (s ! 1) * 4096 + low6 (s ! 2) * 64 + low6 (s ! 3)"
    using assms(1) sr by (auto simp: s DecodeRune_def Let_def split: if_splits)
  then show ?thesis
  proof cases
    case one
    then show ?thesis by (simp add: s good_one)
  next
    case two
    then obtain c u where "t = c # u" by (cases t) (auto simp: s)
    with two show ?thesis using good_two cont_wide [OF sr] by (simp add: s)
  next
    case three
    then obtain c d u where "t = c # d # u" by (cases t; cases "tl t") (auto simp: s)
    with three show ?thesis using good_three [OF _ _ sr] by (simp add: s)
  next
    case four
    then obtain c d e u where "t = c # d # e # u" by (cases t; cases "tl t"; cases "tl (tl t)") (auto simp: s)
    with four show ?thesis using good_four [OF _ _ sr] by (simp add: s)
  qed
qed

section \<open>Quoting and reading\<close>

definition prepend :: "string \<Rightarrow> (string \<times> string) option \<Rightarrow> (string \<times> string) option" where
  "prepend w = map_option (\<lambda>(x, y). (w @ x, y))"

lemma prepend_simps [simp]: "prepend w (Some (x, y)) = Some (w @ x, y)" "prepend [] q = q" "prepend v (prepend w q) = prepend (v @ w) q"
  by (cases q; auto simp: prepend_def)+

lemma read_body_step:
  assumes "read_item s = Some (w, r)" "s \<noteq> []" "hd s \<noteq> CHR 0x22" "length r < length s"
  shows "read_body s = prepend w (read_body r)"
  using assms by (subst read_body.simps) (simp add: prepend_def)

lemma read_raw: "\<forall>c \<in> set B. c \<noteq> CHR 0x22 \<and> c \<noteq> CHR 0x5C \<Longrightarrow> read_body (B @ X) = prepend B (read_body X)"
proof (induction B)
  case (Cons c B)
  then have "read_body ((c # B) @ X) = prepend [c] (read_body (B @ X))" by (intro read_body_step) (simp_all add: read_item_def)
  with Cons show ?case by simp
qed simp

lemma read_escape:
  assumes "read_item (CHR 0x5C # E @ X) = Some (w, X)"
  shows "read_body (CHR 0x5C # E @ X) = prepend w (read_body X)"
  using assms by (intro read_body_step) simp_all

lemma read_hex_escapes:
  "read_body (([CHR 0x5C, CHR ''x''] @ fixed_hex 2 r) @ X) = prepend [char_of (r mod 256)] (read_body X)"
  "read_body (([CHR 0x5C, CHR ''u''] @ fixed_hex 4 r) @ X) = prepend (encode_rune (r mod 65536)) (read_body X)"
  "read_body (([CHR 0x5C, CHR ''U''] @ fixed_hex 8 r) @ X) = prepend (encode_rune (r mod 16 ^ 8)) (read_body X)"
  using read_escape [of "CHR ''x'' # fixed_hex 2 r" X] read_escape [of "CHR ''u'' # fixed_hex 4 r" X] read_escape [of "CHR ''U'' # fixed_hex 8 r" X]
    unhex_fixed [of 2 0 r X] unhex_fixed [of 4 0 r X] unhex_fixed [of 8 0 r X]
  by (simp_all add: read_item_def)

lemma simple_escape_cases:
  "simple_escape r = Some c \<Longrightarrow> map_of plain_escapes c = Some r \<and> c \<noteq> CHR ''x'' \<and> c \<noteq> CHR ''u'' \<and> c \<noteq> CHR ''U'' \<and> r < 128"
  by (auto simp: simple_escape_def plain_escapes_def split: if_splits)

lemma read_escaped_rune:
  assumes "good_rune s k r"
  shows "read_body (escaped_rune isPrint r (take k s) @ X) = prepend (take k s) (read_body X)"
proof -
  note g = assms [unfolded good_rune_def]
  have low: "r < 128 \<Longrightarrow> take k s = [char_of r]" using g by (simp add: encode_rune_def)
  have big: "128 \<le> r \<Longrightarrow> \<forall>c \<in> set (take k s). c \<noteq> CHR 0x22 \<and> c \<noteq> CHR 0x5C" using g by auto
  have raw: "r < 128 \<Longrightarrow> r \<noteq> 34 \<Longrightarrow> r \<noteq> 92 \<Longrightarrow> char_of r \<noteq> CHR 0x22 \<and> char_of r \<noteq> CHR 0x5C"
  proof -
    assume r: "r < 128" "r \<noteq> 34" "r \<noteq> 92"
    have "of_char (char_of r :: char) = r" using r(1) by simp
    moreover have "of_char (CHR 0x22) = (34 :: nat)" "of_char (CHR 0x5C) = (92 :: nat)" by simp_all
    ultimately show ?thesis using r(2,3) by metis
  qed
  consider (quote) "r = 34 \<or> r = 92" | (print) "r \<noteq> 34" "r \<noteq> 92" "if r < 128 then 32 \<le> r \<and> r < 127 else isPrint r"
    | (simple) c where "r \<noteq> 34" "r \<noteq> 92" "\<not> (if r < 128 then 32 \<le> r \<and> r < 127 else isPrint r)" "simple_escape r = Some c"
    | (hex) "r \<noteq> 34" "r \<noteq> 92" "\<not> (if r < 128 then 32 \<le> r \<and> r < 127 else isPrint r)" "simple_escape r = None" by fastforce
  then show ?thesis
  proof cases
    case quote
    then have "take k s = [char_of r]" using low by auto
    moreover have "char_of (34 :: nat) = CHR 0x22" "char_of (92 :: nat) = CHR 0x5C" by code_simp+
    ultimately show ?thesis using quote read_escape [of "[CHR 0x22]" X "[CHR 0x22]"] read_escape [of "[CHR 0x5C]" X "[CHR 0x5C]"]
      by (auto simp: escaped_rune_def read_item_def plain_escapes_def)
  next
    case print
    then have "\<forall>c \<in> set (take k s). c \<noteq> CHR 0x22 \<and> c \<noteq> CHR 0x5C" using low big raw by (cases "r < 128") auto
    with print show ?thesis by (simp add: escaped_rune_def read_raw)
  next
    case (simple c)
    with simple_escape_cases [OF simple(4)] show ?thesis using simple(1-3) read_escape [of "[c]" X "[char_of r]"] low
      by (auto simp: escaped_rune_def read_item_def)
  next
    case hex
    have "r < 32 \<or> r = 127 \<or> 128 \<le> r" using hex(3) by (auto split: if_splits)
    then consider "r < 32 \<or> r = 127" | "128 \<le> r" "r < 65536" | "65536 \<le> r" by linarith
    then show ?thesis using hex g low read_hex_escapes [of r X]
      by cases (auto simp: escaped_rune_def)
  qed
qed

lemma read_quote_body: "read_body (quote_body isPrint s @ CHR 0x22 # X) = Some (s, X)"
proof (induction isPrint s rule: quote_body.induct)
  case (1 isPrint s)
  show ?case
  proof (cases "s = []")
    case True
    then show ?thesis by (simp add: quote_body.simps [of isPrint "[]"] read_body.simps [of "CHR 0x22 # X"])
  next
    case False
    let ?rest = "quote_body isPrint (drop (rune_len s) s) @ CHR 0x22 # X"
    have q: "quote_body isPrint s @ CHR 0x22 # X = (case DecodeRune s of None \<Rightarrow> [CHR 0x5C, CHR ''x''] @ fixed_hex 2 (of_char (hd s))
        | Some (k, r) \<Rightarrow> escaped_rune isPrint r (take k s)) @ ?rest" using False by (simp add: quote_body.simps [of isPrint s])
    have "read_body (quote_body isPrint s @ CHR 0x22 # X) = prepend (take (rune_len s) s) (read_body ?rest)"
    proof (cases "DecodeRune s")
      case None
      have first: "take (rune_len s) s = [char_of (of_char (hd s) mod (256 :: nat))]" using False None by (cases s) (simp_all add: rune_len_def)
      show ?thesis unfolding q None option.case first by (rule read_hex_escapes(1))
    next
      case (Some kr)
      then obtain k r where kr: "kr = (k, r)" "rune_len s = k" by (cases kr) (simp add: rune_len_def)
      show ?thesis unfolding q Some kr option.case prod.case by (rule read_escaped_rune [OF DecodeRune_good]) (simp_all add: Some kr(1) False)
    qed
    then show ?thesis using 1 [OF False] by simp
  qed
qed

lemma read_Quote: "read_quoted (Quote isPrint s @ X) = Some (s, X)"
  by (simp add: read_quoted_def Quote_def read_quote_body)

section \<open>The lines of the unit\<close>

lemma hex_char_printable: "d < 16 \<Longrightarrow> 32 \<le> (of_char (hex_char d) :: nat)"
  using solid_hex_char [of d] by (simp add: solid_def)

lemma fixed_hex_printable: "c \<in> set (fixed_hex k n) \<Longrightarrow> 32 \<le> (of_char c :: nat)"
  by (auto simp: fixed_hex_def hex_char_printable)

lemma escaped_printable:
  assumes "good_rune s k r" "c \<in> set (escaped_rune isPrint r (take k s))"
  shows "32 \<le> (of_char c :: nat)"
proof -
  note g = assms(1) [unfolded good_rune_def]
  have low: "r < 128 \<Longrightarrow> take k s = [char_of r]" using g by (simp add: encode_rune_def)
  have big: "128 \<le> r \<Longrightarrow> \<forall>c \<in> set (take k s). 32 \<le> (of_char c :: nat)" using g by fastforce
  have esc: "simple_escape r = Some d \<Longrightarrow> 32 \<le> (of_char d :: nat)" for d
    by (auto simp: simple_escape_def split: if_splits)
  have bytes: "32 \<le> r \<Longrightarrow> \<forall>c \<in> set (take k s). 32 \<le> (of_char c :: nat)" using low big by (cases "r < 128") auto
  show ?thesis using assms(2) bytes esc fixed_hex_printable
    by (auto simp: escaped_rune_def split: if_splits option.splits)
qed

lemma quote_body_printable: "c \<in> set (quote_body isPrint s) \<Longrightarrow> 32 \<le> (of_char c :: nat)"
proof (induction isPrint s rule: quote_body.induct)
  case (1 isPrint s)
  have ne: "s \<noteq> []" using 1(2) by (auto simp: quote_body.simps [of isPrint s])
  then have "c \<in> set (case DecodeRune s of None \<Rightarrow> [CHR 0x5C, CHR ''x''] @ fixed_hex 2 (of_char (hd s))
      | Some (k, r) \<Rightarrow> escaped_rune isPrint r (take k s)) \<or> c \<in> set (quote_body isPrint (drop (rune_len s) s))"
    using 1(2) by (simp add: quote_body.simps [of isPrint s])
  then show ?case
  proof
    assume here: "c \<in> set (case DecodeRune s of None \<Rightarrow> [CHR 0x5C, CHR ''x''] @ fixed_hex 2 (of_char (hd s))
      | Some (k, r) \<Rightarrow> escaped_rune isPrint r (take k s))"
    then show ?thesis
    proof (cases "DecodeRune s")
      case None
      then show ?thesis using here fixed_hex_printable by auto
    next
      case (Some kr)
      then obtain k r where "DecodeRune s = Some (k, r)" by (cases kr) simp
      then show ?thesis using here escaped_printable [OF DecodeRune_good [OF _ ne]] by simp
    qed
  qed (use 1(1) ne in blast)
qed

lemma newline_not_quoted: "CHR 0x0A \<notin> set (Quote isPrint s)"
  using quote_body_printable [of "CHR 0x0A" isPrint s] by (auto simp: Quote_def)


section \<open>Installing and uninstalling\<close>

text \<open>A world that records the programs that are run and the files that are written; \<open>sw_results\<close> says how the programs end,
  \<open>sw_faults\<close> how the file operations do.\<close>

record service_world =
  sw_files :: "string \<rightharpoonup> string"
  sw_ran :: "(string \<times> string list) list"
  sw_results :: "go_error option list"
  sw_faults :: "go_error option list"

definition next_result :: "go_error option list \<Rightarrow> go_error option" where
  "next_result rs = (case rs of [] \<Rightarrow> None | r # _ \<Rightarrow> r)"

definition file_op :: "((string \<rightharpoonup> string) \<Rightarrow> (string \<rightharpoonup> string)) \<Rightarrow> service_world \<Rightarrow> go_error option \<times> service_world" where
  "file_op f w =
     (case next_result (sw_faults w) of
        Some e \<Rightarrow> (Some e, w\<lparr>sw_faults := tl (sw_faults w)\<rparr>)
      | None \<Rightarrow> (None, w\<lparr>sw_files := f (sw_files w), sw_faults := tl (sw_faults w)\<rparr>))"

definition recording :: "(service_world, 'c) cli_env \<Rightarrow> (service_world, 'c) cli_env" where
  "recording env = env\<lparr>cx_linux := True,
     cx_exec := (\<lambda>p args w. ((next_result (sw_results w), []), w\<lparr>sw_ran := sw_ran w @ [(p, args)], sw_results := tl (sw_results w)\<rparr>)),
     cx_mkdirAll := (\<lambda>_. file_op (\<lambda>m. m)),
     cx_WriteFile := (\<lambda>path data. file_op (\<lambda>m. m(path \<mapsto> data))),
     cx_removeFile := (\<lambda>path. file_op (\<lambda>m. m(path := None)))\<rparr>"

lemma recording_simps [simp]:
  "cx_linux (recording env)" "cx_exec (recording env) p args w =
     ((next_result (sw_results w), []), w\<lparr>sw_ran := sw_ran w @ [(p, args)], sw_results := tl (sw_results w)\<rparr>)"
  "cx_mkdirAll (recording env) d = file_op (\<lambda>m. m)" "cx_WriteFile (recording env) path data = file_op (\<lambda>m. m(path \<mapsto> data))"
  "cx_removeFile (recording env) path = file_op (\<lambda>m. m(path := None))"
  by (simp_all add: recording_def)

lemma systemctl_recorded:
  "runSystemctlUser (recording env) systemctl args io = (code, io') \<Longrightarrow>
     sw_files (c_sys io') = sw_files (c_sys io) \<and> sw_ran (c_sys io') = sw_ran (c_sys io) @ [(systemctl, ''--user'' # args)] \<and>
     (code = 0 \<longleftrightarrow> next_result (sw_results (c_sys io)) = None)"
  by (auto simp: runSystemctlUser_def on_sys_def eprintln_def eprint_def Let_def split: option.splits)

lemma eprint_sys [simp]: "c_sys (eprint cs io) = c_sys io" "c_sys (eprintln cs io) = c_sys io"
  by (simp_all add: eprint_def eprintln_def)

lemma service_flags_recorded:
  "service_flags (recording env) usage command what flags args body io = (code, io') \<Longrightarrow>
     code = 2 \<and> c_sys io' = c_sys io \<or> (\<exists>fs. Parse flags args = Inr fs \<and> body fs io = (code, io'))"
  by (auto simp: service_flags_def flag_failure_def usage_error_def split: sum.splits if_splits)

lemma outln_sys [simp]: "c_sys (outln s io) = c_sys io"
  by (auto simp: outln_def oprint_def split: list.split option.split)

definition install_flags :: "(string \<times> flag_value) list" where
  "install_flags = [(''adb-gos'', StringV []), (''unit-dir'', StringV []), (''systemctl'', StringV ''systemctl''), (''no-enable'', BoolV False)]"

definition installing :: "('s, 'c) cli_env \<Rightarrow> flag_set \<Rightarrow> string \<Rightarrow> 's io \<Rightarrow> nat \<times> 's io" where
  "installing env fs = (\<lambda>unitPath io.
     let systemctl = flag_string fs ''systemctl''; noEnable = flag_bool fs ''no-enable'' in
     if_ok (if noEnable then (0, io)
            else if_ok (runSystemctlUser env systemctl [''daemon-reload''] io)
              (runSystemctlUser env systemctl [''enable'', ''--now'', ''adb-gos.service'']))
       (\<lambda>io. (0, outln (if noEnable then ''systemctl enable/start skipped'' else ''adb-gos.service enabled and started for the current user'')
                   (outln (''installed '' @ unitPath) io))))"

text \<open>\<open>service install\<close> ends with status 0 only when the unit was written, with exactly the text of the unit for the resolved
  paths, and, unless \<open>--no-enable\<close> was given, \<open>systemctl\<close> was then asked to reload and to enable the service, in this order and
  nothing else; no other file is touched.\<close>

theorem install_writes_unit_then_enables:
  assumes "runServerServiceInstall (recording env) isPrint args socketPath io = (0, io')"
  shows "\<exists>fs bin dir. Parse install_flags args = Inr fs \<and>
    resolveADBGosPath (recording env) (TrimSpace (flag_string fs ''adb-gos'')) (c_sys io) = Inr bin \<and>
    systemdUserUnitDir (recording env) (TrimSpace (flag_string fs ''unit-dir'')) = Inr dir \<and>
    sw_files (c_sys io') = (sw_files (c_sys io))(unit_path dir \<mapsto> adbGosSystemdUnit isPrint bin socketPath) \<and>
    sw_ran (c_sys io') = sw_ran (c_sys io) @ (if flag_bool fs ''no-enable'' then []
      else [(flag_string fs ''systemctl'', [''--user'', ''daemon-reload'']),
            (flag_string fs ''systemctl'', [''--user'', ''enable'', ''--now'', ''adb-gos.service''])])"
proof -
  from assms obtain fs where fs: "Parse install_flags args = Inr fs"
    and run: "with_unit (recording env) isPrint ''install'' fs socketPath (installing (recording env) fs) io = (0, io')"
    unfolding runServerServiceInstall_def install_flags_def [symmetric] installing_def [symmetric] by (auto dest: service_flags_recorded)
  from run obtain bin dir where paths:
    "resolveADBGosPath (recording env) (TrimSpace (flag_string fs ''adb-gos'')) (c_sys io) = Inr bin"
    "systemdUserUnitDir (recording env) (TrimSpace (flag_string fs ''unit-dir'')) = Inr dir"
    by (auto simp: with_unit_def service_failed_def split: sum.splits)
  obtain io1 where wrote: "on_sys (writeServerServiceUnit (recording env) isPrint dir bin socketPath) io = (Inr (unit_path dir), io1)"
    "sw_files (c_sys io1) = (sw_files (c_sys io))(unit_path dir \<mapsto> adbGosSystemdUnit isPrint bin socketPath)" "sw_ran (c_sys io1) = sw_ran (c_sys io)"
    using run paths
    by (auto simp: with_unit_def service_failed_def writeServerServiceUnit_def file_op_def on_sys_def Let_def split: sum.splits prod.splits option.splits)
  let ?sys = "flag_string fs ''systemctl''"
  show ?thesis
  proof (cases "flag_bool fs ''no-enable''")
    case True
    with run paths wrote fs show ?thesis by (auto simp: with_unit_def if_ok_def installing_def Let_def)
  next
    case False
    obtain c2 io2 where r2: "runSystemctlUser (recording env) ?sys [''daemon-reload''] io1 = (c2, io2)" by fastforce
    obtain c3 io3 where r3: "runSystemctlUser (recording env) ?sys [''enable'', ''--now'', ''adb-gos.service''] io2 = (c3, io3)" by fastforce
    have "c2 = 0" "c3 = 0" "c_sys io' = c_sys io3"
      using run paths wrote(1) False r2 r3 by (auto simp: with_unit_def if_ok_def installing_def Let_def split: if_splits)
    with systemctl_recorded [OF r2] systemctl_recorded [OF r3] wrote(2,3) paths fs False show ?thesis by auto
  qed
qed

definition service_console :: "(string \<rightharpoonup> string) \<Rightarrow> service_world io" where
  "service_console files = \<lparr>c_out = [], c_err = [], c_faults = [],
     c_sys = \<lparr>sw_files = files, sw_ran = [], sw_results = [], sw_faults = []\<rparr>\<rparr>"

theorem install_writes_unit_then_enables_witness:
  "\<exists>io'. runServerServiceInstall (recording idle_cli) (\<lambda>_. False) [''--systemctl'', ''sc''] ''/run/s'' (service_console Map.empty) = (0, io') \<and>
     sw_files (c_sys io') ''/home/a/.config/systemd/user/adb-gos.service'' = Some (adbGosSystemdUnit (\<lambda>_. False) ''/usr/bin/adb-gos'' ''/run/s'') \<and>
     sw_ran (c_sys io') = [(''sc'', [''--user'', ''daemon-reload'']), (''sc'', [''--user'', ''enable'', ''--now'', ''adb-gos.service''])]"
proof -
  let ?run = "runServerServiceInstall (recording idle_cli) (\<lambda>_. False) [''--systemctl'', ''sc''] ''/run/s'' (service_console Map.empty)"
  have "fst ?run = 0" by code_simp
  then obtain io' where run: "?run = (0, io')" by (cases ?run) auto
  let ?fs = "\<lparr>fs_values = [(''adb-gos'', StringV []), (''unit-dir'', StringV []), (''systemctl'', StringV ''sc''), (''no-enable'', BoolV False)],
    fs_actual = [''systemctl''], fs_args = []\<rparr>"
  have parsed: "Parse install_flags [''--systemctl'', ''sc''] = Inr ?fs" by code_simp
  have bin: "resolveADBGosPath (recording idle_cli) (TrimSpace (flag_string ?fs ''adb-gos'')) (c_sys (service_console Map.empty)) =
    Inr ''/usr/bin/adb-gos''" by code_simp
  have dir: "systemdUserUnitDir (recording idle_cli) (TrimSpace (flag_string ?fs ''unit-dir'')) = Inr ''/home/a/.config/systemd/user''"
    by code_simp
  have path: "unit_path ''/home/a/.config/systemd/user'' = ''/home/a/.config/systemd/user/adb-gos.service''" by code_simp
  have flags: "flag_string ?fs ''systemctl'' = ''sc''" "\<not> flag_bool ?fs ''no-enable''" by code_simp+
  have "sw_ran (c_sys (service_console Map.empty)) = []" by (simp add: service_console_def)
  then have "sw_files (c_sys io') ''/home/a/.config/systemd/user/adb-gos.service'' =
      Some (adbGosSystemdUnit (\<lambda>_. False) ''/usr/bin/adb-gos'' ''/run/s'') \<and>
    sw_ran (c_sys io') = [(''sc'', [''--user'', ''daemon-reload'']), (''sc'', [''--user'', ''enable'', ''--now'', ''adb-gos.service''])]"
    using install_writes_unit_then_enables [OF run] parsed bin dir path flags by auto
  with run show ?thesis by (intro exI [of _ io'] conjI) simp_all
qed

definition uninstalling :: "('s, 'c) cli_env \<Rightarrow> flag_set \<Rightarrow> 's io \<Rightarrow> nat \<times> 's io" where
  "uninstalling env = (\<lambda>fs io.
     let systemctl = flag_string fs ''systemctl''; keep = flag_bool fs ''keep-unit'' in
     if_ok (runSystemctlUser env systemctl [''disable'', ''--now'', ''adb-gos.service''] io) (\<lambda>io.
       case systemdUserUnitDir env (TrimSpace (flag_string fs ''unit-dir'')) of
         Inl e \<Rightarrow> service_failed ''uninstall'' (ge_text e) io
       | Inr unitDir \<Rightarrow>
           (let unitPath = unit_path unitDir in
            case (if keep then (None, io) else on_sys (cx_removeFile env unitPath) io) of
              (removed, io) \<Rightarrow>
                (case removed of
                   Some e \<Rightarrow>
                     if NotExist \<in> set (ge_is e) then uninstalled env systemctl keep unitPath io
                     else service_failed ''uninstall'' (Txt (''remove '' @ unitPath @ '': '') # ge_text e) io
                 | None \<Rightarrow> uninstalled env systemctl keep unitPath io))))"

lemma uninstalled_recorded:
  assumes "uninstalled (recording env) systemctl keep path io = (code, io')"
  shows "sw_files (c_sys io') = sw_files (c_sys io) \<and>
    sw_ran (c_sys io') = sw_ran (c_sys io) @ [(systemctl, [''--user'', ''daemon-reload''])]"
proof -
  obtain c1 io1 where r1: "runSystemctlUser (recording env) systemctl [''daemon-reload''] io = (c1, io1)" by fastforce
  with assms have "c_sys io' = c_sys io1" by (auto simp: uninstalled_def if_ok_def split: if_splits)
  with systemctl_recorded [OF r1] show ?thesis by simp
qed

definition uninstall_flags :: "(string \<times> flag_value) list" where
  "uninstall_flags = [(''unit-dir'', StringV []), (''systemctl'', StringV ''systemctl''), (''keep-unit'', BoolV False)]"

text \<open>\<open>service uninstall\<close> touches no file but the unit, and removes it only after \<open>systemctl\<close> has disabled and stopped the service:
  when \<open>disable --now\<close> fails, or \<open>--keep-unit\<close> was given, every file is as before. When it ends with status 0, the two programs that ran
  are \<open>disable --now\<close> and then \<open>daemon-reload\<close>.\<close>

theorem uninstall_removes_unit_after_disable:
  assumes "runServerServiceUninstall (recording env) args io = (code, io')"
  shows "(sw_files (c_sys io') = sw_files (c_sys io) \<or>
     (\<exists>fs dir. Parse uninstall_flags args = Inr fs \<and> systemdUserUnitDir (recording env) (TrimSpace (flag_string fs ''unit-dir'')) = Inr dir \<and>
        \<not> flag_bool fs ''keep-unit'' \<and> next_result (sw_results (c_sys io)) = None \<and>
        sw_files (c_sys io') = (sw_files (c_sys io))(unit_path dir := None))) \<and>
    (code = 0 \<longrightarrow> (\<exists>fs. Parse uninstall_flags args = Inr fs \<and>
       sw_ran (c_sys io') = sw_ran (c_sys io) @
         [(flag_string fs ''systemctl'', [''--user'', ''disable'', ''--now'', ''adb-gos.service'']),
          (flag_string fs ''systemctl'', [''--user'', ''daemon-reload''])]))"
proof -
  from assms consider "code = 2" "c_sys io' = c_sys io"
    | fs where "Parse uninstall_flags args = Inr fs" "uninstalling (recording env) fs io = (code, io')"
    unfolding runServerServiceUninstall_def uninstall_flags_def [symmetric] uninstalling_def [symmetric] by (blast dest: service_flags_recorded)
  then show ?thesis
  proof cases
    case (2 fs)
    let ?sys = "flag_string fs ''systemctl''" and ?dir = "systemdUserUnitDir (recording env) (TrimSpace (flag_string fs ''unit-dir''))"
    obtain c1 io1 where r1: "runSystemctlUser (recording env) ?sys [''disable'', ''--now'', ''adb-gos.service''] io = (c1, io1)" by fastforce
    note s1 = systemctl_recorded [OF r1]
    show ?thesis
    proof (cases "c1 = 0 \<and> (\<exists>dir. ?dir = Inr dir)")
      case False
      then have "c_sys io' = c_sys io1" "code \<noteq> 0"
        using 2(2) r1 by (auto simp: uninstalling_def if_ok_def service_failed_def Let_def split: sum.splits if_splits)
      with s1 show ?thesis by simp
    next
      case True
      then obtain dir where d: "?dir = Inr dir" "c1 = 0" by blast
      have "(sw_files (c_sys io') = sw_files (c_sys io1) \<or>
          \<not> flag_bool fs ''keep-unit'' \<and> sw_files (c_sys io') = (sw_files (c_sys io1))(unit_path dir := None)) \<and>
        (code = 0 \<longrightarrow> sw_ran (c_sys io') = sw_ran (c_sys io1) @ [(?sys, [''--user'', ''daemon-reload''])])"
        using 2(2) r1 d
        by (auto simp: uninstalling_def if_ok_def Let_def on_sys_def file_op_def service_failed_def dest!: uninstalled_recorded
            split: option.splits if_splits)
      with s1 2(1) d show ?thesis by auto
    qed
  qed simp
qed

theorem uninstall_removes_unit_after_disable_witness:
  "\<exists>io'. runServerServiceUninstall (recording idle_cli) [] (service_console [''/home/a/.config/systemd/user/adb-gos.service'' \<mapsto> []]) = (0, io') \<and>
     sw_files (c_sys io') ''/other'' = None \<and>
     sw_ran (c_sys io') = [(''systemctl'', [''--user'', ''disable'', ''--now'', ''adb-gos.service'']), (''systemctl'', [''--user'', ''daemon-reload''])]"
proof -
  let ?io = "service_console [''/home/a/.config/systemd/user/adb-gos.service'' \<mapsto> []]"
  let ?run = "runServerServiceUninstall (recording idle_cli) [] ?io"
  have "fst ?run = 0" by code_simp
  then obtain io' where run: "?run = (0, io')" by (cases ?run) auto
  have parsed: "Parse uninstall_flags [] = Inr \<lparr>fs_values = uninstall_flags, fs_actual = [], fs_args = []\<rparr>" by code_simp
  have flags: "flag_string \<lparr>fs_values = uninstall_flags, fs_actual = [], fs_args = []\<rparr> ''systemctl'' = ''systemctl''" by code_simp
  have io: "sw_files (c_sys ?io) ''/other'' = None" "sw_ran (c_sys ?io) = []" by (simp_all add: service_console_def)
  note u = uninstall_removes_unit_after_disable [OF run]
  have "sw_files (c_sys io') ''/other'' = None" 
    using conjunct1 [OF u] io(1) by (elim disjE exE conjE) simp_all
  moreover have "sw_ran (c_sys io') =
      [(''systemctl'', [''--user'', ''disable'', ''--now'', ''adb-gos.service'']), (''systemctl'', [''--user'', ''daemon-reload''])]"
    using u parsed flags io(2) by simp
  ultimately show ?thesis using run by (intro exI [of _ io'] conjI) simp_all
qed

end
