(* ===== verification/CliBackground.thy ===== *)
theory CliBackground
  imports CliForward ServerForwardProps
begin

text \<open>
  \<open>adb-go forward\<close> against the server: what the command accepts and what the server accepts, and the effect of a command on the
  registry when the control socket carries its request to \<open>handleRequest\<close> and the answer back.
\<close>

section \<open>Numbers have no surrounding white space\<close>

lemma digits_solid: "parse_digits acc s = Some n \<Longrightarrow> c \<in> set s \<Longrightarrow> solid c"
proof (induction s arbitrary: acc)
  case (Cons d s)
  then obtain v where "digit_value d = Some v" "parse_digits (10 * acc + v) s = Some n" by (auto split: option.splits)
  with Cons show ?case by (auto simp: digit_value_def solid_def Let_def split: if_splits)
qed simp

lemma Atoi_solid: "Atoi s = Inr n \<Longrightarrow> c \<in> set s \<Longrightarrow> solid c"
proof -
  assume a: "Atoi s = Inr n" "c \<in> set s"
  show ?thesis
  proof (cases "s \<noteq> [] \<and> hd s \<in> {CHR ''-'', CHR ''+''}")
    case True
    with a obtain m where m: "parse_digits 0 (tl s) = Some m" by (auto simp: Atoi_def Let_def split: option.splits if_splits)
    from True a(2) have "c \<in> {CHR ''-'', CHR ''+''} \<or> c \<in> set (tl s)" by (cases s) auto
    then show ?thesis using digits_solid [OF m] by (auto simp: solid_def)
  next
    case False
    with a(1) obtain m where "parse_digits 0 s = Some m" by (auto simp: Atoi_def Let_def split: option.splits if_splits)
    from digits_solid [OF this a(2)] show ?thesis .
  qed
qed

lemma TrimSpace_Atoi: "Atoi s = Inr n \<Longrightarrow> TrimSpace s = s"
proof -
  assume a: "Atoi s = Inr n"
  then have "s \<noteq> []" by (auto simp: Atoi_def)
  then show ?thesis using Atoi_solid [OF a] by (intro TrimSpace_solid) auto
qed

section \<open>What the server accepts\<close>

lemma parse_port:
  assumes "parseForwardTCPPort kind v = Inr port"
  shows "\<exists>t. v = ''tcp:'' @ t \<and> Atoi (TrimSpace t) = Inr port \<and> 0 \<le> port \<and> port \<le> 65535 \<and> (kind = ''remote'' \<longrightarrow> port \<noteq> 0)"
proof -
  from assms have "HasPrefix v ''tcp:''" by (auto simp: parseForwardTCPPort_def split: if_splits)
  then obtain t where v: "v = ''tcp:'' @ t" by (auto simp: HasPrefix_iff)
  then have "TrimPrefix v ''tcp:'' = t" using TrimPrefix_append by metis
  with assms v show ?thesis by (auto simp: parseForwardTCPPort_def Let_def split: if_splits sum.splits)
qed

lemma loopback_accepted:
  assumes "0 \<le> port" "port \<le> 65535"
  shows "validateForwardLocal \<lparr>fl_Network = ''tcp'', fl_Address = ''127.0.0.1:'' @ Itoa port\<rparr> = None"
proof -
  have "plain_text ''127.0.0.1''" "isLoopbackHost ''127.0.0.1''" by code_simp+
  moreover have "plain_text (Itoa port)" using assms(1) by (simp add: Itoa_def)
  moreover have "Atoi (Itoa port) = Inr port" using assms by (intro Atoi_Itoa) simp_all
  moreover have "SplitHostPort (''127.0.0.1'' @ '':'' @ Itoa port) = Inr (''127.0.0.1'', Itoa port)"
    using calculation(1,3) by (rule SplitHostPort_plain)
  ultimately show ?thesis using assms by (simp add: validateForwardLocal_def splitHostPort_def)
qed



section \<open>A command against the registry\<close>

text \<open>The server at the other end of the control socket.\<close>

definition linked :: "request_env \<Rightarrow> (Server, 'c) cli_env \<Rightarrow> (Server, 'c) cli_env" where
  "linked q env = env\<lparr>cx_send := (\<lambda>_ req s. case handleRequest q req s of (resp, s') \<Rightarrow> (Inr resp, s'))\<rparr>"

definition request :: "string \<Rightarrow> raw_message \<Rightarrow> Request" where
  "request command params = \<lparr>rq_Version = ProtocolVersion, rq_ID = [], rq_Command = command, rq_Params = params\<rparr>"

lemma linked_response:
  assumes "handleRequest q (request command params) (c_sys io) = (resp, s)"
  shows "with_response (linked q env) report socketPath command params body io =
    (if rs_OK resp then body (rs_Result resp) (io\<lparr>c_sys := s\<rparr>) else (1, report (Inr resp) (io\<lparr>c_sys := s\<rparr>)))"
  using assms by (simp add: with_response_def sendForwardServerRequest_def on_sys_def linked_def request_def)

lemma out_frame [simp]: "c_sys (snd (oprint cs io)) = c_sys io"
  by (auto simp: oprint_def split: list.split option.split)

lemma Verbosef_sys [simp]: "c_sys (Verbosef p cs io) = c_sys io"
  by (simp add: Verbosef_def eprint_def)

lemma Infof_sys [simp]: "c_sys (Infof p cs io) = c_sys io" "c_sys (Infoln p t io) = c_sys io"
  by (simp_all add: Infof_def Infoln_def out_chunks_def outln_def)

lemma report_sys [simp]: "c_sys (print_server_error command what action socketPath res io) = c_sys io"
  by (auto simp: print_server_error_def Let_def eprintln_def eprint_def split: sum.split option.split)

lemma writeJSON_sys: "finish (writeJSON d io) report = (c, io') \<Longrightarrow> (\<And>e i. c_sys (report e i) = c_sys i) \<Longrightarrow> c_sys io' = c_sys io"
  by (auto simp: finish_def writeJSON_def oprint_def split: prod.splits option.splits list.splits)

text \<open>Creation keeps what was asked for.\<close>

lemma displace_fields:
  "displace key nb r = (res, r') \<Longrightarrow> f_Remote (fe_forward (fr_entries r' ! e)) = f_Remote (fe_forward (fr_entries r ! e)) \<and>
     f_Target (fe_forward (fr_entries r' ! e)) = f_Target (fe_forward (fr_entries r ! e)) \<and>
     f_Local (fe_forward (fr_entries r' ! e)) = f_Local (fe_forward (fr_entries r ! e)) \<and>
     f_ID (fe_forward (fr_entries r' ! e)) = f_ID (fe_forward (fr_entries r ! e))"
  by (auto simp: displace_def removeLocked_def set_forward_def set_entry_def nth_upd split: option.splits if_splits)

lemma created_listed:
  assumes "forward_create res now p r = (Inr f, r')"
  shows "f \<in> set (forward_list r') \<and> res = Inr (fl_Address (f_Local f)) \<and> fl_Network (f_Local f) = fl_Network (fc_Local p) \<and>
    f_Remote f = fc_Remote p \<and> f_Target f = fc_Target p"
proof -
  from assms obtain r1 addr where r1: "create_start p r = (Inr (), r1)" and res: "res = Inr addr"
    by (auto simp: forward_create_def create_listen_def split: prod.splits sum.splits)
  let ?r2 = "r1\<lparr>fr_listeners := fr_listeners r1 @ [\<lparr>ln_addr = addr, ln_open = True\<rparr>]\<rparr>"
  obtain e r3 where r3: "create_entry p (length (fr_listeners r1)) now ?r2 = (e, r3)" by (cases "create_entry p (length (fr_listeners r1)) now ?r2")
  have ins: "create_insert p e r3 = (Inr f, r')" using assms r1 res r3 by (simp add: forward_create_def create_listen_def)
  let ?x = "fe_forward (fr_entries r3 ! e)"
  have x: "f_Local ?x = (fc_Local p)\<lparr>fl_Address := addr\<rparr>" "f_Remote ?x = fc_Remote p" "f_Target ?x = fc_Target p"
    using r3 by (auto simp: create_entry_def nextForwardID_def Let_def)
  from ins obtain r4 where
    r4: "displace (entry_key r3 e) (fc_Norebind p)
      (if map_of (fr_byLocal r3) (entry_key r3 e) = None then r3 else listener_close (fe_listener (fr_entries r3 ! e)) r3) = (Inr (), r4)"
    and f: "f = fe_forward (fr_entries r4 ! e)"
    and r': "r' = set_entry e (\<lambda>x. x\<lparr>fe_started := True\<rparr>) (r4\<lparr>fr_byID := AList.update (entry_id r4 e) e (fr_byID r4),
                fr_byLocal := AList.update (entry_key r4 e) (entry_id r4 e) (fr_byLocal r4)\<rparr>)"
    by (auto simp: create_insert_def Let_def split: prod.splits sum.splits)
  have "f_Remote f = f_Remote ?x \<and> f_Target f = f_Target ?x \<and> f_Local f = f_Local ?x"
    using displace_fields [OF r4, of e] f by (simp split: if_splits)
  moreover have "(entry_id r4 e, e) \<in> set (fr_byID r')" unfolding r' by (intro map_of_SomeD) (simp add: update_conv')
  moreover have "fe_forward (fr_entries r' ! e) = f" unfolding r' f by (simp add: nth_upd)
  ultimately show ?thesis using x res by (force simp: forward_list_def)
qed

text \<open>When \<open>forward --background\<close> ends with status 0, the registry of the server lists a forward with the remote service and the
  target address that were asked for, on the address its listener got; and \<open>forward --list --json\<close> then prints it.\<close>

theorem background_forward_is_listed:
  assumes "runForwardServerCreate (linked q env) socketPath localAddr b addr norebind json p io = (0, io')"
  shows "\<exists>f. f \<in> set (forward_list (sv_forwards (c_sys io'))) \<and> qe_listen q = Inr (fl_Address (f_Local f)) \<and>
      fr_Service (f_Remote f) = b \<and> ft_Address (f_Target f) = addr \<and>
      (\<exists>fs. json_forward f \<in> set fs \<and> (c_faults io' = [] \<longrightarrow>
         runForwardServerList (linked q env) socketPath True plain io' =
           (0, io'\<lparr>c_out := c_out io' @ [JsonDoc (JObject [(''forwards'', JArray fs)])]\<rparr>)))"
proof -
  let ?p = "\<lparr>fc_Local = \<lparr>fl_Network = ''tcp'', fl_Address = localAddr\<rparr>, fc_Remote = \<lparr>fr_Service = b\<rparr>,
    fc_Target = \<lparr>ft_Transport = ''tcp'', ft_Address = addr\<rparr>, fc_Norebind = norebind\<rparr>"
  let ?req = "request CommandForwardCreate (nil_params\<lparr>as_forward_create := RawParams ?p\<rparr>)"
  obtain resp s where h: "handleRequest q ?req (c_sys io) = (resp, s)" by fastforce
  have "rs_OK resp \<and> c_sys io' = s"
    using assms h unfolding runForwardServerCreate_def
    by (subst (asm) linked_response [of _ _ _ _ resp s])
      (auto simp: Let_def encode_error_def eprintln_def eprint_def dest!: writeJSON_sys split: if_splits)
  then have ok: "rs_OK resp" and s: "c_sys io' = s" by auto
  from h ok obtain f where f: "forward_create (qe_listen q) (qe_now q) ?p (sv_forwards (c_sys io)) = (Inr f, sv_forwards s)"
    by (auto simp: handleRequest_def request_def command_defs fail_with_def Let_def dest!: decodeForwardCreate_valid split: sum.splits prod.splits)
  have created: "f \<in> set (forward_list (sv_forwards s))" "qe_listen q = Inr (fl_Address (f_Local f))" "fr_Service (f_Remote f) = b"
    "ft_Address (f_Target f) = addr"
    using created_listed [OF f] by auto
  let ?req = "request CommandForwardList nil_params" and ?fs = "map json_forward (forward_list (sv_forwards s))"
  have l: "handleRequest q ?req s = (ok_with (ResForwards (forward_list (sv_forwards s))) (blank ?req), s)"
    by (simp add: handleRequest_def request_def command_defs Let_def)
  have "runForwardServerList (linked q env) socketPath True plain io' =
      (0, io'\<lparr>c_out := c_out io' @ [JsonDoc (JObject [(''forwards'', JArray ?fs)])]\<rparr>)" if "c_faults io' = []"
    unfolding runForwardServerList_def
    by (subst linked_response [OF l [folded s]])
      (simp add: ok_with_def json_slice_def finish_def writeJSON_def oprint_def that flip: s)
  with created s show ?thesis by (intro exI [of _ f] exI [of _ ?fs] conjI impI) simp_all
qed

definition one_server :: "forwardRegistry \<Rightarrow> Server" where
  "one_server r = \<lparr>sv_socketPath = ''/s'', sv_listener = Some True, sv_forwards = r, sv_reverses = newReverseRegistry, sv_devices = [],
     sv_shutdown = False, sv_done = False\<rparr>"

definition console :: "forwardRegistry \<Rightarrow> Server io" where
  "console r = \<lparr>c_out = [], c_err = [], c_faults = [], c_sys = one_server r\<rparr>"

theorem background_forward_is_listed_witness:
  "\<exists>io' f. runForwardServerCreate (linked (sample_env\<lparr>qe_listen := Inr ''127.0.0.1:9''\<rparr>) idle_cli) ''/s'' ''127.0.0.1:9'' ''tcp:80'' ''h:5555'' False False
      \<lparr>op_quiet = True, op_verbose = False\<rparr> (console newForwardRegistry) = (0, io') \<and>
     f \<in> set (forward_list (sv_forwards (c_sys io'))) \<and> fl_Address (f_Local f) = ''127.0.0.1:9'' \<and> fr_Service (f_Remote f) = ''tcp:80''"
proof -
  let ?q = "sample_env\<lparr>qe_listen := Inr ''127.0.0.1:9''\<rparr>"
  let ?run = "runForwardServerCreate (linked ?q idle_cli) ''/s'' ''127.0.0.1:9'' ''tcp:80'' ''h:5555'' False False
      \<lparr>op_quiet = True, op_verbose = False\<rparr> (console newForwardRegistry)"
  have "fst ?run = 0" by code_simp
  then obtain io' where run: "?run = (0, io')" by (cases ?run) auto
  from background_forward_is_listed [OF run, where plain = False] obtain f where
    "f \<in> set (forward_list (sv_forwards (c_sys io')))" "Inr ''127.0.0.1:9'' = (Inr (fl_Address (f_Local f)) :: listen_err + string)"
    "fr_Service (f_Remote f) = ''tcp:80''" by (auto simp del: sum.inject)
  with run show ?thesis by (intro exI [of _ io'] exI [of _ f] conjI) simp_all
qed

section \<open>Removing every forward\<close>

definition one_flag :: "string \<Rightarrow> flag_set" where
  "one_flag name = \<lparr>fs_values = map (\<lambda>(n, v). (n, if n = name then BoolV True else v)) (forward_flags False), fs_actual = [name], fs_args = []\<rparr>"

lemma remove_all_flags:
  "Parse (forward_flags False) [''--remove-all''] = Inr (one_flag ''remove-all'')" "socket_for env (one_flag ''remove-all'') = forwardServerSocketPath env []"
  "\<not> flag_bool (one_flag ''remove-all'') ''json''" "\<not> flag_bool (one_flag ''remove-all'') ''norebind''"
  "\<not> flag_bool (one_flag ''remove-all'') ''list''" "server_ops (one_flag ''remove-all'') = 1" "flag_bool (one_flag ''remove-all'') ''remove-all''"
  "TrimSpace (flag_string (one_flag ''remove-all'') ''remove'') = []" "TrimSpace (flag_string (one_flag ''remove-all'') ''remove-id'') = []"
proof -
  have s: "TrimSpace (flag_string (one_flag ''remove-all'') ''socket'') = []" "server_ops (one_flag ''remove-all'') = 1" by code_simp+
  then show "socket_for env (one_flag ''remove-all'') = forwardServerSocketPath env []" by (simp add: socket_for_def)
qed code_simp+

lemma list_flags:
  "Parse (forward_flags False) [''--list''] = Inr (one_flag ''list'')" "socket_for env (one_flag ''list'') = forwardServerSocketPath env []"
  "\<not> flag_bool (one_flag ''list'') ''json''" "\<not> flag_bool (one_flag ''list'') ''norebind''"
  "flag_bool (one_flag ''list'') ''list''" "server_ops (one_flag ''list'') = 1"
proof -
  have s: "TrimSpace (flag_string (one_flag ''list'') ''socket'') = []" "server_ops (one_flag ''list'') = 1" by code_simp+
  then show "socket_for env (one_flag ''list'') = forwardServerSocketPath env []" by (simp add: socket_for_def)
qed code_simp+

lemma one_flag_args [simp]: "fs_args (one_flag name) = []"
  by (simp add: one_flag_def)

lemma linked_socket [simp]: "forwardServerSocketPath (linked q env) configured = forwardServerSocketPath env configured"
  by (simp add: forwardServerSocketPath_def default_socket_def linked_def)

lemma remove_all_command:
  assumes "forwardServerSocketPath env [] = Inr socketPath" "\<not> co_JSON opts"
  shows "runForwardWithOptions env [''--remove-all''] opts io = runForwardServerRemoveAll env socketPath False (newOutputPolicy opts) io"
  using assms by (simp add: runForwardWithOptions_def remove_all_flags checked_flags_def no_arguments_def Let_def)

lemma list_command:
  assumes "forwardServerSocketPath env [] = Inr socketPath" "\<not> co_JSON opts"
  shows "runForwardWithOptions env [''--list''] opts io = runForwardServerList env socketPath False (flag_bool (one_flag ''list'') ''plain'') io"
  using assms by (simp add: runForwardWithOptions_def list_flags checked_flags_def no_arguments_def Let_def)

text \<open>C32: over every interleaving of calls, accept loops and bridges that led to the state of the server, \<open>forward --remove-all\<close> ends with
  status 0, says how many forwards there were, and leaves none registered and none of their listeners open; \<open>forward --list\<close> then says
  that there are none.\<close>

theorem remove_all_then_list:
  assumes "run fwd_step es newForwardRegistry = Some (xs, sv_forwards (c_sys io))" "length (fr_entries (sv_forwards (c_sys io))) < 2 ^ 64"
    and "c_faults io = []" "forwardServerSocketPath env [] = Inr socketPath"
    and "opts = \<lparr>co_JSON = False, co_Quiet = False, co_Verbose = v\<rparr>"
  shows "\<exists>io1 io2. runForwardWithOptions (linked q env) [''--remove-all''] opts io = (0, io1) \<and>
     runForwardWithOptions (linked q env) [''--list''] opts io1 = (0, io2) \<and>
     fr_byID (sv_forwards (c_sys io2)) = [] \<and>
     (\<forall>i e. map_of (fr_byID (sv_forwards (c_sys io))) i = Some e \<longrightarrow>
        \<not> ln_open (fr_listeners (sv_forwards (c_sys io2)) ! fe_listener (fr_entries (sv_forwards (c_sys io)) ! e))) \<and>
     c_out io2 = c_out io @
       [Txt (''Removed '' @ FormatUint (length (forward_list (sv_forwards (c_sys io)))) @ '' server-owned forward(s).'' @ [CHR 0x0A]),
        Txt (''No server-owned forwards.'' @ [CHR 0x0A]),
        Txt (''Create one with: adb-go forward --background --addr HOST[:PORT] tcp:LOCAL_PORT tcp:REMOTE_PORT'' @ [CHR 0x0A])]"
proof -
  let ?r = "sv_forwards (c_sys io)"
  note ok = reachable_ok [OF assms(1,2)]
  from removeAll_effect [OF ok] obtain r' where r': "forward_removeAll ?r = (length (fr_byID ?r), r')" "fr_byID r' = []"
    "\<forall>e. in_table (fr_byID ?r) e \<longrightarrow> \<not> ln_open (fr_listeners r' ! lst (skels ?r) e)" by blast
  have closed: "\<not> ln_open (fr_listeners r' ! fe_listener (fr_entries ?r ! e))" if "map_of (fr_byID ?r) i = Some e" for i e
    using r'(3) entry_registered(1,7) [OF ok that] view_nth(1) by fastforce
  let ?a = "request CommandForwardRemoveAll nil_params" and ?l = "request CommandForwardList nil_params"
  let ?s = "(c_sys io)\<lparr>sv_forwards := r'\<rparr>"
  have h: "handleRequest q ?a (c_sys io) = (ok_with (ResRemoved (length (fr_byID ?r))) (blank ?a), ?s)"
    "handleRequest q ?l ?s = (ok_with (ResForwards []) (blank ?l), ?s)"
    using r'(1,2) by (simp_all add: handleRequest_def request_def command_defs Let_def forward_list_def)
  let ?io1 = "io\<lparr>c_sys := ?s, c_out := c_out io @ [Txt (''Removed '' @ FormatUint (length (fr_byID ?r)) @ '' server-owned forward(s).'' @ [CHR 0x0A])]\<rparr>"
  have one: "runForwardWithOptions (linked q env) [''--remove-all''] opts io = (0, ?io1)"
    using assms(3-5) unfolding runForwardServerRemoveAll_def
    by (simp add: remove_all_command runForwardServerRemoveAll_def linked_response [OF h(1)] ok_with_def print_removed_def newOutputPolicy_def
        Infof_def out_chunks_def oprint_def Let_def)
  have two: "runForwardWithOptions (linked q env) [''--list''] opts io1 =
      (0, outln ''Create one with: adb-go forward --background --addr HOST[:PORT] tcp:LOCAL_PORT tcp:REMOTE_PORT''
        (outln ''No server-owned forwards.'' io1))" if "c_sys io1 = ?s" for io1
  proof -
    have same: "io1\<lparr>c_sys := ?s\<rparr> = io1" using that by (cases io1) simp
    from that have "handleRequest q ?l (c_sys io1) = (ok_with (ResForwards []) (blank ?l), ?s)" using h(2) by simp
    from linked_response [OF this, where env = env, unfolded same] assms(4,5) show ?thesis
      by (simp add: list_command runForwardServerList_def ok_with_def Let_def)
  qed
  have "c_sys ?io1 = ?s" by simp
  note two = two [OF this]
  show ?thesis
    by (intro exI conjI, rule one, rule two) (use closed r'(2) assms(3) in \<open>simp_all add: outln_def oprint_def forward_list_def\<close>)
qed

theorem remove_all_then_list_witness:
  "\<exists>xs r io1 io2. run fwd_step sample_created newForwardRegistry = Some (xs, r) \<and> length (forward_list r) = 1 \<and>
     runForwardWithOptions (linked sample_env idle_cli) [''--remove-all''] \<lparr>co_JSON = False, co_Quiet = False, co_Verbose = True\<rparr> (console r) = (0, io1) \<and>
     runForwardWithOptions (linked sample_env idle_cli) [''--list''] \<lparr>co_JSON = False, co_Quiet = False, co_Verbose = True\<rparr> io1 = (0, io2) \<and>
     forward_list (sv_forwards (c_sys io2)) = [] \<and> \<not> ln_open (fr_listeners (sv_forwards (c_sys io2)) ! 0)"
proof -
  obtain xs r where r: "run fwd_step sample_created newForwardRegistry = Some (xs, r)" "fr_byID r = [(counted_id ''fwd_'' 1, 0)]"
    "length (fr_entries r) = 1" "fe_listener (fr_entries r ! 0) = 0"
    using sample_created_run by auto
  let ?io = "console r"
  have io: "sv_forwards (c_sys ?io) = r" "c_faults ?io = []" by (simp_all add: console_def one_server_def)
  have sock: "forwardServerSocketPath (idle_cli :: (Server, unit) cli_env) [] = Inr (PathJoin [''/tmp'', ''adb-go-'' @ FormatUint 1000, ''adb-gos.sock''])"
    by (simp add: forwardServerSocketPath_def default_socket_def DefaultSocketPath_def idle_cli_def)
  have "run fwd_step sample_created newForwardRegistry = Some (xs, sv_forwards (c_sys ?io))" "length (fr_entries (sv_forwards (c_sys ?io))) < 2 ^ 64"
    using r io by simp_all
  from remove_all_then_list [OF this io(2) sock refl, where q = sample_env and v = True] obtain io1 io2 where
    run: "runForwardWithOptions (linked sample_env idle_cli) [''--remove-all''] \<lparr>co_JSON = False, co_Quiet = False, co_Verbose = True\<rparr> ?io = (0, io1)"
      "runForwardWithOptions (linked sample_env idle_cli) [''--list''] \<lparr>co_JSON = False, co_Quiet = False, co_Verbose = True\<rparr> io1 = (0, io2)"
      "fr_byID (sv_forwards (c_sys io2)) = []"
      and closed: "\<forall>i e. map_of (fr_byID r) i = Some e \<longrightarrow> \<not> ln_open (fr_listeners (sv_forwards (c_sys io2)) ! fe_listener (fr_entries r ! e))"
    unfolding io(1) by (elim exE conjE)
  from closed [rule_format, of "counted_id ''fwd_'' 1" 0] r(2,4) have "\<not> ln_open (fr_listeners (sv_forwards (c_sys io2)) ! 0)" by simp
  with r(1,2) run show ?thesis
    by (intro exI [of _ xs] exI [of _ r] exI [of _ io1] exI [of _ io2] conjI) (simp_all add: forward_list_def)
qed

end
