(* ===== verification/Spec2Isabelle.thy ===== *)
theory Spec2Isabelle
  imports FakeServer MuxClose MuxWire Cancel ClientConnect TcpScan Install ClientForward ClientWait Auth RegistrySpec DeviceList Server ServerLife Platform CompatCli
    CliModes CliUnit CliBackground
begin

text \<open>
  \<^bold>\<open>A verification development of adb-go\<close>, a Go implementation of the host side of the Android Debug Bridge: the packet
  protocol (\<open>protocol/\<close>), the client library (\<open>client/\<close>, \<open>auth/\<close>), USB access (\<open>internal/usb/\<close>), a fake device for tests
  (\<open>internal/fakeadb/\<close>), and a background server for forwarded ports (\<open>internal/server/\<close>, \<open>cmd/adb-gos/\<close>) that the command line
  tool (\<open>cmd/adb-go/\<close>) talks to.

  \<^bold>\<open>How the parts work together.\<close> A client dials a transport (TCP or USB), runs the CNXN/AUTH handshake on it, and then opens
  services as streams that one reader goroutine per connection multiplexes. Shell, properties, file transfer, installation
  and forwarding are exchanges on such streams. The server keeps registries of forwards and reverses, each of which owns
  listeners, clients and bridges, and answers JSON requests on a Unix socket.

  \<^bold>\<open>Theories and sources.\<close>
  \<^item> \<open>Prelude\<close>: machine words, byte strings, little-endian codecs, and the locale \<open>machine\<close> (a step function with an
    invariant) in which reachability arguments are proved once. Every concurrent component is an interpretation of it: a
    schedule is a list of events, so a theorem about \<open>run\<close> is about every interleaving.
  \<^item> \<open>GoIO\<close>, \<open>GoStrings\<close>, \<open>GoNet\<close>, \<open>GoPath\<close>: what the program uses of Go's \<open>io\<close>, \<open>strings\<close>, \<open>strconv\<close>, \<open>net\<close> and \<open>filepath\<close>. Readers
    and writers are scripted with short and failing operations; the locale \<open>byte_source\<close> is the contract of a reader.
  \<^item> \<open>Message\<close> (\<open>protocol/message.go\<close>): packets, checksum, \<open>ReadMessage\<close>, \<open>WriteMessage\<close>; round trip, exact acceptance, detection of a
    corrupted byte.
  \<^item> \<open>Handshake\<close> (\<open>protocol/connection.go\<close>) and \<open>Auth\<close> (\<open>auth/auth.go\<close>): the authentication exchange as a refinement of a list of
    offers, its soundness and bound; the Android encoding of RSA keys with its Montgomery constants.
  \<^item> \<open>Mux\<close>, \<open>MuxSteps\<close>, \<open>MuxProps\<close>, \<open>MuxClose\<close> (\<open>protocol/stream.go\<close>): streams, the reader and every method as a step; table and
    identifier invariants, first-in first-out delivery, closing, and the panic of a close during a delivery. \<open>MuxWire\<close> follows the
    payloads from the packets the peer wrote to the reader of a stream.
  \<^item> \<open>Cancel\<close> (\<open>closeOnCancel\<close> of \<open>protocol/connection.go\<close> and \<open>client/client.go\<close>): the goroutine that closes an object when its context ends,
    as a machine with the call it guards; when it closes, and how a cancellation after the call can still reach the object.
  \<^item> \<open>FakeDevice\<close>, \<open>FakeServer\<close> (\<open>internal/fakeadb/server.go\<close>): the device side of the handshake, and host and device together; the
    accept loop, the goroutines of the connections and \<open>Close\<close> as a machine, what \<open>Close\<close> leaves and what can keep it waiting.
  \<^item> \<open>UsbDescriptor\<close>, \<open>UsbTransport\<close> (\<open>internal/usb/\<close>): descriptor parsing against a reference by sections, device discovery, and
    the life cycle of the bulk transport over a kernel that records system calls.
  \<^item> \<open>ClientConnect\<close>, \<open>TcpScan\<close>, \<open>DeviceServices\<close>, \<open>Sync\<close>, \<open>Install\<close>, \<open>ClientForward\<close> (\<open>client/\<close>): addresses, dialers (locale
    \<open>transport_dialer\<close>), USB selection, port scans, getprop, reboot, logcat, screencap, push and pull, installation, and
    forwarding sessions (locale \<open>closer_set\<close>). \<open>ClientWait\<close>: waiting for a session (locale \<open>waitable\<close>, interpreted for forwards and reverses),
    closing a client, and the accessors of a credential.
  \<^item> \<open>ServerTypes\<close>, \<open>ServerTable\<close> (\<open>internal/server/protocol.go\<close>, \<open>forward.go\<close>, \<open>reverse.go\<close>, \<open>device.go\<close>): requests, validation, the
    device registry, and the pair of inverse tables with its numbered IDs that both registries keep. \<open>DeviceList\<close>: what the
    device registry lists.
  \<^item> \<open>ServerForward\<close>, \<open>ServerForwardProps\<close> (\<open>forward_registry.go\<close>): the forward registry as a machine of locked sections, accept loops
    and bridges; its invariant, what a removal closes, and a connection that escapes a removal. \<open>RegistrySpec\<close>: what the registry promises,
    a map from local endpoints to forwards with the calls of \<open>create\<close> in progress as an inductive step relation, and that the
    registry implements it under every interleaving.
  \<^item> \<open>ServerReverse\<close>, \<open>ServerReverseProps\<close> (\<open>reverse_registry.go\<close>): the reverse registry over the sessions of \<open>ClientForward\<close>, with the
    lock in the state; its invariant, a deadlock of removal and callback, and the finality of the degraded state.
  \<^item> \<open>Server\<close> (\<open>server_unix.go\<close>, \<open>client.go\<close>, \<open>path_unix.go\<close>, \<open>cmd/adb-gos/main.go\<close>): the socket, dispatch of requests, shutdown.
    \<open>ServerLife\<close>: the process as a machine of the accept loop, the clients, the parts of \<open>Shutdown\<close> and the forwards; why it stops, what it
    can leave behind, and that a call of \<open>create\<close> is the run of its parts. \<open>Platform\<close>: the stubs of other platforms.
  \<^item> \<open>CompatCli\<close> (\<open>cmd/adb-go/router.go\<close>, \<open>cmd/adb-go/internal/compat/\<close>, \<open>cliserver\<close>): the adb-compatible command line over a server
    link that is an argument: options, target selection, starting the server, and the commands.
  \<^item> \<open>GoFlag\<close>: Go's package \<open>flag\<close> and the number syntax of \<open>strconv\<close>: parsing of flag values and of argument lists, with the round trip
    of a list of assignments.
  \<^item> \<open>CliOutput\<close> (\<open>output.go\<close>, \<open>args.go\<close> and the error texts of \<open>custom.go\<close> under \<open>cmd/adb-go/internal/custom/\<close>), \<open>CliTarget\<close>
    (\<open>target.go\<close>), \<open>CliDevice\<close> (\<open>shell.go\<close>, \<open>sync.go\<close>), \<open>CliForward\<close> (\<open>forward.go\<close>, \<open>reverse.go\<close>), \<open>CliSystemd\<close> (\<open>systemd.go\<close>),
    \<open>CliServer\<close> (\<open>targets.go\<close>, \<open>devices.go\<close>, \<open>server.go\<close>), \<open>CliMain\<close> (\<open>custom.go\<close>): the commands of \<open>adb-go\<close>. A command is a function from its
    arguments and a console (standard output and error, the faults of writing, and the state of the world) to an exit status
    and a console; the record \<open>cli_env\<close> has the operations of the world as fields. \<open>CliServer\<close> and \<open>CliMain\<close> show the round
    trip of a USB selection, and that a refused command line has no effect.
  \<^item> \<open>CliTable\<close>: the columns of an aligned table and the round trip of a plain one. \<open>CliModes\<close>: \<open>--verbose\<close> and \<open>--quiet\<close>, by the locale
    \<open>console_view\<close> that relates two runs of the same command and is interpreted once for each mode. \<open>CliUnit\<close>: the unit file read back, and
    the order of writing, enabling, disabling and removing. \<open>CliBackground\<close>: the command \<open>forward\<close> against \<open>Server\<close>, from the
    arguments on the command line to the registry and back to what is printed.
  \<^item> This theory holds what spans the components below the command line.

  \<^bold>\<open>Conventions.\<close> A struct is a record with the source's fields; fields that stand for where a goroutine is have a comment. Objects
  that are shared by pointer live in lists and a position is a pointer. A Go map is an association list whose order
  stands for the iteration order. Errors are constructors of a sum type, without the texts meant for people, except where
  a text is stored. Identifiers that wrap (\<open>uint32\<close> local IDs, \<open>uint64\<close> registry IDs) are words; theorems that need them to be
  different bound the number of objects made. Loops of the program are recursion on data, or steps of a machine; there is no
  fuel. What the environment decides (reads, dials, listeners, answers of the device, time, files) is an argument or an event.

  \<^bold>\<open>Not modelled.\<close> The aliases of the package \<open>adb\<close> and the names of Android properties, which are constants. \<open>encoding/json\<close>, PEM, X.509 and RSA arithmetic, and the table of printable runes, are arguments. A usage
  text is one token of the output and a JSON document a tree of values. Messages on the standard error are modelled for
  the commands of \<open>internal/custom\<close>, not for the compatible command line. Deadlines of requests to the server appear as the error the
  request then returns; the bytes copied by a bridge appear as its end. The address
  a listener was given appears only where the registry stores it.
\<close>

section \<open>A full sync packet on the wire\<close>

text \<open>A push sends each full read of the file as one DATA request, and the stream sends the request as one WRTE message, whose
  payload is larger than the maximum the program advertises in its CNXN message.\<close>

theorem sync_data_exceeds_payload:
  assumes "length b = syncDataMax" "writeSyncRequest syncIDDATA b \<lparr>wr_out = [], wr_script = []\<rparr> = (None, w)"
    and "Stream_Write (wr_out w) i c = (Inr n, c')"
  shows "\<exists>m. Command m = CommandWRTE \<and> wr_out (out c') = wr_out (out c) @ encode_message m \<and>
    length (Payload m) = n \<and> unat (Arg1 cnxn_request) < n"
proof -
  let ?m = "\<lparr>Command = CommandWRTE, Arg0 = localID (stream_at c i), Arg1 = remoteID (stream_at c i), Payload = wr_out w\<rparr>"
  have "wr_out w = writeSyncHeaderTo syncIDDATA (word_of_nat (length b)) @ b"
    using assms(2) by (auto simp: writeSyncRequest_def dest: writeFull_prefix)
  then have "length (wr_out w) = 4104" using assms(1) by (simp add: writeSyncHeaderTo_def PutUint32_def syncDataMax_def)
  moreover have "writeMessage ?m c = (None, c')" "n = length (wr_out w)"
    using assms(3) by (auto simp: Stream_Write_def Let_def split: if_splits option.splits prod.splits)
  moreover from this(1) have "WriteMessage (out c) ?m = (None, out c')" by (auto simp: writeMessage_def split: prod.splits)
  note WriteMessage_out [OF this]
  ultimately show ?thesis by (intro exI [of _ ?m]) (simp add: cnxn_request_def MaxPayload_def)
qed

definition established :: conn where
  "established = (NewConnection \<lparr>rd_data = [], rd_end = EOF\<rparr> \<lparr>wr_out = [], wr_script = []\<rparr>)
     \<lparr>objs := [\<lparr>localID = 1, remoteID = 1, openDone = True, openCh = [], buf = [], closed = False, err = None, dataCh = [], dataChClosed = False\<rparr>]\<rparr>"

theorem sync_data_exceeds_payload_witness:
  "\<exists>w n c'. writeSyncRequest syncIDDATA (replicate 4096 0) \<lparr>wr_out = [], wr_script = []\<rparr> = (None, w) \<and>
     Stream_Write (wr_out w) 0 established = (Inr n, c') \<and> 4096 < n"
proof -
  obtain w where w: "writeSyncRequest syncIDDATA (replicate 4096 0) \<lparr>wr_out = [], wr_script = []\<rparr> = (None, w)"
    by (simp add: writeSyncRequest_def)
  obtain n c' where c: "Stream_Write (wr_out w) 0 established = (Inr n, c')"
    by (simp add: Stream_Write_def established_def stream_at_def NewConnection_def writeMessage_def Let_def)
  from sync_data_exceeds_payload [OF _ w c] have "4096 < n"
    by (auto simp: syncDataMax_def cnxn_request_def MaxPayload_def)
  with w c show ?thesis by blast
qed

end
